(* ===== verification/Prelude_OCP.thy ===== *)
theory Prelude_OCP
  imports Main
begin

text \<open>
  Shared ground of the development: the fact collections the components add to, the result
  type of fallible operations (Rust's \<open>Result\<close>, with \<open>?\<close> as \<open>bindE\<close>), the
  table operations the SQL statements of the store are made of, and the interface locales
  that several components implement: an insert-or-ignore ledger, an admission log, a
  compare-and-swap cell and a first-in first-out delivery queue.
\<close>

named_theorems text_simps \<open>evaluation rules of the string library\<close>
named_theorems store_defs \<open>definitions of the store's operations\<close>
named_theorems frame \<open>what an operation leaves unchanged\<close>

section \<open>Fallible operations\<close>

text \<open>\<open>Inl\<close> is Rust's \<open>Err\<close>, \<open>Inr\<close> is \<open>Ok\<close>; \<open>bindE\<close> is the \<open>?\<close> operator.\<close>

definition bindE :: "'e + 'a \<Rightarrow> ('a \<Rightarrow> 'e + 'b) \<Rightarrow> 'e + 'b" where
  "bindE r f = (case r of Inl e \<Rightarrow> Inl e | Inr a \<Rightarrow> f a)"

lemma bindE_simps [simp]:
  "bindE (Inl e) f = Inl e"
  "bindE (Inr a) f = f a"
  by (simp_all add: bindE_def)

lemma bindE_Inr_iff: "bindE r f = Inr b \<longleftrightarrow> (\<exists>a. r = Inr a \<and> f a = Inr b)"
  by (cases r) auto

lemma bindE_InrE [elim!]:
  assumes "bindE r f = Inr b"
  obtains a where "r = Inr a" and "f a = Inr b"
  using assms by (auto simp: bindE_Inr_iff)

section \<open>Tables\<close>

text \<open>
  A table is the list of its rows in rowid order. \<open>ins_ignore\<close> is
  \<^verbatim>\<open>INSERT OR IGNORE\<close> under a unique key, \<open>upd_where\<close> is \<^verbatim>\<open>UPDATE ... WHERE\<close>,
  \<open>del_where\<close> is \<^verbatim>\<open>DELETE ... WHERE\<close>; the affected-row count that the code reads is the
  number of matching rows.
\<close>

definition ins_ignore :: "('r \<Rightarrow> 'k) \<Rightarrow> 'r \<Rightarrow> 'r list \<Rightarrow> 'r list" where
  "ins_ignore key r rows = (if key r \<in> key ` set rows then rows else rows @ [r])"

definition upd_where :: "('r \<Rightarrow> bool) \<Rightarrow> ('r \<Rightarrow> 'r) \<Rightarrow> 'r list \<Rightarrow> 'r list" where
  "upd_where P f rows = map (\<lambda>r. if P r then f r else r) rows"

definition del_where :: "('r \<Rightarrow> bool) \<Rightarrow> 'r list \<Rightarrow> 'r list" where
  "del_where P rows = filter (\<lambda>r. \<not> P r) rows"

definition count_where :: "('r \<Rightarrow> bool) \<Rightarrow> 'r list \<Rightarrow> nat" where
  "count_where P rows = length (filter P rows)"

text \<open>\<^verbatim>\<open>INSERT ... ON CONFLICT(key) DO UPDATE\<close>.\<close>

definition upsert :: "('r \<Rightarrow> 'k) \<Rightarrow> ('r \<Rightarrow> 'r) \<Rightarrow> 'r \<Rightarrow> 'r list \<Rightarrow> 'r list" where
  "upsert key f r rows =
    (if key r \<in> key ` set rows then upd_where (\<lambda>x. key x = key r) f rows else rows @ [r])"

lemma ins_ignore_idem [simp]: "ins_ignore key r (ins_ignore key r rows) = ins_ignore key r rows"
  by (simp add: ins_ignore_def)

lemma ins_ignore_keys [simp]: "key ` set (ins_ignore key r rows) = insert (key r) (key ` set rows)"
  by (auto simp: ins_ignore_def)

lemma ins_ignore_new: "key r \<notin> key ` set rows \<Longrightarrow> ins_ignore key r rows = rows @ [r]"
  by (simp add: ins_ignore_def)

lemma ins_ignore_old [simp]: "key r \<in> key ` set rows \<Longrightarrow> ins_ignore key r rows = rows"
  by (simp add: ins_ignore_def)

lemma ins_ignore_distinct: "distinct (map key rows) \<Longrightarrow> distinct (map key (ins_ignore key r rows))"
  by (auto simp: ins_ignore_def)

lemma set_ins_ignore: "set (ins_ignore key r rows) \<subseteq> insert r (set rows)"
  by (auto simp: ins_ignore_def)

lemma set_ins_ignore_mono: "set rows \<subseteq> set (ins_ignore key r rows)"
  by (auto simp: ins_ignore_def)

lemma set_upd_where: "set (upd_where P f rows) = (\<lambda>r. if P r then f r else r) ` set rows"
  by (simp add: upd_where_def)

lemma upd_where_none: "(\<And>r. r \<in> set rows \<Longrightarrow> \<not> P r) \<Longrightarrow> upd_where P f rows = rows"
  by (auto simp: upd_where_def intro: map_idI)

lemma map_upd_where: "(\<And>r. P r \<Longrightarrow> key (f r) = key r) \<Longrightarrow> map key (upd_where P f rows) = map key rows"
  by (simp add: upd_where_def)

lemma map_upsert:
  assumes "\<And>x. key (f x) = key x"
  shows "map key (upsert key f r rows) = (if key r \<in> key ` set rows then map key rows else map key rows @ [key r])"
  using assms by (auto simp: upsert_def map_upd_where)

lemma upsert_distinct:
  assumes "\<And>x. key (f x) = key x" and "distinct (map key rows)"
  shows "distinct (map key (upsert key f r rows))"
  using assms map_upsert [of key f r rows] by (simp add: image_iff)

lemma distinct_upd_second_key:
  assumes "distinct (map k rows)" and "distinct (map s rows)"
    and "\<And>t. t \<in> set rows \<Longrightarrow> k t \<noteq> i \<Longrightarrow> s t \<noteq> s0" and "\<And>t. s (f t) = s0"
  shows "distinct (map s (upd_where (\<lambda>t. k t = i) f rows))"
proof -
  have "inj_on k (set rows)" "inj_on s (set rows)" "distinct rows"
    using assms(1, 2) by (simp_all add: distinct_map)
  then have "inj_on (\<lambda>t. s (if k t = i then f t else t)) (set rows)"
    using assms(3, 4) unfolding inj_on_def by metis
  with \<open>distinct rows\<close> show ?thesis by (simp add: upd_where_def distinct_map comp_def)
qed

text \<open>Rewriting the one row with a given key: what becomes of it, of the rest, and of a total.\<close>

lemma upd_one_absent: "k \<notin> key ` set rows \<Longrightarrow> upd_where (\<lambda>x. key x = k) f rows = rows"
  by (rule upd_where_none) auto

lemma sum_upd_one:
  fixes b :: "'r \<Rightarrow> nat"
  assumes "distinct (map key rows)" and "r \<in> set rows"
  shows "sum_list (map b (upd_where (\<lambda>x. key x = key r) f rows)) + b r = sum_list (map b rows) + b (f r)"
  using assms
proof (induction rows)
  case (Cons x rows)
  show ?case
  proof (cases "x = r")
    case True
    with Cons.prems have "upd_where (\<lambda>x. key x = key r) f rows = rows" by (intro upd_one_absent) simp
    with True show ?thesis by (simp add: upd_where_def)
  next
    case False
    with Cons.prems have "key x \<noteq> key r" "r \<in> set rows" by (auto simp: rev_image_eqI)
    with Cons show ?thesis by (simp add: upd_where_def)
  qed
qed simp

lemma upd_where_upd_where:
  "upd_where P g (upd_where P f rows) = upd_where P (\<lambda>r. if P (f r) then g (f r) else f r) rows"
  by (auto simp: upd_where_def)

lemma length_upd_where [simp]: "length (upd_where P f rows) = length rows"
  by (simp add: upd_where_def)

lemma set_del_where [simp]: "set (del_where P rows) = {r \<in> set rows. \<not> P r}"
  by (auto simp: del_where_def)

lemma distinct_del_where: "distinct (map key rows) \<Longrightarrow> distinct (map key (del_where P rows))"
  by (simp add: del_where_def distinct_map_filter)

lemma count_where_pos: "0 < count_where P rows \<longleftrightarrow> (\<exists>r \<in> set rows. P r)"
  by (auto simp: count_where_def filter_empty_conv)

lemma count_where_0: "count_where P rows = 0 \<longleftrightarrow> (\<forall>r \<in> set rows. \<not> P r)"
  by (auto simp: count_where_def filter_empty_conv)

lemma find_None_conv: "find P xs = None \<longleftrightarrow> (\<forall>x \<in> set xs. \<not> P x)"
  by (induction xs) auto

lemma find_SomeD: "find P xs = Some x \<Longrightarrow> x \<in> set xs \<and> P x"
  by (induction xs) (auto split: if_splits)

lemma find_append: "find P (xs @ ys) = (case find P xs of None \<Rightarrow> find P ys | Some x \<Rightarrow> Some x)"
  by (induction xs) auto

text \<open>With a unique key, a point lookup finds exactly the row that carries the key.\<close>

lemma find_unique_key:
  assumes "distinct (map key rows)" and "r \<in> set rows"
  shows "find (\<lambda>x. key x = key r) rows = Some r"
  using assms by (induction rows) (auto simp: rev_image_eqI)

lemma find_map_upd:
  assumes "\<And>r. key (f r) = key r"
  shows "find (\<lambda>x. key x = k) (upd_where P f rows) =
    map_option (\<lambda>r. if P r then f r else r) (find (\<lambda>x. key x = k) rows)"
  using assms by (induction rows) (auto simp: upd_where_def)

section \<open>Interface: an insert-or-ignore ledger\<close>

text \<open>
  Several tables accept a row once per key and silently keep the first one. The laws are what
  the callers rely on for replay: recording twice is recording once, whatever came between.
\<close>

locale once_ledger =
  fixes key :: "'a \<Rightarrow> 'k"
    and record_once :: "'a \<Rightarrow> 's \<Rightarrow> 's"
    and recorded :: "'s \<Rightarrow> 'k set"
  assumes recorded_record: "recorded (record_once a s) = insert (key a) (recorded s)"
    and record_known: "key a \<in> recorded s \<Longrightarrow> record_once a s = s"
begin

lemma replay_same: "record_once a (record_once a s) = record_once a s"
  by (rule record_known) (simp add: recorded_record)

lemma recorded_fold: "recorded (fold record_once as s) = recorded s \<union> key ` set as"
  by (induction as arbitrary: s) (auto simp: recorded_record)

lemma replay_later: "record_once a (fold record_once as (record_once a s)) =
    fold record_once as (record_once a s)"
  by (rule record_known) (simp add: recorded_fold recorded_record)

lemma replay_batch: "fold record_once as (fold record_once as s) = fold record_once as s"
proof -
  have "key ` set as \<subseteq> recorded t \<Longrightarrow> fold record_once as t = t" for t
    by (induction as) (auto simp: record_known)
  then show ?thesis by (simp add: recorded_fold)
qed

end

section \<open>Interface: a log of admissions\<close>

text \<open>
  A labelled step relation in which some steps admit a key. A key is admitted only when it is not yet
  on record, is on record afterwards, and no step ever takes a key off the record. Then no run
  admits a key twice.
\<close>

locale admission_log =
  fixes step :: "'s \<Rightarrow> 'k option \<Rightarrow> 's \<Rightarrow> bool"
    and logged :: "'s \<Rightarrow> 'k set"
  assumes admit_fresh: "step s (Some k) s' \<Longrightarrow> k \<notin> logged s"
    and admit_logged: "step s l s' \<Longrightarrow> logged s' = logged s \<union> set_option l"
begin

inductive run :: "'s \<Rightarrow> 'k list \<Rightarrow> 's \<Rightarrow> bool" where
  stop: "run s [] s"
| quiet: "step s None s' \<Longrightarrow> run s' ks s'' \<Longrightarrow> run s ks s''"
| admit: "step s (Some k) s' \<Longrightarrow> run s' ks s'' \<Longrightarrow> run s (k # ks) s''"

lemma run_logged: "run s ks s' \<Longrightarrow> logged s' = logged s \<union> set ks"
  by (induction rule: run.induct) (auto dest: admit_logged)

lemma run_admits_once: "run s ks s' \<Longrightarrow> distinct ks \<and> set ks \<inter> logged s = {}"
proof (induction rule: run.induct)
  case (admit s k s' ks s'')
  then show ?case using admit_fresh [OF admit(1)] admit_logged [OF admit(1)] by auto
qed (auto dest: admit_logged)

lemma run_trans: "run s ks s' \<Longrightarrow> run s' ks' s'' \<Longrightarrow> run s (ks @ ks') s''"
  by (induction rule: run.induct) (auto intro: run.intros)

lemma run_induct_state:
  assumes "run s ks s'" and "P s" and "\<And>a l b. step a l b \<Longrightarrow> P a \<Longrightarrow> P b"
  shows "P s'"
  using assms by (induction rule: run.induct) blast+

end

section \<open>Interface: a compare-and-swap cell\<close>

text \<open>
  A guarded \<^verbatim>\<open>UPDATE ... WHERE id = k AND state = from\<close> in its own transaction. \<open>None\<close> is an
  error that rolled the transaction back. Otherwise it reports whether it won; it wins only from
  the expected value, moves the cell to the target, and touches no other cell.
\<close>

locale cas_cell =
  fixes inv :: "'s \<Rightarrow> bool"
    and cell :: "'s \<Rightarrow> 'k \<Rightarrow> 'v option"
    and rep :: "'w \<Rightarrow> 'v"
    and cas :: "'k \<Rightarrow> 'w \<Rightarrow> 's \<Rightarrow> (bool \<times> 's) option"
    and target :: 'v
  assumes cas_inv: "inv s \<Longrightarrow> cas k w s = Some (b, s') \<Longrightarrow> inv s'"
    and cas_won: "inv s \<Longrightarrow> cas k w s = Some (True, s') \<Longrightarrow> cell s k = Some (rep w) \<and> cell s' k = Some target"
    and cas_lost: "inv s \<Longrightarrow> cas k w s = Some (False, s') \<Longrightarrow> cell s k \<noteq> Some (rep w) \<and> s' = s"
    and cas_frame: "inv s \<Longrightarrow> cas k w s = Some (b, s') \<Longrightarrow> k' \<noteq> k \<Longrightarrow> cell s' k' = cell s k'"
begin

text \<open>Any interleaving of attempts, on any cells and from any expected values: the cells won.\<close>

fun race :: "('k \<times> 'w) list \<Rightarrow> 's \<Rightarrow> 'k list \<times> 's" where
  "race [] s = ([], s)"
| "race ((k, w) # as) s =
    (case cas k w s of
      None \<Rightarrow> race as s
    | Some (won, s') \<Rightarrow> let (ks, s'') = race as s' in (if won then k # ks else ks, s''))"

lemma race_settled:
  assumes "inv s" and "\<forall>(k, w) \<in> set as. rep w \<noteq> target" and "cell s k = Some target"
  shows "k \<notin> set (fst (race as s))"
  using assms
proof (induction as arbitrary: s)
  case (Cons a as)
  obtain j w where a: "a = (j, w)" by force
  show ?case
  proof (cases "cas j w s")
    case None
    with Cons a show ?thesis by simp
  next
    case (Some r)
    obtain won s' where r: "r = (won, s')" by force
    have inv': "inv s'" using cas_inv Cons.prems(1) Some r by blast
    show ?thesis
    proof (cases won)
      case True
      with Some r Cons.prems a have "cell s j = Some (rep w)" "rep w \<noteq> target"
        using cas_won [of s j w s'] by auto
      with Cons.prems(3) have "k \<noteq> j" by auto
      with Cons.prems(1, 3) Some r have "cell s' k = Some target"
        using cas_frame [of s j w won s' k] by simp
      with Cons inv' have "k \<notin> set (fst (race as s'))" by simp
      with \<open>k \<noteq> j\<close> Some r a show ?thesis by (simp add: split_beta)
    next
      case False
      with Some r Cons.prems(1) have "s' = s" using cas_lost [of s j w s'] by simp
      with Cons Some r a False show ?thesis by (simp add: split_beta)
    qed
  qed
qed simp

text \<open>No cell is won twice.\<close>

lemma race_distinct:
  assumes "inv s" and "\<forall>(k, w) \<in> set as. rep w \<noteq> target"
  shows "distinct (fst (race as s))"
  using assms
proof (induction as arbitrary: s)
  case (Cons a as)
  obtain j w where a: "a = (j, w)" by force
  show ?case
  proof (cases "cas j w s")
    case None
    with Cons a show ?thesis by simp
  next
    case (Some r)
    obtain won s' where r: "r = (won, s')" by force
    have inv': "inv s'" using cas_inv Cons.prems(1) Some r by blast
    have "j \<notin> set (fst (race as s'))" if won
    proof -
      have "cell s' j = Some target" using cas_won [of s j w s'] Cons.prems(1) Some r that by simp
      with inv' Cons.prems(2) show ?thesis by (intro race_settled) auto
    qed
    with Cons inv' Some r a show ?thesis by (simp add: split_beta)
  qed
qed simp

end

section \<open>Interface: a durable delivery queue\<close>

text \<open>
  A queue per recipient that accepts a frame once per idempotency key and keeps the key after the
  frame was acknowledged. The client is the flush loop: it walks a snapshot of the pending frames,
  hands each to the transport, acknowledges it on success and stops at the first failure.
\<close>

locale delivery_queue =
  fixes inv :: "'s \<Rightarrow> bool"
    and pending :: "'b \<Rightarrow> 's \<Rightarrow> ('n \<times> 'f) list"
    and enqueue :: "'b \<Rightarrow> 'k \<Rightarrow> 'f \<Rightarrow> 's \<Rightarrow> 's"
    and ack :: "'n \<Rightarrow> 's \<Rightarrow> 's"
    and known :: "'s \<Rightarrow> 'k set"
  assumes enqueue_inv: "inv s \<Longrightarrow> inv (enqueue b k f s)"
    and ack_inv: "inv s \<Longrightarrow> inv (ack n s)"
    and enqueue_new: "inv s \<Longrightarrow> k \<notin> known s \<Longrightarrow> \<exists>n. pending b (enqueue b k f s) = pending b s @ [(n, f)]"
    and enqueue_known: "k \<in> known s \<Longrightarrow> enqueue b k f s = s"
    and enqueue_other: "inv s \<Longrightarrow> b' \<noteq> b \<Longrightarrow> pending b' (enqueue b k f s) = pending b' s"
    and known_enqueue: "known (enqueue b k f s) = insert k (known s)"
    and ack_head: "inv s \<Longrightarrow> pending b s = (n, f) # rest \<Longrightarrow> pending b (ack n s) = rest"
    and known_ack: "known (ack n s) = known s"
begin

fun flush_snapshot :: "('f \<Rightarrow> bool) \<Rightarrow> ('n \<times> 'f) list \<Rightarrow> 's \<Rightarrow> 'f list \<times> 's" where
  "flush_snapshot ok [] s = ([], s)"
| "flush_snapshot ok ((n, f) # ps) s =
    (if ok f then let (fs, s') = flush_snapshot ok ps (ack n s) in (f # fs, s') else ([], s))"

text \<open>Flushing delivers a prefix of the pending frames, in order, and leaves exactly the rest.\<close>

lemma flush_in_order:
  assumes "inv s" and "pending b s = ps"
  shows "fst (flush_snapshot ok ps s) = takeWhile ok (map snd ps)
    \<and> pending b (snd (flush_snapshot ok ps s)) = dropWhile (\<lambda>(n, f). ok f) ps
    \<and> inv (snd (flush_snapshot ok ps s))
    \<and> known (snd (flush_snapshot ok ps s)) = known s"
  using assms
proof (induction ps arbitrary: s)
  case (Cons p ps)
  obtain n f where p: "p = (n, f)" by force
  show ?case
  proof (cases "ok f")
    case True
    have "pending b (ack n s) = ps" using Cons.prems p by (intro ack_head) simp_all
    moreover have "inv (ack n s)" using Cons.prems by (intro ack_inv)
    ultimately show ?thesis
      using Cons.IH [of "ack n s"] p True by (simp add: split_beta known_ack)
  next
    case False
    with Cons p show ?thesis by simp
  qed
qed simp

text \<open>With a transport that accepts everything, the flush empties the queue.\<close>

lemma flush_all:
  assumes "inv s" and "\<And>f. ok f"
  shows "fst (flush_snapshot ok (pending b s) s) = map snd (pending b s)"
    and "pending b (snd (flush_snapshot ok (pending b s) s)) = []"
  using flush_in_order [OF assms(1) refl, of ok b] assms(2)
  by (simp_all add: takeWhile_eq_all_conv dropWhile_eq_Nil_conv split_beta)

text \<open>A frame once enqueued is not delivered again under the same key, even after it was delivered.\<close>

lemma redelivery_suppressed:
  assumes "inv s"
  shows "enqueue b k f' (snd (flush_snapshot ok (pending b (enqueue b k f s)) (enqueue b k f s)))
    = snd (flush_snapshot ok (pending b (enqueue b k f s)) (enqueue b k f s))"
  using flush_in_order [OF enqueue_inv [OF assms] refl, of ok b b k f]
  by (intro enqueue_known) (simp add: known_enqueue)

end

end
