(* ===== verification/Rust_Text.thy ===== *)
theory Rust_Text
  imports Prelude_OCP
begin

text \<open>
  The parts of Rust's \<open>str\<close>, \<open>i64\<close> and \<open>format!\<close> that the program uses. A Rust string
  is its UTF-8 byte sequence, so a \<open>string\<close> here is a list of bytes (\<open>char\<close> has eight
  bits), \<open>length\<close> is \<open>str::len\<close>, and a character outside ASCII is written as its bytes.
  White space is the Unicode property \<open>White_Space\<close>, as in \<open>char::is_whitespace\<close>: six
  one-byte, two two-byte and a family of three-byte sequences. Nothing in this theory is
  specific to the program; it is the language's library as the sources use it.
\<close>

section \<open>Searching\<close>

fun starts_with :: "string \<Rightarrow> string \<Rightarrow> bool" where
  "starts_with [] s = True"
| "starts_with (p # ps) [] = False"
| "starts_with (p # ps) (c # s) = (p = c \<and> starts_with ps s)"

definition ends_with :: "string \<Rightarrow> string \<Rightarrow> bool" where
  "ends_with p s = starts_with (rev p) (rev s)"

definition strip_prefix :: "string \<Rightarrow> string \<Rightarrow> string option" where
  "strip_prefix p s = (if starts_with p s then Some (drop (length p) s) else None)"

definition strip_suffix :: "string \<Rightarrow> string \<Rightarrow> string option" where
  "strip_suffix p s = (if ends_with p s then Some (take (length s - length p) s) else None)"

fun contains_str :: "string \<Rightarrow> string \<Rightarrow> bool" where
  "contains_str p [] = (p = [])"
| "contains_str p (c # s) = (starts_with p (c # s) \<or> contains_str p s)"

fun find_str :: "string \<Rightarrow> string \<Rightarrow> nat option" where
  "find_str p [] = (if p = [] then Some 0 else None)"
| "find_str p (c # s) = (if starts_with p (c # s) then Some 0 else map_option Suc (find_str p s))"

fun rfind_str :: "string \<Rightarrow> string \<Rightarrow> nat option" where
  "rfind_str p [] = (if p = [] then Some 0 else None)"
| "rfind_str p (c # s) =
    (case rfind_str p s of
      Some i \<Rightarrow> Some (Suc i)
    | None \<Rightarrow> if starts_with p (c # s) then Some 0 else None)"

lemma starts_with_iff: "starts_with p s \<longleftrightarrow> (\<exists>t. s = p @ t)"
  by (induction p s rule: starts_with.induct) auto

lemma starts_with_append [simp]: "starts_with p (p @ t)"
  by (auto simp: starts_with_iff)

lemma starts_with_self [simp]: "starts_with p p"
  by (auto simp: starts_with_iff)

lemma starts_with_length: "starts_with p s \<Longrightarrow> length p \<le> length s"
  by (auto simp: starts_with_iff)

lemma ends_with_iff: "ends_with p s \<longleftrightarrow> (\<exists>t. s = t @ p)"
proof
  assume "ends_with p s"
  then obtain t where "rev s = rev p @ t"
    by (auto simp: ends_with_def starts_with_iff)
  then have "s = rev t @ p" by (metis rev_append rev_rev_ident)
  then show "\<exists>t. s = t @ p" ..
qed (auto simp: ends_with_def)

lemma contains_str_iff: "contains_str p s \<longleftrightarrow> (\<exists>a b. s = a @ p @ b)"
proof (induction s)
  case Nil
  then show ?case by simp
next
  case (Cons c s)
  have "(\<exists>a b. c # s = a @ p @ b) \<longleftrightarrow> (\<exists>b. c # s = p @ b) \<or> (\<exists>a b. s = a @ p @ b)"
    by (metis append_Cons append_Nil append_eq_Cons_conv)
  with Cons show ?case by (simp add: starts_with_iff)
qed

text \<open>
  An index returned by \<open>find\<close> or \<open>rfind\<close> is the start of a whole occurrence, so the
  slices the program takes right after it are in range and cannot panic.
\<close>

lemma find_strD: "find_str p s = Some i \<Longrightarrow> i + length p \<le> length s \<and> starts_with p (drop i s)"
proof (induction p s arbitrary: i rule: find_str.induct)
  case (2 p c s)
  show ?case
  proof (cases "starts_with p (c # s)")
    case True
    with "2.prems" show ?thesis using starts_with_length [OF True] by simp
  next
    case False
    with "2.prems" obtain j where "find_str p s = Some j" "i = Suc j" by auto
    with "2.IH" [OF False] show ?thesis by simp
  qed
qed (auto split: if_splits)

lemma rfind_strD: "rfind_str p s = Some i \<Longrightarrow> i + length p \<le> length s \<and> starts_with p (drop i s)"
proof (induction p s arbitrary: i rule: rfind_str.induct)
  case (2 p c s)
  show ?case
  proof (cases "rfind_str p s")
    case None
    with "2.prems" have "starts_with p (c # s)" "i = 0" by (auto split: if_splits)
    then show ?thesis using starts_with_length [of p "c # s"] by simp
  next
    case (Some j)
    with "2.prems" "2.IH" show ?thesis by auto
  qed
qed (auto split: if_splits)

lemma find_str_None: "find_str p s = None \<longleftrightarrow> \<not> contains_str p s"
  by (induction p s rule: find_str.induct) auto

lemma rfind_str_None: "rfind_str p s = None \<longleftrightarrow> \<not> contains_str p s"
  by (induction p s rule: rfind_str.induct) (auto split: option.splits)

section \<open>Cases, characters and white space\<close>

definition ascii_lower :: "char \<Rightarrow> char" where
  "ascii_lower c = (if 65 \<le> (of_char c :: nat) \<and> (of_char c :: nat) \<le> 90 then char_of ((of_char c :: nat) + 32) else c)"

definition to_ascii_lowercase :: "string \<Rightarrow> string" where
  "to_ascii_lowercase s = map ascii_lower s"

lemma length_to_ascii_lowercase [simp]: "length (to_ascii_lowercase s) = length s"
  by (simp add: to_ascii_lowercase_def)

definition is_ascii_hexdigit :: "char \<Rightarrow> bool" where
  "is_ascii_hexdigit c = (let n = (of_char c :: nat) in
     (48 \<le> n \<and> n \<le> 57) \<or> (65 \<le> n \<and> n \<le> 70) \<or> (97 \<le> n \<and> n \<le> 102))"

text \<open>A byte \<open>10xxxxxx\<close> continues a character; every other byte starts one.\<close>

definition is_continuation :: "char \<Rightarrow> bool" where
  "is_continuation c = (let n = (of_char c :: nat) in 128 \<le> n \<and> n < 192)"

definition chars_count :: "string \<Rightarrow> nat" where
  "chars_count s = length (filter (\<lambda>c. \<not> is_continuation c) s)"

lemma chars_count_le: "chars_count s \<le> length s"
  by (simp add: chars_count_def)

definition is_char_boundary :: "string \<Rightarrow> nat \<Rightarrow> bool" where
  "is_char_boundary s i = (i = 0 \<or> i = length s \<or> (i < length s \<and> \<not> is_continuation (s ! i)))"

definition ws1 :: "char \<Rightarrow> bool" where
  "ws1 a = (a \<in> set [CHR 0x09, CHR 0x0A, CHR 0x0B, CHR 0x0C, CHR 0x0D, CHR 0x20])"

definition ws2 :: "char \<Rightarrow> char \<Rightarrow> bool" where
  "ws2 a b = (a = CHR 0xC2 \<and> b \<in> set [CHR 0x85, CHR 0xA0])"

definition ws3 :: "char \<Rightarrow> char \<Rightarrow> char \<Rightarrow> bool" where
  "ws3 a b c = (
     (a = CHR 0xE1 \<and> b = CHR 0x9A \<and> c = CHR 0x80) \<or>
     (a = CHR 0xE2 \<and> b = CHR 0x80 \<and>
        c \<in> set [CHR 0x80, CHR 0x81, CHR 0x82, CHR 0x83, CHR 0x84, CHR 0x85, CHR 0x86, CHR 0x87,
                 CHR 0x88, CHR 0x89, CHR 0x8A, CHR 0xA8, CHR 0xA9, CHR 0xAF]) \<or>
     (a = CHR 0xE2 \<and> b = CHR 0x81 \<and> c = CHR 0x9F) \<or>
     (a = CHR 0xE3 \<and> b = CHR 0x80 \<and> c = CHR 0x80))"

text \<open>The rest of a string after one leading (trailing) white space character, if it has one.\<close>

fun skip_ws :: "string \<Rightarrow> string option" where
  "skip_ws [] = None"
| "skip_ws (a # s) =
    (if ws1 a then Some s
     else case s of [] \<Rightarrow> None | b # t \<Rightarrow>
       if ws2 a b then Some t
       else case t of [] \<Rightarrow> None | c # u \<Rightarrow> if ws3 a b c then Some u else None)"

fun skip_ws_rev :: "string \<Rightarrow> string option" where
  "skip_ws_rev [] = None"
| "skip_ws_rev (a # s) =
    (if ws1 a then Some s
     else case s of [] \<Rightarrow> None | b # t \<Rightarrow>
       if ws2 b a then Some t
       else case t of [] \<Rightarrow> None | c # u \<Rightarrow> if ws3 c b a then Some u else None)"

lemma skip_ws_shorter: "skip_ws s = Some t \<Longrightarrow> length t < length s"
  by (cases s) (auto split: if_splits list.splits)

lemma skip_ws_rev_shorter: "skip_ws_rev s = Some t \<Longrightarrow> length t < length s"
  by (cases s) (auto split: if_splits list.splits)

function trim_start :: "string \<Rightarrow> string" where
  "trim_start s = (case skip_ws s of None \<Rightarrow> s | Some t \<Rightarrow> trim_start t)"
  by pat_completeness auto
termination
  by (relation "measure length") (auto dest: skip_ws_shorter)

function trim_rev :: "string \<Rightarrow> string" where
  "trim_rev s = (case skip_ws_rev s of None \<Rightarrow> s | Some t \<Rightarrow> trim_rev t)"
  by pat_completeness auto
termination
  by (relation "measure length") (auto dest: skip_ws_rev_shorter)

declare trim_start.simps [simp del] trim_rev.simps [simp del]

definition trim_end :: "string \<Rightarrow> string" where
  "trim_end s = rev (trim_rev (rev s))"

definition trim :: "string \<Rightarrow> string" where
  "trim s = trim_end (trim_start s)"

lemma trim_start_suffix: "\<exists>w. s = w @ trim_start s"
proof (induction s rule: trim_start.induct)
  case (1 s)
  show ?case
  proof (cases "skip_ws s")
    case None
    then show ?thesis by (simp add: trim_start.simps [of s])
  next
    case (Some t)
    then obtain v where v: "s = v @ t"
      by (cases s) (auto split: if_splits list.splits
          intro: append_Cons [symmetric] exI [of _ "[_]"] exI [of _ "[_, _]"] exI [of _ "[_, _, _]"])
    from "1.IH" [OF Some] obtain w where "t = w @ trim_start t" by blast
    with v have "s = (v @ w) @ trim_start t" by (metis append_assoc)
    with Some show ?thesis by (metis option.simps(5) trim_start.simps)
  qed
qed

lemma trim_start_no_ws: "skip_ws (trim_start s) = None"
proof (induction s rule: trim_start.induct)
  case (1 s)
  then show ?case by (cases "skip_ws s") (simp_all add: trim_start.simps [of s])
qed

lemma trim_start_id: "skip_ws s = None \<Longrightarrow> trim_start s = s"
  by (simp add: trim_start.simps [of s])

lemma trim_start_idem [simp]: "trim_start (trim_start s) = trim_start s"
  by (rule trim_start_id [OF trim_start_no_ws])

lemma length_trim_start: "length (trim_start s) \<le> length s"
  using trim_start_suffix [of s] by (metis le_add2 length_append)

lemma skip_ws_rev_prefix: "skip_ws_rev s = Some t \<Longrightarrow> \<exists>v. s = v @ t"
  by (cases s) (auto split: if_splits list.splits
      intro: append_Cons [symmetric] exI [of _ "[_]"] exI [of _ "[_, _]"] exI [of _ "[_, _, _]"])

lemma trim_rev_suffix: "\<exists>w. s = w @ trim_rev s"
proof (induction s rule: trim_rev.induct)
  case (1 s)
  show ?case
  proof (cases "skip_ws_rev s")
    case None
    then show ?thesis by (simp add: trim_rev.simps [of s])
  next
    case (Some t)
    then obtain v where v: "s = v @ t" using skip_ws_rev_prefix by blast
    from "1.IH" [OF Some] obtain w where "t = w @ trim_rev t" by blast
    with v have "s = (v @ w) @ trim_rev t" by (metis append_assoc)
    with Some show ?thesis by (metis option.simps(5) trim_rev.simps)
  qed
qed

lemma trim_rev_no_ws: "skip_ws_rev (trim_rev s) = None"
proof (induction s rule: trim_rev.induct)
  case (1 s)
  then show ?case by (cases "skip_ws_rev s") (simp_all add: trim_rev.simps [of s])
qed

lemma trim_end_prefix: "\<exists>w. s = trim_end s @ w"
  using trim_rev_suffix [of "rev s"]
  by (metis rev_append rev_rev_ident trim_end_def)

lemma trim_end_idem [simp]: "trim_end (trim_end s) = trim_end s"
  by (simp add: trim_end_def trim_rev.simps [of "trim_rev (rev s)"] trim_rev_no_ws)

text \<open>Cutting the tail of a string that starts with a non-space never exposes a leading space.\<close>

lemma skip_ws_append: "skip_ws (s @ w) = None \<Longrightarrow> skip_ws s = None"
  by (cases s) (auto split: if_splits list.splits)

lemma trim_idem [simp]: "trim (trim s) = trim s"
proof -
  obtain w where "trim_start s = trim_end (trim_start s) @ w"
    using trim_end_prefix by blast
  then have "skip_ws (trim_end (trim_start s)) = None"
    by (metis skip_ws_append trim_start_no_ws)
  then show ?thesis by (simp add: trim_def trim_start_id)
qed

lemma trim_infix: "\<exists>a b. s = a @ trim s @ b"
proof -
  obtain a where "s = a @ trim_start s" using trim_start_suffix by blast
  moreover obtain b where "trim_start s = trim s @ b"
    unfolding trim_def using trim_end_prefix by blast
  ultimately show ?thesis by metis
qed

lemma trim_Nil [simp]: "trim [] = []"
  by (simp add: trim_def trim_start.simps [of "[]"] trim_end_def trim_rev.simps [of "[]"])

lemma length_trim: "length (trim s) \<le> length s"
  using trim_infix [of s] by (metis le_add1 le_add2 le_trans length_append)

section \<open>Lines and splits\<close>

text \<open>
  \<open>str::lines\<close>: a line ends at \<open>\n\<close>; a \<open>\r\<close> directly before that \<open>\n\<close> is dropped
  with it; a last line needs no terminator and keeps a bare \<open>\r\<close>.
\<close>

definition strip_cr :: "string \<Rightarrow> string" where
  "strip_cr l = (if l \<noteq> [] \<and> last l = CHR 0x0D then butlast l else l)"

function str_lines :: "string \<Rightarrow> string list" where
  "str_lines s =
    (if s = [] then []
     else case dropWhile (\<lambda>c. c \<noteq> CHR 0x0A) s of
       [] \<Rightarrow> [s]
     | _ # rest \<Rightarrow> strip_cr (takeWhile (\<lambda>c. c \<noteq> CHR 0x0A) s) # str_lines rest)"
  by pat_completeness auto
termination
proof (relation "measure length")
  fix s x rest
  assume "s \<noteq> []" and d: "dropWhile (\<lambda>c. c \<noteq> CHR 0x0A) s = x # rest"
  from d have "length (x # rest) \<le> length s" by (metis length_dropWhile_le)
  then show "(rest, s) \<in> measure length" by simp
qed simp

declare str_lines.simps [simp del]

lemma str_lines_Nil [simp]: "str_lines [] = []"
  by (simp add: str_lines.simps)

lemma str_lines_one: "s \<noteq> [] \<Longrightarrow> CHR 0x0A \<notin> set s \<Longrightarrow> str_lines s = [s]"
proof -
  assume "s \<noteq> []" and "CHR 0x0A \<notin> set s"
  then have "dropWhile (\<lambda>c. c \<noteq> CHR 0x0A) s = []" by (auto simp: dropWhile_eq_Nil_conv)
  with \<open>s \<noteq> []\<close> show ?thesis
    by (simp add: str_lines.simps [of s] del: dropWhile_eq_Nil_conv)
qed

lemma str_lines_append:
  "CHR 0x0A \<notin> set s \<Longrightarrow> str_lines (s @ CHR 0x0A # t) = strip_cr s # str_lines t"
  by (subst str_lines.simps) (auto simp: dropWhile_append takeWhile_append dropWhile_eq_Nil_conv)

text \<open>\<open>str::split\<close> on a non-empty pattern: at least one piece, occurrences taken leftmost.\<close>

function split_str :: "string \<Rightarrow> string \<Rightarrow> string list" where
  "split_str p s =
    (if p = [] then [s]
     else case find_str p s of
       None \<Rightarrow> [s]
     | Some i \<Rightarrow> take i s # split_str p (drop (i + length p) s))"
  by pat_completeness auto
termination
proof (relation "measure (\<lambda>(p, s). length s)")
  fix p s :: string and i
  assume "p \<noteq> []" and "find_str p s = Some i"
  with find_strD [of p s i] show "((p, drop (i + length p) s), p, s) \<in> measure (\<lambda>(p, s). length s)"
    by (cases p) auto
qed simp

declare split_str.simps [simp del]

lemma split_str_none: "\<not> contains_str p s \<Longrightarrow> split_str p s = [s]"
  by (subst split_str.simps) (simp add: find_str_None [THEN iffD2])

text \<open>\<open>Iterator::step_by(2)\<close>.\<close>

fun step_by2 :: "'a list \<Rightarrow> 'a list" where
  "step_by2 [] = []"
| "step_by2 [x] = [x]"
| "step_by2 (x # y # xs) = x # step_by2 xs"

lemma set_step_by2: "set (step_by2 xs) \<subseteq> set xs"
  by (induction xs rule: step_by2.induct) auto

text \<open>\<open>str::split_whitespace\<close>: the maximal runs without white space.\<close>

function split_ws_acc :: "string \<Rightarrow> string \<Rightarrow> string list" where
  "split_ws_acc acc s =
    (case skip_ws s of
      Some t \<Rightarrow> (if acc = [] then [] else [rev acc]) @ split_ws_acc [] t
    | None \<Rightarrow> (case s of
        [] \<Rightarrow> (if acc = [] then [] else [rev acc])
      | c # t \<Rightarrow> split_ws_acc (c # acc) t))"
  by pat_completeness auto
termination
  by (relation "measure (\<lambda>(acc, s). length s)") (auto dest: skip_ws_shorter)

declare split_ws_acc.simps [simp del]

definition split_whitespace :: "string \<Rightarrow> string list" where
  "split_whitespace s = split_ws_acc [] s"

lemma split_ws_acc_nonempty: "[] \<notin> set (split_ws_acc acc s)"
  by (induction acc s rule: split_ws_acc.induct)
    (subst split_ws_acc.simps, auto split: option.splits list.splits)

lemma split_whitespace_nonempty: "[] \<notin> set (split_whitespace s)"
  by (simp add: split_whitespace_def split_ws_acc_nonempty)

text \<open>A word is a run of bytes none of which can begin a white space character.\<close>

definition plain :: "char \<Rightarrow> bool" where
  "plain c \<longleftrightarrow> \<not> ws1 c \<and> c \<noteq> CHR 0xC2 \<and> c \<noteq> CHR 0xE1 \<and> c \<noteq> CHR 0xE2 \<and> c \<noteq> CHR 0xE3"

lemma skip_ws_plain: "plain c \<Longrightarrow> skip_ws (c # s) = None"
  by (auto simp: plain_def ws2_def ws3_def split: list.splits)

lemma split_ws_acc_word:
  "list_all plain w \<Longrightarrow> split_ws_acc acc (w @ s) = split_ws_acc (rev w @ acc) s"
proof (induction w arbitrary: acc)
  case Nil
  then show ?case by simp
next
  case (Cons c w)
  then have "skip_ws (c # w @ s) = None" by (simp del: skip_ws.simps add: skip_ws_plain)
  with Cons show ?case by (simp add: split_ws_acc.simps [of acc "c # w @ s"])
qed

lemma split_whitespace_word:
  assumes "list_all plain w" and "w \<noteq> []"
  shows "split_whitespace w = [w]"
  using split_ws_acc_word [OF assms(1), of "[]" "[]"] assms(2)
  by (simp add: split_whitespace_def split_ws_acc.simps [of "rev w" "[]"])

lemma split_whitespace_space:
  assumes "list_all plain w" and "w \<noteq> []"
  shows "split_whitespace (w @ CHR '' '' # s) = w # split_whitespace s"
proof -
  have "skip_ws (CHR '' '' # s) = Some s" by (simp add: ws1_def)
  with split_ws_acc_word [OF assms(1), of "[]" "CHR '' '' # s"] assms(2)
  show ?thesis
    by (simp add: split_whitespace_def split_ws_acc.simps [of "rev w" "CHR '' '' # s"])
qed

text \<open>\<open>str::split_once\<close> with a one-byte character pattern.\<close>

definition split_once :: "char \<Rightarrow> string \<Rightarrow> (string \<times> string) option" where
  "split_once c s =
    (case dropWhile (\<lambda>x. x \<noteq> c) s of
      [] \<Rightarrow> None
    | _ # rest \<Rightarrow> Some (takeWhile (\<lambda>x. x \<noteq> c) s, rest))"

lemma split_once_append: "c \<notin> set a \<Longrightarrow> split_once c (a @ c # b) = Some (a, b)"
  by (auto simp: split_once_def dropWhile_append takeWhile_append dropWhile_eq_Nil_conv
      dropWhile_eq_Cons_conv split: list.splits)

definition join :: "string \<Rightarrow> string list \<Rightarrow> string" where
  "join sep xs = (case xs of [] \<Rightarrow> [] | y # ys \<Rightarrow> y @ concat (map (\<lambda>z. sep @ z) ys))"

section \<open>Numbers\<close>

fun nat_str :: "nat \<Rightarrow> string" where
  "nat_str n = (if n < 10 then [char_of (48 + n)] else nat_str (n div 10) @ [char_of (48 + n mod 10)])"

declare nat_str.simps [simp del]

definition int_str :: "int \<Rightarrow> string" where
  "int_str i = (if i < 0 then CHR ''-'' # nat_str (nat (- i)) else nat_str (nat i))"

definition digit_val :: "char \<Rightarrow> nat option" where
  "digit_val c = (let n = (of_char c :: nat) in if 48 \<le> n \<and> n \<le> 57 then Some (n - 48) else None)"

fun digits_val :: "nat \<Rightarrow> string \<Rightarrow> nat option" where
  "digits_val acc [] = Some acc"
| "digits_val acc (c # s) =
    (case digit_val c of None \<Rightarrow> None | Some d \<Rightarrow> digits_val (10 * acc + d) s)"

abbreviation i64_min :: int where "i64_min \<equiv> - 9223372036854775808"
abbreviation i64_max :: int where "i64_max \<equiv> 9223372036854775807"

definition i64_range :: "int \<Rightarrow> bool" where
  "i64_range i \<longleftrightarrow> i64_min \<le> i \<and> i \<le> i64_max"

text \<open>
  \<open>str::parse::<i64>\<close>: an optional sign, at least one ASCII digit, nothing else, and the value
  in range (overflow is an error).
\<close>

definition parse_i64 :: "string \<Rightarrow> int option" where
  "parse_i64 s =
    (let neg = (case s of c # _ \<Rightarrow> c = CHR ''-'' | [] \<Rightarrow> False);
         digits = (case s of c # t \<Rightarrow> if c = CHR ''-'' \<or> c = CHR ''+'' then t else s | [] \<Rightarrow> [])
     in if digits = [] then None
        else case digits_val 0 digits of
          None \<Rightarrow> None
        | Some n \<Rightarrow> (let i = (if neg then - int n else int n) in if i64_range i then Some i else None))"

lemma digits_val_append: "digits_val a (s @ t) = Option.bind (digits_val a s) (\<lambda>n. digits_val n t)"
  by (induction s arbitrary: a) (auto split: option.splits)

lemma digit_val_char: "d < 10 \<Longrightarrow> digit_val (char_of (48 + d)) = Some d"
  by (simp add: digit_val_def)

lemma nat_str_nonempty [simp]: "nat_str n \<noteq> []"
  by (subst nat_str.simps) simp

lemma digits_val_nat_str: "digits_val 0 (nat_str n) = Some n"
proof (induction n rule: nat_str.induct)
  case (1 n)
  show ?case
  proof (cases "n < 10")
    case True
    then show ?thesis by (simp add: nat_str.simps [of n] digit_val_char)
  next
    case False
    with 1 show ?thesis
      by (simp add: nat_str.simps [of n] digits_val_append digit_val_char)
  qed
qed

definition is_digit :: "char \<Rightarrow> bool" where
  "is_digit c \<longleftrightarrow> 48 \<le> (of_char c :: nat) \<and> (of_char c :: nat) \<le> 57"

lemma nat_str_digits: "list_all is_digit (nat_str n)"
proof (induction n rule: nat_str.induct)
  case (1 n)
  then show ?case
    by (cases "n < 10") (simp_all add: nat_str.simps [of n] is_digit_def)
qed

lemma is_digit_neq:
  assumes "is_digit c"
  shows "c \<noteq> CHR ''-''" "c \<noteq> CHR ''+''" "c \<noteq> CHR '':''" "c \<noteq> CHR '']''" "c \<noteq> CHR ''[''" "c \<noteq> CHR ''=''"
    "c \<noteq> CHR 0x0A" "c \<noteq> CHR 0x60"
  using assms by (auto simp: is_digit_def)

lemma is_digit_plain: "is_digit c \<Longrightarrow> plain c"
  by (auto simp: is_digit_def plain_def ws1_def)

lemma nat_str_plain: "list_all plain (nat_str n)"
  using nat_str_digits [of n] by (auto simp: list_all_iff is_digit_plain)

lemma nat_str_hd: "is_digit (hd (nat_str n))"
  using nat_str_digits [of n] nat_str_nonempty [of n] by (cases "nat_str n") auto

lemma parse_i64_int_str: "i64_range i \<Longrightarrow> parse_i64 (int_str i) = Some i"
proof (cases "i < 0")
  case True
  assume "i64_range i"
  with True show ?thesis
    by (simp add: parse_i64_def int_str_def digits_val_nat_str Let_def)
next
  case False
  assume r: "i64_range i"
  obtain c t where ct: "nat_str (nat i) = c # t" by (meson list.exhaust nat_str_nonempty)
  with nat_str_hd [of "nat i"] have "c \<noteq> CHR ''-''" "c \<noteq> CHR ''+''" by (auto simp: is_digit_neq)
  with False r ct digits_val_nat_str [of "nat i"] show ?thesis
    by (simp add: parse_i64_def int_str_def Let_def)
qed

lemma parse_i64_range: "parse_i64 s = Some i \<Longrightarrow> i64_range i"
  by (auto simp: parse_i64_def Let_def split: option.splits if_splits)

lemma length_nat_str: "n < 10 ^ Suc k \<Longrightarrow> length (nat_str n) \<le> Suc k"
proof (induction k arbitrary: n)
  case 0
  then show ?case by (simp add: nat_str.simps [of n])
next
  case (Suc k)
  then have "n div 10 < 10 ^ Suc k" by (simp add: less_mult_imp_div_less)
  with Suc.IH have "length (nat_str (n div 10)) \<le> Suc k" by blast
  then show ?case by (simp add: nat_str.simps [of n])
qed

lemma length_int_str: "i64_range i \<Longrightarrow> length (int_str i) \<le> 20"
proof -
  assume "i64_range i"
  then have "nat (- i) < 10 ^ Suc 18" "nat i < 10 ^ Suc 18"
    by (simp_all add: i64_range_def) linarith+
  then have "length (nat_str (nat (- i))) \<le> 19" "length (nat_str (nat i)) \<le> 19"
    using length_nat_str [of _ 18] by fastforce+
  then show ?thesis by (simp add: int_str_def)
qed

lemma last_int_str: "is_digit (last (int_str i))"
proof -
  have "is_digit (last (nat_str n))" for n
    using nat_str_digits [of n] last_in_set [OF nat_str_nonempty [of n]] by (simp add: list_all_iff)
  then show ?thesis by (simp add: int_str_def)
qed

lemma int_str_nonempty [simp]: "int_str i \<noteq> []"
  by (simp add: int_str_def)

lemma is_digit_not_cont: "is_digit c \<Longrightarrow> \<not> is_continuation c"
  by (simp add: is_digit_def is_continuation_def)

section \<open>Searching in composed texts\<close>

lemma contains_str_char: "contains_str p s \<Longrightarrow> c \<in> set p \<Longrightarrow> c \<in> set s"
  by (auto simp: contains_str_iff)

lemma contains_str_count:
  "contains_str p s \<Longrightarrow> length (filter (\<lambda>x. x = c) p) \<le> length (filter (\<lambda>x. x = c) s)"
  by (auto simp: contains_str_iff)

lemma starts_with_char: "starts_with p (a @ c # b) \<Longrightarrow> c \<notin> set p \<Longrightarrow> starts_with p a"
  by (auto simp: starts_with_iff append_eq_append_conv2 append_eq_Cons_conv Cons_eq_append_conv)

text \<open>A pattern without the separator cannot straddle it.\<close>

lemma contains_str_sep:
  assumes "c \<notin> set p" and "p \<noteq> []"
  shows "contains_str p (a @ c # b) \<longleftrightarrow> contains_str p a \<or> contains_str p b"
proof (induction a)
  case Nil
  from assms show ?case by (cases p) auto
next
  case (Cons x a)
  have "starts_with p (x # a @ c # b) \<longleftrightarrow> starts_with p (x # a)"
  proof
    assume "starts_with p (x # a)"
    then obtain t where "x # a = p @ t" by (auto simp: starts_with_iff)
    then have "x # a @ c # b = p @ (t @ c # b)" by (metis append_Cons append_assoc)
    then show "starts_with p (x # a @ c # b)" unfolding starts_with_iff by blast
  qed (use starts_with_char [of p "x # a" c b] assms(1) in simp)
  with Cons show ?case by (simp del: starts_with.simps)
qed

lemma find_str_first:
  assumes "p \<noteq> []" and "\<not> contains_str p (a @ butlast p)"
  shows "find_str p (a @ p @ b) = Some (length a)"
  using assms(2)
proof (induction a)
  case Nil
  obtain c q where "p = c # q" using assms(1) by (cases p) auto
  then have "find_str p (p @ b) = Some 0"
    using starts_with_append [of p b] by (metis append_Cons find_str.simps(2))
  then show ?case by simp
next
  case (Cons x a)
  then have no: "\<not> starts_with p (x # a @ butlast p)" and "\<not> contains_str p (a @ butlast p)"
    by auto
  moreover have "\<not> starts_with p (x # a @ p @ b)"
  proof
    assume "starts_with p (x # a @ p @ b)"
    then have "take (length p) (x # a @ p @ b) = p" by (auto simp: starts_with_iff)
    moreover have "x # a @ p @ b = (x # a @ butlast p) @ (last p # b)"
      using assms(1) by (simp add: append_butlast_last_id [symmetric] del: append_butlast_last_id)
    moreover have "length p \<le> length (x # a @ butlast p)" using assms(1) by (cases p) auto
    ultimately have "take (length p) (x # a @ butlast p) = p" by (metis append_Nil2 diff_is_0_eq take0 take_append)
    then have "starts_with p (x # a @ butlast p)"
      unfolding starts_with_iff by (metis append_take_drop_id)
    with no show False by blast
  qed
  ultimately show ?case using Cons.IH by simp
qed

lemma str_lines_last:
  assumes "t \<noteq> []" and "CHR 0x0A \<notin> set t"
  shows "\<exists>ls. str_lines (a @ CHR 0x0A # t) = ls @ [t]"
proof (induction "length a" arbitrary: a rule: less_induct)
  case less
  show ?case
  proof (cases "CHR 0x0A \<in> set a")
    case False
    then show ?thesis using assms by (simp add: str_lines_append str_lines_one)
  next
    case True
    then obtain b c where bc: "a = b @ CHR 0x0A # c" "CHR 0x0A \<notin> set b"
      using split_list_first by fastforce
    with less [of c] obtain ls where "str_lines (c @ CHR 0x0A # t) = ls @ [t]" by auto
    with bc show ?thesis by (simp add: str_lines_append)
  qed
qed

lemma trim_plain:
  assumes "plain (hd s)" and "plain (last s)" and "\<not> is_continuation (last s)" and "s \<noteq> []"
  shows "trim s = s"
proof -
  obtain c u where cu: "s = c # u" using assms(4) by (cases s) auto
  with assms(1) have 1: "trim_start s = s"
    by (simp add: trim_start_id skip_ws_plain del: skip_ws.simps)
  obtain d v where dv: "rev s = d # v" using assms(4) by (cases "rev s") auto
  then have d: "d = last s" by (metis hd_rev list.sel(1))
  have "\<not> ws1 d" and nc: "\<not> is_continuation d"
    using assms(2, 3) by (simp_all add: d plain_def)
  moreover have "\<not> ws2 b d" for b
    using nc by (auto simp: ws2_def is_continuation_def)
  moreover have "\<not> ws3 b e d" for b e
    using nc by (auto simp: ws3_def is_continuation_def)
  ultimately have "skip_ws_rev (d # v) = None"
    by (simp split: list.split)
  then have "trim_rev (d # v) = d # v" by (simp add: trim_rev.simps [of "d # v"] del: skip_ws_rev.simps)
  with dv have "trim_end s = s" by (simp add: trim_end_def)
  with 1 show ?thesis by (simp add: trim_def)
qed

end
