(* ===== verification/Turn_Report.thy ===== *)
theory Turn_Report
  imports Rust_Text
begin

text \<open>
  Reading a bot's turn (\<^verbatim>\<open>src/turn_failure.rs\<close>, the report gate of
  \<^verbatim>\<open>src/plugins/council/mod.rs\<close> and the text predicates of \<^verbatim>\<open>src/orchestrator.rs\<close>): which
  settled text is an agent failure, which one is a delivered report, which one is a
  streaming stub, and which one carries a done signal.
\<close>

section \<open>Legacy turn failures\<close>

datatype LegacyTurnFailureKind = SubscriptionDisabled | Protocol

definition CLAUDE_SUBSCRIPTION_DISABLED :: string where
  "CLAUDE_SUBSCRIPTION_DISABLED =
    ''your organization has disabled claude subscription access for claude code''"

definition WARNING_SIGN :: string where
  "WARNING_SIGN = [CHR 0xE2, CHR 0x9A, CHR 0xA0]"

definition first_line :: "string \<Rightarrow> string" where
  "first_line s = (case str_lines s of [] \<Rightarrow> [] | l # _ \<Rightarrow> l)"

definition starts_with_runtime_error_banner :: "string \<Rightarrow> bool" where
  "starts_with_runtime_error_banner content =
    (let content' = trim_start content;
         line = trim (first_line content');
         lower = to_ascii_lowercase line
     in starts_with WARNING_SIGN line \<and>
        (contains_str ''-32603'' lower \<or> contains_str ''internal error'' lower))"

definition classify_legacy_turn_failure :: "string \<Rightarrow> LegacyTurnFailureKind option" where
  "classify_legacy_turn_failure text =
    (let content = trim text in
     if content = [] then None
     else
       let lower = to_ascii_lowercase content;
           runtime_banner = starts_with_runtime_error_banner content
       in if runtime_banner \<and> contains_str CLAUDE_SUBSCRIPTION_DISABLED lower
          then Some SubscriptionDisabled
          else if runtime_banner then Some Protocol
          else
            let error_shaped = length content \<le> 200 \<or> contains_str ''jsonrpc'' lower
                                 \<or> contains_str [CHR 0x22, CHR ''c'', CHR ''o'', CHR ''d'', CHR ''e'', CHR 0x22] lower
            in if error_shaped \<and> (contains_str ''-32603'' content \<or> contains_str ''internal error'' lower)
               then Some Protocol else None)"

definition is_agent_error_frame :: "string \<Rightarrow> bool" where
  "is_agent_error_frame content = (classify_legacy_turn_failure content \<noteq> None)"

section \<open>The report gate\<close>

definition MIN_REPORT_CHARS :: nat where
  "MIN_REPORT_CHARS = 20"

definition QUOTE :: string where
  "QUOTE = [CHR 0x22]"

definition is_bare_tool_echo :: "string \<Rightarrow> bool" where
  "is_bare_tool_echo text =
    (let line = trim (first_line text);
         lower = to_ascii_lowercase text;
         first_lower = trim (first_line lower);
         tool_marker = starts_with ''tool result'' first_lower
           \<or> starts_with ''tool output'' first_lower
           \<or> starts_with ''tool_result'' first_lower
           \<or> starts_with ''<tool_result'' first_lower
           \<or> starts_with (''{'' @ QUOTE @ ''tool_result'' @ QUOTE) first_lower
           \<or> starts_with (''{'' @ QUOTE @ ''type'' @ QUOTE @ '':'' @ QUOTE @ ''tool_result'' @ QUOTE) first_lower;
         json_error = starts_with ''{'' line
           \<and> contains_str (QUOTE @ ''error'' @ QUOTE) lower
           \<and> (contains_str ''jsonrpc'' lower \<or> contains_str (QUOTE @ ''code'' @ QUOTE) lower)
     in (tool_marker \<or> json_error) \<and> length (str_lines text) \<le> 4)"

definition report_delivered :: "string \<Rightarrow> bool" where
  "report_delivered text =
    (let t = trim text in
     chars_count t \<ge> MIN_REPORT_CHARS
     \<and> classify_legacy_turn_failure t = None
     \<and> \<not> is_bare_tool_echo t)"

section \<open>Settled text, stubs and done signals\<close>

definition ELLIPSIS :: string where
  "ELLIPSIS = [CHR 0xE2, CHR 0x80, CHR 0xA6]"

definition DONE_EMOJI :: string where
  "DONE_EMOJI = [CHR 0xF0, CHR 0x9F, CHR 0x86, CHR 0x97]"

definition is_settled_content :: "string \<Rightarrow> bool" where
  "is_settled_content text = (let t = trim text in t \<noteq> [] \<and> t \<noteq> ELLIPSIS)"

definition is_streaming_stub :: "string \<Rightarrow> bool" where
  "is_streaming_stub text = (let t = trim text in t = [] \<or> t = ELLIPSIS \<or> t = ''...'')"

definition is_done_signal :: "string \<Rightarrow> bool" where
  "is_done_signal text = (let t = trim text in t = DONE_EMOJI \<or> ends_with ''[done]'' t)"

section \<open>Properties\<close>

text \<open>A delivered report is settled text, is not an agent error, and is long enough.\<close>

lemma report_delivered_settled: "report_delivered text \<Longrightarrow> is_settled_content text"
  by (auto simp: report_delivered_def is_settled_content_def MIN_REPORT_CHARS_def Let_def
      chars_count_def ELLIPSIS_def is_continuation_def)

lemma classify_trim [simp]: "classify_legacy_turn_failure (trim text) = classify_legacy_turn_failure text"
  by (simp add: classify_legacy_turn_failure_def)

lemma report_delivered_no_error: "report_delivered text \<Longrightarrow> \<not> is_agent_error_frame text"
  by (simp add: report_delivered_def is_agent_error_frame_def Let_def)

lemma report_delivered_trim [simp]: "report_delivered (trim text) = report_delivered text"
  by (simp add: report_delivered_def)

lemma report_delivered_length: "report_delivered text \<Longrightarrow> 20 \<le> length text"
  using chars_count_le [of "trim text"] length_trim [of "text"]
  by (simp add: report_delivered_def MIN_REPORT_CHARS_def Let_def)

text \<open>Every unsettled text is a streaming stub; ASCII dots are the only settled stub.\<close>

lemma stub_not_settled_iff:
  "is_streaming_stub text \<longleftrightarrow> \<not> is_settled_content text \<or> trim text = ''...''"
  by (auto simp: is_streaming_stub_def is_settled_content_def Let_def)

lemma done_signal_settled: "is_done_signal text \<Longrightarrow> is_settled_content text"
  by (auto simp: is_done_signal_def is_settled_content_def Let_def ends_with_iff DONE_EMOJI_def
      ELLIPSIS_def append_eq_Cons_conv)

text \<open>
  A banner-led text is always classified, however long, and whether or not a parseable report
  follows it; a long text without the banner and without a JSON shape never is.
\<close>

lemma banner_classified:
  assumes "starts_with_runtime_error_banner text" and "trim_start text = text"
    and "trim text = text"
  shows "classify_legacy_turn_failure text \<noteq> None"
proof -
  have "text \<noteq> []"
    using assms(1) by (auto simp: starts_with_runtime_error_banner_def first_line_def Let_def
        WARNING_SIGN_def trim_start.simps [of "[]"])
  with assms show ?thesis by (simp add: classify_legacy_turn_failure_def Let_def)
qed

lemma long_prose_not_classified:
  assumes "length (trim text) > 200"
    and "\<not> starts_with_runtime_error_banner (trim text)"
    and "\<not> contains_str ''jsonrpc'' (to_ascii_lowercase (trim text))"
    and "\<not> contains_str (QUOTE @ ''code'' @ QUOTE) (to_ascii_lowercase (trim text))"
  shows "classify_legacy_turn_failure text = None"
  using assms by (simp add: classify_legacy_turn_failure_def Let_def QUOTE_def)

end
