(* ===== verification/Verdict_Trailer.thy ===== *)
theory Verdict_Trailer
  imports Rust_Text
begin

text \<open>
  The machine-readable part of a chair's final message. Kernel side
  (\<^verbatim>\<open>src/plugins/council/verdict.rs\<close>, with \<open>unfenced_lines\<close> of \<^verbatim>\<open>src/orchestrator.rs\<close>) and
  controller side (\<^verbatim>\<open>crates/github-pr-controller/src/verdict.rs\<close>) each have a parser of the
  trailer \<open>[[verdict:...]]\<close>; the controller also reads the findings block, whose JSON
  decoding (serde) is the parameter \<open>from_str\<close>. Shown here: the decision a parser returns
  agrees with its own counts, both parsers agree on every text, a trailer printed under a report
  is read back, and text inside a code fence is never a verdict.
\<close>

section \<open>Lines outside code fences\<close>

definition FENCE :: string where
  "FENCE = [CHR 0x60, CHR 0x60, CHR 0x60]"

definition unfenced_lines :: "string \<Rightarrow> string list" where
  "unfenced_lines text =
    filter (\<lambda>line. line \<noteq> []) (map trim (concat (map str_lines (step_by2 (split_str FENCE text)))))"

section \<open>The kernel's trailer parser\<close>

record VerdictTrailer =
  vt_decision :: string
  vt_red :: "int option"
  vt_yellow :: "int option"
  vt_green :: "int option"

definition VERDICT_OPEN :: string where
  "VERDICT_OPEN = ''[[verdict:''"

text \<open>The loop over the \<open>key=value\<close> parts; the accumulator is the triple of counts.\<close>

fun parse_counts ::
  "string list \<Rightarrow> int option \<times> int option \<times> int option \<Rightarrow> (int option \<times> int option \<times> int option) option" where
  "parse_counts [] acc = Some acc"
| "parse_counts (part # parts) (red, yellow, green) =
    (case split_once CHR ''='' part of
      None \<Rightarrow> None
    | Some (key, val) \<Rightarrow>
        (case parse_i64 val of
          None \<Rightarrow> None
        | Some n \<Rightarrow>
            if n < 0 then None
            else if key = ''r'' then parse_counts parts (Some n, yellow, green)
            else if key = ''y'' then parse_counts parts (red, Some n, green)
            else if key = ''g'' then parse_counts parts (red, yellow, Some n)
            else None))"

definition unwrap_or :: "'a \<Rightarrow> 'a option \<Rightarrow> 'a" where
  "unwrap_or d x = (case x of None \<Rightarrow> d | Some y \<Rightarrow> y)"

lemma unwrap_or_simps [simp]: "unwrap_or d None = d" "unwrap_or d (Some x) = x"
  by (simp_all add: unwrap_or_def)

definition derived_decision :: "int option \<Rightarrow> int option \<Rightarrow> string option" where
  "derived_decision red yellow =
    (if unwrap_or 0 red > 0 \<or> unwrap_or 0 yellow > 0 then Some ''request_changes''
     else if red \<noteq> None \<and> yellow \<noteq> None then Some ''approve''
     else None)"

definition parse_verdict_trailer_line :: "string \<Rightarrow> VerdictTrailer option" where
  "parse_verdict_trailer_line line =
    (case rfind_str VERDICT_OPEN line of
      None \<Rightarrow> None
    | Some start \<Rightarrow>
        let rest = drop (start + length VERDICT_OPEN) line in
        (case find_str '']]'' rest of
          None \<Rightarrow> None
        | Some close \<Rightarrow>
            (case split_whitespace (take close rest) of
              [] \<Rightarrow> None
            | decision # parts \<Rightarrow>
                if decision \<noteq> ''approve'' \<and> decision \<noteq> ''request_changes'' then None
                else (case parse_counts parts (None, None, None) of
                    None \<Rightarrow> None
                  | Some (red, yellow, green) \<Rightarrow>
                      Some \<lparr>vt_decision = unwrap_or decision (derived_decision red yellow),
                            vt_red = red, vt_yellow = yellow, vt_green = green\<rparr>))))"

definition next_back :: "'a list \<Rightarrow> 'a option" where
  "next_back xs = (if xs = [] then None else Some (last xs))"

definition parse_verdict_trailer :: "string \<Rightarrow> VerdictTrailer option" where
  "parse_verdict_trailer text =
    (case next_back (unfenced_lines text) of
      None \<Rightarrow> None
    | Some line \<Rightarrow> parse_verdict_trailer_line line)"

section \<open>The controller's parsers\<close>

definition blocking :: "VerdictTrailer \<Rightarrow> bool" where
  "blocking t = (unwrap_or 0 (vt_red t) > 0 \<or> unwrap_or 0 (vt_yellow t) > 0)"

definition ctl_unfenced_lines :: "string \<Rightarrow> string list" where
  "ctl_unfenced_lines text =
    filter (\<lambda>line. line \<noteq> []) (map trim (concat (map str_lines (step_by2 (split_str FENCE text)))))"

definition ctl_parse_verdict_trailer :: "string \<Rightarrow> VerdictTrailer option" where
  "ctl_parse_verdict_trailer text =
    Option.bind (next_back (ctl_unfenced_lines text)) (\<lambda>line.
    Option.bind (rfind_str VERDICT_OPEN line) (\<lambda>start.
    let rest = drop (start + length VERDICT_OPEN) line in
    Option.bind (find_str '']]'' rest) (\<lambda>close.
    (case split_whitespace (take close rest) of
      [] \<Rightarrow> None
    | decision # parts \<Rightarrow>
        if decision \<noteq> ''approve'' \<and> decision \<noteq> ''request_changes'' then None
        else Option.bind (parse_counts parts (None, None, None)) (\<lambda>(red, yellow, green).
          let is_blocking = unwrap_or 0 red > 0 \<or> unwrap_or 0 yellow > 0;
              complete = red \<noteq> None \<and> yellow \<noteq> None;
              derived = (if is_blocking then Some ''request_changes''
                         else if complete then Some ''approve'' else None);
              decision' = (case derived of None \<Rightarrow> decision
                           | Some d \<Rightarrow> if d \<noteq> decision then d else decision)
          in Some \<lparr>vt_decision = decision', vt_red = red, vt_yellow = yellow, vt_green = green\<rparr>)))))"

record Finding =
  f_id :: string
  f_severity :: string
  f_status :: string
  f_waiver_id :: "string option"
  f_title :: string
  f_path :: "string option"
  f_line :: "int option"
  f_raised_by :: "string option"
  f_angle :: "string option"

record FindingsBlock =
  fb_head_sha :: "string option"
  fb_findings :: "Finding list"

definition FINDINGS_OPEN :: string where
  "FINDINGS_OPEN = ''<!-- openab-findings''"

text \<open>Start indices of the non-overlapping occurrences of \<open>p\<close>, left to right.\<close>

function match_indices :: "string \<Rightarrow> string \<Rightarrow> nat list" where
  "match_indices p s =
    (if p = [] then []
     else case find_str p s of
       None \<Rightarrow> []
     | Some i \<Rightarrow> i # map (\<lambda>j. j + i + length p) (match_indices p (drop (i + length p) s)))"
  by pat_completeness auto
termination
proof (relation "measure (\<lambda>(p, s). length s)")
  fix p s :: string and i
  assume "p \<noteq> []" and "find_str p s = Some i"
  with find_strD [of p s i] show "((p, drop (i + length p) s), p, s) \<in> measure (\<lambda>(p, s). length s)"
    by (cases p) auto
qed simp

declare match_indices.simps [simp del]

fun find_map :: "('a \<Rightarrow> 'b option) \<Rightarrow> 'a list \<Rightarrow> 'b option" where
  "find_map f [] = None"
| "find_map f (x # xs) = (case f x of None \<Rightarrow> find_map f xs | Some y \<Rightarrow> Some y)"

definition finding_valid :: "Finding \<Rightarrow> bool" where
  "finding_valid f =
    (f_severity f \<in> set [''red'', ''yellow'', ''green'']
     \<and> f_status f \<in> set [''open'', ''resolved'', ''dismissed'', ''waived'']
     \<and> trim (f_id f) \<noteq> [] \<and> trim (f_title f) \<noteq> [])"

definition parse_findings_block :: "(string \<Rightarrow> FindingsBlock option) \<Rightarrow> string \<Rightarrow> FindingsBlock option" where
  "parse_findings_block from_str text =
    Option.bind (rfind_str FINDINGS_OPEN text) (\<lambda>start.
    let rest = drop (start + length FINDINGS_OPEN) text in
    Option.bind (find_map (\<lambda>close. from_str (trim (take close rest))) (match_indices ''-->'' rest)) (\<lambda>block.
    if list_all finding_valid (fb_findings block) then Some block else None))"

record ParsedResult =
  pr_trailer :: "VerdictTrailer option"
  pr_findings :: "FindingsBlock option"
  pr_source :: string

definition parse_final_messages :: "(string \<Rightarrow> FindingsBlock option) \<Rightarrow> string list \<Rightarrow> ParsedResult" where
  "parse_final_messages from_str final_messages =
    (case next_back final_messages of
      None \<Rightarrow> \<lparr>pr_trailer = None, pr_findings = None, pr_source = []\<rparr>
    | Some closing \<Rightarrow>
        let source = join [CHR 0x0A] final_messages in
        \<lparr>pr_trailer = ctl_parse_verdict_trailer closing,
         pr_findings = parse_findings_block from_str source,
         pr_source = source\<rparr>)"

section \<open>The decision agrees with the counts\<close>

definition count_ok :: "int option \<Rightarrow> bool" where
  "count_ok c = (case c of None \<Rightarrow> True | Some n \<Rightarrow> 0 \<le> n \<and> i64_range n)"

lemma count_ok_simps [simp]: "count_ok None" "count_ok (Some n) \<longleftrightarrow> 0 \<le> n \<and> i64_range n"
  by (simp_all add: count_ok_def)

lemma parse_counts_step:
  assumes "parse_counts (part # parts) (r, y, g) = Some res"
  shows "\<exists>n. count_ok (Some n) \<and> (parse_counts parts (Some n, y, g) = Some res
    \<or> parse_counts parts (r, Some n, g) = Some res \<or> parse_counts parts (r, y, Some n) = Some res)"
proof -
  from assms obtain key val where s: "split_once CHR ''='' part = Some (key, val)"
    by (cases "split_once CHR ''='' part") auto
  with assms obtain n where p: "parse_i64 val = Some n"
    by (cases "parse_i64 val") auto
  from assms s p have "0 \<le> n" by (simp split: if_splits)
  with parse_i64_range [OF p] have "count_ok (Some n)" by simp
  with assms s p show ?thesis by (auto split: if_splits)
qed

lemma parse_counts_nonneg:
  assumes "parse_counts parts (r, y, g) = Some (r', y', g')"
    and "count_ok r \<and> count_ok y \<and> count_ok g"
  shows "count_ok r' \<and> count_ok y' \<and> count_ok g'"
  using assms
proof (induction parts arbitrary: r y g)
  case (Cons part parts)
  from parse_counts_step [OF Cons.prems(1)] Cons.IH Cons.prems(2) show ?case by blast
qed simp

lemma parse_line_shape:
  assumes "parse_verdict_trailer_line line = Some t"
  shows "\<exists>d r y g. (d = ''approve'' \<or> d = ''request_changes'')
    \<and> t = \<lparr>vt_decision = unwrap_or d (derived_decision r y), vt_red = r, vt_yellow = y, vt_green = g\<rparr>
    \<and> count_ok r \<and> count_ok y \<and> count_ok g"
proof -
  from assms obtain start where 1: "rfind_str VERDICT_OPEN line = Some start"
    by (cases "rfind_str VERDICT_OPEN line") (simp_all add: parse_verdict_trailer_line_def)
  let ?rest = "drop (start + length VERDICT_OPEN) line"
  from assms 1 obtain close where 2: "find_str '']]'' ?rest = Some close"
    by (cases "find_str '']]'' ?rest") (simp_all add: parse_verdict_trailer_line_def Let_def)
  from assms 1 2 obtain d parts where 3: "split_whitespace (take close ?rest) = d # parts"
    by (cases "split_whitespace (take close ?rest)") (simp_all add: parse_verdict_trailer_line_def Let_def)
  from assms 1 2 3 have 4: "d = ''approve'' \<or> d = ''request_changes''"
    by (simp add: parse_verdict_trailer_line_def Let_def split: if_splits)
  with assms 1 2 3 obtain r y g where 5: "parse_counts parts (None, None, None) = Some (r, y, g)"
    by (cases "parse_counts parts (None, None, None)") (auto simp: parse_verdict_trailer_line_def Let_def)
  from assms 1 2 3 4 5
  have "t = \<lparr>vt_decision = unwrap_or d (derived_decision r y), vt_red = r, vt_yellow = y, vt_green = g\<rparr>"
    by (auto simp: parse_verdict_trailer_line_def Let_def)
  moreover have "count_ok r \<and> count_ok y \<and> count_ok g"
    using parse_counts_nonneg [OF 5] by simp
  ultimately show ?thesis using 4 by blast
qed

lemma derived_decision_cases:
  "derived_decision r y = Some d \<Longrightarrow> d = ''request_changes'' \<or> d = ''approve''"
  by (auto simp: derived_decision_def split: if_splits)

text \<open>
  The soundness of a parsed line: only the two decisions, blocking counts always mean
  \<open>request_changes\<close>, complete counts of zero always mean \<open>approve\<close>, and every count is a
  non-negative 64-bit value.
\<close>

lemma parse_line_sound:
  assumes "parse_verdict_trailer_line line = Some t"
  shows "vt_decision t = ''approve'' \<or> vt_decision t = ''request_changes''"
    and "blocking t \<Longrightarrow> vt_decision t = ''request_changes''"
    and "vt_red t = Some 0 \<Longrightarrow> vt_yellow t = Some 0 \<Longrightarrow> vt_decision t = ''approve''"
    and "count_ok (vt_red t) \<and> count_ok (vt_yellow t) \<and> count_ok (vt_green t)"
proof -
  obtain d r y g where d: "d = ''approve'' \<or> d = ''request_changes''"
    and t: "t = \<lparr>vt_decision = unwrap_or d (derived_decision r y), vt_red = r, vt_yellow = y, vt_green = g\<rparr>"
    and n: "count_ok r \<and> count_ok y \<and> count_ok g"
    using parse_line_shape [OF assms] by blast
  show "vt_decision t = ''approve'' \<or> vt_decision t = ''request_changes''"
    using d derived_decision_cases [of r y] by (cases "derived_decision r y") (auto simp: t)
  show "blocking t \<Longrightarrow> vt_decision t = ''request_changes''"
    by (auto simp: t blocking_def derived_decision_def)
  show "vt_red t = Some 0 \<Longrightarrow> vt_yellow t = Some 0 \<Longrightarrow> vt_decision t = ''approve''"
    by (simp add: t derived_decision_def)
  show "count_ok (vt_red t) \<and> count_ok (vt_yellow t) \<and> count_ok (vt_green t)"
    using n by (simp add: t)
qed

lemma parse_verdict_trailer_line_of:
  "parse_verdict_trailer text = Some t \<Longrightarrow> \<exists>line. parse_verdict_trailer_line line = Some t"
  by (auto simp: parse_verdict_trailer_def split: option.splits)

section \<open>Both parsers read the same verdict\<close>

lemma ctl_unfenced_lines_eq: "ctl_unfenced_lines = unfenced_lines"
  by (intro ext) (simp add: ctl_unfenced_lines_def unfenced_lines_def)

lemma ctl_decision_eq:
  "(case derived_decision r y of None \<Rightarrow> d | Some d' \<Rightarrow> if d' \<noteq> d then d' else d)
    = unwrap_or d (derived_decision r y)"
  by (cases "derived_decision r y") auto

lemma ctl_trailer_eq: "ctl_parse_verdict_trailer text = parse_verdict_trailer text"
proof (cases "next_back (unfenced_lines text)")
  case None
  then show ?thesis
    by (simp add: ctl_parse_verdict_trailer_def parse_verdict_trailer_def ctl_unfenced_lines_eq)
next
  case (Some line)
  show ?thesis
    unfolding ctl_parse_verdict_trailer_def parse_verdict_trailer_def parse_verdict_trailer_line_def
      ctl_unfenced_lines_eq Some Let_def derived_decision_def [symmetric] ctl_decision_eq option.case
      Option.bind.simps
    by (cases "rfind_str VERDICT_OPEN line"; simp;
        cases "find_str '']]'' (drop (the (rfind_str VERDICT_OPEN line) + length VERDICT_OPEN) line)"; simp)
      (auto split: list.split option.split)
qed

section \<open>Fences\<close>

lemma FENCE_nonempty [simp]: "FENCE \<noteq> []"
  by (simp add: FENCE_def)

lemma not_contains_fence_tail:
  assumes "\<not> contains_str FENCE a" and "a = [] \<or> last a \<noteq> CHR 0x60"
  shows "\<not> contains_str FENCE (a @ butlast FENCE)"
proof (cases "a = []")
  case True
  then show ?thesis by (simp add: FENCE_def)
next
  case False
  then obtain b c where b: "a = b @ [c]" by (metis append_butlast_last_id)
  with assms have c: "c \<notin> set FENCE" by (simp add: FENCE_def)
  have "a @ butlast FENCE = b @ c # butlast FENCE" by (simp add: b)
  moreover have "\<not> contains_str FENCE b"
    using assms(1) contains_str_sep [OF c, of b "[]"] by (simp add: b)
  moreover have "\<not> contains_str FENCE (butlast FENCE)" by (simp add: FENCE_def)
  ultimately show ?thesis using contains_str_sep [OF c, of b "butlast FENCE"] by simp
qed

lemma split_fence:
  assumes "\<not> contains_str FENCE a" and "a = [] \<or> last a \<noteq> CHR 0x60"
  shows "split_str FENCE (a @ FENCE @ b) = a # split_str FENCE b"
  using find_str_first [OF FENCE_nonempty not_contains_fence_tail [OF assms], of b]
  by (subst split_str.simps) simp

lemma unfenced_plain:
  "\<not> contains_str FENCE a \<Longrightarrow> unfenced_lines a = filter (\<lambda>line. line \<noteq> []) (map trim (str_lines a))"
  by (simp add: unfenced_lines_def split_str_none)

text \<open>What stands between two fences, or after an unclosed one, is not read at all.\<close>

lemma unfenced_open:
  assumes "\<not> contains_str FENCE a" and "a = [] \<or> last a \<noteq> CHR 0x60" and "\<not> contains_str FENCE b"
  shows "unfenced_lines (a @ FENCE @ b) = unfenced_lines a"
  using assms by (simp add: unfenced_lines_def split_fence split_str_none)

lemma unfenced_block:
  assumes "\<not> contains_str FENCE a" and "a = [] \<or> last a \<noteq> CHR 0x60"
    and "\<not> contains_str FENCE b" and "b = [] \<or> last b \<noteq> CHR 0x60"
  shows "unfenced_lines (a @ FENCE @ b @ FENCE @ c) = unfenced_lines a @ unfenced_lines c"
  using assms by (simp add: unfenced_lines_def split_fence split_str_none)

section \<open>Printing and reading back\<close>

text \<open>The trailer line as the chair's instructions spell it.\<close>

definition trailer_line :: "string \<Rightarrow> nat \<Rightarrow> nat \<Rightarrow> nat \<Rightarrow> string" where
  "trailer_line d r y g = VERDICT_OPEN @ d @ '' r='' @ nat_str r @ '' y='' @ nat_str y @ '' g='' @ nat_str g @ '']]''"

lemma nat_str_no:
  "CHR '']'' \<notin> set (nat_str n)" "CHR ''['' \<notin> set (nat_str n)" "CHR 0x60 \<notin> set (nat_str n)"
  "CHR 0x0A \<notin> set (nat_str n)"
proof -
  have d: "is_digit c" if "c \<in> set (nat_str n)" for c
    using nat_str_digits [of n] that by (simp add: list_all_iff)
  show "CHR '']'' \<notin> set (nat_str n)" using d is_digit_neq(4) by blast
  show "CHR ''['' \<notin> set (nat_str n)" using d is_digit_neq(5) by blast
  show "CHR 0x60 \<notin> set (nat_str n)" using d is_digit_neq(8) by blast
  show "CHR 0x0A \<notin> set (nat_str n)" using d is_digit_neq(7) by blast
qed

lemma filter_nat_str: "filter (\<lambda>x. x = CHR ''['') (nat_str n) = []"
  using nat_str_no(2) [of n] by (auto simp: filter_empty_conv)

lemma count_part:
  assumes "i64_range (int n)"
  shows "split_once CHR ''='' (k # CHR ''='' # nat_str n) = (if k = CHR ''='' then Some ([], CHR ''='' # nat_str n) else Some ([k], nat_str n))"
    and "parse_i64 (nat_str n) = Some (int n)"
  using parse_i64_int_str [OF assms] by (auto simp: split_once_def int_str_def)

lemma trailer_counts:
  assumes "i64_range (int r)" "i64_range (int y)" "i64_range (int g)"
  shows "parse_counts [''r='' @ nat_str r, ''y='' @ nat_str y, ''g='' @ nat_str g] (None, None, None)
    = Some (Some (int r), Some (int y), Some (int g))"
  using assms by (simp add: count_part)

lemma trailer_words:
  assumes "d = ''approve'' \<or> d = ''request_changes''"
  shows "split_whitespace (d @ '' r='' @ nat_str r @ '' y='' @ nat_str y @ '' g='' @ nat_str g)
    = [d, ''r='' @ nat_str r, ''y='' @ nat_str y, ''g='' @ nat_str g]"
proof -
  have d: "list_all plain d" "d \<noteq> []" using assms by (auto simp: plain_def ws1_def)
  have w: "list_all plain (k # CHR ''='' # nat_str n)" if "plain k" for k n
    using that nat_str_plain [of n] by (simp add: plain_def ws1_def)
  have k: "plain CHR ''r''" "plain CHR ''y''" "plain CHR ''g''" by (simp_all add: plain_def ws1_def)
  show ?thesis
    using split_whitespace_space [OF d, of "''r='' @ nat_str r @ '' y='' @ nat_str y @ '' g='' @ nat_str g"]
      split_whitespace_space [OF w [OF k(1)], of r "''y='' @ nat_str y @ '' g='' @ nat_str g"]
      split_whitespace_space [OF w [OF k(2)], of y "''g='' @ nat_str g"]
      split_whitespace_word [OF w [OF k(3)], of g]
    by simp
qed

lemma parse_trailer_line:
  assumes "d = ''approve'' \<or> d = ''request_changes''"
    and "i64_range (int r)" "i64_range (int y)" "i64_range (int g)"
  shows "parse_verdict_trailer_line (trailer_line d r y g) =
    Some \<lparr>vt_decision = (if r > 0 \<or> y > 0 then ''request_changes'' else ''approve''),
      vt_red = Some (int r), vt_yellow = Some (int y), vt_green = Some (int g)\<rparr>"
proof -
  let ?body = "d @ '' r='' @ nat_str r @ '' y='' @ nat_str y @ '' g='' @ nat_str g"
  let ?tail = "''[verdict:'' @ ?body @ '']]''"
  have line: "trailer_line d r y g = CHR ''['' # ?tail"
    by (simp add: trailer_line_def VERDICT_OPEN_def)
  have "filter (\<lambda>x. x = CHR ''['') ?tail = [CHR ''['']"
    using assms(1) by (auto simp: filter_nat_str)
  then have "rfind_str VERDICT_OPEN ?tail = None"
    unfolding rfind_str_None using contains_str_count [of VERDICT_OPEN ?tail "CHR ''[''"] by (auto simp: VERDICT_OPEN_def)
  moreover have "starts_with VERDICT_OPEN (CHR ''['' # ?tail)"
    by (simp add: VERDICT_OPEN_def)
  ultimately have r0: "rfind_str VERDICT_OPEN (trailer_line d r y g) = Some 0"
    by (simp only: line rfind_str.simps option.case if_True)
  have rest: "drop (0 + length VERDICT_OPEN) (trailer_line d r y g) = ?body @ '']]'' @ []"
    by (simp add: trailer_line_def)
  have "CHR '']'' \<notin> set ?body" using assms(1) by (auto simp: nat_str_no)
  then have "length (filter (\<lambda>x. x = CHR '']'') (?body @ butlast '']]'')) = 1"
    by (simp add: filter_empty_conv) (auto simp: filter_empty_conv)
  then have "\<not> contains_str '']]'' (?body @ butlast '']]'')"
    using contains_str_count [of "'']]''" "?body @ butlast '']]''" "CHR '']''"] by auto
  then have f: "find_str '']]'' (?body @ '']]'' @ []) = Some (length ?body)"
    by (intro find_str_first) simp_all
  have "unwrap_or d (derived_decision (Some (int r)) (Some (int y)))
      = (if r > 0 \<or> y > 0 then ''request_changes'' else ''approve'')"
    by (simp add: derived_decision_def)
  moreover have "take (length ?body) (?body @ '']]'' @ []) = ?body"
    by (rule append_eq_conv_conj [THEN iffD1, THEN conjunct1, symmetric]) (rule refl)
  moreover have "\<not> (d \<noteq> ''approve'' \<and> d \<noteq> ''request_changes'')" using assms(1) by blast
  ultimately show ?thesis
    unfolding parse_verdict_trailer_line_def r0 option.case Let_def rest f trailer_words [OF assms(1)]
    using trailer_counts [OF assms(2-4)] trailer_words [OF assms(1)] by (simp only: list.case if_False option.case prod.case)
qed

text \<open>A trailer under a report without code fences is the verdict of the whole message.\<close>

lemma parse_report_with_trailer:
  assumes "\<not> contains_str FENCE report" and "d = ''approve'' \<or> d = ''request_changes''"
  shows "parse_verdict_trailer (report @ CHR 0x0A # trailer_line d r y g) =
    parse_verdict_trailer_line (trailer_line d r y g)"
proof -
  let ?t = "trailer_line d r y g"
  have t: "?t \<noteq> []" "CHR 0x0A \<notin> set ?t" "CHR 0x60 \<notin> set ?t"
    using assms(2) by (auto simp: trailer_line_def VERDICT_OPEN_def nat_str_no)
  have "\<not> contains_str FENCE ?t"
    using contains_str_char [of FENCE ?t "CHR 0x60"] t(3) by (auto simp: FENCE_def)
  then have "\<not> contains_str FENCE (report @ CHR 0x0A # ?t)"
    using assms(1) contains_str_sep [of "CHR 0x0A" FENCE report ?t] by (simp add: FENCE_def)
  moreover obtain ls where "str_lines (report @ CHR 0x0A # ?t) = ls @ [?t]"
    using str_lines_last [OF t(1, 2)] by blast
  moreover have "trim ?t = ?t"
    by (rule trim_plain)
      (simp_all add: trailer_line_def VERDICT_OPEN_def plain_def ws1_def is_continuation_def)
  ultimately show ?thesis
    using t(1) by (simp add: parse_verdict_trailer_def unfenced_plain next_back_def)
qed

section \<open>Properties of the verdict\<close>

text \<open>
  The decision of a parsed verdict agrees with its own finding counts: it is one of the two
  decisions, a positive red or yellow count always means \<open>request_changes\<close>, a full count of
  zero always means \<open>approve\<close>, and every count is a non-negative 64-bit number.
\<close>

theorem verdict_agrees_with_counts:
  assumes "parse_verdict_trailer text = Some t"
  shows "(vt_decision t = ''approve'' \<or> vt_decision t = ''request_changes'')
    \<and> (blocking t \<longrightarrow> vt_decision t = ''request_changes'')
    \<and> (vt_red t = Some 0 \<and> vt_yellow t = Some 0 \<longrightarrow> vt_decision t = ''approve'')
    \<and> count_ok (vt_red t) \<and> count_ok (vt_yellow t) \<and> count_ok (vt_green t)"
proof -
  from assms obtain line where "parse_verdict_trailer_line line = Some t"
    using parse_verdict_trailer_line_of by blast
  from parse_line_sound [OF this] show ?thesis by blast
qed

lemma trailer_example:
  "parse_verdict_trailer ''LGTM [[verdict:approve y=2]]'' =
    Some \<lparr>vt_decision = ''request_changes'', vt_red = None, vt_yellow = Some 2, vt_green = None\<rparr>"
  by code_simp

theorem verdict_agrees_with_counts_witness:
  "\<exists>t. parse_verdict_trailer ''LGTM [[verdict:approve y=2]]'' = Some t \<and> blocking t
    \<and> vt_decision t = ''request_changes''"
  using verdict_agrees_with_counts [OF trailer_example] trailer_example
  by (simp add: blocking_def)

text \<open>
  C39. The kernel's and the controller's independent trailer parsers give the same result on
  every text.
\<close>

theorem parsers_agree: "ctl_parse_verdict_trailer text = parse_verdict_trailer text"
  by (rule ctl_trailer_eq)

text \<open>
  A trailer printed in the documented form as the last line under a report without code
  fences is read back with exactly the printed counts, and with the decision the counts imply
  whatever decision the chair stamped.
\<close>

theorem trailer_roundtrip:
  assumes "\<not> contains_str FENCE report" and "d = ''approve'' \<or> d = ''request_changes''"
    and "i64_range (int r)" "i64_range (int y)" "i64_range (int g)"
  shows "parse_verdict_trailer (report @ CHR 0x0A # trailer_line d r y g) =
    Some \<lparr>vt_decision = (if r > 0 \<or> y > 0 then ''request_changes'' else ''approve''),
      vt_red = Some (int r), vt_yellow = Some (int y), vt_green = Some (int g)\<rparr>"
  using parse_report_with_trailer [OF assms(1, 2)] parse_trailer_line [OF assms(2-5)] by simp

theorem trailer_roundtrip_witness:
  "parse_verdict_trailer (''Report'' @ CHR 0x0A # trailer_line ''approve'' 0 1 12) =
    Some \<lparr>vt_decision = ''request_changes'', vt_red = Some 0, vt_yellow = Some 1, vt_green = Some 12\<rparr>"
  using trailer_roundtrip [of "''Report''" "''approve''" 0 1 12]
  by (simp add: FENCE_def i64_range_def)

text \<open>
  A verdict inside a code fence is never read: removing a closed fence block, or everything
  behind an unclosed fence, does not change the verdict.
\<close>

theorem fenced_text_is_no_verdict:
  assumes "\<not> contains_str FENCE a" and "a = [] \<or> last a \<noteq> CHR 0x60"
    and "\<not> contains_str FENCE b" and "b = [] \<or> last b \<noteq> CHR 0x60"
    and "\<not> contains_str FENCE c"
  shows "parse_verdict_trailer (a @ FENCE @ b) = parse_verdict_trailer a
    \<and> (unfenced_lines c = [] \<longrightarrow> parse_verdict_trailer (a @ FENCE @ b @ FENCE @ c) = parse_verdict_trailer a)
    \<and> (unfenced_lines c \<noteq> [] \<longrightarrow> parse_verdict_trailer (a @ FENCE @ b @ FENCE @ c) = parse_verdict_trailer c)"
  using unfenced_open [OF assms(1, 2, 3)] unfenced_block [OF assms(1-4), of c]
  by (simp add: parse_verdict_trailer_def next_back_def)

theorem fenced_text_is_no_verdict_witness:
  "parse_verdict_trailer (''ok'' @ FENCE @ ''[[verdict:approve]]'') = None"
  using fenced_text_is_no_verdict [of "''ok''" "''[[verdict:approve]]''" "[]"]
  by (simp add: FENCE_def) code_simp

end
