(* ===== verification/Session_Quorum.thy ===== *)
theory Session_Quorum
  imports Rust_Text
begin

text \<open>
  The session's lifecycle states and their database spelling (\<^verbatim>\<open>src/store.rs\<close>), the quorum
  rule (\<^verbatim>\<open>src/session.rs\<close>) and the fanout rule (\<^verbatim>\<open>src/routing.rs\<close>). Shown here: the
  spelling round trip, that the quorum count is the number of distinct rostered reviewers that
  voted (the chair never counts), and that votes only ever help.
\<close>

section \<open>Lifecycle states\<close>

datatype SessionState = Open | Deliberating | Quorum | Closed | Aborted

fun as_str :: "SessionState \<Rightarrow> string" where
  "as_str Open = ''open''"
| "as_str Deliberating = ''deliberating''"
| "as_str Quorum = ''quorum''"
| "as_str Closed = ''closed''"
| "as_str Aborted = ''aborted''"

definition from_db_str :: "string \<Rightarrow> SessionState" where
  "from_db_str s =
    (if s = ''deliberating'' then Deliberating
     else if s = ''quorum'' then Quorum
     else if s = ''closed'' then Closed
     else if s = ''aborted'' then Aborted
     else Open)"

lemma from_db_as_str [simp]: "from_db_str (as_str s) = s"
  by (cases s) (simp_all add: from_db_str_def)

lemma as_str_inj [simp]: "as_str a = as_str b \<longleftrightarrow> a = b"
  by (metis from_db_as_str)

abbreviation terminal :: "SessionState \<Rightarrow> bool" where
  "terminal s \<equiv> s = Closed \<or> s = Aborted"

text \<open>The order in which a session can move through its states.\<close>

fun phase :: "SessionState \<Rightarrow> nat" where
  "phase Open = 0"
| "phase Deliberating = 1"
| "phase Quorum = 2"
| "phase Closed = 3"
| "phase Aborted = 3"

instantiation SessionState :: linorder
begin

definition less_eq_SessionState :: "SessionState \<Rightarrow> SessionState \<Rightarrow> bool" where
  "less_eq_SessionState a b \<longleftrightarrow> phase a < phase b \<or> a = b \<or> (a = Closed \<and> b = Aborted)"

definition less_SessionState :: "SessionState \<Rightarrow> SessionState \<Rightarrow> bool" where
  "less_SessionState a b \<longleftrightarrow> phase a < phase b \<or> (a = Closed \<and> b = Aborted)"

instance
proof
  fix x y z :: SessionState
  show "(x < y) = (x \<le> y \<and> \<not> y \<le> x)"
    by (cases x; cases y) (simp_all add: less_SessionState_def less_eq_SessionState_def)
  show "x \<le> x" by (simp add: less_eq_SessionState_def)
  show "x \<le> y \<Longrightarrow> y \<le> z \<Longrightarrow> x \<le> z"
    by (cases x; cases y; cases z) (simp_all add: less_eq_SessionState_def)
  show "x \<le> y \<Longrightarrow> y \<le> x \<Longrightarrow> x = y"
    by (cases x; cases y) (simp_all add: less_eq_SessionState_def)
  show "x \<le> y \<or> y \<le> x"
    by (cases x; cases y) (simp_all add: less_eq_SessionState_def)
qed

end

section \<open>Quorum\<close>

record ReviewerCompletion =
  required_valid_reviewers :: int
  valid_reviewers :: int

definition reviewers :: "string list \<Rightarrow> string option \<Rightarrow> string list" where
  "reviewers roster chair = filter (\<lambda>b. Some b \<noteq> chair) roster"

definition quorum_reached :: "string list \<Rightarrow> string option \<Rightarrow> string list \<Rightarrow> int \<Rightarrow> bool" where
  "quorum_reached roster chair done_ids quorum_n =
    (let revs = reviewers roster chair;
         count = int (length (filter (\<lambda>r. r \<in> set done_ids) revs))
     in count \<ge> quorum_n)"

definition fanout_targets :: "string list \<Rightarrow> string option \<Rightarrow> string list" where
  "fanout_targets roster author = filter (\<lambda>b. Some b \<noteq> author) roster"

lemma set_reviewers [simp]: "set (reviewers roster chair) = set roster - set_option chair"
  by (cases chair) (auto simp: reviewers_def)

lemma distinct_reviewers [simp]: "distinct roster \<Longrightarrow> distinct (reviewers roster chair)"
  by (simp add: reviewers_def)

text \<open>On a roster without repetitions the count is the size of a set of reviewers.\<close>

lemma quorum_reached_card:
  assumes "distinct roster"
  shows "quorum_reached roster chair done_ids quorum_n \<longleftrightarrow>
    int (card ((set roster - set_option chair) \<inter> set done_ids)) \<ge> quorum_n"
proof -
  have "distinct (filter (\<lambda>r. r \<in> set done_ids) (reviewers roster chair))"
    using assms by simp
  then have "length (filter (\<lambda>r. r \<in> set done_ids) (reviewers roster chair)) =
      card ((set roster - set_option chair) \<inter> set done_ids)"
    by (simp only: distinct_card [symmetric] set_filter set_reviewers Int_def mem_Collect_eq)
  then show ?thesis by (simp add: quorum_reached_def Let_def)
qed

lemma length_filter_le_imp:
  "(\<And>x. x \<in> set xs \<Longrightarrow> P x \<Longrightarrow> Q x) \<Longrightarrow> length (filter P xs) \<le> length (filter Q xs)"
  by (induction xs) auto

lemma quorum_reached_mono:
  assumes "set done_ids \<subseteq> set done_ids'" and "quorum_reached roster chair done_ids n"
  shows "quorum_reached roster chair done_ids' n"
proof -
  have "length (filter (\<lambda>r. r \<in> set done_ids) (reviewers roster chair))
      \<le> length (filter (\<lambda>r. r \<in> set done_ids') (reviewers roster chair))"
    using assms(1) by (intro length_filter_le_imp) auto
  with assms(2) show ?thesis by (simp add: quorum_reached_def Let_def)
qed

text \<open>The chair's own vote and the votes of bots that are not rostered change nothing.\<close>

lemma quorum_reached_votes:
  "quorum_reached roster chair (filter (\<lambda>b. b \<in> set roster \<and> Some b \<noteq> chair) done_ids) n
    = quorum_reached roster chair done_ids n"
proof -
  have "filter (\<lambda>r. r \<in> set (filter (\<lambda>b. b \<in> set roster \<and> Some b \<noteq> chair) done_ids)) (reviewers roster chair)
      = filter (\<lambda>r. r \<in> set done_ids) (reviewers roster chair)"
    by (rule filter_cong) (auto simp: reviewers_def)
  then show ?thesis by (simp add: quorum_reached_def Let_def)
qed

lemma quorum_needs_votes:
  assumes "quorum_reached roster chair done_ids n" and "n > 0"
  shows "\<exists>r \<in> set roster. Some r \<noteq> chair \<and> r \<in> set done_ids"
proof (rule ccontr)
  assume "\<not> ?thesis"
  then have "filter (\<lambda>r. r \<in> set done_ids) (reviewers roster chair) = []"
    by (auto simp: filter_empty_conv reviewers_def)
  with assms show False by (simp add: quorum_reached_def Let_def)
qed

lemma fanout_targets_client [simp]: "fanout_targets roster None = roster"
  by (simp add: fanout_targets_def)

lemma fanout_targets_not_author: "b \<in> set (fanout_targets roster (Some a)) \<longleftrightarrow> b \<in> set roster \<and> b \<noteq> a"
  by (auto simp: fanout_targets_def)

end
