(* ===== verification/Coordination.thy ===== *)
theory Coordination
  imports Turn_Report Verdict_Trailer Session_Quorum
begin

text \<open>
  Coordination policy (\<^verbatim>\<open>src/coordinator.rs\<close> and \<^verbatim>\<open>src/plugins/triage/mod.rs\<close>). The read-only
  view \<open>Ctx\<close> is a record, the trait object \<open>Coordinator\<close> a record of its methods, each
  implementation a value of it. The locale \<open>policy\<close> is the contract the orchestrator relies
  on when it executes the returned actions; it is interpreted for all four coordinators.
\<close>

section \<open>The view, the actions and the trait\<close>

record Ctx =
  cx_session_id :: string
  cx_roster :: "string list"
  cx_chair :: "string option"
  cx_quorum_n :: int
  cx_done_voters :: "string list"
  cx_latest_settled :: "string \<Rightarrow> string option"
  cx_state :: SessionState
  cx_trigger_ref :: "string option"
  cx_synthesis_attempts :: int
  cx_chair_candidates :: "string list"

datatype Action =
    Relay string string
  | Prompt string string
  | Transition SessionState SessionState
  | Close SessionState string string
  | ReassignChair string
  | TrimReviewer string

record StructuredVerdict =
  sv_decision :: string
  sv_red :: "int option"
  sv_yellow :: "int option"
  sv_green :: "int option"

record Coordinator =
  kind :: string
  on_done :: "Ctx \<Rightarrow> string \<Rightarrow> Action list"
  on_done_attempts :: "Ctx \<Rightarrow> string \<Rightarrow> int \<Rightarrow> Action list"
  starters :: "string list \<Rightarrow> string option \<Rightarrow> string list"
  recipient_trigger_text :: "Ctx \<Rightarrow> string \<Rightarrow> string \<Rightarrow> string"
  reaction_counts_as_done :: "Ctx \<Rightarrow> string \<Rightarrow> bool"
  accepts_text_done :: "Ctx \<Rightarrow> string \<Rightarrow> string \<Rightarrow> bool"
  on_roster_change :: "Ctx \<Rightarrow> Action list"
  structured_verdict :: "Ctx \<Rightarrow> string \<Rightarrow> StructuredVerdict option"
  reopen_on_client_message :: bool

text \<open>The trait's default methods.\<close>

definition coordinator_defaults :: "string \<Rightarrow> (Ctx \<Rightarrow> string \<Rightarrow> Action list) \<Rightarrow> Coordinator" where
  "coordinator_defaults k od =
    \<lparr>kind = k,
     on_done = od,
     on_done_attempts = (\<lambda>cx bot_id _. od cx bot_id),
     starters = (\<lambda>roster _. roster),
     recipient_trigger_text = (\<lambda>_ _ t. t),
     reaction_counts_as_done = (\<lambda>_ _. True),
     accepts_text_done = (\<lambda>_ _ _. True),
     on_roster_change = (\<lambda>_. []),
     structured_verdict = (\<lambda>_ _. None),
     reopen_on_client_message = False\<rparr>"

section \<open>The report contract\<close>

definition verdict_contract :: "Ctx \<Rightarrow> bool \<Rightarrow> bool" where
  "verdict_contract cx explicit =
    (explicit \<or> (case cx_trigger_ref cx of None \<Rightarrow> False | Some t \<Rightarrow> starts_with ''controller:'' t))"

definition settled_report :: "Ctx \<Rightarrow> string \<Rightarrow> bool" where
  "settled_report cx bot_id =
    (case cx_latest_settled cx bot_id of None \<Rightarrow> False | Some t \<Rightarrow> report_delivered t)"

definition counted_done_voters :: "Ctx \<Rightarrow> bool \<Rightarrow> string list" where
  "counted_done_voters cx explicit =
    (let voters = cx_done_voters cx in
     if \<not> verdict_contract cx explicit then voters
     else filter (\<lambda>bot_id. settled_report cx bot_id) voters)"

definition quorum_actions_with_contract :: "Ctx \<Rightarrow> string \<Rightarrow> bool \<Rightarrow> Action list" where
  "quorum_actions_with_contract cx prompt verdict_required =
    (let chair = cx_chair cx;
         voters = counted_done_voters cx verdict_required
     in if quorum_reached (cx_roster cx) chair voters (cx_quorum_n cx)
        then [Transition Deliberating Quorum]
          @ (case chair of Some c \<Rightarrow> [Prompt c prompt] | None \<Rightarrow> [])
        else [])"

definition quorum_actions :: "Ctx \<Rightarrow> string \<Rightarrow> Action list" where
  "quorum_actions cx prompt = quorum_actions_with_contract cx prompt False"

definition reviewer_completion :: "Ctx \<Rightarrow> bool \<Rightarrow> ReviewerCompletion" where
  "reviewer_completion cx explicit =
    (let rostered_reviewers = reviewers (cx_roster cx) (cx_chair cx);
         valid = length (filter (\<lambda>bot_id. bot_id \<in> set rostered_reviewers) (counted_done_voters cx explicit))
     in \<lparr>required_valid_reviewers = cx_quorum_n cx, valid_reviewers = int valid\<rparr>)"

definition REVIEWER_REREQUEST_PREFIX :: string where
  "REVIEWER_REREQUEST_PREFIX = ''[report-delivery re-request]''"

definition MAX_REVIEWER_REREQUESTS :: int where
  "MAX_REVIEWER_REREQUESTS = 2"

definition reviewer_report_delivered :: "Ctx \<Rightarrow> string \<Rightarrow> bool \<Rightarrow> bool" where
  "reviewer_report_delivered cx bot_id explicit =
    (\<not> verdict_contract cx explicit \<or> settled_report cx bot_id)"

definition invalid_reviewer_action :: "string \<Rightarrow> int \<Rightarrow> Action" where
  "invalid_reviewer_action bot_id attempts =
    (if attempts \<ge> MAX_REVIEWER_REREQUESTS then TrimReviewer bot_id
     else let attempt = attempts + 1 in
       Prompt bot_id (REVIEWER_REREQUEST_PREFIX @ '' attempt '' @ int_str attempt
         @ ''. Your previous completion did not deliver a report. Reply with your concise findings and end the message with [done].''))"

section \<open>The quorum council\<close>

definition COUNCIL_QUORUM_PROMPT :: string where
  "COUNCIL_QUORUM_PROMPT = ''Quorum reached. Chair, synthesize the final verdict, complete any side effect required by the opening trigger, and only then end your final message with [done]. Do not send [done] before the required side effect succeeds.''"

definition MAX_SYNTHESIS_ATTEMPTS :: int where
  "MAX_SYNTHESIS_ATTEMPTS = 3"

definition chair_turn_errored :: "string \<Rightarrow> bool" where
  "chair_turn_errored settled = starts_with_runtime_error_banner settled"

definition EM_DASH :: string where
  "EM_DASH = [CHR 0xE2, CHR 0x80, CHR 0x94]"

definition synthesis_prompt :: "int \<Rightarrow> string" where
  "synthesis_prompt attempt =
    ''Quorum reached. (synthesis attempt '' @ int_str attempt
    @ '') The previous synthesis turn did not deliver a parseable verdict trailer '' @ EM_DASH
    @ '' it may have failed mid-turn. Synthesize the final verdict now from the reviewers'' @ [CHR 0x27]
    @ '' reports, complete any side effect required by the opening trigger, and only then end your final message with [done]. Your final message must contain the full report body and end with the machine-readable verdict trailer your steering defines.''"

definition requeue_synthesis :: "Ctx \<Rightarrow> string \<Rightarrow> Action list" where
  "requeue_synthesis cx failed_chair =
    (let candidates = cx_chair_candidates cx;
         nxt = unwrap_or failed_chair (find (\<lambda>c. c \<noteq> failed_chair) candidates);
         attempt = cx_synthesis_attempts cx + 1
     in (if nxt \<noteq> failed_chair
         then ReassignChair nxt
           # map (\<lambda>r. Relay r nxt) (filter (\<lambda>r. r \<noteq> nxt \<and> r \<noteq> failed_chair) (cx_done_voters cx))
         else [])
        @ [Prompt nxt (synthesis_prompt attempt)])"

text \<open>The three parts of the handler, in the order in which they push actions.\<close>

definition council_relay :: "Ctx \<Rightarrow> string \<Rightarrow> bool \<Rightarrow> int \<Rightarrow> Action list" where
  "council_relay cx bot_id verdict_required rerequest_attempts =
    (if Some bot_id \<noteq> cx_chair cx then
       if verdict_contract cx verdict_required \<and> \<not> reviewer_report_delivered cx bot_id verdict_required
       then [invalid_reviewer_action bot_id rerequest_attempts]
       else (case cx_chair cx of Some c \<Rightarrow> [Relay bot_id c] | None \<Rightarrow> [])
     else [])"

definition council_close :: "Ctx \<Rightarrow> string \<Rightarrow> bool \<Rightarrow> Action list" where
  "council_close cx bot_id verdict_required =
    (if Some bot_id = cx_chair cx \<and> cx_state cx = Quorum then
       let verdict = unwrap_or [] (cx_latest_settled cx bot_id);
           parseable = parse_verdict_trailer verdict \<noteq> None;
           failed = (\<not> parseable \<or> chair_turn_errored verdict)
       in if verdict_contract cx verdict_required \<and> failed
             \<and> cx_synthesis_attempts cx < MAX_SYNTHESIS_ATTEMPTS
          then requeue_synthesis cx bot_id
          else [Close Quorum bot_id verdict]
     else [])"

definition council_on_done_with_reviewer_rerequest_attempts ::
  "Ctx \<Rightarrow> string \<Rightarrow> string \<Rightarrow> bool \<Rightarrow> int \<Rightarrow> Action list" where
  "council_on_done_with_reviewer_rerequest_attempts cx bot_id prompt verdict_required rerequest_attempts =
    council_relay cx bot_id verdict_required rerequest_attempts
    @ quorum_actions_with_contract cx prompt verdict_required
    @ council_close cx bot_id verdict_required"

definition council_on_done :: "Ctx \<Rightarrow> string \<Rightarrow> string \<Rightarrow> bool \<Rightarrow> Action list" where
  "council_on_done cx bot_id prompt verdict_required =
    council_on_done_with_reviewer_rerequest_attempts cx bot_id prompt verdict_required 0"

definition parse_structured_verdict :: "Ctx \<Rightarrow> string \<Rightarrow> StructuredVerdict option" where
  "parse_structured_verdict cx verdict_text =
    (case parse_verdict_trailer verdict_text of
      Some t \<Rightarrow> Some \<lparr>sv_decision = vt_decision t, sv_red = vt_red t, sv_yellow = vt_yellow t, sv_green = vt_green t\<rparr>
    | None \<Rightarrow> None)"

definition QuorumCouncil :: Coordinator where
  "QuorumCouncil =
    (coordinator_defaults ''quorum_council'' (\<lambda>cx bot_id. council_on_done cx bot_id COUNCIL_QUORUM_PROMPT False))
    \<lparr>on_roster_change := (\<lambda>cx. quorum_actions cx COUNCIL_QUORUM_PROMPT),
     starters := (\<lambda>roster chair. filter (\<lambda>bot_id. Some bot_id \<noteq> chair) roster),
     on_done_attempts := (\<lambda>cx bot_id n.
       council_on_done_with_reviewer_rerequest_attempts cx bot_id COUNCIL_QUORUM_PROMPT False n),
     structured_verdict := parse_structured_verdict\<rparr>"

section \<open>Solo, pipeline and triage\<close>

definition solo_on_done :: "Ctx \<Rightarrow> string \<Rightarrow> Action list" where
  "solo_on_done cx bot_id = [Close Deliberating bot_id (unwrap_or [] (cx_latest_settled cx bot_id))]"

definition Solo :: Coordinator where
  "Solo = (coordinator_defaults ''solo'' solo_on_done) \<lparr>reopen_on_client_message := True\<rparr>"

fun position :: "'a \<Rightarrow> 'a list \<Rightarrow> nat option" where
  "position x [] = None"
| "position x (y # ys) = (if y = x then Some 0 else map_option Suc (position x ys))"

definition PIPELINE_PROMPT :: string where
  "PIPELINE_PROMPT = ''Your turn '' @ EM_DASH @ '' continue the review, building on the prior stage'' @ [CHR 0x27] @ ''s output above.''"

definition pipeline_on_done :: "Ctx \<Rightarrow> string \<Rightarrow> Action list" where
  "pipeline_on_done cx bot_id =
    (let roster = cx_roster cx in
     case position bot_id roster of
       None \<Rightarrow> []
     | Some i \<Rightarrow>
         if i + 1 < length roster
         then [Relay bot_id (roster ! (i + 1)), Prompt (roster ! (i + 1)) PIPELINE_PROMPT]
         else [Close Deliberating bot_id (unwrap_or [] (cx_latest_settled cx bot_id))])"

definition Pipeline :: Coordinator where
  "Pipeline = (coordinator_defaults ''pipeline'' pipeline_on_done)
    \<lparr>starters := (\<lambda>roster _. (case roster of [] \<Rightarrow> [] | b # _ \<Rightarrow> [b]))\<rparr>"

definition TRIAGE_QUORUM_PROMPT :: string where
  "TRIAGE_QUORUM_PROMPT = ''Quorum reached. Chair: post the complete triage report NOW as ONE message '' @ EM_DASH
    @ '' it must start with the word TRIAGE, contain the Likely Cause / Evidence / Suggested Next Actions / Confidence & Gaps sections, and end with [done] on its own final line. Do not run gh or any PR commands; there is no PR and no external side effect. The report itself is your done-signal.''"

definition TriageCouncil :: Coordinator where
  "TriageCouncil =
    (coordinator_defaults ''triage_council'' (\<lambda>cx bot_id. council_on_done cx bot_id TRIAGE_QUORUM_PROMPT False))
    \<lparr>starters := starters QuorumCouncil,
     reaction_counts_as_done := (\<lambda>cx bot_id. cx_chair cx \<noteq> Some bot_id),
     accepts_text_done := (\<lambda>cx bot_id t. cx_chair cx \<noteq> Some bot_id \<or> starts_with ''TRIAGE'' (trim_start t)),
     on_done_attempts := (\<lambda>cx bot_id n.
       council_on_done_with_reviewer_rerequest_attempts cx bot_id TRIAGE_QUORUM_PROMPT False n),
     on_roster_change := (\<lambda>cx. quorum_actions cx TRIAGE_QUORUM_PROMPT)\<rparr>"

definition lookup :: "string \<Rightarrow> Coordinator option" where
  "lookup mode =
    (if mode = ''council'' then Some QuorumCouncil
     else if mode = ''triage_council'' then Some TriageCouncil
     else if mode = ''solo'' then Some Solo
     else if mode = ''pipeline'' then Some Pipeline
     else None)"

section \<open>Interface: what the orchestrator relies on\<close>

text \<open>
  How an action moves the session's state when the orchestrator executes it: transitions and
  closes are compare-and-swap, everything else leaves the state alone.
\<close>

fun act_state :: "Action \<Rightarrow> SessionState \<Rightarrow> SessionState" where
  "act_state (Transition f t) s = (if s = f then t else s)"
| "act_state (Close f a v) s = (if s = f then Closed else s)"
| "act_state _ s = s"

fun is_close :: "Action \<Rightarrow> bool" where
  "is_close (Close f a v) = True"
| "is_close _ = False"

locale policy =
  fixes react :: "Ctx \<Rightarrow> string \<Rightarrow> Action list"
  assumes close_author: "Close f a v \<in> set (react cx b) \<Longrightarrow>
      a = b \<and> v = unwrap_or [] (cx_latest_settled cx b) \<and> f < Closed"
    and moves_forward: "Transition f t \<in> set (react cx b) \<Longrightarrow> f < t \<and> t < Closed"
    and one_close: "length (filter is_close (react cx b)) \<le> 1"
begin

lemma act_forward: "a \<in> set (react cx b) \<Longrightarrow> s \<le> act_state a s"
  by (cases a) (auto dest: close_author moves_forward)

lemma act_terminal: "a \<in> set (react cx b) \<Longrightarrow> terminal s \<Longrightarrow> act_state a s = s"
  by (cases a) (auto dest!: close_author moves_forward simp: less_SessionState_def)

lemma run_forward: "set as \<subseteq> set (react cx b) \<Longrightarrow> s \<le> fold act_state as s"
proof (induction as arbitrary: s)
  case (Cons a as)
  then have "s \<le> act_state a s" by (auto intro: act_forward)
  also have "\<dots> \<le> fold act_state as (act_state a s)" using Cons by simp
  finally show ?case by simp
qed simp

lemma run_terminal: "set as \<subseteq> set (react cx b) \<Longrightarrow> terminal s \<Longrightarrow> fold act_state as s = s"
  by (induction as) (auto simp: act_terminal)

text \<open>Over any history of done signals the state only moves forward, and stays once terminal.\<close>

lemma history_forward: "s \<le> fold (\<lambda>(cx, b). fold act_state (react cx b)) h s"
proof (induction h arbitrary: s)
  case (Cons x h)
  obtain cx b where x: "x = (cx, b)" by force
  have "s \<le> fold act_state (react cx b) s" by (rule run_forward [OF subset_refl])
  also have "\<dots> \<le> fold (\<lambda>(cx, b). fold act_state (react cx b)) h (fold act_state (react cx b) s)"
    by (rule Cons)
  finally show ?case by (simp add: x)
qed simp

lemma history_terminal: "terminal s \<Longrightarrow> fold (\<lambda>(cx, b). fold act_state (react cx b)) h s = s"
proof (induction h)
  case (Cons x h)
  obtain cx b where "x = (cx, b)" by force
  moreover have "fold act_state (react cx b) s = s" by (rule run_terminal [OF subset_refl Cons.prems])
  ultimately show ?case using Cons by simp
qed simp

end

section \<open>The four coordinators keep the contract\<close>

lemma requeue_actions:
  "a \<in> set (requeue_synthesis cx b) \<Longrightarrow>
    (\<exists>to. a = ReassignChair to) \<or> (\<exists>f to. a = Relay f to) \<or> (\<exists>to c. a = Prompt to c)"
  by (auto simp: requeue_synthesis_def Let_def split: if_splits)

lemma council_relay_actions:
  "a \<in> set (council_relay cx b vr n) \<Longrightarrow>
    (\<exists>t. a = TrimReviewer t) \<or> (\<exists>f to. a = Relay f to) \<or> (\<exists>to c. a = Prompt to c)"
  by (auto simp: council_relay_def invalid_reviewer_action_def Let_def split: if_splits option.splits)

lemma quorum_actions_set:
  "a \<in> set (quorum_actions_with_contract cx p vr) \<Longrightarrow>
    a = Transition Deliberating Quorum \<or> (\<exists>c. cx_chair cx = Some c \<and> a = Prompt c p)"
  by (auto simp: quorum_actions_with_contract_def Let_def split: if_splits option.splits)

lemma council_close_actions:
  assumes "a \<in> set (council_close cx b vr)"
  shows "a = Close Quorum b (unwrap_or [] (cx_latest_settled cx b))
    \<or> (\<exists>to. a = ReassignChair to) \<or> (\<exists>f to. a = Relay f to) \<or> (\<exists>to c. a = Prompt to c)"
  using assms requeue_actions [of a cx b]
  by (auto simp: council_close_def Let_def split: if_splits)

lemmas council_parts = council_relay_actions quorum_actions_set council_close_actions

lemma no_close_filter: "(\<And>a. a \<in> set as \<Longrightarrow> \<not> is_close a) \<Longrightarrow> filter is_close as = []"
  by (auto simp: filter_empty_conv)

lemma council_one_close: "length (filter is_close (council_on_done_with_reviewer_rerequest_attempts cx b p vr n)) \<le> 1"
proof -
  have "filter is_close (council_relay cx b vr n) = []"
    by (rule no_close_filter) (auto dest!: council_relay_actions)
  moreover have "filter is_close (quorum_actions_with_contract cx p vr) = []"
    by (rule no_close_filter) (auto dest!: quorum_actions_set)
  moreover have "filter is_close (requeue_synthesis cx b) = []"
    by (rule no_close_filter) (auto dest!: requeue_actions)
  then have "length (filter is_close (council_close cx b vr)) \<le> 1"
    by (simp add: council_close_def Let_def)
  ultimately show ?thesis
    by (simp add: council_on_done_with_reviewer_rerequest_attempts_def)
qed

interpretation council: policy "\<lambda>cx b. council_on_done_with_reviewer_rerequest_attempts cx b p vr n" for p vr n
proof
  fix f a v cx b
  assume "Close f a v \<in> set (council_on_done_with_reviewer_rerequest_attempts cx b p vr n)"
  then show "a = b \<and> v = unwrap_or [] (cx_latest_settled cx b) \<and> f < Closed"
    by (auto simp: council_on_done_with_reviewer_rerequest_attempts_def less_SessionState_def dest!: council_parts)
next
  fix f t cx b
  assume "Transition f t \<in> set (council_on_done_with_reviewer_rerequest_attempts cx b p vr n)"
  then show "f < t \<and> t < Closed"
    by (auto simp: council_on_done_with_reviewer_rerequest_attempts_def less_SessionState_def dest!: council_parts)
qed (rule council_one_close)

interpretation solo: policy solo_on_done
  by unfold_locales (auto simp: solo_on_done_def less_SessionState_def)

interpretation pipeline: policy pipeline_on_done
  by unfold_locales (auto simp: pipeline_on_done_def less_SessionState_def Let_def split: option.splits if_splits)

lemma lookup_policy:
  assumes "lookup mode = Some c"
  shows "policy (\<lambda>cx b. on_done_attempts c cx b n)"
proof -
  consider "c = QuorumCouncil" | "c = TriageCouncil" | "c = Solo" | "c = Pipeline"
    using assms by (auto simp: lookup_def split: if_splits)
  then show ?thesis
  proof cases
    case 1
    then show ?thesis using council.policy_axioms by (simp add: QuorumCouncil_def)
  next
    case 2
    then show ?thesis using council.policy_axioms by (simp add: TriageCouncil_def)
  next
    case 3
    then show ?thesis using solo.policy_axioms by (simp add: Solo_def coordinator_defaults_def)
  next
    case 4
    then show ?thesis using pipeline.policy_axioms by (simp add: Pipeline_def coordinator_defaults_def)
  qed
qed

section \<open>The council's decisions\<close>

lemma council_close_mem:
  "Close f a v \<in> set (council_on_done_with_reviewer_rerequest_attempts cx b p vr n) \<longleftrightarrow>
    Close f a v \<in> set (council_close cx b vr)"
  by (auto simp: council_on_done_with_reviewer_rerequest_attempts_def dest: council_relay_actions quorum_actions_set)

lemma council_close_iff:
  "Close f a v \<in> set (council_close cx b vr) \<longleftrightarrow>
    f = Quorum \<and> a = b \<and> v = unwrap_or [] (cx_latest_settled cx b) \<and> cx_chair cx = Some b \<and> cx_state cx = Quorum
    \<and> (verdict_contract cx vr \<longrightarrow> parse_verdict_trailer v \<noteq> None \<and> \<not> chair_turn_errored v
        \<or> MAX_SYNTHESIS_ATTEMPTS \<le> cx_synthesis_attempts cx)"
  by (auto simp: council_close_def Let_def dest: requeue_actions split: if_splits)

lemma council_transition_mem:
  "Transition f t \<in> set (council_on_done_with_reviewer_rerequest_attempts cx b p vr n) \<longleftrightarrow>
    f = Deliberating \<and> t = Quorum
    \<and> quorum_reached (cx_roster cx) (cx_chair cx) (counted_done_voters cx vr) (cx_quorum_n cx)"
  by (auto simp: council_on_done_with_reviewer_rerequest_attempts_def quorum_actions_with_contract_def Let_def
      dest: council_relay_actions council_close_actions split: option.splits)

lemma set_counted_done_voters:
  "set (counted_done_voters cx vr) =
    {b \<in> set (cx_done_voters cx). verdict_contract cx vr \<longrightarrow> settled_report cx b}"
  by (auto simp: counted_done_voters_def Let_def)

lemma distinct_counted [simp]: "distinct (cx_done_voters cx) \<Longrightarrow> distinct (counted_done_voters cx vr)"
  by (simp add: counted_done_voters_def Let_def)

text \<open>The evidence handed to a controller is the quorum count itself.\<close>

lemma completion_card:
  assumes "distinct (cx_done_voters cx)"
  shows "valid_reviewers (reviewer_completion cx vr) =
    int (card ((set (cx_roster cx) - set_option (cx_chair cx)) \<inter> set (counted_done_voters cx vr)))"
proof -
  let ?v = "filter (\<lambda>b. b \<in> set (reviewers (cx_roster cx) (cx_chair cx))) (counted_done_voters cx vr)"
  have "distinct ?v" using assms by simp
  then have "length ?v = card (set ?v)" by (simp only: distinct_card)
  moreover have "set ?v = (set (cx_roster cx) - set_option (cx_chair cx)) \<inter> set (counted_done_voters cx vr)"
    by auto
  ultimately have "length ?v = card ((set (cx_roster cx) - set_option (cx_chair cx)) \<inter> set (counted_done_voters cx vr))"
    by simp
  then show ?thesis by (simp add: reviewer_completion_def Let_def)
qed

lemma completion_iff_quorum:
  assumes "distinct (cx_roster cx)" and "distinct (cx_done_voters cx)"
  shows "required_valid_reviewers (reviewer_completion cx vr) \<le> valid_reviewers (reviewer_completion cx vr) \<longleftrightarrow>
    quorum_reached (cx_roster cx) (cx_chair cx) (counted_done_voters cx vr) (cx_quorum_n cx)"
  using assms by (simp add: completion_card quorum_reached_card)
    (simp add: reviewer_completion_def Let_def)

text \<open>The synthesis retries end: the attempt number in the prompt never exceeds the limit.\<close>

lemma requeue_bounded:
  assumes "Prompt c t \<in> set (council_close cx b vr)" and "0 \<le> cx_synthesis_attempts cx"
  shows "\<exists>k. 1 \<le> k \<and> k \<le> MAX_SYNTHESIS_ATTEMPTS \<and> t = synthesis_prompt k \<and> k = cx_synthesis_attempts cx + 1"
  using assms by (auto simp: council_close_def requeue_synthesis_def Let_def split: if_splits)

lemma requeue_hands_over:
  assumes "ReassignChair c \<in> set (council_close cx b vr)"
  shows "c \<noteq> b \<and> c \<in> set (cx_chair_candidates cx)
    \<and> (\<forall>r \<in> set (cx_done_voters cx) - {b, c}. Relay r c \<in> set (council_close cx b vr))"
proof -
  have q: "council_close cx b vr = requeue_synthesis cx b"
    and m: "ReassignChair c \<in> set (requeue_synthesis cx b)"
    using assms by (auto simp: council_close_def Let_def split: if_splits)
  obtain d where d: "find (\<lambda>c. c \<noteq> b) (cx_chair_candidates cx) = Some d" "c = d" "d \<noteq> b"
    using m by (cases "find (\<lambda>c. c \<noteq> b) (cx_chair_candidates cx)")
      (auto simp: requeue_synthesis_def Let_def split: if_splits dest: find_SomeD)
  then show ?thesis
    unfolding q using find_SomeD [OF d(1)] by (auto simp: requeue_synthesis_def Let_def)
qed

section \<open>Pipelines\<close>

lemma position_nth: "distinct xs \<Longrightarrow> i < length xs \<Longrightarrow> position (xs ! i) xs = Some i"
proof (induction xs arbitrary: i)
  case (Cons x xs)
  then show ?case by (cases i) (auto simp: nth_mem)
qed simp

lemma pipeline_stage:
  assumes "distinct (cx_roster cx)" and "i < length (cx_roster cx)"
  shows "pipeline_on_done cx (cx_roster cx ! i) =
    (if Suc i < length (cx_roster cx)
     then [Relay (cx_roster cx ! i) (cx_roster cx ! Suc i), Prompt (cx_roster cx ! Suc i) PIPELINE_PROMPT]
     else [Close Deliberating (cx_roster cx ! i) (unwrap_or [] (cx_latest_settled cx (cx_roster cx ! i)))])"
  using assms by (simp add: pipeline_on_done_def position_nth Let_def)

section \<open>Properties of the coordinators\<close>

text \<open>
  C40. The council closes a session exactly when its chair signals done in state \<open>Quorum\<close>, with
  the chair's latest settled text as the verdict; under a verdict contract only when that text
  has a parseable trailer and no error banner, or the synthesis attempts are used up.
\<close>

theorem council_closes_iff:
  "Close f a v \<in> set (council_on_done_with_reviewer_rerequest_attempts cx b p vr n) \<longleftrightarrow>
    f = Quorum \<and> a = b \<and> v = unwrap_or [] (cx_latest_settled cx b) \<and> cx_chair cx = Some b \<and> cx_state cx = Quorum
    \<and> (\<not> verdict_contract cx vr \<or> (parse_verdict_trailer v \<noteq> None \<and> \<not> chair_turn_errored v)
        \<or> MAX_SYNTHESIS_ATTEMPTS \<le> cx_synthesis_attempts cx)"
  unfolding council_close_mem council_close_iff by blast

definition example_ctx :: Ctx where
  "example_ctx = \<lparr>cx_session_id = ''s1'', cx_roster = [''chair'', ''r1'', ''r2''], cx_chair = Some ''chair'',
    cx_quorum_n = 1, cx_done_voters = [''chair'', ''r1'', ''r2''],
    cx_latest_settled = (\<lambda>b. if b = ''r1'' then Some ''Two defects were found in the parser.'' else None),
    cx_state = Quorum, cx_trigger_ref = Some ''controller:x'', cx_synthesis_attempts = 0,
    cx_chair_candidates = [''chair'', ''c2'']\<rparr>"

theorem council_closes_iff_witness:
  "Close Quorum ''chair'' [] \<in> set (council_on_done_with_reviewer_rerequest_attempts
      (example_ctx\<lparr>cx_synthesis_attempts := 3\<rparr>) ''chair'' ''prompt'' False 0)
    \<and> Close Quorum ''chair'' [] \<notin> set (council_on_done_with_reviewer_rerequest_attempts
      example_ctx ''chair'' ''prompt'' False 0)"
proof -
  have n: "parse_verdict_trailer [] = None" by code_simp
  have c: "verdict_contract example_ctx False"
    by (simp add: example_ctx_def verdict_contract_def)
  show ?thesis
    unfolding council_closes_iff using n c by (simp add: example_ctx_def MAX_SYNTHESIS_ATTEMPTS_def)
qed

lemma example_counted: "counted_done_voters example_ctx False = [''r1'']"
  by code_simp

lemma counted_reviewers_set:
  "{r \<in> set (cx_roster cx). Some r \<noteq> cx_chair cx \<and> r \<in> set (cx_done_voters cx)
      \<and> (verdict_contract cx vr \<longrightarrow> settled_report cx r)} =
    (set (cx_roster cx) - set_option (cx_chair cx)) \<inter> set (counted_done_voters cx vr)"
  by (cases "cx_chair cx") (auto simp: set_counted_done_voters)

text \<open>
  The council enters \<open>Quorum\<close> exactly when at least \<open>quorum_n\<close> distinct rostered
  reviewers, none of them the chair, have voted done and, under a verdict contract, have a
  settled text that passes the report gate.
\<close>

theorem council_quorum_iff:
  assumes "distinct (cx_roster cx)"
  shows "Transition Deliberating Quorum \<in> set (council_on_done_with_reviewer_rerequest_attempts cx b p vr n) \<longleftrightarrow>
    cx_quorum_n cx \<le> int (card {r \<in> set (cx_roster cx). Some r \<noteq> cx_chair cx \<and> r \<in> set (cx_done_voters cx)
      \<and> (verdict_contract cx vr \<longrightarrow> settled_report cx r)})"
  using assms by (simp only: council_transition_mem quorum_reached_card simp_thms counted_reviewers_set)

theorem council_quorum_iff_witness:
  "Transition Deliberating Quorum \<in>
    set (council_on_done_with_reviewer_rerequest_attempts example_ctx ''r1'' ''prompt'' False 0)"
proof -
  have "(set (cx_roster example_ctx) - set_option (cx_chair example_ctx))
      \<inter> set (counted_done_voters example_ctx False) = {''r1''}"
    unfolding example_counted by (simp add: example_ctx_def)
  moreover have "distinct (cx_roster example_ctx)" by (simp add: example_ctx_def)
  ultimately show ?thesis
    using council_quorum_iff [of example_ctx "''r1''" "''prompt''" False 0]
    by (simp only: counted_reviewers_set) (simp add: example_ctx_def)
qed

text \<open>
  The reviewer evidence a controller receives is consistent with the kernel's own gate: the
  valid count reaches the required count exactly when quorum is reached, and it never exceeds the
  number of rostered reviewers.
\<close>

theorem completion_matches_quorum:
  assumes "distinct (cx_roster cx)" and "distinct (cx_done_voters cx)"
  shows "(required_valid_reviewers (reviewer_completion cx vr) \<le> valid_reviewers (reviewer_completion cx vr) \<longleftrightarrow>
      quorum_reached (cx_roster cx) (cx_chair cx) (counted_done_voters cx vr) (cx_quorum_n cx))
    \<and> valid_reviewers (reviewer_completion cx vr) \<le> int (length (reviewers (cx_roster cx) (cx_chair cx)))"
proof
  have "card ((set (cx_roster cx) - set_option (cx_chair cx)) \<inter> set (counted_done_voters cx vr))
      \<le> card (set (reviewers (cx_roster cx) (cx_chair cx)))"
    by (intro card_mono) auto
  also have "\<dots> \<le> length (reviewers (cx_roster cx) (cx_chair cx))" by (rule card_length)
  finally show "valid_reviewers (reviewer_completion cx vr) \<le> int (length (reviewers (cx_roster cx) (cx_chair cx)))"
    by (simp only: completion_card [OF assms(2)] of_nat_le_iff)
qed (rule completion_iff_quorum [OF assms])

theorem completion_matches_quorum_witness:
  "valid_reviewers (reviewer_completion example_ctx False) = 1 \<and>
    quorum_reached (cx_roster example_ctx) (cx_chair example_ctx) [''r1''] 1"
proof -
  have v: "valid_reviewers (reviewer_completion example_ctx False) = 1"
    "required_valid_reviewers (reviewer_completion example_ctx False) = 1"
    by (simp_all add: reviewer_completion_def example_counted Let_def) (simp_all add: example_ctx_def reviewers_def)
  moreover have "distinct (cx_roster example_ctx)" "distinct (cx_done_voters example_ctx)"
    by (simp_all add: example_ctx_def)
  ultimately show ?thesis
    using completion_matches_quorum [of example_ctx False] by (simp add: example_counted) (simp add: example_ctx_def)
qed

text \<open>
  Whatever coordinator a mode selects, the actions of any history of done signals move the
  session's state only forward, and leave a closed or aborted session as it is; each signal closes
  at most once and only in the signaller's name.
\<close>

theorem coordinators_move_forward:
  assumes "lookup mode = Some c"
  shows "s \<le> fold (\<lambda>(cx, b). fold act_state (on_done_attempts c cx b n)) h s
    \<and> (terminal s \<longrightarrow> fold (\<lambda>(cx, b). fold act_state (on_done_attempts c cx b n)) h s = s)
    \<and> length (filter is_close (on_done_attempts c cx b n)) \<le> 1
    \<and> (Close f a v \<in> set (on_done_attempts c cx b n) \<longrightarrow> a = b)"
proof (intro conjI impI)
  note pol = lookup_policy [OF assms, of n]
  show "s \<le> fold (\<lambda>(cx, b). fold act_state (on_done_attempts c cx b n)) h s"
    by (rule policy.history_forward [OF pol])
  show "terminal s \<Longrightarrow> fold (\<lambda>(cx, b). fold act_state (on_done_attempts c cx b n)) h s = s"
    by (rule policy.history_terminal [OF pol])
  show "length (filter is_close (on_done_attempts c cx b n)) \<le> 1"
    by (rule policy.one_close [OF pol])
  show "Close f a v \<in> set (on_done_attempts c cx b n) \<Longrightarrow> a = b"
    using policy.close_author [OF pol] by blast
qed

theorem coordinators_move_forward_witness:
  "Deliberating \<le> fold act_state (on_done_attempts Solo example_ctx ''r1'' 0) Deliberating
    \<and> fold act_state (on_done_attempts Solo example_ctx ''r1'' 0) Deliberating = Closed"
proof -
  have "lookup ''solo'' = Some Solo" by (simp add: lookup_def)
  from coordinators_move_forward [OF this, of Deliberating 0 "[(example_ctx, ''r1'')]"]
  show ?thesis by (simp add: Solo_def coordinator_defaults_def solo_on_done_def)
qed

text \<open>
  A reviewer that keeps signalling done without a report is asked again at most twice under a
  verdict contract, then trimmed; its text is never relayed to the chair.
\<close>

theorem reviewer_rerequests_bounded:
  assumes "verdict_contract cx vr" and "\<not> settled_report cx b" and "cx_chair cx \<noteq> Some b"
  shows "council_relay cx b vr n =
      (if n < MAX_REVIEWER_REREQUESTS then [invalid_reviewer_action b n] else [TrimReviewer b])
    \<and> (\<forall>c. Relay b c \<notin> set (council_on_done_with_reviewer_rerequest_attempts cx b p vr n))"
proof -
  have "Some b \<noteq> cx_chair cx" using assms(3) by metis
  moreover from this have "council_close cx b vr = []" by (simp add: council_close_def)
  ultimately show ?thesis
    using assms quorum_actions_set [of "Relay b _" cx p vr]
    by (auto simp: council_relay_def reviewer_report_delivered_def invalid_reviewer_action_def
        council_on_done_with_reviewer_rerequest_attempts_def Let_def)
qed

theorem reviewer_rerequests_bounded_witness:
  "council_relay example_ctx ''r2'' False 2 = [TrimReviewer ''r2'']"
proof -
  have "verdict_contract example_ctx False" "\<not> settled_report example_ctx ''r2''" "cx_chair example_ctx \<noteq> Some ''r2''"
    by (simp_all add: example_ctx_def verdict_contract_def settled_report_def)
  from reviewer_rerequests_bounded [OF this, of 2] show ?thesis
    by (simp add: MAX_REVIEWER_REREQUESTS_def)
qed

text \<open>
  A pipeline hands the work from each stage to the next and to nobody else, and the last
  stage's done is the only one that closes the session.
\<close>

theorem pipeline_hands_over:
  assumes "distinct (cx_roster cx)" and "i < length (cx_roster cx)"
  shows "pipeline_on_done cx (cx_roster cx ! i) =
    (if Suc i < length (cx_roster cx)
     then [Relay (cx_roster cx ! i) (cx_roster cx ! Suc i), Prompt (cx_roster cx ! Suc i) PIPELINE_PROMPT]
     else [Close Deliberating (cx_roster cx ! i) (unwrap_or [] (cx_latest_settled cx (cx_roster cx ! i)))])"
  by (rule pipeline_stage [OF assms])

theorem pipeline_hands_over_witness:
  "pipeline_on_done example_ctx ''r2'' = [Close Deliberating ''r2'' []]"
  using pipeline_hands_over [of example_ctx 2] by (simp add: example_ctx_def)

end
