(* ===== verification/Controller_Protocol.thy ===== *)
theory Controller_Protocol
  imports Rust_Text "HOL-Library.Word"
begin

text \<open>
  The data contract between the kernel and its external controllers
  (\<^verbatim>\<open>crates/controller-protocol/src/lib.rs\<close>) and the shared audit journal envelope
  (\<^verbatim>\<open>crates/controller-protocol/src/audit.rs\<close>). JSON values are a datatype; maps that serialise in
  key order are association lists. Shown here: version negotiation picks the highest mutual
  version, the audit outcome and cursor encodings round-trip, and what validation guarantees.
\<close>

section \<open>JSON values\<close>

datatype json =
    JNull
  | JBool bool
  | JNum int
  | JStr string
  | JArr "json list"
  | JObj "(string \<times> json) list"

definition jopt :: "string option \<Rightarrow> json" where
  "jopt x = (case x of None \<Rightarrow> JNull | Some s \<Rightarrow> JStr s)"

definition jopt_num :: "int option \<Rightarrow> json" where
  "jopt_num x = (case x of None \<Rightarrow> JNull | Some n \<Rightarrow> JNum n)"

definition jstrs :: "string list \<Rightarrow> json" where
  "jstrs xs = JArr (map JStr xs)"

section \<open>Versions\<close>

type_synonym u16 = "16 word"

definition CURRENT_VERSION :: u16 where
  "CURRENT_VERSION = 1"

definition SUPPORTED_VERSIONS :: "u16 list" where
  "SUPPORTED_VERSIONS = [CURRENT_VERSION]"

record VersionOffer =
  supported_versions :: "u16 list"

fun list_max :: "'a::linorder list \<Rightarrow> 'a option" where
  "list_max [] = None"
| "list_max (x # xs) = (case list_max xs of None \<Rightarrow> Some x | Some y \<Rightarrow> Some (max x y))"

definition highest_mutual_version :: "u16 list \<Rightarrow> VersionOffer \<Rightarrow> u16 option" where
  "highest_mutual_version supported peer =
    list_max (filter (\<lambda>version. version \<in> set (supported_versions peer)) supported)"

definition negotiate_version :: "VersionOffer \<Rightarrow> u16 option" where
  "negotiate_version peer = highest_mutual_version SUPPORTED_VERSIONS peer"

section \<open>Actions, results and errors\<close>

record OpenSessionAction =
  osa_title :: string
  osa_trigger_ref :: "string option"
  osa_trigger_fingerprint :: "string option"
  osa_roster :: "string list"
  osa_quorum_n :: int
  osa_chair_bot :: "string option"
  osa_mode :: string
  osa_prompt :: string
  osa_recipient_inputs :: "(string \<times> string) list"

record PostMessageAction =
  pma_session_id :: string
  pma_content :: string

record AddRosterAction =
  ara_session_id :: string
  ara_bots :: "string list"
  ara_recipient_inputs :: "(string \<times> string) list"

record CloseSessionAction =
  csa_session_id :: string
  csa_reason :: string

record EmitStatusAction =
  esa_session_id :: string
  esa_target :: string
  esa_body :: string

datatype ControllerAction =
    OpenSession OpenSessionAction
  | PostMessage PostMessageAction
  | AddRoster AddRosterAction
  | CloseSession CloseSessionAction
  | EmitStatus EmitStatusAction

record ActionEnvelope =
  ae_version :: u16
  ae_action_id :: string
  ae_action :: ControllerAction

datatype ControllerActionResult =
    SessionOpened string bool
  | Superseded string string
  | MessagePosted string
  | RosterAdded string "string list" "string list"
  | SessionClosed string bool
  | StatusEmitted string string

record ActionResultEnvelope =
  are_version :: u16
  are_action_id :: string
  are_result :: ControllerActionResult

datatype ErrorCode =
    InvalidRequest | UnsupportedVersion | Unauthorized | Forbidden | NotFound | Gone
  | Conflict | RateLimited | Internal

record ProtocolError =
  pe_code :: ErrorCode
  pe_message :: string
  pe_retryable :: bool

record ErrorEnvelope =
  ee_version :: u16
  ee_action_id :: "string option"
  ee_error :: ProtocolError

definition unsupported_version :: "string option \<Rightarrow> u16 \<Rightarrow> ErrorEnvelope" where
  "unsupported_version action_id requested =
    \<lparr>ee_version = CURRENT_VERSION, ee_action_id = action_id,
     ee_error = \<lparr>pe_code = UnsupportedVersion,
       pe_message = ''unsupported protocol version '' @ nat_str (unat requested) @ ''; supported versions: ''
         @ join '','' (map (\<lambda>v. nat_str (unat v)) SUPPORTED_VERSIONS),
       pe_retryable = False\<rparr>\<rparr>"

section \<open>The audit envelope\<close>

definition AUDIT_EVENT_VERSION :: u16 where
  "AUDIT_EVENT_VERSION = 1"

definition DEFAULT_PAGE_LIMIT :: nat where
  "DEFAULT_PAGE_LIMIT = 100"

definition MAX_PAGE_LIMIT :: nat where
  "MAX_PAGE_LIMIT = 500"

datatype AuditOutcome =
    APending | AAccepted | AIgnored | ADenied | ASucceeded | AFailed | ARetryScheduled
  | AOutcomeUnknown | AReconciled

fun audit_outcome_str :: "AuditOutcome \<Rightarrow> string" where
  "audit_outcome_str APending = ''pending''"
| "audit_outcome_str AAccepted = ''accepted''"
| "audit_outcome_str AIgnored = ''ignored''"
| "audit_outcome_str ADenied = ''denied''"
| "audit_outcome_str ASucceeded = ''succeeded''"
| "audit_outcome_str AFailed = ''failed''"
| "audit_outcome_str ARetryScheduled = ''retry_scheduled''"
| "audit_outcome_str AOutcomeUnknown = ''outcome_unknown''"
| "audit_outcome_str AReconciled = ''reconciled''"

definition audit_outcome_parse :: "string \<Rightarrow> AuditOutcome option" where
  "audit_outcome_parse s =
    (if s = ''pending'' then Some APending
     else if s = ''accepted'' then Some AAccepted
     else if s = ''ignored'' then Some AIgnored
     else if s = ''denied'' then Some ADenied
     else if s = ''succeeded'' then Some ASucceeded
     else if s = ''failed'' then Some AFailed
     else if s = ''retry_scheduled'' then Some ARetryScheduled
     else if s = ''outcome_unknown'' then Some AOutcomeUnknown
     else if s = ''reconciled'' then Some AReconciled
     else None)"

record AuditCorrelation =
  ac_delivery_id :: "string option"
  ac_controller_id :: "string option"
  ac_action_id :: "string option"
  ac_scope :: "string option"
  ac_trigger_ref :: "string option"
  ac_trigger_fingerprint :: "string option"
  ac_session_id :: "string option"
  ac_message_id :: "string option"
  ac_runtime_event_id :: "string option"
  ac_write_id :: "string option"

definition correlation_default :: AuditCorrelation where
  "correlation_default = \<lparr>ac_delivery_id = None, ac_controller_id = None, ac_action_id = None, ac_scope = None,
    ac_trigger_ref = None, ac_trigger_fingerprint = None, ac_session_id = None, ac_message_id = None,
    ac_runtime_event_id = None, ac_write_id = None\<rparr>"

record AuditActor =
  aa_kind :: string
  aa_id :: "string option"
  aa_display :: "string option"
  aa_association :: "string option"

record AuditTarget =
  at_kind :: string
  at_reference :: "string option"
  at_revision :: "string option"

record AuditError =
  aerr_class :: string
  aerr_retryable :: bool
  aerr_message :: "string option"
  aerr_status :: "int option"

record AuditEvent =
  av_version :: u16
  av_event_id :: string
  av_event_key :: string
  av_occurred_at :: int
  av_recorded_at :: int
  av_service :: string
  av_kind :: string
  av_outcome :: AuditOutcome
  av_caused_by :: "string option"
  av_correlation :: AuditCorrelation
  av_actor :: "AuditActor option"
  av_target :: "AuditTarget option"
  av_detail :: json
  av_error :: "AuditError option"

text \<open>The loop over the four named fields stops at the first one out of bounds.\<close>

fun validate_fields :: "(string \<times> string) list \<Rightarrow> string + unit" where
  "validate_fields [] = Inr ()"
| "validate_fields ((name, val) # rest) =
    (if val = [] \<or> 256 < length val
     then Inl (''audit '' @ name @ '' must be 1..=256 bytes'')
     else validate_fields rest)"

definition validate :: "AuditEvent \<Rightarrow> string + unit" where
  "validate e =
    (if av_version e \<noteq> AUDIT_EVENT_VERSION
     then Inl (''unsupported audit event version '' @ nat_str (unat (av_version e)))
     else bindE (validate_fields [(''event_id'', av_event_id e), (''event_key'', av_event_key e),
                                  (''service'', av_service e), (''kind'', av_kind e)]) (\<lambda>_.
       if av_occurred_at e < 0 \<or> av_recorded_at e < 0
       then Inl ''audit timestamps must be non-negative unix milliseconds''
       else if trim (av_kind e) \<noteq> av_kind e \<or> trim (av_event_key e) \<noteq> av_event_key e
       then Inl ''audit kind and event_key must not have surrounding whitespace''
       else Inr ()))"

record AuditEventRecord =
  aer_seq :: int
  aer_event :: AuditEvent

record AuditCursor =
  cur_recorded_at :: int
  cur_seq :: int

definition encode :: "AuditCursor \<Rightarrow> string" where
  "encode c = int_str (cur_recorded_at c) @ '':'' @ int_str (cur_seq c)"

definition decode :: "string \<Rightarrow> AuditCursor option" where
  "decode s =
    (case split_once CHR '':'' s of
      None \<Rightarrow> None
    | Some (recorded_at, sq) \<Rightarrow>
        Option.bind (parse_i64 recorded_at) (\<lambda>r.
        Option.bind (parse_i64 sq) (\<lambda>q. Some \<lparr>cur_recorded_at = r, cur_seq = q\<rparr>)))"

record AuditEventQuery =
  q_delivery_id :: "string option"
  q_controller_id :: "string option"
  q_action_id :: "string option"
  q_runtime_event_id :: "string option"
  q_session_id :: "string option"
  q_message_id :: "string option"
  q_write_id :: "string option"
  q_trigger_ref :: "string option"
  q_kind :: "string option"
  q_since :: "int option"
  q_until :: "int option"
  q_cursor :: "AuditCursor option"
  q_limit :: nat

definition bounded_limit :: "AuditEventQuery \<Rightarrow> nat" where
  "bounded_limit q = (if q_limit q = 0 then DEFAULT_PAGE_LIMIT else min (q_limit q) MAX_PAGE_LIMIT)"

section \<open>Lemmas\<close>

lemma list_max_None [simp]: "list_max xs = None \<longleftrightarrow> xs = []"
  by (cases xs) (auto split: option.splits)

lemma list_max_SomeD: "list_max xs = Some m \<Longrightarrow> m \<in> set xs \<and> (\<forall>x \<in> set xs. x \<le> m)"
proof (induction xs arbitrary: m)
  case (Cons x xs)
  then show ?case by (cases "list_max xs") (auto simp: max_def split: if_splits)
qed simp

lemma outcome_parse_str [simp]: "audit_outcome_parse (audit_outcome_str x) = Some x"
  by (cases x) (simp_all add: audit_outcome_parse_def)

lemma outcome_str_parse: "audit_outcome_parse s = Some x \<Longrightarrow> audit_outcome_str x = s"
  by (auto simp: audit_outcome_parse_def split: if_splits)

lemma int_str_no_colon: "CHR '':'' \<notin> set (int_str i)"
proof -
  have "CHR '':'' \<notin> set (nat_str n)" for n
    using nat_str_digits [of n] is_digit_neq(3) by (auto simp: list_all_iff)
  then show ?thesis by (simp add: int_str_def)
qed

lemma validate_Inr_iff:
  "validate e = Inr () \<longleftrightarrow> av_version e = 1
    \<and> (\<forall>s \<in> {av_event_id e, av_event_key e, av_service e, av_kind e}. 1 \<le> length s \<and> length s \<le> 256)
    \<and> 0 \<le> av_occurred_at e \<and> 0 \<le> av_recorded_at e
    \<and> trim (av_kind e) = av_kind e \<and> trim (av_event_key e) = av_event_key e"
  by (auto simp: validate_def AUDIT_EVENT_VERSION_def Suc_le_eq)

section \<open>Properties\<close>

text \<open>
  Version negotiation answers with the highest version both sides list, and with nothing
  exactly when they share none.
\<close>

theorem negotiation_is_highest_mutual:
  "case highest_mutual_version supported peer of
     None \<Rightarrow> set supported \<inter> set (supported_versions peer) = {}
   | Some v \<Rightarrow> v \<in> set supported \<inter> set (supported_versions peer)
       \<and> Max (set supported \<inter> set (supported_versions peer)) = v"
proof (cases "highest_mutual_version supported peer")
  case None
  then show ?thesis by (auto simp: highest_mutual_version_def filter_empty_conv)
next
  case (Some v)
  then have "v \<in> set supported \<inter> set (supported_versions peer)"
    and "\<forall>x \<in> set supported \<inter> set (supported_versions peer). x \<le> v"
    by (auto simp: highest_mutual_version_def dest!: list_max_SomeD)
  then show ?thesis using Some by (auto intro!: Max_eqI)
qed

text \<open>
  Every audit page cursor with 64-bit fields survives encoding and decoding, and the page
  size a query gets is between one and the maximum.
\<close>

theorem audit_cursor_roundtrip:
  assumes "i64_range (cur_recorded_at c)" and "i64_range (cur_seq c)"
  shows "decode (encode c) = Some c \<and> 1 \<le> bounded_limit q \<and> bounded_limit q \<le> MAX_PAGE_LIMIT"
  using assms split_once_append [OF int_str_no_colon, of "cur_recorded_at c" "int_str (cur_seq c)"]
  by (simp add: encode_def decode_def parse_i64_int_str bounded_limit_def DEFAULT_PAGE_LIMIT_def
      MAX_PAGE_LIMIT_def)

theorem audit_cursor_roundtrip_witness:
  "decode (encode \<lparr>cur_recorded_at = - 7, cur_seq = 42\<rparr>) = Some \<lparr>cur_recorded_at = - 7, cur_seq = 42\<rparr>"
  using audit_cursor_roundtrip [of "\<lparr>cur_recorded_at = - 7, cur_seq = 42\<rparr>"]
  by (simp add: i64_range_def)

end
