(* ===== verification/Store_Tables.thy ===== *)
theory Store_Tables
  imports Controller_Protocol Session_Quorum
begin

text \<open>
  The database of \<^verbatim>\<open>src/store.rs\<close>: one record per table of the schema, the database as the record
  of all tables, and the primitives every operation shares (clock, identifiers, audit append,
  controller event enqueue). Conventions: a table lists its rows in rowid order; columns that hold
  serialised JSON hold the JSON value; an operation returns \<open>Inl\<close> with an error, which carries no
  database because the transaction is rolled back, or \<open>Inr\<close> with its result and the new
  database. The wall clock, the UUID generator and SHA-256 are fields of the database record that
  operations only read (the UUID counter advances); one operation reads one clock value.
  A sequence number of an AUTOINCREMENT column is the last one handed out plus one; gaps that
  ignored inserts may leave are not modelled, only the order is used.
\<close>

section \<open>Rows\<close>

record BotRow =
  b_id :: string
  b_name :: string
  b_role :: string
  b_token_hash :: string
  b_token_plain :: "string option"
  b_last_seen :: "int option"
  b_provider :: "string option"
  b_capabilities :: "string list"
  b_enabled :: bool
  b_health :: string
  b_consecutive_errors :: int
  b_last_error_at :: "int option"
  b_note :: "string option"
  b_version :: "string option"
  b_runtime :: "json option"
  b_source :: string

record Session =
  s_id :: string
  s_title :: string
  s_state :: string
  s_trigger_ref :: "string option"
  s_trigger_fingerprint :: "string option"
  s_quorum_n :: int
  s_chair_bot :: "string option"
  s_created_at :: int
  s_closed_at :: "int option"
  s_mode :: string
  s_decision :: "string option"
  s_findings_red :: "int option"
  s_findings_yellow :: "int option"
  s_findings_green :: "int option"
  s_result_author_id :: "string option"
  s_result_message_ids :: "json option"

record SessionBot =
  sb_session_id :: string
  sb_bot_id :: string

record Thread =
  th_id :: string
  th_session_id :: string
  th_root_message_id :: "string option"

record Message =
  m_id :: string
  m_session_id :: string
  m_thread_id :: "string option"
  m_author_kind :: string
  m_author_id :: "string option"
  m_audience :: "string option"
  m_content :: string
  m_reply_to :: "string option"
  m_created_at :: int

record Reaction =
  r_message_id :: string
  r_bot_id :: string
  r_emoji :: string

record OutboxRow =
  o_seq :: int
  o_bot_id :: string
  o_session_id :: "string option"
  o_idem_key :: "string option"
  o_frame :: string
  o_created_at :: int
  o_delivered_at :: "int option"

record PendingReview =
  pr_trigger_ref :: string
  pr_repo :: string
  pr_pr_number :: int
  pr_fingerprint :: "string option"
  pr_preset :: "string option"
  pr_requested_at :: int

record CompatibilityUsage =
  cu_surface :: string
  cu_uses :: int
  cu_first_used_at :: int
  cu_last_used_at :: int

record ControllerRow =
  c_id :: string
  c_enabled :: bool
  c_max_concurrent_sessions :: int
  c_max_actions_per_minute :: int
  c_created_at :: int
  c_updated_at :: int
  c_event_endpoint :: "string option"
  c_event_key_version :: "int option"

record TokenRow =
  t_id :: string
  t_controller_id :: string
  t_token_hash :: string
  t_pepper_version :: int
  t_not_before :: int
  t_expires_at :: "int option"
  t_revoked_at :: "int option"
  t_created_at :: int

record GrantRow =
  g_controller_id :: string
  g_kind :: string
  g_granted :: bool
  g_updated_at :: int

record BindingRow =
  bi_controller_id :: string
  bi_scope :: string
  bi_enabled :: bool
  bi_updated_at :: int

record TriggerScopeRow =
  ts_controller_id :: string
  ts_trigger_ref :: string
  ts_scope :: string
  ts_created_at :: int

record ActionRow =
  a_controller_id :: string
  a_action_id :: string
  a_request_hash :: string
  a_action_kind :: string
  a_scope :: string
  a_state :: string
  a_http_status :: "int option"
  a_response_json :: "json option"
  a_trigger_ref :: "string option"
  a_trigger_fingerprint :: "string option"
  a_session_trigger_ref :: "string option"
  a_session_id :: "string option"
  a_received_at :: int
  a_completed_at :: "int option"

record ControllerSessionRow =
  cs_controller_id :: string
  cs_scope :: string
  cs_trigger_ref :: string
  cs_trigger_fingerprint :: "string option"
  cs_session_id :: string
  cs_current :: bool
  cs_created_at :: int

record EventRow =
  e_id :: string
  e_controller_id :: string
  e_session_id :: "string option"
  e_event_type :: string
  e_event_endpoint :: string
  e_event_key_version :: int
  e_body_json :: json
  e_idempotency_key :: string
  e_state :: string
  e_attempts :: int
  e_created_at :: int
  e_next_attempt_at :: int
  e_lease_until :: "int option"
  e_delivered_at :: "int option"
  e_last_error :: "string option"

record EventAuditRow =
  ea_id :: int
  ea_controller_id :: string
  ea_event_id :: string
  ea_kind :: string
  ea_detail :: json
  ea_created_at :: int

section \<open>The database\<close>

record db =
  bots :: "BotRow list"
  sessions :: "Session list"
  session_bots :: "SessionBot list"
  threads :: "Thread list"
  messages_t :: "Message list"
  reactions_t :: "Reaction list"
  outbox :: "OutboxRow list"
  outbox_seq :: int
  settings :: "(string \<times> json) list"
  pending_reviews_t :: "PendingReview list"
  compatibility_usage_t :: "CompatibilityUsage list"
  controllers :: "ControllerRow list"
  controller_action_tokens :: "TokenRow list"
  controller_action_grants :: "GrantRow list"
  controller_bindings :: "BindingRow list"
  controller_trigger_scopes :: "TriggerScopeRow list"
  controller_action_idempotency :: "ActionRow list"
  controller_sessions :: "ControllerSessionRow list"
  controller_event_grants :: "GrantRow list"
  controller_events :: "EventRow list"
  controller_event_audit :: "EventAuditRow list"
  audit_events :: "AuditEventRecord list"
  audit_seq :: int
  now :: int
  uuid :: "nat \<Rightarrow> string"
  uuid_next :: nat
  sha256_hex :: "string \<Rightarrow> string"

definition empty_db :: db where
  "empty_db = \<lparr>bots = [], sessions = [], session_bots = [], threads = [], messages_t = [], reactions_t = [],
    outbox = [], outbox_seq = 0, settings = [], pending_reviews_t = [], compatibility_usage_t = [],
    controllers = [], controller_action_tokens = [], controller_action_grants = [], controller_bindings = [],
    controller_trigger_scopes = [], controller_action_idempotency = [], controller_sessions = [],
    controller_event_grants = [], controller_events = [], controller_event_audit = [], audit_events = [],
    audit_seq = 0, now = 0, uuid = (\<lambda>n. nat_str n), uuid_next = 0, sha256_hex = (\<lambda>s. s)\<rparr>"

datatype store_err =
    ConstraintViolation string
  | InvalidAuditEvent string
  | QueryReturnedNoRows
  | Bail string

type_synonym 'a res = "store_err + ('a \<times> db)"

section \<open>Clock and identifiers\<close>

definition now_ms :: "db \<Rightarrow> int" where
  "now_ms d = now d"

definition new_id :: "string \<Rightarrow> db \<Rightarrow> string \<times> db" where
  "new_id prefix d = (prefix @ ''_'' @ uuid d (uuid_next d), d\<lparr>uuid_next := Suc (uuid_next d)\<rparr>)"

section \<open>The audit journal\<close>

definition AUDIT_SERVICE :: string where
  "AUDIT_SERVICE = ''openab-control-plane''"

definition audit_recorded :: "AuditEvent \<Rightarrow> db \<Rightarrow> bool" where
  "audit_recorded e d =
    list_ex (\<lambda>r. av_event_id (aer_event r) = av_event_id e
      \<or> (av_service (aer_event r) = av_service e \<and> av_event_key (aer_event r) = av_event_key e)) (audit_events d)"

definition append_audit_event_locked :: "AuditEvent \<Rightarrow> db \<Rightarrow> store_err + db" where
  "append_audit_event_locked e d =
    (case validate e of
      Inl msg \<Rightarrow> Inl (InvalidAuditEvent (''invalid audit event: '' @ msg))
    | Inr _ \<Rightarrow>
        if audit_recorded e d then Inr d
        else Inr (d\<lparr>audit_events := audit_events d @ [\<lparr>aer_seq = audit_seq d + 1, aer_event = e\<rparr>],
               audit_seq := audit_seq d + 1\<rparr>))"

definition keyed_session_audit_event ::
  "db \<Rightarrow> string \<Rightarrow> string \<Rightarrow> string \<Rightarrow> AuditOutcome \<Rightarrow> int \<Rightarrow> string option \<Rightarrow> json \<Rightarrow> AuditEvent" where
  "keyed_session_audit_event d event_key kind session_id outcome occurred_at trigger_ref detail =
    \<lparr>av_version = AUDIT_EVENT_VERSION,
     av_event_id = ''aud:'' @ AUDIT_SERVICE @ '':'' @ event_key,
     av_event_key = event_key,
     av_occurred_at = occurred_at,
     av_recorded_at = now_ms d,
     av_service = AUDIT_SERVICE,
     av_kind = kind,
     av_outcome = outcome,
     av_caused_by = None,
     av_correlation = correlation_default\<lparr>ac_session_id := Some session_id, ac_trigger_ref := trigger_ref\<rparr>,
     av_actor = None,
     av_target = Some \<lparr>at_kind = ''openab_session'', at_reference = Some session_id, at_revision = None\<rparr>,
     av_detail = detail,
     av_error = None\<rparr>"

definition session_audit_event ::
  "db \<Rightarrow> string \<Rightarrow> string \<Rightarrow> AuditOutcome \<Rightarrow> int \<Rightarrow> string option \<Rightarrow> json \<Rightarrow> AuditEvent" where
  "session_audit_event d kind session_id outcome occurred_at trigger_ref detail =
    keyed_session_audit_event d (kind @ '':'' @ session_id) kind session_id outcome occurred_at trigger_ref detail"

definition message_audit_event ::
  "db \<Rightarrow> string \<Rightarrow> string \<Rightarrow> string \<Rightarrow> string option \<Rightarrow> string option \<Rightarrow> string \<Rightarrow> int \<Rightarrow> AuditEvent" where
  "message_audit_event d session_id message_id author_kind author_id audience content occurred_at =
    (let event_key = ''session.message_recorded:'' @ message_id in
     \<lparr>av_version = AUDIT_EVENT_VERSION,
      av_event_id = ''aud:'' @ AUDIT_SERVICE @ '':'' @ event_key,
      av_event_key = event_key,
      av_occurred_at = occurred_at,
      av_recorded_at = now_ms d,
      av_service = AUDIT_SERVICE,
      av_kind = ''session.message_recorded'',
      av_outcome = ASucceeded,
      av_caused_by = None,
      av_correlation = correlation_default\<lparr>ac_session_id := Some session_id, ac_message_id := Some message_id\<rparr>,
      av_actor = Some \<lparr>aa_kind = author_kind, aa_id = author_id, aa_display = None, aa_association = None\<rparr>,
      av_target = Some \<lparr>at_kind = ''openab_session'', at_reference = Some session_id, at_revision = None\<rparr>,
      av_detail = JObj [(''message_id'', JStr message_id), (''author_kind'', JStr author_kind),
        (''author_id'', jopt author_id), (''audience'', jopt audience),
        (''content_bytes'', JNum (int (length content))), (''content_sha256'', JStr (sha256_hex d content))],
      av_error = None\<rparr>)"

section \<open>The controller event queue\<close>

definition event_destination :: "string \<Rightarrow> string \<Rightarrow> db \<Rightarrow> (string \<times> int) option" where
  "event_destination controller_id event_type d =
    (if list_ex (\<lambda>g. g_controller_id g = controller_id \<and> g_kind g = event_type \<and> g_granted g) (controller_event_grants d)
     then (case find (\<lambda>c. c_id c = controller_id) (controllers d) of
        None \<Rightarrow> None
      | Some c \<Rightarrow> (case (c_event_endpoint c, c_event_key_version c) of
            (Some ep, Some kv) \<Rightarrow> Some (ep, kv)
          | _ \<Rightarrow> None))
     else None)"

definition event_ins :: "EventRow \<Rightarrow> db \<Rightarrow> db" where
  "event_ins row d =
    (if list_ex (\<lambda>e. e_id e = e_id row
        \<or> (e_controller_id e = e_controller_id row \<and> e_idempotency_key e = e_idempotency_key row)) (controller_events d)
     then d else d\<lparr>controller_events := controller_events d @ [row]\<rparr>)"

definition enqueued_audit_event :: "db \<Rightarrow> string \<Rightarrow> string option \<Rightarrow> string \<Rightarrow> string \<Rightarrow> string \<Rightarrow> int \<Rightarrow> AuditEvent" where
  "enqueued_audit_event d controller_id session_id event_type idempotency_key actual_event_id occurred_at =
    (let audit_event_key = ''runtime_event.enqueued:'' @ actual_event_id in
     \<lparr>av_version = AUDIT_EVENT_VERSION,
      av_event_id = ''aud:'' @ AUDIT_SERVICE @ '':'' @ audit_event_key,
      av_event_key = audit_event_key,
      av_occurred_at = occurred_at,
      av_recorded_at = now_ms d,
      av_service = AUDIT_SERVICE,
      av_kind = ''runtime_event.enqueued'',
      av_outcome = APending,
      av_caused_by = None,
      av_correlation = correlation_default\<lparr>ac_controller_id := Some controller_id, ac_session_id := session_id,
        ac_runtime_event_id := Some actual_event_id\<rparr>,
      av_actor = None,
      av_target = None,
      av_detail = JObj [(''event_type'', JStr event_type), (''idempotency_key'', JStr idempotency_key)],
      av_error = None\<rparr>)"

definition enqueue_controller_event_locked ::
  "string \<Rightarrow> string option \<Rightarrow> string \<Rightarrow> json \<Rightarrow> string \<Rightarrow> int \<Rightarrow> db \<Rightarrow> store_err + db" where
  "enqueue_controller_event_locked controller_id session_id event_type payload idempotency_key occurred_at d =
    (case event_destination controller_id event_type d of
      None \<Rightarrow> Inr d
    | Some (event_endpoint, event_key_version) \<Rightarrow>
        let (event_id, d1) = new_id ''cev'' d;
            body_json = JObj [(''version'', JStr ''1''), (''event_id'', JStr event_id),
              (''controller_id'', JStr controller_id), (''event_type'', JStr event_type),
              (''session_id'', jopt session_id), (''occurred_at'', JNum occurred_at), (''payload'', payload)];
            d2 = event_ins \<lparr>e_id = event_id, e_controller_id = controller_id, e_session_id = session_id,
              e_event_type = event_type, e_event_endpoint = event_endpoint, e_event_key_version = event_key_version,
              e_body_json = body_json, e_idempotency_key = idempotency_key, e_state = ''pending'', e_attempts = 0,
              e_created_at = occurred_at, e_next_attempt_at = occurred_at, e_lease_until = None,
              e_delivered_at = None, e_last_error = None\<rparr> d1
        in (case find (\<lambda>e. e_controller_id e = controller_id \<and> e_idempotency_key e = idempotency_key) (controller_events d2) of
             None \<Rightarrow> Inl QueryReturnedNoRows
           | Some e \<Rightarrow> append_audit_event_locked
               (enqueued_audit_event d2 controller_id session_id event_type idempotency_key (e_id e) occurred_at) d2))"

definition enqueue_controller_session_event_locked ::
  "string \<Rightarrow> string \<Rightarrow> json \<Rightarrow> string \<Rightarrow> int \<Rightarrow> db \<Rightarrow> store_err + db" where
  "enqueue_controller_session_event_locked session_id event_type payload idempotency_key occurred_at d =
    (case find (\<lambda>r. cs_session_id r = session_id) (controller_sessions d) of
      None \<Rightarrow> Inr d
    | Some r \<Rightarrow> enqueue_controller_event_locked (cs_controller_id r) (Some session_id) event_type payload
        idempotency_key occurred_at d)"

section \<open>What the primitives leave alone\<close>

lemma append_audit_shape:
  assumes "append_audit_event_locked e d = Inr d'"
  shows "\<exists>ae q. d' = d\<lparr>audit_events := ae, audit_seq := q\<rparr>"
proof -
  have "d' = d\<lparr>audit_events := audit_events d', audit_seq := audit_seq d'\<rparr>"
    using assms unfolding append_audit_event_locked_def by (auto split: sum.splits if_splits)
  then show ?thesis by blast
qed

text \<open>The event queue touches its own table, the journal and the identifier counter.\<close>

definition same_but_queue :: "db \<Rightarrow> db \<Rightarrow> bool" where
  "same_but_queue d d' \<longleftrightarrow>
    d' = d\<lparr>controller_events := controller_events d', audit_events := audit_events d',
      audit_seq := audit_seq d', uuid_next := uuid_next d'\<rparr>"

lemma same_but_queue_refl [simp]: "same_but_queue d d"
  by (simp add: same_but_queue_def)

lemma same_but_queueI [intro]:
  "d' = d\<lparr>controller_events := ce, audit_events := ae, audit_seq := q, uuid_next := u\<rparr> \<Longrightarrow> same_but_queue d d'"
  by (simp add: same_but_queue_def)

lemma same_but_queue_trans:
  "same_but_queue d d' \<Longrightarrow> same_but_queue d' d'' \<Longrightarrow> same_but_queue d d''"
  unfolding same_but_queue_def
  by (cases d; cases d'; cases d'') simp

lemma same_but_queue_fields:
  assumes "same_but_queue d d'"
  shows "bots d' = bots d" "sessions d' = sessions d" "session_bots d' = session_bots d"
    "threads d' = threads d" "messages_t d' = messages_t d" "reactions_t d' = reactions_t d"
    "outbox d' = outbox d" "outbox_seq d' = outbox_seq d" "settings d' = settings d"
    "controllers d' = controllers d" "controller_sessions d' = controller_sessions d"
    "controller_event_grants d' = controller_event_grants d"
    "controller_action_idempotency d' = controller_action_idempotency d"
    "controller_trigger_scopes d' = controller_trigger_scopes d"
    "controller_bindings d' = controller_bindings d" "controller_action_grants d' = controller_action_grants d"
    "controller_action_tokens d' = controller_action_tokens d"
    "controller_event_audit d' = controller_event_audit d"
    "now d' = now d" "uuid d' = uuid d" "sha256_hex d' = sha256_hex d"
  using assms unfolding same_but_queue_def by (cases d; cases d'; simp)+

lemma append_audit_frame [frame]: "append_audit_event_locked e d = Inr d' \<Longrightarrow> same_but_queue d d'"
  using append_audit_shape [of e d d'] by (auto simp: same_but_queue_def)

lemma event_ins_frame: "same_but_queue d (event_ins row d)"
  by (simp add: event_ins_def same_but_queue_def)

lemma new_id_frame: "same_but_queue d (snd (new_id p d))"
  by (simp add: new_id_def same_but_queue_def)

lemma append_audit_queue:
  "append_audit_event_locked e (event_ins row (d\<lparr>uuid_next := u\<rparr>)) = Inr d' \<Longrightarrow> same_but_queue d d'"
proof -
  assume "append_audit_event_locked e (event_ins row (d\<lparr>uuid_next := u\<rparr>)) = Inr d'"
  then have "same_but_queue (event_ins row (d\<lparr>uuid_next := u\<rparr>)) d'" by (rule append_audit_frame)
  moreover have "same_but_queue d (d\<lparr>uuid_next := u\<rparr>)" by (simp add: same_but_queue_def)
  ultimately show ?thesis using event_ins_frame same_but_queue_trans by blast
qed

lemma enqueue_controller_event_frame [frame]:
  assumes "enqueue_controller_event_locked c s t pl k at d = Inr d'"
  shows "same_but_queue d d'"
proof (cases "event_destination c t d")
  case None
  with assms show ?thesis by (simp add: enqueue_controller_event_locked_def)
next
  case (Some dest)
  obtain ep kv where dest: "dest = (ep, kv)" by force
  show ?thesis
    using assms unfolding enqueue_controller_event_locked_def Some dest
    by (simp add: Let_def new_id_def split: option.splits) (erule append_audit_queue)
qed

lemma enqueue_session_event_frame [frame]:
  "enqueue_controller_session_event_locked s t pl k at d = Inr d' \<Longrightarrow> same_but_queue d d'"
  by (auto simp: enqueue_controller_session_event_locked_def split: option.splits intro: enqueue_controller_event_frame)

section \<open>When the journal accepts an event\<close>

text \<open>
  Identifiers as \<open>new_id\<close> makes them: short, not empty, and not ending in a space. For such
  identifiers and a clock in range no event the store builds is rejected by validation.
\<close>

definition id_ok :: "string \<Rightarrow> bool" where
  "id_ok s \<longleftrightarrow> s \<noteq> [] \<and> length s \<le> 100 \<and> plain (last s) \<and> \<not> is_continuation (last s)"

definition clock_ok :: "db \<Rightarrow> bool" where
  "clock_ok d \<longleftrightarrow> 0 \<le> now d \<and> i64_range (now d)"

definition kind_ok :: "string \<Rightarrow> bool" where
  "kind_ok k \<longleftrightarrow> k \<noteq> [] \<and> length k \<le> 40 \<and> plain (hd k) \<and> plain (last k) \<and> \<not> is_continuation (last k)"

lemma trim_key:
  assumes "kind_ok k" and "rest \<noteq> []" and "plain (last rest)" and "\<not> is_continuation (last rest)"
  shows "trim (k @ rest) = k @ rest"
  using assms by (intro trim_plain) (simp_all add: kind_ok_def)

lemma trim_kind: "kind_ok k \<Longrightarrow> trim k = k"
  by (intro trim_plain) (simp_all add: kind_ok_def)

lemma keyed_event_valid:
  assumes "kind_ok kind" "clock_ok d" "0 \<le> at" "rest \<noteq> []" "length rest \<le> 180"
    "plain (last rest)" "\<not> is_continuation (last rest)"
  shows "validate (keyed_session_audit_event d (kind @ rest) kind sid oc at tr dt) = Inr ()"
  using assms trim_key [of kind rest] trim_kind [of kind] unfolding validate_Inr_iff
  by (auto simp: keyed_session_audit_event_def AUDIT_EVENT_VERSION_def AUDIT_SERVICE_def now_ms_def Suc_le_eq
      kind_ok_def clock_ok_def)

lemma timed_key_valid:
  assumes "kind_ok kind" "clock_ok d" "id_ok sid" "i64_range at" "0 \<le> at"
  shows "validate (keyed_session_audit_event d (kind @ '':'' @ sid @ '':'' @ int_str at) kind sid oc at tr dt) = Inr ()"
  using assms length_int_str [of at] last_int_str [of at] is_digit_plain [of "last (int_str at)"]
    is_digit_not_cont [of "last (int_str at)"]
  by (intro keyed_event_valid) (simp_all add: id_ok_def)

lemma append_audit_ok:
  "validate e = Inr () \<Longrightarrow> \<exists>d'. append_audit_event_locked e d = Inr d'"
  by (simp add: append_audit_event_locked_def)

lemma enqueue_session_event_ok:
  assumes "cs_session_id ` set (controller_sessions d) \<inter> {sid} = {}"
  shows "enqueue_controller_session_event_locked sid t pl k at d = Inr d"
proof -
  have "find (\<lambda>r. cs_session_id r = sid) (controller_sessions d) = None"
    unfolding find_None_conv using assms by auto
  then show ?thesis by (simp add: enqueue_controller_session_event_locked_def)
qed

end
