(* ===== verification/Store_Sessions.thy ===== *)
theory Store_Sessions
  imports Store_Tables "HOL-Library.List_Lexorder" "HOL-Library.Char_ord"
begin

text \<open>
  The session operations of \<^verbatim>\<open>src/store.rs\<close>: creation, deduplication and superseding by trigger,
  rosters, the state machine's compare-and-swap transitions, the closes with their audit and
  controller events, and the reopening of a session. A state column holds the database spelling of
  \<open>SessionState\<close>; the partial unique index on the trigger of active sessions is checked by every
  statement that can violate it.
\<close>

section \<open>The sessions table\<close>

definition active :: "Session \<Rightarrow> bool" where
  "active s = (s_state s \<notin> set [''closed'', ''aborted''])"

definition active_triggers :: "Session list \<Rightarrow> string list" where
  "active_triggers rows = List.map_filter s_trigger_ref (filter active rows)"

text \<open>\<^verbatim>\<open>idx_sessions_active_trigger_ref\<close>\<close>

definition trigger_index_ok :: "Session list \<Rightarrow> bool" where
  "trigger_index_ok rows = distinct (active_triggers rows)"

definition write_sessions :: "Session list \<Rightarrow> db \<Rightarrow> store_err + db" where
  "write_sessions rows d =
    (if trigger_index_ok rows then Inr (d\<lparr>sessions := rows\<rparr>) else Inl (ConstraintViolation ''sessions.trigger_ref''))"

definition insert_session :: "Session \<Rightarrow> db \<Rightarrow> store_err + db" where
  "insert_session s d =
    (if s_id s \<in> s_id ` set (sessions d) then Inl (ConstraintViolation ''sessions.id'')
     else write_sessions (sessions d @ [s]) d)"

definition session :: "string \<Rightarrow> db \<Rightarrow> Session option" where
  "session sid d = find (\<lambda>s. s_id s = sid) (sessions d)"

text \<open>The first row in the order \<^verbatim>\<open>created_at DESC, id DESC\<close> (respectively \<^verbatim>\<open>ASC\<close>).\<close>

fun newest :: "Session list \<Rightarrow> Session option" where
  "newest [] = None"
| "newest (s # ss) = (case newest ss of
     None \<Rightarrow> Some s
   | Some t \<Rightarrow> Some (if s_created_at s < s_created_at t \<or> (s_created_at s = s_created_at t \<and> s_id s < s_id t) then t else s))"

fun oldest :: "Session list \<Rightarrow> Session option" where
  "oldest [] = None"
| "oldest (s # ss) = (case oldest ss of
     None \<Rightarrow> Some s
   | Some t \<Rightarrow> Some (if s_created_at t < s_created_at s \<or> (s_created_at t = s_created_at s \<and> s_id t < s_id s) then t else s))"

definition active_session_for_trigger_locked :: "string \<Rightarrow> db \<Rightarrow> Session option" where
  "active_session_for_trigger_locked trigger_ref d =
    newest (filter (\<lambda>s. s_trigger_ref s = Some trigger_ref \<and> active s) (sessions d))"

definition active_session_for_trigger :: "string \<Rightarrow> db \<Rightarrow> string option" where
  "active_session_for_trigger trigger_ref d = map_option s_id (active_session_for_trigger_locked trigger_ref d)"

definition session_for_trigger_intent :: "string \<Rightarrow> string option \<Rightarrow> int \<Rightarrow> db \<Rightarrow> Session option" where
  "session_for_trigger_intent trigger_ref trigger_fingerprint admitted_at d =
    oldest (filter (\<lambda>s. s_trigger_ref s = Some trigger_ref \<and> s_created_at s \<ge> admitted_at
      \<and> (trigger_fingerprint = None \<or> s_trigger_fingerprint s = trigger_fingerprint)) (sessions d))"

section \<open>Creation\<close>

definition add_roster_row :: "string \<Rightarrow> string \<Rightarrow> db \<Rightarrow> db" where
  "add_roster_row sid bid d =
    d\<lparr>session_bots := ins_ignore id \<lparr>sb_session_id = sid, sb_bot_id = bid\<rparr> (session_bots d)\<rparr>"

definition ins_roster :: "string \<Rightarrow> string list \<Rightarrow> SessionBot list \<Rightarrow> SessionBot list" where
  "ins_roster sid bids rows = fold (\<lambda>bid. ins_ignore id \<lparr>sb_session_id = sid, sb_bot_id = bid\<rparr>) bids rows"

definition add_roster_rows :: "string \<Rightarrow> string list \<Rightarrow> db \<Rightarrow> db" where
  "add_roster_rows sid bids d = d\<lparr>session_bots := ins_roster sid bids (session_bots d)\<rparr>"

definition new_session_row ::
  "string \<Rightarrow> string \<Rightarrow> string \<Rightarrow> string option \<Rightarrow> string option \<Rightarrow> int \<Rightarrow> string option \<Rightarrow> int \<Rightarrow> string \<Rightarrow> Session" where
  "new_session_row sid title initial_state trigger_ref trigger_fingerprint quorum_n chair_bot created_at mode =
    \<lparr>s_id = sid, s_title = title, s_state = initial_state, s_trigger_ref = trigger_ref,
     s_trigger_fingerprint = trigger_fingerprint, s_quorum_n = quorum_n, s_chair_bot = chair_bot,
     s_created_at = created_at, s_closed_at = None, s_mode = mode, s_decision = None,
     s_findings_red = None, s_findings_yellow = None, s_findings_green = None,
     s_result_author_id = None, s_result_message_ids = None\<rparr>"

definition create_session ::
  "string \<Rightarrow> string option \<Rightarrow> int \<Rightarrow> string option \<Rightarrow> string list \<Rightarrow> string \<Rightarrow> db \<Rightarrow> Session res" where
  "create_session title trigger_ref quorum_n chair_bot roster mode d =
    (let (sid, d1) = new_id ''ses'' d;
         created_at = now_ms d1;
         row = new_session_row sid title ''open'' trigger_ref None quorum_n chair_bot created_at mode
     in bindE (insert_session row d1) (\<lambda>d2.
        bindE (append_audit_event_locked (session_audit_event d2 ''session.opened'' sid AAccepted created_at trigger_ref
            (JObj [(''state'', JStr ''open''), (''mode'', JStr mode), (''quorum_n'', JNum quorum_n),
                   (''roster_size'', JNum (int (length roster)))]))
          (add_roster_rows sid roster d2)) (\<lambda>d3. Inr (row, d3))))"

definition is_constraint_violation :: "store_err \<Rightarrow> bool" where
  "is_constraint_violation e = (case e of ConstraintViolation _ \<Rightarrow> True | _ \<Rightarrow> False)"

definition create_session_deduped ::
  "string \<Rightarrow> string option \<Rightarrow> int \<Rightarrow> string option \<Rightarrow> string list \<Rightarrow> string \<Rightarrow> db \<Rightarrow> (Session \<times> bool) res" where
  "create_session_deduped title trigger_ref quorum_n chair_bot roster mode d =
    (case Option.bind trigger_ref (\<lambda>t. active_session_for_trigger_locked t d) of
      Some existing \<Rightarrow> Inr ((existing, True), d)
    | None \<Rightarrow>
        (case create_session title trigger_ref quorum_n chair_bot roster mode d of
          Inr (s, d') \<Rightarrow> Inr ((s, False), d')
        | Inl err \<Rightarrow>
            if trigger_ref \<noteq> None \<and> is_constraint_violation err then
              (case Option.bind trigger_ref (\<lambda>t. active_session_for_trigger_locked t d) of
                Some existing \<Rightarrow> Inr ((existing, True), d)
              | None \<Rightarrow> Inl err)
            else Inl err))"

record OpeningInput =
  oi_recipient :: string
  oi_content :: string

datatype SessionCreateOutcome = OutcomeCreated | OutcomeDeduped | OutcomeSuperseded string

definition insert_opening_input :: "string \<Rightarrow> int \<Rightarrow> OpeningInput \<Rightarrow> store_err + db \<Rightarrow> store_err + db" where
  "insert_opening_input sid created_at input r =
    bindE r (\<lambda>d.
      let (mid, d1) = new_id ''msg'' d in
      if mid \<in> m_id ` set (messages_t d1) then Inl (ConstraintViolation ''messages.id'')
      else Inr (d1\<lparr>messages_t := messages_t d1 @ [\<lparr>m_id = mid, m_session_id = sid, m_thread_id = None,
        m_author_kind = ''client'', m_author_id = None, m_audience = Some (oi_recipient input),
        m_content = oi_content input, m_reply_to = None, m_created_at = created_at\<rparr>]\<rparr>))"

definition insert_opening_inputs :: "string \<Rightarrow> int \<Rightarrow> OpeningInput list \<Rightarrow> db \<Rightarrow> store_err + db" where
  "insert_opening_inputs sid created_at inputs d = fold (insert_opening_input sid created_at) inputs (Inr d)"

text \<open>Closing the session a newer trigger replaces.\<close>

definition supersede_existing :: "Session \<Rightarrow> string \<Rightarrow> int \<Rightarrow> db \<Rightarrow> store_err + db" where
  "supersede_existing existing new_session_id created_at d =
    (let d1 = d\<lparr>sessions := upd_where (\<lambda>s. s_id s = s_id existing \<and> active s)
           (\<lambda>s. s\<lparr>s_state := ''closed'', s_closed_at := Some created_at\<rparr>) (sessions d)\<rparr>
     in bindE (append_audit_event_locked (session_audit_event d1 ''session.superseded'' (s_id existing) ASucceeded created_at
           (s_trigger_ref existing) (JObj [(''replacement_session_id'', JStr new_session_id)])) d1) (\<lambda>d2.
        enqueue_controller_session_event_locked (s_id existing) ''session.superseded''
          (JObj [(''reason'', JStr ''superseded'')]) (''session.superseded:'' @ s_id existing) created_at d2))"

text \<open>The inserts of the new session, its roster and its opening inputs, then the journal.\<close>

definition land_session ::
  "Session \<Rightarrow> string list \<Rightarrow> OpeningInput list \<Rightarrow> SessionCreateOutcome \<Rightarrow> db \<Rightarrow> (Session \<times> SessionCreateOutcome) res" where
  "land_session row bids opening_inputs outcome d =
    bindE (insert_session row d) (\<lambda>d1.
    bindE (insert_opening_inputs (s_id row) (s_created_at row) opening_inputs (add_roster_rows (s_id row) bids d1)) (\<lambda>d2.
    bindE (append_audit_event_locked (session_audit_event d2 ''session.opened'' (s_id row) AAccepted (s_created_at row) (s_trigger_ref row)
        (JObj [(''state'', JStr (s_state row)), (''mode'', JStr (s_mode row)), (''quorum_n'', JNum (s_quorum_n row)),
               (''roster_size'', JNum (int (length bids))),
               (''opening_input_count'', JNum (int (length opening_inputs)))])) d2) (\<lambda>d3.
    Inr ((row, outcome), d3))))"

definition create_session_superseding ::
  "string \<Rightarrow> string option \<Rightarrow> string option \<Rightarrow> int \<Rightarrow> string option \<Rightarrow> string list \<Rightarrow> string \<Rightarrow> OpeningInput list \<Rightarrow> db
    \<Rightarrow> (Session \<times> SessionCreateOutcome) res" where
  "create_session_superseding title trigger_ref trigger_fingerprint quorum_n chair_bot bids mode opening_inputs d =
    (let (sid, d1) = new_id ''ses'' d;
         created_at = now_ms d1;
         initial_state = (if opening_inputs = [] then ''open'' else ''deliberating'');
         row = new_session_row sid title initial_state trigger_ref trigger_fingerprint quorum_n chair_bot created_at mode
     in (case Option.bind trigger_ref (\<lambda>t. active_session_for_trigger_locked t d1) of
          None \<Rightarrow> land_session row bids opening_inputs OutcomeCreated d1
        | Some existing \<Rightarrow>
            if s_trigger_fingerprint existing \<noteq> None \<and> s_trigger_fingerprint existing = trigger_fingerprint
            then Inr ((existing, OutcomeDeduped), d1)
            else bindE (supersede_existing existing sid created_at d1)
                   (land_session row bids opening_inputs (OutcomeSuperseded (s_id existing)))))"

section \<open>Rosters\<close>

definition members :: "string \<Rightarrow> SessionBot list \<Rightarrow> string list" where
  "members sid rows = map sb_bot_id (filter (\<lambda>r. sb_session_id r = sid) rows)"

definition roster :: "string \<Rightarrow> db \<Rightarrow> string list" where
  "roster sid d = members sid (session_bots d)"

definition add_session_bot :: "string \<Rightarrow> string \<Rightarrow> db \<Rightarrow> bool \<times> db" where
  "add_session_bot sid bid d =
    (\<lparr>sb_session_id = sid, sb_bot_id = bid\<rparr> \<notin> set (session_bots d), add_roster_row sid bid d)"

datatype RosterAddOutcome = Added "string list" "string list" | Full

definition add_session_bots_if_capacity ::
  "string \<Rightarrow> string list \<Rightarrow> nat \<Rightarrow> OpeningInput list \<Rightarrow> db \<Rightarrow> RosterAddOutcome res" where
  "add_session_bots_if_capacity sid bot_ids max_roster opening_inputs d =
    (let unique = rev (remdups (rev bot_ids));
         already_members = filter (\<lambda>b. b \<in> set (roster sid d)) unique;
         added = filter (\<lambda>b. b \<notin> set (roster sid d)) unique
     in if length (roster sid d) + length added > max_roster then Inr (Full, d)
        else let d1 = d\<lparr>session_bots := session_bots d @ map (\<lambda>b. \<lparr>sb_session_id = sid, sb_bot_id = b\<rparr>) added\<rparr>
             in bindE (insert_opening_inputs sid (now_ms d1)
                    (filter (\<lambda>i. oi_recipient i \<in> set added) opening_inputs) d1) (\<lambda>d2.
                Inr (Added added already_members, d2)))"

definition remove_session_bot :: "string \<Rightarrow> string \<Rightarrow> db \<Rightarrow> bool \<times> db" where
  "remove_session_bot sid bid d =
    (let P = (\<lambda>r. sb_session_id r = sid \<and> sb_bot_id r = bid) in
     (count_where P (session_bots d) = 1, d\<lparr>session_bots := del_where P (session_bots d)\<rparr>))"

definition set_session_quorum :: "string \<Rightarrow> int \<Rightarrow> db \<Rightarrow> db" where
  "set_session_quorum sid quorum_n d =
    d\<lparr>sessions := upd_where (\<lambda>s. s_id s = sid) (\<lambda>s. s\<lparr>s_quorum_n := quorum_n\<rparr>) (sessions d)\<rparr>"

definition replace_session_bot :: "string \<Rightarrow> string \<Rightarrow> string \<Rightarrow> db \<Rightarrow> bool res" where
  "replace_session_bot sid old_bot_id new_bot_id d =
    (let P = (\<lambda>r. sb_session_id r = sid \<and> sb_bot_id r = old_bot_id);
         rows = upd_where P (\<lambda>r. r\<lparr>sb_bot_id := new_bot_id\<rparr>) (session_bots d)
     in if distinct rows then Inr (count_where P (session_bots d) = 1, d\<lparr>session_bots := rows\<rparr>)
        else Inl (ConstraintViolation ''session_bots''))"

definition set_session_chair :: "string \<Rightarrow> string \<Rightarrow> db \<Rightarrow> db" where
  "set_session_chair sid chair_bot d =
    d\<lparr>sessions := upd_where (\<lambda>s. s_id s = sid) (\<lambda>s. s\<lparr>s_chair_bot := Some chair_bot\<rparr>) (sessions d)\<rparr>"

section \<open>State transitions\<close>

definition closing_time :: "SessionState \<Rightarrow> db \<Rightarrow> int option" where
  "closing_time st d = (if st = Closed \<or> st = Aborted then Some (now_ms d) else None)"

definition coalesce :: "'a option \<Rightarrow> 'a option \<Rightarrow> 'a option" where
  "coalesce a b = (case a of Some x \<Rightarrow> Some x | None \<Rightarrow> b)"

definition trigger_ref_of :: "string \<Rightarrow> db \<Rightarrow> string option" where
  "trigger_ref_of sid d = Option.bind (session sid d) s_trigger_ref"

definition state_change_audit :: "string \<Rightarrow> string \<Rightarrow> string option \<Rightarrow> string \<Rightarrow> db \<Rightarrow> store_err + db" where
  "state_change_audit kind sid from to d =
    append_audit_event_locked
      (keyed_session_audit_event d
        (kind @ '':'' @ sid @ '':'' @ (case from of Some f \<Rightarrow> f | None \<Rightarrow> ''unknown'') @ '':'' @ to)
        kind sid ASucceeded (now_ms d) (trigger_ref_of sid d)
        (JObj [(''from'', jopt from), (''to'', JStr to)])) d"

definition set_state :: "string \<Rightarrow> SessionState \<Rightarrow> db \<Rightarrow> unit res" where
  "set_state sid st d =
    (let closed_at = closing_time st d;
         from_state = map_option s_state (session sid d);
         P = (\<lambda>s. s_id s = sid);
         updated = count_where P (sessions d);
         kind = (case st of Closed \<Rightarrow> ''session.closed'' | Aborted \<Rightarrow> ''session.aborted'' | _ \<Rightarrow> ''session.state_changed'')
     in bindE (write_sessions (upd_where P (\<lambda>s. s\<lparr>s_state := as_str st, s_closed_at := coalesce closed_at (s_closed_at s)\<rparr>)
           (sessions d)) d) (\<lambda>d1.
        if updated = 1 then bindE (state_change_audit kind sid from_state (as_str st) d1) (\<lambda>d2. Inr ((), d2))
        else Inr ((), d1)))"

definition advance_state :: "string \<Rightarrow> SessionState \<Rightarrow> SessionState \<Rightarrow> db \<Rightarrow> bool res" where
  "advance_state sid from to d =
    (let closed_at = closing_time to d;
         P = (\<lambda>s. s_id s = sid \<and> s_state s = as_str from);
         n = count_where P (sessions d);
         kind = (case to of Quorum \<Rightarrow> ''session.quorum_reached'' | Closed \<Rightarrow> ''session.closed''
           | Aborted \<Rightarrow> ''session.aborted'' | _ \<Rightarrow> ''session.state_changed'')
     in bindE (write_sessions (upd_where P (\<lambda>s. s\<lparr>s_state := as_str to, s_closed_at := coalesce closed_at (s_closed_at s)\<rparr>)
           (sessions d)) d) (\<lambda>d1.
        if n = 1 then bindE (state_change_audit kind sid (Some (as_str from)) (as_str to) d1) (\<lambda>d2. Inr (True, d2))
        else Inr (False, d1)))"

definition max_list :: "int list \<Rightarrow> int option" where
  "max_list xs = (case xs of [] \<Rightarrow> None | y # ys \<Rightarrow> Some (fold max ys y))"

definition last_activity :: "Session \<Rightarrow> db \<Rightarrow> int" where
  "last_activity s d =
    (case max_list (map m_created_at (filter (\<lambda>m. m_session_id m = s_id s) (messages_t d))) of
      Some t \<Rightarrow> t | None \<Rightarrow> s_created_at s)"

definition close_if_active :: "string \<Rightarrow> string \<Rightarrow> string \<Rightarrow> int option \<Rightarrow> db \<Rightarrow> bool res" where
  "close_if_active sid event_type reason stale_before d =
    (let closed_at = now_ms d;
         P = (\<lambda>s. s_id s = sid \<and> active s
               \<and> (case stale_before of None \<Rightarrow> True | Some t \<Rightarrow> last_activity s d < t));
         n = count_where P (sessions d);
         d1 = d\<lparr>sessions := upd_where P (\<lambda>s. s\<lparr>s_state := ''closed'', s_closed_at := Some closed_at\<rparr>) (sessions d)\<rparr>;
         kind = (if event_type = ''session.timeout'' then ''session.timed_out'' else ''session.closed'')
     in if n = 1 then
          bindE (append_audit_event_locked (keyed_session_audit_event d1
              (kind @ '':'' @ sid @ '':'' @ int_str closed_at) kind sid ASucceeded closed_at (trigger_ref_of sid d1)
              (JObj [(''reason'', JStr reason)])) d1) (\<lambda>d2.
          bindE (enqueue_controller_session_event_locked sid event_type
              (JObj [(''state'', JStr ''closed''), (''reason'', JStr reason)])
              (event_type @ '':'' @ sid @ '':'' @ int_str closed_at) closed_at d2) (\<lambda>d3. Inr (True, d3)))
        else Inr (False, d1))"

definition set_session_verdict ::
  "string \<Rightarrow> string \<Rightarrow> int option \<Rightarrow> int option \<Rightarrow> int option \<Rightarrow> db \<Rightarrow> db" where
  "set_session_verdict sid decision red yellow green d =
    d\<lparr>sessions := upd_where (\<lambda>s. s_id s = sid)
       (\<lambda>s. s\<lparr>s_decision := Some decision, s_findings_red := red, s_findings_yellow := yellow, s_findings_green := green\<rparr>)
       (sessions d)\<rparr>"

section \<open>The closing payload\<close>

definition FINAL_MESSAGES_MAX_BYTES :: nat where
  "FINAL_MESSAGES_MAX_BYTES = 256 * 1024"

abbreviation total_bytes :: "string list \<Rightarrow> nat" where
  "total_bytes parts \<equiv> sum_list (map length parts)"

text \<open>Drop the oldest part while the total is over the cap and another part is left.\<close>

fun drop_oldest :: "nat \<Rightarrow> string list \<Rightarrow> string list" where
  "drop_oldest cap (x # y # ys) =
    (if total_bytes (x # y # ys) > cap then drop_oldest cap (y # ys) else x # y # ys)"
| "drop_oldest cap xs = xs"

definition clip_tail :: "nat \<Rightarrow> string \<Rightarrow> string" where
  "clip_tail cap t =
    (if length t > cap then
       let want = length t - cap;
           cut = (case find (is_char_boundary t) [want..<Suc (length t)] of Some i \<Rightarrow> i | None \<Rightarrow> length t)
       in drop cut t
     else t)"

definition clip_last :: "nat \<Rightarrow> string list \<Rightarrow> string list" where
  "clip_last cap xs = (if xs = [] then [] else butlast xs @ [clip_tail cap (last xs)])"

text \<open>The kept parts and the flag \<open>truncated\<close>.\<close>

definition keep_final_messages :: "nat \<Rightarrow> string list \<Rightarrow> string list \<times> bool" where
  "keep_final_messages cap final_messages =
    (let kept = drop_oldest cap final_messages in
     (clip_last cap kept,
      length kept < length final_messages \<or> (kept \<noteq> [] \<and> length (last kept) > cap)))"

definition terminal_payload ::
  "string option \<Rightarrow> int option \<Rightarrow> int option \<Rightarrow> int option \<Rightarrow> string list \<Rightarrow> ReviewerCompletion \<Rightarrow> json" where
  "terminal_payload decision red yellow green final_messages rc =
    (let (kept, truncated) = keep_final_messages FINAL_MESSAGES_MAX_BYTES final_messages in
     JObj ([(''state'', JStr ''closed''), (''reason'', JStr ''normal''), (''decision'', jopt decision),
        (''findings_red'', jopt_num red), (''findings_yellow'', jopt_num yellow), (''findings_green'', jopt_num green),
        (''final_messages'', jstrs kept),
        (''required_valid_reviewers'', JNum (required_valid_reviewers rc)),
        (''valid_reviewers'', JNum (valid_reviewers rc))]
       @ (if truncated then [(''final_messages_truncated'', JBool True)] else [])))"

definition jopt_json :: "json option \<Rightarrow> json" where
  "jopt_json x = (case x of None \<Rightarrow> JNull | Some j \<Rightarrow> j)"

definition close_session_with_result ::
  "string \<Rightarrow> SessionState \<Rightarrow> string option \<Rightarrow> int option \<Rightarrow> int option \<Rightarrow> int option \<Rightarrow> string option \<Rightarrow> json option
    \<Rightarrow> string list \<Rightarrow> ReviewerCompletion \<Rightarrow> db \<Rightarrow> bool res" where
  "close_session_with_result sid from decision red yellow green result_author_id result_message_ids final_messages rc d =
    (let closed_at = now_ms d;
         P = (\<lambda>s. s_id s = sid \<and> s_state s = as_str from);
         n = count_where P (sessions d);
         d1 = d\<lparr>sessions := upd_where P (\<lambda>s. s\<lparr>s_state := ''closed'', s_closed_at := Some closed_at,
             s_decision := decision, s_findings_red := red, s_findings_yellow := yellow, s_findings_green := green,
             s_result_author_id := result_author_id, s_result_message_ids := result_message_ids\<rparr>) (sessions d)\<rparr>
     in if n = 1 then
          bindE (append_audit_event_locked (keyed_session_audit_event d1
              (''session.closed:'' @ sid @ '':'' @ int_str closed_at) ''session.closed'' sid ASucceeded closed_at
              (trigger_ref_of sid d1)
              (JObj [(''reason'', JStr ''normal''), (''decision'', jopt decision), (''findings_red'', jopt_num red),
                (''findings_yellow'', jopt_num yellow), (''findings_green'', jopt_num green),
                (''result_author_id'', jopt result_author_id), (''result_message_ids'', jopt_json result_message_ids)])) d1)
          (\<lambda>d2.
          bindE (enqueue_controller_session_event_locked sid ''session.terminal''
              (terminal_payload decision red yellow green final_messages rc)
              (''session.terminal:'' @ sid @ '':'' @ int_str closed_at) closed_at d2) (\<lambda>d3. Inr (True, d3)))
        else Inr (False, d1))"

definition reopen_session :: "string \<Rightarrow> SessionState \<Rightarrow> db \<Rightarrow> bool res" where
  "reopen_session sid from d =
    (let P = (\<lambda>s. s_id s = sid \<and> s_state s = as_str from) in
     bindE (write_sessions (upd_where P
         (\<lambda>s. s\<lparr>s_state := ''deliberating'', s_result_author_id := None, s_result_message_ids := None\<rparr>) (sessions d)) d)
       (\<lambda>d1. Inr (count_where P (sessions d) = 1, d1)))"

definition active_sessions_before :: "int \<Rightarrow> db \<Rightarrow> string list" where
  "active_sessions_before cutoff_ms d =
    map s_id (filter (\<lambda>s. active s \<and> last_activity s d < cutoff_ms) (sessions d))"

definition latest_session_created_at :: "string \<Rightarrow> db \<Rightarrow> int option" where
  "latest_session_created_at trigger_ref d =
    max_list (map s_created_at (filter (\<lambda>s. s_trigger_ref s = Some trigger_ref) (sessions d)))"

section \<open>The invariant of the sessions table\<close>

definition sess_inv :: "db \<Rightarrow> bool" where
  "sess_inv d \<longleftrightarrow> distinct (map s_id (sessions d)) \<and> trigger_index_ok (sessions d) \<and> distinct (session_bots d)"

definition session_state :: "db \<Rightarrow> string \<Rightarrow> string option" where
  "session_state d sid = map_option s_state (session sid d)"

lemma active_triggers_simps [simp]:
  "active_triggers [] = []"
  "active_triggers (s # ss) = (if active s \<and> s_trigger_ref s \<noteq> None then [the (s_trigger_ref s)] else []) @ active_triggers ss"
  by (auto simp: active_triggers_def map_filter_simps split: option.splits)

lemma active_triggers_append [simp]: "active_triggers (xs @ ys) = active_triggers xs @ active_triggers ys"
  by (induction xs) auto

lemma set_active_triggers: "set (active_triggers rows) = {t. \<exists>s \<in> set rows. active s \<and> s_trigger_ref s = Some t}"
  by (induction rows) auto

text \<open>A statement that activates no row and changes no trigger keeps the index.\<close>

lemma trigger_index_upd:
  assumes "trigger_index_ok rows"
    and "\<And>s. P s \<Longrightarrow> active (f s) \<Longrightarrow> active s"
    and "\<And>s. P s \<Longrightarrow> s_trigger_ref (f s) = s_trigger_ref s"
  shows "trigger_index_ok (upd_where P f rows)"
  using assms(1)
proof (induction rows)
  case (Cons s rows)
  have sub: "set (active_triggers (upd_where P f rows)) \<subseteq> set (active_triggers rows)"
    using assms(2, 3) by (fastforce simp: set_active_triggers set_upd_where split: if_splits)
  from Cons have "trigger_index_ok (upd_where P f rows)"
    by (simp add: trigger_index_ok_def split: if_splits)
  moreover have "upd_where P f (s # rows) = (if P s then f s else s) # upd_where P f rows"
    by (simp add: upd_where_def)
  ultimately show ?case
    using Cons.prems assms(2, 3) [of s] sub by (auto simp: trigger_index_ok_def split: if_splits)
qed (simp add: upd_where_def)

lemma sess_inv_upd:
  assumes "sess_inv d" and "trigger_index_ok (upd_where P f (sessions d))"
    and "\<And>s. P s \<Longrightarrow> s_id (f s) = s_id s"
  shows "sess_inv (d\<lparr>sessions := upd_where P f (sessions d)\<rparr>)"
  using assms by (simp add: sess_inv_def map_upd_where)

lemma sess_inv_queue: "same_but_queue d d' \<Longrightarrow> sess_inv d' = sess_inv d"
  by (simp add: sess_inv_def same_but_queue_fields)

lemma session_state_queue: "same_but_queue d d' \<Longrightarrow> session_state d' = session_state d"
  by (simp add: session_state_def session_def same_but_queue_fields fun_eq_iff)

lemma write_sessions_Inr: "write_sessions rows d = Inr d' \<longleftrightarrow> trigger_index_ok rows \<and> d' = d\<lparr>sessions := rows\<rparr>"
  by (auto simp: write_sessions_def)

lemma session_unique:
  assumes "sess_inv d" and "s \<in> set (sessions d)"
  shows "session (s_id s) d = Some s"
  using assms find_unique_key [of s_id "sessions d" s] by (simp add: session_def sess_inv_def)

lemma session_SomeD: "session sid d = Some s \<Longrightarrow> s \<in> set (sessions d) \<and> s_id s = sid"
  using find_SomeD [of "\<lambda>s. s_id s = sid" "sessions d" s] by (simp add: session_def)

text \<open>With unique identifiers a point update affects at most one row.\<close>

lemma count_unique:
  assumes "distinct (map key rows)"
  shows "count_where (\<lambda>r. key r = k \<and> Q r) rows =
    (case find (\<lambda>r. key r = k) rows of Some r \<Rightarrow> if Q r then 1 else 0 | None \<Rightarrow> 0)"
  using assms
proof (induction rows)
  case (Cons r rows)
  show ?case
  proof (cases "key r = k")
    case True
    with Cons.prems have "count_where (\<lambda>r. key r = k \<and> Q r) rows = 0"
      by (auto simp: count_where_0 image_iff)
    with True show ?thesis by (simp add: count_where_def)
  next
    case False
    with Cons show ?thesis by (simp add: count_where_def)
  qed
qed (simp add: count_where_def)

lemma count_session:
  assumes "sess_inv d"
  shows "count_where (\<lambda>s. s_id s = sid \<and> Q s) (sessions d) =
    (case session sid d of Some s \<Rightarrow> if Q s then 1 else 0 | None \<Rightarrow> 0)"
  using count_unique [of s_id "sessions d" sid Q] assms by (simp add: sess_inv_def session_def)

lemma count_session_one:
  assumes "sess_inv d"
  shows "count_where (\<lambda>s. s_id s = sid \<and> Q s) (sessions d) = 1 \<longleftrightarrow> (\<exists>s. session sid d = Some s \<and> Q s)"
  unfolding count_session [OF assms] by (cases "session sid d") simp_all

lemma count_session_id:
  "sess_inv d \<Longrightarrow> count_where (\<lambda>s. s_id s = sid) (sessions d) = (if session sid d = None then 0 else 1)"
  using count_session [of d sid "\<lambda>_. True"] by (simp split: option.splits)

lemma session_upd:
  assumes "\<And>s. s_id (f s) = s_id s"
  shows "session sid (d\<lparr>sessions := upd_where P f (sessions d)\<rparr>) =
    map_option (\<lambda>s. if P s then f s else s) (session sid d)"
  using find_map_upd [where key = s_id and f = f and k = sid and P = P and rows = "sessions d", OF assms]
  by (simp add: session_def)

lemma upd_lost:
  assumes "sess_inv d" and "count_where (\<lambda>s. s_id s = sid \<and> Q s) (sessions d) \<noteq> 1"
  shows "d\<lparr>sessions := upd_where (\<lambda>s. s_id s = sid \<and> Q s) f (sessions d)\<rparr> = d"
proof -
  have "count_where (\<lambda>s. s_id s = sid \<and> Q s) (sessions d) = 0"
    using assms(2) unfolding count_session [OF assms(1)] by (cases "session sid d") (simp_all split: if_splits)
  then have "upd_where (\<lambda>s. s_id s = sid \<and> Q s) f (sessions d) = sessions d"
    by (intro upd_where_none) (simp add: count_where_0)
  then show ?thesis by simp
qed

section \<open>Guarded updates of one session\<close>

text \<open>
  All transitions share one shape: update the row with the given identifier if a guard holds, then
  journal and notify. The following three facts are all that the individual operations need.
\<close>

lemma session_state_upd:
  assumes "session sid d = Some s" and "Q s" and "\<And>s. s_id (f s) = s_id s"
  shows "session_state (d\<lparr>sessions := upd_where (\<lambda>s. s_id s = sid \<and> Q s) f (sessions d)\<rparr>)
    = (session_state d)(sid \<mapsto> s_state (f s))"
proof
  fix k
  show "session_state (d\<lparr>sessions := upd_where (\<lambda>s. s_id s = sid \<and> Q s) f (sessions d)\<rparr>) k
    = ((session_state d)(sid \<mapsto> s_state (f s))) k"
  proof (cases "k = sid")
    case True
    with assms(1, 2) session_SomeD [OF assms(1)] show ?thesis
      by (simp add: session_state_def session_upd [OF assms(3)])
  next
    case False
    show ?thesis
    proof (cases "session k d")
      case None
      with False show ?thesis by (simp add: session_state_def session_upd [OF assms(3)])
    next
      case (Some t)
      with False session_SomeD [OF Some] show ?thesis
        by (simp add: session_state_def session_upd [OF assms(3)])
    qed
  qed
qed

lemma guarded_won:
  assumes inv: "sess_inv d" and n: "count_where (\<lambda>s. s_id s = sid \<and> Q s) (sessions d) = 1"
    and f: "\<And>s. s_id (f s) = s_id s" and st: "\<And>s. s_state (f s) = st"
    and idx: "trigger_index_ok (upd_where (\<lambda>s. s_id s = sid \<and> Q s) f (sessions d))"
    and q: "same_but_queue (d\<lparr>sessions := upd_where (\<lambda>s. s_id s = sid \<and> Q s) f (sessions d)\<rparr>) d'"
  shows "(\<exists>s. session sid d = Some s \<and> Q s \<and> session sid d' = Some (f s))
    \<and> session_state d' = (session_state d)(sid \<mapsto> st) \<and> sess_inv d'"
proof -
  from n obtain s where s: "session sid d = Some s" "Q s"
    using count_session_one [OF inv, of sid Q] by blast
  have "session sid d' = Some (f s)"
    using session_upd [where f = f and sid = sid and d = d and P = "\<lambda>s. s_id s = sid \<and> Q s", OF f]
      s session_SomeD [OF s(1)] same_but_queue_fields(2) [OF q] by (simp add: session_def)
  moreover have "session_state d' = (session_state d)(sid \<mapsto> st)"
    using session_state_upd [of sid d s Q f, OF s f] session_state_queue [OF q] st by simp
  moreover have "sess_inv d'"
    using sess_inv_upd [OF inv idx] f sess_inv_queue [OF q] by simp
  ultimately show ?thesis using s by blast
qed

lemma closing_keeps_index:
  assumes "sess_inv d" and "\<And>s. s_state (f s) = ''closed'' \<or> s_state (f s) = ''aborted''"
    and "\<And>s. s_trigger_ref (f s) = s_trigger_ref s"
  shows "trigger_index_ok (upd_where P f (sessions d))"
  using assms by (intro trigger_index_upd) (auto simp: sess_inv_def active_def)

lemma state_change_audit_frame [frame]: "state_change_audit k sid f t d = Inr d' \<Longrightarrow> same_but_queue d d'"
  unfolding state_change_audit_def by (rule append_audit_frame)

lemma advance_state_won:
  assumes "sess_inv d" and "advance_state sid from to d = Inr (True, d')"
  shows "session_state d sid = Some (as_str from) \<and> session_state d' = (session_state d)(sid \<mapsto> as_str to)
    \<and> sess_inv d'"
proof -
  let ?P = "\<lambda>s. s_id s = sid \<and> s_state s = as_str from"
  let ?f = "\<lambda>s. s\<lparr>s_state := as_str to, s_closed_at := coalesce (closing_time to d) (s_closed_at s)\<rparr>"
  have n: "count_where ?P (sessions d) = 1" and idx: "trigger_index_ok (upd_where ?P ?f (sessions d))"
    and q: "same_but_queue (d\<lparr>sessions := upd_where ?P ?f (sessions d)\<rparr>) d'"
    using assms(2) unfolding advance_state_def Let_def
    by (auto simp: write_sessions_Inr split: if_splits dest: state_change_audit_frame)
  have "(\<exists>s. session sid d = Some s \<and> s_state s = as_str from \<and> session sid d' = Some (?f s))
      \<and> session_state d' = (session_state d)(sid \<mapsto> as_str to) \<and> sess_inv d'"
    by (rule guarded_won [OF assms(1) n _ _ idx q]) simp_all
  then show ?thesis by (auto simp: session_state_def)
qed

lemma advance_state_lost:
  assumes "sess_inv d" and "advance_state sid from to d = Inr (False, d')"
  shows "session_state d sid \<noteq> Some (as_str from) \<and> d' = d"
proof -
  let ?P = "\<lambda>s. s_id s = sid \<and> s_state s = as_str from"
  have n: "count_where ?P (sessions d) \<noteq> 1"
    and d': "d' = d\<lparr>sessions := upd_where ?P (\<lambda>s. s\<lparr>s_state := as_str to,
        s_closed_at := coalesce (closing_time to d) (s_closed_at s)\<rparr>) (sessions d)\<rparr>"
    using assms(2) unfolding advance_state_def Let_def by (auto simp: write_sessions_Inr split: if_splits)
  from n have "session_state d sid \<noteq> Some (as_str from)"
    using count_session_one [OF assms(1), of sid "\<lambda>s. s_state s = as_str from"]
    by (auto simp: session_state_def)
  with d' upd_lost [OF assms(1) n] show ?thesis by simp
qed

text \<open>The close that records the settled result.\<close>

lemma close_with_result_won:
  assumes "sess_inv d" and "close_session_with_result sid from dec r y g author ids finals rc d = Inr (True, d')"
  shows "session_state d sid = Some (as_str from) \<and> session_state d' = (session_state d)(sid \<mapsto> ''closed'')
    \<and> sess_inv d'
    \<and> (\<exists>s. session sid d = Some s \<and> session sid d' = Some (s\<lparr>s_state := ''closed'', s_closed_at := Some (now_ms d),
        s_decision := dec, s_findings_red := r, s_findings_yellow := y, s_findings_green := g,
        s_result_author_id := author, s_result_message_ids := ids\<rparr>))"
proof -
  let ?P = "\<lambda>s. s_id s = sid \<and> s_state s = as_str from"
  let ?f = "\<lambda>s. s\<lparr>s_state := ''closed'', s_closed_at := Some (now_ms d),
        s_decision := dec, s_findings_red := r, s_findings_yellow := y, s_findings_green := g,
        s_result_author_id := author, s_result_message_ids := ids\<rparr>"
  have n: "count_where ?P (sessions d) = 1"
    and q: "same_but_queue (d\<lparr>sessions := upd_where ?P ?f (sessions d)\<rparr>) d'"
    using assms(2) unfolding close_session_with_result_def Let_def
    by (auto split: if_splits dest!: append_audit_frame enqueue_session_event_frame intro: same_but_queue_trans)
  have "(\<exists>s. session sid d = Some s \<and> s_state s = as_str from \<and> session sid d' = Some (?f s))
      \<and> session_state d' = (session_state d)(sid \<mapsto> ''closed'') \<and> sess_inv d'"
    by (rule guarded_won [OF assms(1) n _ _ closing_keeps_index [OF assms(1)] q]) simp_all
  then show ?thesis by (auto simp: session_state_def)
qed

lemma close_with_result_lost:
  assumes "sess_inv d" and "close_session_with_result sid from dec r y g author ids finals rc d = Inr (False, d')"
  shows "session_state d sid \<noteq> Some (as_str from) \<and> d' = d"
proof -
  let ?P = "\<lambda>s. s_id s = sid \<and> s_state s = as_str from"
  have n: "count_where ?P (sessions d) \<noteq> 1"
    and d': "d' = d\<lparr>sessions := upd_where ?P (\<lambda>s. s\<lparr>s_state := ''closed'', s_closed_at := Some (now_ms d),
        s_decision := dec, s_findings_red := r, s_findings_yellow := y, s_findings_green := g,
        s_result_author_id := author, s_result_message_ids := ids\<rparr>) (sessions d)\<rparr>"
    using assms(2) unfolding close_session_with_result_def Let_def by (auto split: if_splits)
  from n have "session_state d sid \<noteq> Some (as_str from)"
    using count_session_one [OF assms(1), of sid "\<lambda>s. s_state s = as_str from"]
    by (auto simp: session_state_def)
  with d' upd_lost [OF assms(1) n] show ?thesis by simp
qed

text \<open>The close of an active session on request or on timeout.\<close>

abbreviation close_guard :: "int option \<Rightarrow> db \<Rightarrow> Session \<Rightarrow> bool" where
  "close_guard stale_before d s \<equiv>
    active s \<and> (case stale_before of None \<Rightarrow> True | Some t \<Rightarrow> last_activity s d < t)"

lemma close_if_active_won:
  assumes "sess_inv d" and "close_if_active sid et reason stale d = Inr (True, d')"
  shows "(\<exists>s. session sid d = Some s \<and> close_guard stale d s)
    \<and> session_state d' = (session_state d)(sid \<mapsto> ''closed'') \<and> sess_inv d'"
proof -
  let ?P = "\<lambda>s. s_id s = sid \<and> close_guard stale d s"
  let ?f = "\<lambda>s. s\<lparr>s_state := ''closed'', s_closed_at := Some (now_ms d)\<rparr>"
  have n: "count_where ?P (sessions d) = 1"
    and q: "same_but_queue (d\<lparr>sessions := upd_where ?P ?f (sessions d)\<rparr>) d'"
    using assms(2) unfolding close_if_active_def Let_def
    by (auto split: if_splits dest!: append_audit_frame enqueue_session_event_frame intro: same_but_queue_trans)
  have "(\<exists>s. session sid d = Some s \<and> close_guard stale d s \<and> session sid d' = Some (?f s))
      \<and> session_state d' = (session_state d)(sid \<mapsto> ''closed'') \<and> sess_inv d'"
    by (rule guarded_won [OF assms(1) n _ _ closing_keeps_index [OF assms(1)] q]) simp_all
  then show ?thesis by blast
qed

lemma close_if_active_lost:
  assumes "sess_inv d" and "close_if_active sid et reason stale d = Inr (False, d')"
  shows "\<not> (\<exists>s. session sid d = Some s \<and> close_guard stale d s) \<and> d' = d"
proof -
  let ?P = "\<lambda>s. s_id s = sid \<and> close_guard stale d s"
  have n: "count_where ?P (sessions d) \<noteq> 1"
    and d': "d' = d\<lparr>sessions := upd_where ?P (\<lambda>s. s\<lparr>s_state := ''closed'', s_closed_at := Some (now_ms d)\<rparr>) (sessions d)\<rparr>"
    using assms(2) unfolding close_if_active_def Let_def by (auto split: if_splits)
  from n d' upd_lost [OF assms(1) n] count_session_one [OF assms(1), of sid "close_guard stale d"]
  show ?thesis by simp
qed

section \<open>Interpretations: transitions are compare-and-swap\<close>

definition won_opt :: "'a res \<Rightarrow> ('a \<times> db) option" where
  "won_opt r = (case r of Inl _ \<Rightarrow> None | Inr x \<Rightarrow> Some x)"

lemma won_opt_Some [simp]: "won_opt r = Some x \<longleftrightarrow> r = Inr x"
  by (cases r) (simp_all add: won_opt_def)

interpretation advance: cas_cell sess_inv session_state as_str
  "\<lambda>sid fr d. won_opt (advance_state sid fr to d)" "as_str to" for to
proof
  fix d sid fr b d' k'
  assume i: "sess_inv d"
  {
    assume "won_opt (advance_state sid fr to d) = Some (b, d')"
    then have r: "advance_state sid fr to d = Inr (b, d')" by simp
    show "sess_inv d'"
      using advance_state_won [OF i, of sid fr to d'] advance_state_lost [OF i, of sid fr to d'] r i by (cases b) auto
    show "k' \<noteq> sid \<Longrightarrow> session_state d' k' = session_state d k'"
      using advance_state_won [OF i, of sid fr to d'] advance_state_lost [OF i, of sid fr to d'] r by (cases b) auto
  next
    assume "won_opt (advance_state sid fr to d) = Some (True, d')"
    then show "session_state d sid = Some (as_str fr) \<and> session_state d' sid = Some (as_str to)"
      using advance_state_won [OF i, of sid fr to d'] by simp
  next
    assume "won_opt (advance_state sid fr to d) = Some (False, d')"
    then show "session_state d sid \<noteq> Some (as_str fr) \<and> d' = d"
      using advance_state_lost [OF i, of sid fr to d'] by simp
  }
qed

interpretation close_cas: cas_cell sess_inv session_state as_str
  "\<lambda>sid fr d. won_opt (close_session_with_result sid fr dec r y g author ids finals rc d)" "''closed''"
  for dec r y g author ids finals rc
proof
  fix d sid fr b d' k'
  assume i: "sess_inv d"
  let ?c = "close_session_with_result sid fr dec r y g author ids finals rc d"
  {
    assume "won_opt ?c = Some (b, d')"
    then have c: "?c = Inr (b, d')" by simp
    show "sess_inv d'"
      using close_with_result_won [OF i, of sid fr dec r y g author ids finals rc d']
        close_with_result_lost [OF i, of sid fr dec r y g author ids finals rc d'] c i by (cases b) auto
    show "k' \<noteq> sid \<Longrightarrow> session_state d' k' = session_state d k'"
      using close_with_result_won [OF i, of sid fr dec r y g author ids finals rc d']
        close_with_result_lost [OF i, of sid fr dec r y g author ids finals rc d'] c by (cases b) auto
  next
    assume "won_opt ?c = Some (True, d')"
    then show "session_state d sid = Some (as_str fr) \<and> session_state d' sid = Some ''closed''"
      using close_with_result_won [OF i, of sid fr dec r y g author ids finals rc d'] by simp
  next
    assume "won_opt ?c = Some (False, d')"
    then show "session_state d sid \<noteq> Some (as_str fr) \<and> d' = d"
      using close_with_result_lost [OF i, of sid fr dec r y g author ids finals rc d'] by simp
  }
qed

interpretation roster_ledger: once_ledger "\<lambda>(sid, b). \<lparr>sb_session_id = sid, sb_bot_id = b\<rparr>"
  "\<lambda>(sid, b). add_roster_row sid b" "\<lambda>d. set (session_bots d)"
  by unfold_locales (auto simp: add_roster_row_def ins_ignore_def split: if_splits)

section \<open>One active session per trigger\<close>

lemma active_filter_unique:
  assumes "trigger_index_ok rows" and "s \<in> set rows" and "active s" and "s_trigger_ref s = Some t"
  shows "filter (\<lambda>s. s_trigger_ref s = Some t \<and> active s) rows = [s]"
  using assms
proof (induction rows)
  case (Cons r rows)
  show ?case
  proof (cases "s_trigger_ref r = Some t \<and> active r")
    case True
    then have "t \<notin> set (active_triggers rows)" using Cons.prems(1) by (auto simp: trigger_index_ok_def)
    then have "filter (\<lambda>s. s_trigger_ref s = Some t \<and> active s) rows = []" and "s \<notin> set rows"
      using Cons.prems(3, 4) by (auto simp: set_active_triggers filter_empty_conv)
    with True Cons.prems(2) show ?thesis by auto
  next
    case False
    with Cons.prems have "s \<in> set rows" by auto
    with Cons False show ?thesis by (auto simp: trigger_index_ok_def split: if_splits)
  qed
qed simp

lemma active_session_unique:
  assumes "sess_inv d" and "s \<in> set (sessions d)" and "active s" and "s_trigger_ref s = Some t"
  shows "active_session_for_trigger_locked t d = Some s"
  using active_filter_unique [OF _ assms(2-4)] assms(1)
  by (simp add: active_session_for_trigger_locked_def sess_inv_def)

lemma newest_mem: "newest ss = Some s \<Longrightarrow> s \<in> set ss"
proof (induction ss arbitrary: s)
  case (Cons t ss)
  then show ?case by (cases "newest ss") (auto split: if_splits)
qed simp

lemma newest_None [simp]: "newest ss = None \<longleftrightarrow> ss = []"
  by (cases ss) (auto split: option.splits)

lemma active_session_SomeD:
  "active_session_for_trigger_locked t d = Some s \<Longrightarrow> s \<in> set (sessions d) \<and> active s \<and> s_trigger_ref s = Some t"
  unfolding active_session_for_trigger_locked_def by (drule newest_mem) auto

lemma active_session_None:
  "active_session_for_trigger_locked t d = None \<longleftrightarrow> t \<notin> set (active_triggers (sessions d))"
  by (auto simp: active_session_for_trigger_locked_def filter_empty_conv set_active_triggers)

section \<open>Creating sessions\<close>

lemma sess_inv_cong:
  "sessions d' = sessions d \<Longrightarrow> session_bots d' = session_bots d \<Longrightarrow> sess_inv d' = sess_inv d"
  by (simp add: sess_inv_def)

lemma insert_session_Inr:
  assumes "sess_inv d" and "insert_session s d = Inr d'"
  shows "sess_inv d' \<and> d' = d\<lparr>sessions := sessions d @ [s]\<rparr>"
  using assms by (auto simp: insert_session_def write_sessions_Inr sess_inv_def split: if_splits)

lemma ins_roster_simps [simp]:
  "ins_roster sid [] rows = rows"
  "ins_roster sid (b # bs) rows = ins_roster sid bs (ins_ignore id \<lparr>sb_session_id = sid, sb_bot_id = b\<rparr> rows)"
  by (simp_all add: ins_roster_def)

lemma ins_roster_distinct: "distinct rows \<Longrightarrow> distinct (ins_roster sid bs rows)"
proof (induction bs arbitrary: rows)
  case (Cons b bs)
  then show ?case using ins_ignore_distinct [of id rows] by simp
qed simp

lemma row_mem_members: "(\<lparr>sb_session_id = sid, sb_bot_id = b\<rparr> \<in> set rows) = (b \<in> set (members sid rows))"
proof
  assume "b \<in> set (members sid rows)"
  then obtain r where r: "r \<in> set rows" "sb_session_id r = sid" "sb_bot_id r = b"
    by (auto simp: members_def)
  then have "r = \<lparr>sb_session_id = sid, sb_bot_id = b\<rparr>" by (intro SessionBot.equality) simp_all
  with r(1) show "\<lparr>sb_session_id = sid, sb_bot_id = b\<rparr> \<in> set rows" by simp
qed (auto simp: members_def intro: rev_image_eqI)

lemma members_ins:
  "members k (ins_ignore id \<lparr>sb_session_id = sid, sb_bot_id = b\<rparr> rows) =
    (if k = sid \<and> b \<notin> set (members sid rows) then members sid rows @ [b] else members k rows)"
  using row_mem_members [of sid b rows] by (auto simp: members_def ins_ignore_def)

lemma set_members_roster: "set (members sid (ins_roster sid bs rows)) = set (members sid rows) \<union> set bs"
  by (induction bs arbitrary: rows) (auto simp: members_ins)

lemma members_roster_other: "k \<noteq> sid \<Longrightarrow> members k (ins_roster sid bs rows) = members k rows"
  by (induction bs arbitrary: rows) (simp_all add: members_ins)

text \<open>A roster without repetitions is stored in its own order: pipeline stages rely on it.\<close>

lemma members_roster_new:
  "distinct bs \<Longrightarrow> set bs \<inter> set (members sid rows) = {} \<Longrightarrow>
    members sid (ins_roster sid bs rows) = members sid rows @ bs"
  by (induction bs arbitrary: rows) (simp_all add: members_ins)

definition opening_rows :: "string \<Rightarrow> OpeningInput list \<Rightarrow> Message list \<Rightarrow> bool" where
  "opening_rows sid inputs ms \<longleftrightarrow>
    map (\<lambda>m. (m_session_id m, m_author_kind m, m_audience m, m_content m)) ms =
    map (\<lambda>i. (sid, ''client'', Some (oi_recipient i), oi_content i)) inputs"

lemma fold_opening_Inl [simp]: "fold (insert_opening_input sid at) inputs (Inl e) = Inl e"
  by (induction inputs) (simp_all add: insert_opening_input_def)

lemma insert_opening_inputs_shape:
  assumes "insert_opening_inputs sid at inputs d = Inr d'"
  shows "\<exists>ms u. d' = d\<lparr>messages_t := messages_t d @ ms, uuid_next := u\<rparr> \<and> opening_rows sid inputs ms
    \<and> (distinct (map m_id (messages_t d)) \<longrightarrow> distinct (map m_id (messages_t d @ ms)))"
  using assms
proof (induction inputs arbitrary: d)
  case Nil
  then have "d' = d\<lparr>messages_t := messages_t d @ [], uuid_next := uuid_next d\<rparr>"
    by (simp add: insert_opening_inputs_def)
  then show ?case
    by (intro exI [of _ "[]"] exI [of _ "uuid_next d"]) (simp add: opening_rows_def)
next
  case (Cons i inputs)
  let ?m = "\<lparr>m_id = fst (new_id ''msg'' d), m_session_id = sid, m_thread_id = None,
        m_author_kind = ''client'', m_author_id = None, m_audience = Some (oi_recipient i),
        m_content = oi_content i, m_reply_to = None, m_created_at = at\<rparr>"
  let ?d1 = "d\<lparr>uuid_next := Suc (uuid_next d), messages_t := messages_t d @ [?m]\<rparr>"
  have fresh: "fst (new_id ''msg'' d) \<notin> m_id ` set (messages_t d)"
    and r: "insert_opening_inputs sid at inputs ?d1 = Inr d'"
    using Cons.prems
    by (auto simp: insert_opening_inputs_def insert_opening_input_def new_id_def split: if_splits)
  from Cons.IH [OF r] obtain ms u where ms: "d' = ?d1\<lparr>messages_t := messages_t ?d1 @ ms, uuid_next := u\<rparr>"
    "opening_rows sid inputs ms"
    "distinct (map m_id (messages_t ?d1)) \<longrightarrow> distinct (map m_id (messages_t ?d1 @ ms))"
    by blast
  then have "d' = d\<lparr>messages_t := messages_t d @ (?m # ms), uuid_next := u\<rparr>" by simp
  moreover have "opening_rows sid (i # inputs) (?m # ms)" using ms(2) by (simp add: opening_rows_def)
  moreover have "distinct (map m_id (messages_t d)) \<longrightarrow> distinct (map m_id (messages_t d @ (?m # ms)))"
    using ms(3) fresh by simp
  ultimately show ?case by blast
qed

lemma supersede_existing_Inr:
  assumes "sess_inv d" and "supersede_existing e new_sid at d = Inr d'" and "e \<in> set (sessions d)" and "active e"
  shows "sess_inv d' \<and> session_state d' = (session_state d)(s_id e \<mapsto> ''closed'')
    \<and> messages_t d' = messages_t d \<and> session_bots d' = session_bots d \<and> now d' = now d"
proof -
  let ?P = "\<lambda>s. s_id s = s_id e \<and> active s"
  let ?f = "\<lambda>s. s\<lparr>s_state := ''closed'', s_closed_at := Some at\<rparr>"
  have q: "same_but_queue (d\<lparr>sessions := upd_where ?P ?f (sessions d)\<rparr>) d'"
    using assms(2) unfolding supersede_existing_def Let_def
    by (auto dest!: append_audit_frame enqueue_session_event_frame intro: same_but_queue_trans)
  have n: "count_where ?P (sessions d) = 1"
    unfolding count_session_one [OF assms(1)] using session_unique [OF assms(1, 3)] assms(4) by blast
  have "(\<exists>s. session (s_id e) d = Some s \<and> active s \<and> session (s_id e) d' = Some (?f s))
      \<and> session_state d' = (session_state d)(s_id e \<mapsto> ''closed'') \<and> sess_inv d'"
    by (rule guarded_won [OF assms(1) n _ _ closing_keeps_index [OF assms(1)] q]) simp_all
  with same_but_queue_fields [OF q] show ?thesis by simp
qed

text \<open>The landing of a new session: its row, its roster and its opening inputs, all or nothing.\<close>

lemma landed:
  assumes inv: "sess_inv d"
    and ins: "insert_session row d = Inr d3"
    and inp: "insert_opening_inputs sid at inputs (add_roster_rows sid r d3) = Inr d4"
    and aud: "append_audit_event_locked e d4 = Inr d5"
  shows "sess_inv d5 \<and> sessions d5 = sessions d @ [row]
    \<and> session_bots d5 = ins_roster sid r (session_bots d)
    \<and> (\<exists>ms. messages_t d5 = messages_t d @ ms \<and> opening_rows sid inputs ms)"
proof -
  have d3: "sess_inv d3" "d3 = d\<lparr>sessions := sessions d @ [row]\<rparr>"
    using insert_session_Inr [OF inv ins] by auto
  obtain ms u where d4: "d4 = d3\<lparr>session_bots := ins_roster sid r (session_bots d3), messages_t := messages_t d3 @ ms, uuid_next := u\<rparr>"
    "opening_rows sid inputs ms"
    using insert_opening_inputs_shape [OF inp] by (auto simp: add_roster_rows_def)
  have "same_but_queue d4 d5" by (rule append_audit_frame [OF aud])
  moreover have "sess_inv d4" using d3(1) by (simp add: d4(1) sess_inv_def ins_roster_distinct)
  ultimately show ?thesis
    using d4(2) same_but_queue_fields [of d4 d5] sess_inv_queue [of d4 d5] by (auto simp: d4(1) d3(2))
qed

lemma session_state_append:
  assumes "s_id row \<notin> s_id ` set (sessions d)" and "sessions d' = sessions d @ [row]"
  shows "session_state d' = (session_state d)(s_id row \<mapsto> s_state row)"
proof
  fix k
  have "find (\<lambda>s. s_id s = s_id row) (sessions d) = None"
    unfolding find_None_conv using assms(1) by (metis imageI)
  then show "session_state d' k = ((session_state d)(s_id row \<mapsto> s_state row)) k"
    by (cases "find (\<lambda>s. s_id s = k) (sessions d)")
      (auto simp: session_state_def session_def assms(2) find_append)
qed

lemma insert_session_fresh: "insert_session row d = Inr d' \<Longrightarrow> s_id row \<notin> s_id ` set (sessions d)"
  by (auto simp: insert_session_def split: if_splits)

definition superseding_effect ::
  "string option \<Rightarrow> string option \<Rightarrow> Session \<Rightarrow> SessionCreateOutcome \<Rightarrow> db \<Rightarrow> db \<Rightarrow> bool" where
  "superseding_effect tr fp s oc d d' \<longleftrightarrow> (case oc of
     OutcomeDeduped \<Rightarrow> fp \<noteq> None \<and> s_trigger_fingerprint s = fp \<and> s \<in> set (sessions d)
       \<and> sessions d' = sessions d \<and> session_bots d' = session_bots d \<and> messages_t d' = messages_t d
   | OutcomeCreated \<Rightarrow> (\<forall>t. tr = Some t \<longrightarrow> active_session_for_trigger t d = None)
       \<and> session_state d' = (session_state d)(s_id s \<mapsto> s_state s)
   | OutcomeSuperseded old \<Rightarrow> (\<exists>t. tr = Some t \<and> active_session_for_trigger t d = Some old)
       \<and> session_state d' = (session_state d)(old \<mapsto> ''closed'', s_id s \<mapsto> s_state s))"

text \<open>One run of the landing part, from whatever database the superseding step left.\<close>

lemma land_effect:
  assumes inv: "sess_inv d" and run: "land_session row r inputs oc d = Inr ((s, oc'), d')" and act: "active row"
  shows "s = row \<and> oc' = oc \<and> sess_inv d' \<and> session_state d' = (session_state d)(s_id row \<mapsto> s_state row)
    \<and> (\<forall>t. s_trigger_ref row = Some t \<longrightarrow> active_session_for_trigger t d' = Some (s_id row))
    \<and> session_bots d' = ins_roster (s_id row) r (session_bots d)
    \<and> (\<exists>ms. messages_t d' = messages_t d @ ms \<and> opening_rows (s_id row) inputs ms)"
proof -
  from run obtain d3 d4 e where ins: "insert_session row d = Inr d3"
    and inp: "insert_opening_inputs (s_id row) (s_created_at row) inputs (add_roster_rows (s_id row) r d3) = Inr d4"
    and aud: "append_audit_event_locked e d4 = Inr d'" and eq: "s = row" "oc' = oc"
    unfolding land_session_def by blast
  have l: "sess_inv d'" "sessions d' = sessions d @ [row]" "session_bots d' = ins_roster (s_id row) r (session_bots d)"
    "\<exists>ms. messages_t d' = messages_t d @ ms \<and> opening_rows (s_id row) inputs ms"
    using landed [OF inv ins inp aud] by auto
  moreover have "session_state d' = (session_state d)(s_id row \<mapsto> s_state row)"
    by (rule session_state_append [OF insert_session_fresh [OF ins] l(2)])
  moreover have "active_session_for_trigger t d' = Some (s_id row)" if "s_trigger_ref row = Some t" for t
    using active_session_unique [OF l(1) _ act that] l(2) by (simp add: active_session_for_trigger_def)
  ultimately show ?thesis using eq by blast
qed

lemma superseding_post:
  assumes inv: "sess_inv d"
    and run: "create_session_superseding title tr fp qn chair r mode inputs d = Inr ((s, oc), d')"
  shows "sess_inv d' \<and> (\<forall>t. tr = Some t \<longrightarrow> active_session_for_trigger t d' = Some (s_id s))
    \<and> superseding_effect tr fp s oc d d'
    \<and> (oc \<noteq> OutcomeDeduped \<longrightarrow> session_bots d' = ins_roster (s_id s) r (session_bots d)
        \<and> (\<exists>ms. messages_t d' = messages_t d @ ms \<and> opening_rows (s_id s) inputs ms))"
proof -
  let ?sid = "''ses'' @ ''_'' @ uuid d (uuid_next d)"
  let ?d1 = "d\<lparr>uuid_next := Suc (uuid_next d)\<rparr>"
  define row where "row = new_session_row ?sid title (if inputs = [] then ''open'' else ''deliberating'') tr fp qn chair (now_ms ?d1) mode"
  have row: "active row" "s_trigger_ref row = tr" by (simp_all add: row_def new_session_row_def active_def)
  have inv1: "sess_inv ?d1" using inv by (simp add: sess_inv_def)
  have same: "active_session_for_trigger_locked t ?d1 = active_session_for_trigger_locked t d" for t
    by (simp add: active_session_for_trigger_locked_def)
  have st1: "session_state ?d1 = session_state d" by (simp add: session_state_def session_def fun_eq_iff)
  show ?thesis
  proof (cases "Option.bind tr (\<lambda>t. active_session_for_trigger_locked t ?d1)")
    case None
    then have none: "active_session_for_trigger t d = None" if "tr = Some t" for t
      using that same by (simp add: active_session_for_trigger_def)
    from run None have "land_session row r inputs OutcomeCreated ?d1 = Inr ((s, oc), d')"
      by (simp add: create_session_superseding_def new_id_def Let_def row_def)
    from land_effect [OF inv1 this row(1)] none show ?thesis
      by (auto simp: row(2) st1 superseding_effect_def)
  next
    case (Some e)
    then obtain t where t: "tr = Some t" and e: "active_session_for_trigger_locked t d = Some e"
      using same by (auto simp: bind_eq_Some_conv)
    note eD = active_session_SomeD [OF e]
    show ?thesis
    proof (cases "s_trigger_fingerprint e \<noteq> None \<and> s_trigger_fingerprint e = fp")
      case True
      then obtain f where f: "s_trigger_fingerprint e = Some f" "fp = Some f" by auto
      with run Some have "s = e" "oc = OutcomeDeduped" "d' = ?d1"
        by (simp_all add: create_session_superseding_def new_id_def Let_def)
      with f t e eD inv1 same show ?thesis
        by (simp add: superseding_effect_def active_session_for_trigger_def)
    next
      case False
      with run obtain d2 where d2: "supersede_existing e ?sid (now_ms ?d1) ?d1 = Inr d2"
        "land_session row r inputs (OutcomeSuperseded (s_id e)) d2 = Inr ((s, oc), d')"
        unfolding create_session_superseding_def new_id_def Let_def row_def
        by (simp only: prod.case Some option.case if_False) blast
      have sup: "sess_inv d2" "session_state d2 = (session_state d)(s_id e \<mapsto> ''closed'')"
        "messages_t d2 = messages_t d" "session_bots d2 = session_bots d"
        using supersede_existing_Inr [OF inv1 d2(1)] eD st1 by simp_all
      from land_effect [OF sup(1) d2(2) row(1)] show ?thesis
        using t e by (auto simp: row(2) sup superseding_effect_def active_session_for_trigger_def)
    qed
  qed
qed

section \<open>The other operations keep the invariant\<close>

lemma create_session_inv:
  assumes "sess_inv d" and "create_session title tr qn chair r mode d = Inr (s, d')"
  shows "sess_inv d'"
proof -
  let ?d1 = "d\<lparr>uuid_next := Suc (uuid_next d)\<rparr>"
  have inv1: "sess_inv ?d1" using assms(1) by (simp add: sess_inv_def)
  obtain row d2 e sid where ins: "insert_session row ?d1 = Inr d2"
    and aud: "append_audit_event_locked e (add_roster_rows sid r d2) = Inr d'"
    using assms(2) unfolding create_session_def new_id_def Let_def prod.case by blast
  have "sess_inv (add_roster_rows sid r d2)"
    using conjunct1 [OF insert_session_Inr [OF inv1 ins]]
    by (simp add: sess_inv_def add_roster_rows_def ins_roster_distinct)
  with append_audit_frame [OF aud] show ?thesis by (simp add: sess_inv_queue)
qed

lemma set_state_inv:
  assumes "sess_inv d" and "set_state sid st d = Inr (u, d')"
  shows "sess_inv d'"
proof -
  let ?P = "\<lambda>s. s_id s = sid"
  let ?f = "\<lambda>s. s\<lparr>s_state := as_str st, s_closed_at := coalesce (closing_time st d) (s_closed_at s)\<rparr>"
  have idx: "trigger_index_ok (upd_where ?P ?f (sessions d))"
    and q: "same_but_queue (d\<lparr>sessions := upd_where ?P ?f (sessions d)\<rparr>) d'"
    using assms(2) unfolding set_state_def Let_def
    by (auto simp: write_sessions_Inr split: if_splits dest: state_change_audit_frame)
  from sess_inv_upd [OF assms(1) idx] sess_inv_queue [OF q] show ?thesis by simp
qed

lemma reopen_session_inv:
  assumes "sess_inv d" and "reopen_session sid fr d = Inr (b, d')"
  shows "sess_inv d'"
proof -
  let ?P = "\<lambda>s. s_id s = sid \<and> s_state s = as_str fr"
  let ?f = "\<lambda>s. s\<lparr>s_state := ''deliberating'', s_result_author_id := None, s_result_message_ids := None\<rparr>"
  have idx: "trigger_index_ok (upd_where ?P ?f (sessions d))"
    and d': "d' = d\<lparr>sessions := upd_where ?P ?f (sessions d)\<rparr>"
    using assms(2) unfolding reopen_session_def Let_def by (auto simp: write_sessions_Inr)
  from sess_inv_upd [OF assms(1) idx] d' show ?thesis by simp
qed

lemma sess_inv_harmless:
  assumes "sess_inv d" and "\<And>s. s_id (f s) = s_id s \<and> s_state (f s) = s_state s \<and> s_trigger_ref (f s) = s_trigger_ref s"
  shows "sess_inv (d\<lparr>sessions := upd_where P f (sessions d)\<rparr>)"
proof (rule sess_inv_upd [OF assms(1)])
  show "trigger_index_ok (upd_where P f (sessions d))"
    using assms by (intro trigger_index_upd) (auto simp: sess_inv_def active_def)
qed (simp add: assms(2))

lemma set_session_fields_inv:
  "sess_inv d \<Longrightarrow> sess_inv (set_session_quorum sid n d)"
  "sess_inv d \<Longrightarrow> sess_inv (set_session_chair sid c d)"
  "sess_inv d \<Longrightarrow> sess_inv (set_session_verdict sid dec r y g d)"
  unfolding set_session_quorum_def set_session_chair_def set_session_verdict_def
  by (rule sess_inv_harmless; simp)+

lemma roster_ops_inv:
  "sess_inv d \<Longrightarrow> sess_inv (snd (add_session_bot sid b d))"
  "sess_inv d \<Longrightarrow> sess_inv (snd (remove_session_bot sid b d))"
  "sess_inv d \<Longrightarrow> replace_session_bot sid b c d = Inr (x, d') \<Longrightarrow> sess_inv d'"
  using ins_ignore_distinct [of id "session_bots d"] distinct_del_where [of id "session_bots d"]
  by (auto simp: sess_inv_def add_session_bot_def add_roster_row_def remove_session_bot_def
      replace_session_bot_def Let_def split: if_splits)

lemma distinct_first: "distinct (rev (remdups (rev xs)))" "set (rev (remdups (rev xs))) = set xs"
  by simp_all

lemma add_bots_capacity:
  assumes "sess_inv d" and "add_session_bots_if_capacity sid bids cap inputs d = Inr (Added added already, d')"
  shows "sess_inv d' \<and> roster sid d' = roster sid d @ added \<and> length (roster sid d') \<le> cap
    \<and> set added = set bids - set (roster sid d) \<and> set already = set bids \<inter> set (roster sid d)
    \<and> (\<exists>ms. messages_t d' = messages_t d @ ms \<and> opening_rows sid (filter (\<lambda>i. oi_recipient i \<in> set added) inputs) ms)"
proof -
  let ?u = "rev (remdups (rev bids))"
  let ?rows = "map (\<lambda>b. \<lparr>sb_session_id = sid, sb_bot_id = b\<rparr>)"
  have added: "added = filter (\<lambda>b. b \<notin> set (roster sid d)) ?u"
    and already: "already = filter (\<lambda>b. b \<in> set (roster sid d)) ?u"
    and cap: "length (roster sid d) + length added \<le> cap"
    and ins: "insert_opening_inputs sid (now_ms (d\<lparr>session_bots := session_bots d @ ?rows added\<rparr>))
        (filter (\<lambda>i. oi_recipient i \<in> set added) inputs) (d\<lparr>session_bots := session_bots d @ ?rows added\<rparr>) = Inr d'"
    using assms(2) unfolding add_session_bots_if_capacity_def Let_def by (auto split: if_splits)
  have d': "session_bots d' = session_bots d @ ?rows added" "sessions d' = sessions d"
    "\<exists>ms. messages_t d' = messages_t d @ ms \<and> opening_rows sid (filter (\<lambda>i. oi_recipient i \<in> set added) inputs) ms"
    using insert_opening_inputs_shape [OF ins] by auto
  have "roster sid d' = roster sid d @ added"
    by (simp add: roster_def d'(1) members_def comp_def)
  moreover have "distinct (session_bots d @ ?rows added)"
    using assms(1) row_mem_members [of sid _ "session_bots d"]
    by (auto simp: sess_inv_def added distinct_map inj_on_def roster_def)
  ultimately show ?thesis
    using assms(1) d' cap by (auto simp: sess_inv_def added already)
qed

section \<open>Truncation of the closing payload\<close>

lemma drop_oldest_suffix: "\<exists>pre. xs = pre @ drop_oldest cap xs"
proof (induction cap xs rule: drop_oldest.induct)
  case (1 cap x y ys)
  then show ?case
  proof (cases "total_bytes (x # y # ys) > cap")
    case True
    with 1 obtain pre where "y # ys = pre @ drop_oldest cap (y # ys)" by auto
    with True have "x # y # ys = (x # pre) @ drop_oldest cap (x # y # ys)" by simp
    then show ?thesis by blast
  qed simp
qed simp_all

lemma drop_oldest_nonempty: "xs \<noteq> [] \<Longrightarrow> drop_oldest cap xs \<noteq> [] \<and> last (drop_oldest cap xs) = last xs"
  by (induction cap xs rule: drop_oldest.induct) auto

lemma drop_oldest_total: "total_bytes (drop_oldest cap xs) \<le> cap \<or> length (drop_oldest cap xs) \<le> 1"
  by (induction cap xs rule: drop_oldest.induct) auto

lemma drop_oldest_id: "total_bytes xs \<le> cap \<Longrightarrow> drop_oldest cap xs = xs"
  by (induction cap xs rule: drop_oldest.induct) auto

lemma clip_tail_length: "length (clip_tail cap t) \<le> cap"
proof (cases "length t > cap")
  case True
  show ?thesis
  proof (cases "find (is_char_boundary t) [length t - cap..<Suc (length t)]")
    case None
    with True show ?thesis by (simp add: clip_tail_def Let_def)
  next
    case (Some i)
    then have "i \<ge> length t - cap" using find_SomeD [OF Some] by auto
    with True Some show ?thesis by (simp add: clip_tail_def Let_def)
  qed
qed (simp add: clip_tail_def)

lemma clip_tail_suffix: "\<exists>pre. t = pre @ clip_tail cap t"
proof (cases "length t > cap")
  case True
  then have "\<exists>n. clip_tail cap t = drop n t" by (auto simp: clip_tail_def Let_def)
  then show ?thesis by (metis append_take_drop_id)
qed (simp add: clip_tail_def)

lemma truncated_iff: "snd (keep_final_messages cap xs) \<longleftrightarrow> total_bytes xs > cap"
proof (cases "total_bytes xs > cap")
  case True
  show ?thesis
  proof (cases "length (drop_oldest cap xs) < length xs")
    case False
    obtain pre where "xs = pre @ drop_oldest cap xs" using drop_oldest_suffix by blast
    with False have same: "drop_oldest cap xs = xs"
      by (metis append_self_conv2 length_append less_add_same_cancel2 length_greater_0_conv)
    with drop_oldest_total [of cap xs] True have "length xs \<le> 1" by auto
    with True have "xs \<noteq> [] \<and> length (last xs) > cap" by (cases xs) auto
    with same True show ?thesis by (simp add: keep_final_messages_def Let_def)
  qed (simp add: keep_final_messages_def Let_def True)
next
  case False
  then have "drop_oldest cap xs = xs" by (intro drop_oldest_id) simp
  moreover have "length (last xs) \<le> total_bytes xs" if "xs \<noteq> []"
    using that by (intro member_le_sum_list) simp_all
  ultimately show ?thesis using False by (force simp: keep_final_messages_def Let_def)
qed

lemma clip_last_total: "total_bytes xs \<le> cap \<or> length xs \<le> 1 \<Longrightarrow> total_bytes (clip_last cap xs) \<le> cap"
proof (cases xs rule: rev_cases)
  case (snoc ys t)
  assume a: "total_bytes xs \<le> cap \<or> length xs \<le> 1"
  show ?thesis
  proof (cases "total_bytes xs \<le> cap")
    case True
    with snoc have "clip_tail cap t = t" by (simp add: clip_tail_def)
    with True snoc show ?thesis by (simp add: clip_last_def)
  next
    case False
    with a snoc have "ys = []" by simp
    with snoc show ?thesis by (simp add: clip_last_def clip_tail_length)
  qed
qed (simp add: clip_last_def)

lemma clip_last_id: "total_bytes xs \<le> cap \<Longrightarrow> clip_last cap xs = xs"
  by (cases xs rule: rev_cases) (simp_all add: clip_last_def clip_tail_def)

lemma kept_suffix: "\<exists>pre. concat xs = pre @ concat (fst (keep_final_messages cap xs))"
proof -
  let ?k = "drop_oldest cap xs"
  obtain pre where pre: "xs = pre @ ?k" using drop_oldest_suffix by blast
  have f: "fst (keep_final_messages cap xs) = clip_last cap ?k" by (simp add: keep_final_messages_def Let_def)
  show ?thesis
  proof (cases "total_bytes ?k \<le> cap")
    case True
    with f have "concat xs = concat pre @ concat (fst (keep_final_messages cap xs))"
      by (metis clip_last_id concat_append pre)
    then show ?thesis ..
  next
    case False
    with drop_oldest_total [of cap xs] have "length ?k \<le> 1" by blast
    moreover from False have "?k \<noteq> []" by auto
    ultimately obtain t where t: "?k = [t]" by (cases ?k) auto
    obtain cut where cut: "t = cut @ clip_tail cap t" using clip_tail_suffix by blast
    have "concat xs = concat pre @ t" using pre t by (metis concat.simps concat_append append_Nil2)
    moreover have "concat (fst (keep_final_messages cap xs)) = clip_tail cap t" by (simp add: f t clip_last_def)
    ultimately show ?thesis using cut by (metis append_assoc)
  qed
qed

section \<open>Properties of the session store\<close>

text \<open>
  A trigger has at most one active session, through every way of opening one: after a
  successful superseding create the returned session is the trigger's only active one. A repeated
  fingerprint returns the existing session and writes nothing; otherwise a previously active
  session is closed in the same transaction, no other session changes state, and the new session's
  roster and opening inputs have landed with it.
\<close>

theorem superseding_leaves_one_active:
  assumes "sess_inv d"
    and "create_session_superseding title tr fp qn chair r mode inputs d = Inr ((s, oc), d')"
  shows "sess_inv d' \<and> (\<forall>t. tr = Some t \<longrightarrow> active_session_for_trigger t d' = Some (s_id s))
    \<and> superseding_effect tr fp s oc d d'
    \<and> (oc \<noteq> OutcomeDeduped \<longrightarrow> session_bots d' = ins_roster (s_id s) r (session_bots d)
        \<and> (\<exists>ms. messages_t d' = messages_t d @ ms \<and> opening_rows (s_id s) inputs ms))"
  by (rule superseding_post [OF assms])

definition example_session :: Session where
  "example_session = (new_session_row ''ses_a'' ''t'' ''deliberating'' (Some ''pr:1'') (Some ''f1'') 1 (Some ''c'') 0 ''council'')"

definition example_db :: db where
  "example_db = empty_db\<lparr>sessions := [example_session]\<rparr>"

lemma example_inv: "sess_inv example_db"
  by (simp add: sess_inv_def example_db_def empty_db_def trigger_index_ok_def)

lemma example_dedup:
  "create_session_superseding ''t2'' (Some ''pr:1'') (Some ''f1'') 1 None [''c''] ''council'' [] example_db
    = Inr ((example_session, OutcomeDeduped), example_db\<lparr>uuid_next := 1\<rparr>)"
  by (simp add: create_session_superseding_def new_id_def active_session_for_trigger_locked_def example_db_def
      example_session_def new_session_row_def active_def empty_db_def)

theorem superseding_leaves_one_active_witness:
  "active_session_for_trigger ''pr:1'' (example_db\<lparr>uuid_next := 1\<rparr>) = Some ''ses_a''"
  using superseding_leaves_one_active [OF example_inv example_dedup]
  by (simp add: example_session_def new_session_row_def)

text \<open>
  State transitions are won once: of any interleaving of compare-and-swap transitions to one
  target state, over any sessions and from any expected states, no session's transition is won
  twice; attempts that fail with an error change nothing.
\<close>

theorem transition_won_once:
  assumes "sess_inv d" and "\<forall>(sid, fr) \<in> set attempts. fr \<noteq> to"
  shows "distinct (fst (cas_cell.race (\<lambda>sid fr d. won_opt (advance_state sid fr to d)) attempts d))"
  using advance.race_distinct [of d attempts to] assms by auto

theorem transition_won_once_witness:
  "distinct (fst (cas_cell.race (\<lambda>sid fr d. won_opt (advance_state sid fr Quorum d))
    [(''ses_a'', Deliberating), (''ses_a'', Open), (''ses_a'', Deliberating)] example_db))"
  using transition_won_once [OF example_inv, of "[(''ses_a'', Deliberating), (''ses_a'', Open), (''ses_a'', Deliberating)]" Quorum]
  by simp

text \<open>
  A session is closed with a result at most once, whoever races to close it, and the winner's
  row records exactly the decision, counts and result identity it passed, from the state it expected.
\<close>

theorem result_close_once:
  assumes "sess_inv d" and "close_session_with_result sid fr dec r y g author ids finals rc d = Inr (True, d')"
    and "fr \<noteq> Closed"
  shows "session_state d sid = Some (as_str fr) \<and> session_state d' = (session_state d)(sid \<mapsto> ''closed'')
    \<and> (\<exists>s. session sid d' = Some s \<and> s_decision s = dec \<and> s_findings_red s = r \<and> s_findings_yellow s = y
         \<and> s_findings_green s = g \<and> s_result_author_id s = author \<and> s_result_message_ids s = ids
         \<and> s_closed_at s = Some (now_ms d))
    \<and> \<not> (\<exists>fr' dec' r' y' g' author' ids' finals' rc' d''. fr' \<noteq> Closed
         \<and> close_session_with_result sid fr' dec' r' y' g' author' ids' finals' rc' d' = Inr (True, d''))"
proof -
  note w = close_with_result_won [OF assms(1, 2)]
  have "session_state d' sid = Some ''closed''" "sess_inv d'" using w by simp_all
  then have "\<not> (close_session_with_result sid fr' dec' r' y' g' author' ids' finals' rc' d' = Inr (True, d''))"
    if "fr' \<noteq> Closed" for fr' dec' r' y' g' author' ids' finals' rc' d''
    using close_with_result_won [of d' sid fr' dec' r' y' g' author' ids' finals' rc' d''] that
      as_str_inj [of fr' Closed] by fastforce
  with w show ?thesis by auto
qed

text \<open>For a session without a controller the close goes through whenever its guard holds.\<close>

lemma close_with_result_ok:
  assumes "sess_inv d" "clock_ok d" "id_ok sid" "session_state d sid = Some (as_str fr)"
    and "sid \<notin> cs_session_id ` set (controller_sessions d)"
  shows "\<exists>d'. close_session_with_result sid fr dec r y g author ids finals rc d = Inr (True, d')"
proof -
  have n: "count_where (\<lambda>s. s_id s = sid \<and> s_state s = as_str fr) (sessions d) = 1"
    unfolding count_session_one [OF assms(1)] using assms(4) by (auto simp: session_state_def)
  have k: "kind_ok ''session.closed''" by (simp add: kind_ok_def plain_def ws1_def is_continuation_def)
  let ?d1 = "d\<lparr>sessions := upd_where (\<lambda>s. s_id s = sid \<and> s_state s = as_str fr) (\<lambda>s. s\<lparr>s_state := ''closed'',
      s_closed_at := Some (now_ms d), s_decision := dec, s_findings_red := r, s_findings_yellow := y, s_findings_green := g,
      s_result_author_id := author, s_result_message_ids := ids\<rparr>) (sessions d)\<rparr>"
  have "validate (keyed_session_audit_event ?d1 (''session.closed'' @ '':'' @ sid @ '':'' @ int_str (now_ms d))
      ''session.closed'' sid ASucceeded (now_ms d) tr dt) = Inr ()" for tr dt
    using assms(2) by (intro timed_key_valid k assms(3)) (simp_all add: clock_ok_def now_ms_def)
  then obtain d2 where a: "append_audit_event_locked (keyed_session_audit_event ?d1
      (''session.closed:'' @ sid @ '':'' @ int_str (now_ms d)) ''session.closed'' sid ASucceeded (now_ms d) (trigger_ref_of sid ?d1)
      (JObj [(''reason'', JStr ''normal''), (''decision'', jopt dec), (''findings_red'', jopt_num r),
        (''findings_yellow'', jopt_num y), (''findings_green'', jopt_num g),
        (''result_author_id'', jopt author), (''result_message_ids'', jopt_json ids)])) ?d1 = Inr d2"
    using append_audit_ok by fastforce
  then have "controller_sessions d2 = controller_sessions d"
    using same_but_queue_fields(11) [OF append_audit_frame [OF a]] by simp
  with assms(5) have "enqueue_controller_session_event_locked sid t pl kk at d2 = Inr d2" for t pl kk at
    by (intro enqueue_session_event_ok) simp
  with n a show ?thesis by (simp add: close_session_with_result_def Let_def)
qed

theorem result_close_once_witness:
  "\<exists>d'. close_session_with_result ''ses_a'' Deliberating (Some ''approve'') (Some 0) (Some 0) None (Some ''c'') None []
      \<lparr>required_valid_reviewers = 1, valid_reviewers = 1\<rparr> example_db = Inr (True, d')
    \<and> session_state d' ''ses_a'' = Some ''closed''"
proof -
  obtain d' where "close_session_with_result ''ses_a'' Deliberating (Some ''approve'') (Some 0) (Some 0) None (Some ''c'') None []
      \<lparr>required_valid_reviewers = 1, valid_reviewers = 1\<rparr> example_db = Inr (True, d')"
    using close_with_result_ok [OF example_inv, of "''ses_a''" Deliberating]
    by (fastforce simp: example_db_def empty_db_def clock_ok_def i64_range_def id_ok_def plain_def ws1_def
        is_continuation_def session_state_def session_def example_session_def new_session_row_def)
  with result_close_once [OF example_inv this] show ?thesis by simp
qed

text \<open>
  The closing payload handed to a controller respects the byte cap, drops only from the front
  of the final messages, never drops everything, and is flagged as truncated exactly when the
  messages exceed the cap; a last message within the cap arrives whole.
\<close>

theorem final_messages_truncation:
  "case keep_final_messages cap xs of (kept, truncated) \<Rightarrow>
     total_bytes kept \<le> cap
     \<and> (\<exists>pre. concat xs = pre @ concat kept)
     \<and> (truncated = (total_bytes xs > cap))
     \<and> (if xs = [] then kept = [] else kept \<noteq> [] \<and> last kept = clip_tail cap (last xs))"
proof -
  obtain kept tr where k: "keep_final_messages cap xs = (kept, tr)" by force
  then have kept: "kept = clip_last cap (drop_oldest cap xs)" by (auto simp: keep_final_messages_def Let_def)
  have "total_bytes kept \<le> cap"
    unfolding kept using drop_oldest_total by (rule clip_last_total)
  moreover have "tr = (total_bytes xs > cap)" using truncated_iff [of cap xs] k by simp
  moreover have "\<exists>pre. concat xs = pre @ concat kept" using kept_suffix [of xs cap] k by simp
  moreover have "if xs = [] then kept = [] else kept \<noteq> [] \<and> last kept = clip_tail cap (last xs)"
    using drop_oldest_nonempty [of xs cap] by (auto simp: kept clip_last_def)
  ultimately show ?thesis using k by simp
qed

end
