(* ===== verification/Store_Messages.thy ===== *)
theory Store_Messages
  imports Store_Sessions Turn_Report
begin

text \<open>
  Bots, threads, messages, reactions, the durable outbox, settings and the small bookkeeping tables
  of \<^verbatim>\<open>src/store.rs\<close>. Shown here: the outbox is a first-in first-out queue that records a frame
  once per idempotency key even after delivery, done votes count only what the vote rule allows,
  health accounting crosses each threshold once, and every reachable database keeps its keys unique.
\<close>

section \<open>Bots\<close>

record Bot =
  bt_id :: string
  bt_name :: string
  bt_role :: string

datatype BotHealthTransition = NoTransition | Degraded | Recovered

datatype DeleteBotOutcome = BotDeleted | BotNotFound | BotActiveSession

record BotMetadata =
  bm_provider :: "string option"
  bm_capabilities :: "string list option"
  bm_version :: "string option"
  bm_runtime :: "json option"

record BotMetadataPatch =
  bp_provider :: "string option option"
  bp_capabilities :: "string list option"
  bp_enabled :: "bool option"
  bp_health :: "string option"
  bp_note :: "string option option"
  bp_version :: "string option option"
  bp_runtime :: "json option option"

text \<open>A row with the schema's column defaults.\<close>

definition bot_row :: "string \<Rightarrow> string \<Rightarrow> string \<Rightarrow> string \<Rightarrow> string \<Rightarrow> string \<Rightarrow> BotRow" where
  "bot_row bid name role token_hash token_plain source =
    \<lparr>b_id = bid, b_name = name, b_role = role, b_token_hash = token_hash, b_token_plain = Some token_plain,
     b_last_seen = None, b_provider = None, b_capabilities = [], b_enabled = True, b_health = ''ok'',
     b_consecutive_errors = 0, b_last_error_at = None, b_note = None, b_version = None, b_runtime = None,
     b_source = source\<rparr>"

definition to_bot :: "BotRow \<Rightarrow> Bot" where
  "to_bot r = \<lparr>bt_id = b_id r, bt_name = b_name r, bt_role = b_role r\<rparr>"

definition find_bot :: "string \<Rightarrow> db \<Rightarrow> BotRow option" where
  "find_bot bid d = find (\<lambda>r. b_id r = bid) (bots d)"

definition register_bot :: "string \<Rightarrow> string \<Rightarrow> string \<Rightarrow> string \<Rightarrow> db \<Rightarrow> Bot res" where
  "register_bot name role token_hash token_plain d =
    (let (bid, d1) = new_id ''bot'' d;
         row = bot_row bid name role token_hash token_plain ''registered''
     in if bid \<in> b_id ` set (bots d1) then Inl (ConstraintViolation ''bots.id'')
        else Inr (to_bot row, d1\<lparr>bots := bots d1 @ [row]\<rparr>))"

definition seed_bot :: "string \<Rightarrow> string \<Rightarrow> string \<Rightarrow> string \<Rightarrow> string \<Rightarrow> db \<Rightarrow> bool \<times> db" where
  "seed_bot bid name role token_hash token_plain d =
    (bid \<notin> b_id ` set (bots d),
     d\<lparr>bots := ins_ignore b_id (bot_row bid name role token_hash token_plain ''seeded'') (bots d)\<rparr>)"

definition bot_token_plain :: "string \<Rightarrow> db \<Rightarrow> string option" where
  "bot_token_plain bid d = Option.bind (find_bot bid d) b_token_plain"

definition bots_with_plaintext_token :: "db \<Rightarrow> string list" where
  "bots_with_plaintext_token d =
    map b_name (sort_key b_name (filter (\<lambda>r. b_token_plain r \<noteq> None \<and> b_token_plain r \<noteq> Some []) (bots d)))"

definition bot_by_token_hash :: "string \<Rightarrow> db \<Rightarrow> Bot option" where
  "bot_by_token_hash token_hash d = map_option to_bot (find (\<lambda>r. b_token_hash r = token_hash) (bots d))"

definition bot_of :: "string \<Rightarrow> db \<Rightarrow> Bot option" where
  "bot_of bid d = map_option to_bot (find_bot bid d)"

definition touch_last_seen_at :: "string \<Rightarrow> int \<Rightarrow> db \<Rightarrow> db" where
  "touch_last_seen_at bid ts d =
    d\<lparr>bots := upd_where (\<lambda>r. b_id r = bid \<and> (case b_last_seen r of None \<Rightarrow> True | Some t \<Rightarrow> ts > t))
       (\<lambda>r. r\<lparr>b_last_seen := Some ts\<rparr>) (bots d)\<rparr>"

definition touch_last_seen :: "string \<Rightarrow> db \<Rightarrow> db" where
  "touch_last_seen bid d = touch_last_seen_at bid (now_ms d) d"

definition discover_bot :: "string \<Rightarrow> string option \<Rightarrow> string \<Rightarrow> BotMetadata \<Rightarrow> db \<Rightarrow> (Bot \<times> bool) res" where
  "discover_bot bid name role metadata d =
    (case find_bot bid d of
      Some _ \<Rightarrow>
        (let d1 = d\<lparr>bots := upd_where (\<lambda>r. b_id r = bid) (\<lambda>r. r\<lparr>
             b_provider := coalesce (bm_provider metadata) (b_provider r),
             b_capabilities := (case bm_capabilities metadata of Some c \<Rightarrow> c | None \<Rightarrow> b_capabilities r),
             b_version := coalesce (bm_version metadata) (b_version r),
             b_runtime := coalesce (bm_runtime metadata) (b_runtime r)\<rparr>) (bots d)\<rparr>
         in case find_bot bid d1 of Some r \<Rightarrow> Inr ((to_bot r, False), d1) | None \<Rightarrow> Inl QueryReturnedNoRows)
    | None \<Rightarrow>
        (let token = ''oabct_'' @ uuid d (uuid_next d);
             row = (bot_row bid (case name of Some n \<Rightarrow> n | None \<Rightarrow> bid) role (sha256_hex d token) token ''discovered'')
               \<lparr>b_provider := bm_provider metadata,
                b_capabilities := (case bm_capabilities metadata of Some c \<Rightarrow> c | None \<Rightarrow> []),
                b_version := bm_version metadata,
                b_runtime := bm_runtime metadata\<rparr>;
             d1 = d\<lparr>bots := bots d @ [row], uuid_next := Suc (uuid_next d)\<rparr>
         in Inr ((to_bot row, True), d1)))"

definition patch_bot :: "BotMetadataPatch \<Rightarrow> BotRow \<Rightarrow> BotRow" where
  "patch_bot p r = r\<lparr>
     b_provider := (case bp_provider p of Some v \<Rightarrow> v | None \<Rightarrow> b_provider r),
     b_capabilities := (case bp_capabilities p of Some v \<Rightarrow> v | None \<Rightarrow> b_capabilities r),
     b_enabled := (case bp_enabled p of Some v \<Rightarrow> v | None \<Rightarrow> b_enabled r),
     b_health := (case bp_health p of Some v \<Rightarrow> v | None \<Rightarrow> b_health r),
     b_note := (case bp_note p of Some v \<Rightarrow> v | None \<Rightarrow> b_note r),
     b_version := (case bp_version p of Some v \<Rightarrow> v | None \<Rightarrow> b_version r),
     b_runtime := (case bp_runtime p of Some v \<Rightarrow> v | None \<Rightarrow> b_runtime r)\<rparr>"

definition update_bot_metadata :: "string \<Rightarrow> BotMetadataPatch \<Rightarrow> db \<Rightarrow> bool \<times> db" where
  "update_bot_metadata bid p d =
    (if find_bot bid d = None then (False, d)
     else (True, d\<lparr>bots := upd_where (\<lambda>r. b_id r = bid) (patch_bot p) (bots d)\<rparr>))"

definition has_active_session :: "string \<Rightarrow> db \<Rightarrow> bool" where
  "has_active_session bid d =
    list_ex (\<lambda>sb. sb_bot_id sb = bid \<and> list_ex (\<lambda>s. s_id s = sb_session_id sb \<and> active s) (sessions d)) (session_bots d)"

definition delete_bot :: "string \<Rightarrow> db \<Rightarrow> DeleteBotOutcome \<times> db" where
  "delete_bot bid d =
    (if has_active_session bid d then (BotActiveSession, d)
     else (if count_where (\<lambda>r. b_id r = bid) (bots d) = 0 then BotNotFound else BotDeleted,
           d\<lparr>bots := del_where (\<lambda>r. b_id r = bid) (bots d)\<rparr>))"

definition set_bot :: "string \<Rightarrow> (BotRow \<Rightarrow> BotRow) \<Rightarrow> db \<Rightarrow> db" where
  "set_bot bid f d = d\<lparr>bots := upd_where (\<lambda>r. b_id r = bid) f (bots d)\<rparr>"

definition record_bot_frame :: "string \<Rightarrow> bool \<Rightarrow> int \<Rightarrow> db \<Rightarrow> BotHealthTransition \<times> db" where
  "record_bot_frame bid is_error threshold d =
    (case find_bot bid d of
      None \<Rightarrow> (NoTransition, d)
    | Some r \<Rightarrow>
        (let errors = b_consecutive_errors r; health = b_health r in
         if is_error then
           let nxt = errors + 1 in
           if nxt \<ge> threshold \<and> health \<noteq> ''degraded'' then
             (Degraded, set_bot bid (\<lambda>r. r\<lparr>b_consecutive_errors := nxt, b_last_error_at := Some (now_ms d), b_health := ''degraded''\<rparr>) d)
           else
             (NoTransition, set_bot bid (\<lambda>r. r\<lparr>b_consecutive_errors := nxt, b_last_error_at := Some (now_ms d)\<rparr>) d)
         else if health = ''degraded'' then
           (Recovered, set_bot bid (\<lambda>r. r\<lparr>b_consecutive_errors := 0, b_health := ''ok''\<rparr>) d)
         else if errors \<noteq> 0 then
           (NoTransition, set_bot bid (\<lambda>r. r\<lparr>b_consecutive_errors := 0\<rparr>) d)
         else (NoTransition, d)))"

section \<open>Threads and messages\<close>

definition thread_for_session :: "string \<Rightarrow> db \<Rightarrow> string option" where
  "thread_for_session sid d = map_option th_id (find (\<lambda>t. th_session_id t = sid) (threads d))"

definition upsert_thread :: "string \<Rightarrow> string option \<Rightarrow> db \<Rightarrow> string res" where
  "upsert_thread sid root_message_id d =
    (case thread_for_session sid d of
      Some existing \<Rightarrow> Inr (existing, d)
    | None \<Rightarrow>
        (let (tid, d1) = new_id ''thr'' d in
         if tid \<in> th_id ` set (threads d1) then Inl (ConstraintViolation ''threads.id'')
         else Inr (tid, d1\<lparr>threads := threads d1 @ [\<lparr>th_id = tid, th_session_id = sid, th_root_message_id = root_message_id\<rparr>]\<rparr>)))"

definition add_message ::
  "string \<Rightarrow> string option \<Rightarrow> string \<Rightarrow> string option \<Rightarrow> string option \<Rightarrow> string \<Rightarrow> string option \<Rightarrow> db \<Rightarrow> Message res" where
  "add_message sid thread_id author_kind author_id audience content reply_to d =
    (let (mid, d1) = new_id ''msg'' d;
         created_at = now_ms d1;
         row = \<lparr>m_id = mid, m_session_id = sid, m_thread_id = thread_id, m_author_kind = author_kind,
           m_author_id = author_id, m_audience = audience, m_content = content, m_reply_to = reply_to,
           m_created_at = created_at\<rparr>
     in if mid \<in> m_id ` set (messages_t d1) then Inl (ConstraintViolation ''messages.id'')
        else let d2 = d1\<lparr>messages_t := messages_t d1 @ [row]\<rparr> in
          bindE (append_audit_event_locked
            (message_audit_event d2 sid mid author_kind author_id audience content created_at) d2) (\<lambda>d3.
          bindE (enqueue_controller_session_event_locked sid ''session.progress''
            (JObj [(''message_id'', JStr mid), (''author_kind'', JStr author_kind), (''author_id'', jopt author_id),
                   (''audience'', jopt audience)])
            (''session.progress:'' @ mid) created_at d3) (\<lambda>d4. Inr (row, d4))))"

definition edit_message :: "string \<Rightarrow> string \<Rightarrow> db \<Rightarrow> db" where
  "edit_message mid content d =
    d\<lparr>messages_t := upd_where (\<lambda>m. m_id m = mid) (\<lambda>m. m\<lparr>m_content := content\<rparr>) (messages_t d)\<rparr>"

definition message_of :: "string \<Rightarrow> db \<Rightarrow> Message option" where
  "message_of mid d = find (\<lambda>m. m_id m = mid) (messages_t d)"

definition messages :: "string \<Rightarrow> db \<Rightarrow> Message list" where
  "messages sid d = sort_key m_created_at (filter (\<lambda>m. m_session_id m = sid) (messages_t d))"

section \<open>Reactions and votes\<close>

definition add_reaction :: "string \<Rightarrow> string \<Rightarrow> string \<Rightarrow> db \<Rightarrow> db" where
  "add_reaction mid bid emoji d =
    d\<lparr>reactions_t := ins_ignore id \<lparr>r_message_id = mid, r_bot_id = bid, r_emoji = emoji\<rparr> (reactions_t d)\<rparr>"

definition remove_reaction :: "string \<Rightarrow> string \<Rightarrow> string \<Rightarrow> db \<Rightarrow> db" where
  "remove_reaction mid bid emoji d =
    d\<lparr>reactions_t := del_where (\<lambda>r. r_message_id r = mid \<and> r_bot_id r = bid \<and> r_emoji r = emoji) (reactions_t d)\<rparr>"

definition vote_counts :: "string \<Rightarrow> db \<Rightarrow> Reaction \<Rightarrow> bool" where
  "vote_counts sid d r =
    list_ex (\<lambda>m. m_id m = r_message_id r \<and> m_session_id m = sid \<and> r_emoji r = DONE_EMOJI
      \<and> (m_author_kind m \<in> set [''client'', ''system''] \<or> m_author_id m = Some (r_bot_id r))) (messages_t d)"

definition done_voters :: "string \<Rightarrow> db \<Rightarrow> string list" where
  "done_voters sid d = remdups (map r_bot_id (filter (vote_counts sid d) (reactions_t d)))"

section \<open>The outbox\<close>

definition enqueue_outbox :: "string \<Rightarrow> string \<Rightarrow> string \<Rightarrow> string \<Rightarrow> db \<Rightarrow> db" where
  "enqueue_outbox bid sid idem_key frm d =
    (if Some idem_key \<in> o_idem_key ` set (outbox d) then d
     else d\<lparr>outbox := outbox d @ [\<lparr>o_seq = outbox_seq d + 1, o_bot_id = bid, o_session_id = Some sid,
              o_idem_key = Some idem_key, o_frame = frm, o_created_at = now_ms d, o_delivered_at = None\<rparr>],
            outbox_seq := outbox_seq d + 1\<rparr>)"

definition pending_outbox :: "string \<Rightarrow> db \<Rightarrow> (int \<times> string) list" where
  "pending_outbox bid d =
    map (\<lambda>r. (o_seq r, o_frame r)) (sort_key o_seq (filter (\<lambda>r. o_bot_id r = bid \<and> o_delivered_at r = None) (outbox d)))"

definition ack_outbox :: "int \<Rightarrow> db \<Rightarrow> db" where
  "ack_outbox seq d =
    d\<lparr>outbox := upd_where (\<lambda>r. o_seq r = seq) (\<lambda>r. r\<lparr>o_delivered_at := Some (now_ms d)\<rparr>) (outbox d)\<rparr>"

definition purge_outbox_for_session_bot :: "string \<Rightarrow> string \<Rightarrow> db \<Rightarrow> db" where
  "purge_outbox_for_session_bot sid bid d =
    d\<lparr>outbox := del_where (\<lambda>r. o_session_id r = Some sid \<and> o_bot_id r = bid) (outbox d)\<rparr>"

definition purge_outbox_for_session :: "string \<Rightarrow> db \<Rightarrow> db" where
  "purge_outbox_for_session sid d = d\<lparr>outbox := del_where (\<lambda>r. o_session_id r = Some sid) (outbox d)\<rparr>"

definition purge_terminal_outbox :: "db \<Rightarrow> db" where
  "purge_terminal_outbox d =
    d\<lparr>outbox := del_where (\<lambda>r. case o_session_id r of
         None \<Rightarrow> True
       | Some sid \<Rightarrow> list_ex (\<lambda>s. s_id s = sid \<and> s_state s \<in> set [''closed'', ''aborted'']) (sessions d)) (outbox d)\<rparr>"

section \<open>Settings and bookkeeping\<close>

definition mark_once :: "string \<Rightarrow> db \<Rightarrow> bool \<times> db" where
  "mark_once key d = (key \<notin> fst ` set (settings d), d\<lparr>settings := ins_ignore fst (key, JNum 1) (settings d)\<rparr>)"

fun strings_of :: "json list \<Rightarrow> string list option" where
  "strings_of [] = Some []"
| "strings_of (JStr s # js) = map_option (\<lambda>ss. s # ss) (strings_of js)"
| "strings_of (_ # js) = None"

definition standing_roster :: "db \<Rightarrow> store_err + string list option" where
  "standing_roster d =
    (case find (\<lambda>(k, v). k = ''council_roster'') (settings d) of
      None \<Rightarrow> Inr None
    | Some (k, JArr js) \<Rightarrow> (case strings_of js of
          Some r \<Rightarrow> Inr (Some r)
        | None \<Rightarrow> Inl (Bail ''decode council_roster setting''))
    | Some _ \<Rightarrow> Inl (Bail ''decode council_roster setting''))"

definition set_standing_roster :: "string list \<Rightarrow> db \<Rightarrow> db" where
  "set_standing_roster bids d =
    d\<lparr>settings := (if ''council_roster'' \<in> fst ` set (settings d)
       then upd_where (\<lambda>(k, v). k = ''council_roster'') (\<lambda>(k, v). (k, jstrs bids)) (settings d)
       else settings d @ [(''council_roster'', jstrs bids)])\<rparr>"

definition upsert_pending_review ::
  "string \<Rightarrow> string \<Rightarrow> int \<Rightarrow> string option \<Rightarrow> string option \<Rightarrow> db \<Rightarrow> db" where
  "upsert_pending_review trigger_ref repo pr_number fingerprint preset d =
    d\<lparr>pending_reviews_t := (if trigger_ref \<in> pr_trigger_ref ` set (pending_reviews_t d)
       then upd_where (\<lambda>r. pr_trigger_ref r = trigger_ref)
         (\<lambda>r. r\<lparr>pr_fingerprint := fingerprint, pr_preset := preset, pr_requested_at := now_ms d\<rparr>) (pending_reviews_t d)
       else pending_reviews_t d @ [\<lparr>pr_trigger_ref = trigger_ref, pr_repo = repo, pr_pr_number = pr_number,
         pr_fingerprint = fingerprint, pr_preset = preset, pr_requested_at = now_ms d\<rparr>])\<rparr>"

definition pending_reviews :: "db \<Rightarrow> PendingReview list" where
  "pending_reviews d = sort_key pr_requested_at (pending_reviews_t d)"

definition delete_pending_review :: "string \<Rightarrow> db \<Rightarrow> db" where
  "delete_pending_review trigger_ref d =
    d\<lparr>pending_reviews_t := del_where (\<lambda>r. pr_trigger_ref r = trigger_ref) (pending_reviews_t d)\<rparr>"

definition record_compatibility_use :: "string \<Rightarrow> int \<Rightarrow> db \<Rightarrow> unit res" where
  "record_compatibility_use surface amount d =
    (if surface = [] \<or> amount \<le> 0
     then Inl (Bail ''compatibility usage needs a non-empty surface and positive amount'')
     else Inr ((), d\<lparr>compatibility_usage_t := (if surface \<in> cu_surface ` set (compatibility_usage_t d)
       then upd_where (\<lambda>r. cu_surface r = surface) (\<lambda>r. r\<lparr>cu_uses := cu_uses r + amount, cu_last_used_at := now_ms d\<rparr>)
         (compatibility_usage_t d)
       else compatibility_usage_t d @ [\<lparr>cu_surface = surface, cu_uses = amount, cu_first_used_at = now_ms d,
         cu_last_used_at = now_ms d\<rparr>])\<rparr>))"

definition compatibility_usage :: "db \<Rightarrow> CompatibilityUsage list" where
  "compatibility_usage d = sort_key cu_surface (compatibility_usage_t d)"

section \<open>The outbox is a delivery queue\<close>

definition out_inv :: "db \<Rightarrow> bool" where
  "out_inv d \<longleftrightarrow> sorted_wrt (<) (map o_seq (outbox d)) \<and> (\<forall>r \<in> set (outbox d). o_seq r \<le> outbox_seq d)"

definition pending_rows :: "string \<Rightarrow> db \<Rightarrow> OutboxRow list" where
  "pending_rows bid d = filter (\<lambda>r. o_bot_id r = bid \<and> o_delivered_at r = None) (outbox d)"

lemma sorted_wrt_filter: "sorted_wrt R (map f xs) \<Longrightarrow> sorted_wrt R (map f (filter P xs))"
  by (induction xs) auto

lemma pending_outbox_rows:
  assumes "out_inv d"
  shows "pending_outbox bid d = map (\<lambda>r. (o_seq r, o_frame r)) (pending_rows bid d)"
proof -
  have "sorted_wrt (<) (map o_seq (pending_rows bid d))"
    using assms unfolding out_inv_def pending_rows_def by (intro sorted_wrt_filter) simp
  then have "sorted (map o_seq (pending_rows bid d))"
    by (rule strict_sorted_imp_sorted)
  then show ?thesis
    unfolding pending_outbox_def pending_rows_def [symmetric] by (simp add: sort_key_id_if_sorted)
qed

lemma out_inv_enqueue: "out_inv d \<Longrightarrow> out_inv (enqueue_outbox bid sid k f d)"
  by (force simp: out_inv_def enqueue_outbox_def sorted_wrt_append)

lemma out_inv_ack: "out_inv d \<Longrightarrow> out_inv (ack_outbox n d)"
  by (auto simp: out_inv_def ack_outbox_def map_upd_where set_upd_where)

lemma out_inv_del: "out_inv d \<Longrightarrow> out_inv (d\<lparr>outbox := del_where P (outbox d)\<rparr>)"
  by (auto simp: out_inv_def del_where_def intro: sorted_wrt_filter)

lemma filter_upd_one:
  assumes "distinct (map key rows)" and "filter P rows = r # rest" and "\<And>x. key (f x) = key x" and "\<And>x. \<not> P (f x)"
  shows "filter P (upd_where (\<lambda>x. key x = key r) f rows) = rest"
  using assms(1, 2)
proof (induction rows)
  case (Cons x rows)
  have u: "upd_where (\<lambda>x. key x = key r) f (x # rows) =
      (if key x = key r then f x else x) # upd_where (\<lambda>x. key x = key r) f rows"
    by (simp add: upd_where_def)
  show ?case
  proof (cases "P x")
    case True
    with Cons.prems have "x = r" "filter P rows = rest" by auto
    moreover have "upd_where (\<lambda>x. key x = key r) f rows = rows"
      using Cons.prems(1) \<open>x = r\<close> by (intro upd_where_none) (auto simp: image_iff)
    moreover have "upd_where (\<lambda>x. key x = key r) f (x # rows) = f x # upd_where (\<lambda>x. key x = key r) f rows"
      using u \<open>x = r\<close> by simp
    ultimately show ?thesis using assms(4) by simp
  next
    case False
    with Cons.prems have f: "filter P rows = r # rest" by simp
    then have "r \<in> set (filter P rows)" by simp
    then have "r \<in> set rows" by simp
    with Cons.prems(1) have "key x \<noteq> key r" by auto
    with Cons.IH f Cons.prems(1) False show ?thesis by (simp add: u)
  qed
qed simp

definition outbox_keys :: "db \<Rightarrow> string set" where
  "outbox_keys d = {k. Some k \<in> o_idem_key ` set (outbox d)}"

lemma out_inv_distinct: "out_inv d \<Longrightarrow> distinct (map o_seq (outbox d))"
  by (simp add: out_inv_def strict_sorted_iff)

lemma pending_enqueue:
  assumes "k \<notin> outbox_keys d"
  shows "pending_rows b (enqueue_outbox bid sid k f d) =
    (if b = bid then pending_rows b d @ [\<lparr>o_seq = outbox_seq d + 1, o_bot_id = bid, o_session_id = Some sid,
        o_idem_key = Some k, o_frame = f, o_created_at = now_ms d, o_delivered_at = None\<rparr>]
     else pending_rows b d)"
  using assms by (simp add: pending_rows_def enqueue_outbox_def outbox_keys_def)

lemma enqueue_outbox_known: "k \<in> outbox_keys d \<Longrightarrow> enqueue_outbox bid sid k f d = d"
  by (simp add: enqueue_outbox_def outbox_keys_def)

lemma outbox_keys_enqueue [simp]: "outbox_keys (enqueue_outbox bid sid k f d) = insert k (outbox_keys d)"
  by (auto simp: enqueue_outbox_def outbox_keys_def)

lemma outbox_keys_ack [simp]: "outbox_keys (ack_outbox n d) = outbox_keys d"
  by (simp add: ack_outbox_def outbox_keys_def map_upd_where flip: set_map)

lemma pending_ack_head:
  assumes "out_inv d" and "pending_rows b d = r # rest"
  shows "pending_rows b (ack_outbox (o_seq r) d) = rest"
  using assms filter_upd_one [OF out_inv_distinct, of d "\<lambda>r. o_bot_id r = b \<and> o_delivered_at r = None" r rest
      "\<lambda>r. r\<lparr>o_delivered_at := Some (now_ms d)\<rparr>"]
  by (simp add: pending_rows_def ack_outbox_def)

interpretation outq: delivery_queue out_inv pending_outbox
  "\<lambda>bid k f. enqueue_outbox bid sid k f" ack_outbox outbox_keys for sid
proof
  fix d b k f n b' rest
  assume i: "out_inv d"
  show "out_inv (enqueue_outbox b sid k f d)" by (rule out_inv_enqueue [OF i])
  show "out_inv (ack_outbox n d)" by (rule out_inv_ack [OF i])
  show "\<exists>n. pending_outbox b (enqueue_outbox b sid k f d) = pending_outbox b d @ [(n, f)]" if "k \<notin> outbox_keys d"
    using pending_enqueue [OF that, of b b sid f] by (simp add: pending_outbox_rows i out_inv_enqueue)
  show "pending_outbox b' (enqueue_outbox b sid k f d) = pending_outbox b' d" if "b' \<noteq> b"
    using pending_enqueue [of k d b' b sid f] enqueue_outbox_known [of k d b sid f] that
    by (cases "k \<in> outbox_keys d") (simp_all add: pending_outbox_rows i out_inv_enqueue)
  show "pending_outbox b (ack_outbox n d) = rest" if p: "pending_outbox b d = (n, f) # rest"
  proof -
    obtain r rs where "pending_rows b d = r # rs" "o_seq r = n" "rest = map (\<lambda>r. (o_seq r, o_frame r)) rs"
      using p by (auto simp: pending_outbox_rows i map_eq_Cons_conv)
    with pending_ack_head [OF i] show ?thesis by (auto simp: pending_outbox_rows i out_inv_ack)
  qed
qed (simp_all add: enqueue_outbox_known)

section \<open>Interpretations: ledgers\<close>

interpretation reaction_ledger: once_ledger "\<lambda>(m, b, e). \<lparr>r_message_id = m, r_bot_id = b, r_emoji = e\<rparr>"
  "\<lambda>(m, b, e). add_reaction m b e"
  "\<lambda>d. set (reactions_t d)"
  by unfold_locales (auto simp: add_reaction_def ins_ignore_def split: if_splits)

interpretation mark_ledger: once_ledger id "\<lambda>k d. snd (mark_once k d)" "\<lambda>d. fst ` set (settings d)"
  by unfold_locales (auto simp: mark_once_def ins_ignore_def split: if_splits)

interpretation seed_ledger: once_ledger "\<lambda>(bid, name, role, th, tp). bid"
  "\<lambda>(bid, name, role, th, tp) d. snd (seed_bot bid name role th tp d)" "\<lambda>d. b_id ` set (bots d)"
  by unfold_locales (auto simp: seed_bot_def ins_ignore_def bot_row_def split: if_splits)

section \<open>Votes\<close>

lemma done_voters_iff:
  "b \<in> set (done_voters sid d) \<longleftrightarrow>
    (\<exists>m \<in> set (messages_t d). \<lparr>r_message_id = m_id m, r_bot_id = b, r_emoji = DONE_EMOJI\<rparr> \<in> set (reactions_t d)
      \<and> m_session_id m = sid \<and> (m_author_kind m = ''client'' \<or> m_author_kind m = ''system'' \<or> m_author_id m = Some b))"
  (is "_ \<longleftrightarrow> ?R")
proof
  assume "b \<in> set (done_voters sid d)"
  then obtain r where r: "r \<in> set (reactions_t d)" "vote_counts sid d r" "r_bot_id r = b"
    by (auto simp: done_voters_def)
  then obtain m where m: "m \<in> set (messages_t d)" "m_id m = r_message_id r" "m_session_id m = sid" "r_emoji r = DONE_EMOJI"
    "m_author_kind m = ''client'' \<or> m_author_kind m = ''system'' \<or> m_author_id m = Some b"
    by (auto simp: vote_counts_def list_ex_iff)
  then have "r = \<lparr>r_message_id = m_id m, r_bot_id = b, r_emoji = DONE_EMOJI\<rparr>"
    using r(3) by (intro Reaction.equality) simp_all
  with m r(1) show ?R by auto
next
  assume ?R
  then obtain m where m: "m \<in> set (messages_t d)" "\<lparr>r_message_id = m_id m, r_bot_id = b, r_emoji = DONE_EMOJI\<rparr> \<in> set (reactions_t d)"
    "m_session_id m = sid" "m_author_kind m = ''client'' \<or> m_author_kind m = ''system'' \<or> m_author_id m = Some b"
    by blast
  then have "vote_counts sid d \<lparr>r_message_id = m_id m, r_bot_id = b, r_emoji = DONE_EMOJI\<rparr>"
    by (auto simp: vote_counts_def list_ex_iff)
  with m(2) show "b \<in> set (done_voters sid d)"
    by (force simp: done_voters_def)
qed

lemma distinct_done_voters [simp]: "distinct (done_voters sid d)"
  by (simp add: done_voters_def)

lemma set_add_reaction: "set (reactions_t (add_reaction mid b e d)) = insert \<lparr>r_message_id = mid, r_bot_id = b, r_emoji = e\<rparr> (set (reactions_t d))"
  by (auto simp: add_reaction_def ins_ignore_def)

section \<open>Health accounting\<close>

text \<open>The transitions that a sequence of frames of one bot reports, in order.\<close>

fun frames :: "string \<Rightarrow> int \<Rightarrow> bool list \<Rightarrow> db \<Rightarrow> BotHealthTransition list" where
  "frames bid threshold [] d = []"
| "frames bid threshold (e # es) d =
    (case record_bot_frame bid e threshold d of
      (NoTransition, d') \<Rightarrow> frames bid threshold es d'
    | (t, d') \<Rightarrow> t # frames bid threshold es d')"

fun alternating :: "bool \<Rightarrow> BotHealthTransition list \<Rightarrow> bool" where
  "alternating deg [] = True"
| "alternating deg (t # ts) = (t = (if deg then Recovered else Degraded) \<and> alternating (\<not> deg) ts)"

definition degraded :: "string \<Rightarrow> db \<Rightarrow> bool" where
  "degraded bid d = (\<exists>r. find_bot bid d = Some r \<and> b_health r = ''degraded'')"

lemma find_bot_set_bot:
  assumes "\<And>r. b_id (f r) = b_id r"
  shows "find_bot bid (set_bot bid f d) = map_option f (find_bot bid d)"
proof -
  have "find_bot bid (set_bot bid f d) = map_option (\<lambda>r. if b_id r = bid then f r else r) (find_bot bid d)"
    using find_map_upd [where key = b_id and f = f, OF assms] by (simp add: find_bot_def set_bot_def)
  then show ?thesis
    by (cases "find_bot bid d") (auto simp: find_bot_def dest: find_SomeD)
qed

lemma record_bot_frame_health:
  "record_bot_frame bid e threshold d = (t, d') \<Longrightarrow>
    (case t of Degraded \<Rightarrow> \<not> degraded bid d \<and> degraded bid d'
     | Recovered \<Rightarrow> degraded bid d \<and> \<not> degraded bid d'
     | NoTransition \<Rightarrow> degraded bid d' = degraded bid d)"
  by (cases "find_bot bid d")
    (auto simp: record_bot_frame_def degraded_def find_bot_set_bot Let_def split: if_splits)

lemma frames_alternate: "alternating (degraded bid d) (frames bid threshold es d)"
proof (induction es arbitrary: d)
  case (Cons e es)
  obtain t d' where r: "record_bot_frame bid e threshold d = (t, d')" by force
  from record_bot_frame_health [OF r] Cons.IH [of d'] r show ?case by (cases t) simp_all
qed simp

lemma error_frame_counts:
  assumes "find_bot bid d = Some r"
  shows "\<exists>r'. find_bot bid (snd (record_bot_frame bid True threshold d)) = Some r'
    \<and> b_consecutive_errors r' = b_consecutive_errors r + 1
    \<and> fst (record_bot_frame bid True threshold d) =
        (if threshold \<le> b_consecutive_errors r + 1 \<and> b_health r \<noteq> ''degraded'' then Degraded else NoTransition)"
  using assms by (simp add: record_bot_frame_def find_bot_set_bot Let_def)

lemma touch_last_seen_mono:
  assumes "find_bot bid d = Some r" and "b_last_seen r = Some t"
  shows "\<exists>r'. find_bot bid (touch_last_seen_at bid ts d) = Some r' \<and> b_last_seen r' = Some (max t ts)"
proof -
  let ?P = "\<lambda>r. b_id r = bid \<and> (case b_last_seen r of None \<Rightarrow> True | Some t \<Rightarrow> ts > t)"
  have "find_bot bid (touch_last_seen_at bid ts d) =
      map_option (\<lambda>r. if ?P r then r\<lparr>b_last_seen := Some ts\<rparr> else r) (find_bot bid d)"
    using find_map_upd [where key = b_id and f = "\<lambda>r. r\<lparr>b_last_seen := Some ts\<rparr>" and P = ?P and rows = "bots d" and k = bid]
    by (simp add: find_bot_def touch_last_seen_at_def)
  with assms show ?thesis by (auto simp: find_bot_def dest: find_SomeD)
qed

section \<open>Every reachable database keeps its keys unique\<close>

definition msg_inv :: "db \<Rightarrow> bool" where
  "msg_inv d \<longleftrightarrow> distinct (map m_id (messages_t d)) \<and> distinct (reactions_t d)
    \<and> distinct (map th_session_id (threads d)) \<and> distinct (map b_id (bots d))"

definition db_inv :: "db \<Rightarrow> bool" where
  "db_inv d \<longleftrightarrow> sess_inv d \<and> out_inv d \<and> msg_inv d"

text \<open>One committed operation of the store; \<open>tick\<close> is the passing of time.\<close>

inductive store_step :: "db \<Rightarrow> db \<Rightarrow> bool" where
  tick: "store_step d (d\<lparr>now := t\<rparr>)"
| create: "create_session title tr qn chair r mode d = Inr (s, d') \<Longrightarrow> store_step d d'"
| create_deduped: "create_session_deduped title tr qn chair r mode d = Inr (s, d') \<Longrightarrow> store_step d d'"
| create_superseding: "create_session_superseding title tr fp qn chair r mode inputs d = Inr (s, d') \<Longrightarrow> store_step d d'"
| add_bot: "store_step d (snd (add_session_bot sid b d))"
| add_bots: "add_session_bots_if_capacity sid bs cap inputs d = Inr (oc, d') \<Longrightarrow> store_step d d'"
| remove_bot: "store_step d (snd (remove_session_bot sid b d))"
| replace_bot: "replace_session_bot sid b c d = Inr (x, d') \<Longrightarrow> store_step d d'"
| quorum: "store_step d (set_session_quorum sid n d)"
| chair: "store_step d (set_session_chair sid c d)"
| state: "set_state sid st d = Inr (u, d') \<Longrightarrow> store_step d d'"
| advance: "advance_state sid fr to d = Inr (x, d') \<Longrightarrow> store_step d d'"
| close_active: "close_if_active sid et reason stale d = Inr (x, d') \<Longrightarrow> store_step d d'"
| verdict: "store_step d (set_session_verdict sid dec r y g d)"
| close_result: "close_session_with_result sid fr dec r y g au ids fm rc d = Inr (x, d') \<Longrightarrow> store_step d d'"
| reopen: "reopen_session sid fr d = Inr (x, d') \<Longrightarrow> store_step d d'"
| register: "register_bot name role th tp d = Inr (b, d') \<Longrightarrow> store_step d d'"
| seed: "store_step d (snd (seed_bot bid name role th tp d))"
| touch: "store_step d (touch_last_seen_at bid ts d)"
| discover: "discover_bot bid nm role md d = Inr (b, d') \<Longrightarrow> store_step d d'"
| patch: "store_step d (snd (update_bot_metadata bid p d))"
| delete: "store_step d (snd (delete_bot bid d))"
| frame: "store_step d (snd (record_bot_frame bid e thr d))"
| thread: "upsert_thread sid root d = Inr (t, d') \<Longrightarrow> store_step d d'"
| message: "add_message sid tid ak ai au c rt d = Inr (m, d') \<Longrightarrow> store_step d d'"
| edit: "store_step d (edit_message mid c d)"
| react: "store_step d (add_reaction mid bid e d)"
| unreact: "store_step d (remove_reaction mid bid e d)"
| enqueue: "store_step d (enqueue_outbox bid sid k f d)"
| ack: "store_step d (ack_outbox n d)"
| purge_bot: "store_step d (purge_outbox_for_session_bot sid bid d)"
| purge_session: "store_step d (purge_outbox_for_session sid d)"
| purge_terminal: "store_step d (purge_terminal_outbox d)"
| mark: "store_step d (snd (mark_once k d))"
| standing: "store_step d (set_standing_roster bs d)"

inductive_cases store_stepE: "store_step d d'"

text \<open>What the session operations leave of the other tables.\<close>

definition keeps :: "db \<Rightarrow> db \<Rightarrow> bool" where
  "keeps d d' \<longleftrightarrow> bots d' = bots d \<and> threads d' = threads d \<and> reactions_t d' = reactions_t d
    \<and> outbox d' = outbox d \<and> outbox_seq d' = outbox_seq d
    \<and> (distinct (map m_id (messages_t d)) \<longrightarrow> distinct (map m_id (messages_t d')))"

lemma keeps_refl [simp]: "keeps d d"
  by (simp add: keeps_def)

lemma keeps_trans: "keeps d d' \<Longrightarrow> keeps d' d'' \<Longrightarrow> keeps d d''"
  by (simp add: keeps_def)

lemma keeps_upd [simp]:
  "keeps d (d\<lparr>sessions := ss\<rparr>)" "keeps d (d\<lparr>session_bots := sb\<rparr>)" "keeps d (d\<lparr>uuid_next := u\<rparr>)"
  "keeps d (d\<lparr>now := t\<rparr>)" "keeps d (d\<lparr>settings := st\<rparr>)" "keeps d (add_roster_rows sid r d)"
  by (simp_all add: keeps_def add_roster_rows_def)

lemma keeps_queue: "same_but_queue d d' \<Longrightarrow> keeps d d'"
  by (simp add: keeps_def same_but_queue_fields)

lemma keeps_inputs: "insert_opening_inputs sid at inputs d = Inr d' \<Longrightarrow> keeps d d'"
  by (drule insert_opening_inputs_shape) (auto simp: keeps_def)

lemma keeps_write: "write_sessions rows d = Inr d' \<Longrightarrow> keeps d d'"
  by (simp add: write_sessions_Inr)

lemma keeps_insert: "insert_session s d = Inr d' \<Longrightarrow> keeps d d'"
  by (auto simp: insert_session_def split: if_splits intro: keeps_write)

lemmas keeps_intros = keeps_queue keeps_inputs keeps_write keeps_insert
  append_audit_frame [THEN keeps_queue] enqueue_session_event_frame [THEN keeps_queue]
  state_change_audit_frame [THEN keeps_queue]

lemma keeps_land: "land_session row r inputs oc d = Inr (x, d') \<Longrightarrow> keeps d d'"
proof -
  assume "land_session row r inputs oc d = Inr (x, d')"
  then obtain d1 d2 e where "insert_session row d = Inr d1"
    "insert_opening_inputs (s_id row) (s_created_at row) inputs (add_roster_rows (s_id row) r d1) = Inr d2"
    "append_audit_event_locked e d2 = Inr d'"
    unfolding land_session_def by blast
  then have "keeps d d1" "keeps (add_roster_rows (s_id row) r d1) d2" "keeps d2 d'"
    by (blast intro: keeps_intros)+
  then show ?thesis by (simp add: keeps_def add_roster_rows_def)
qed

lemma keeps_supersede: "supersede_existing e sid at d = Inr d' \<Longrightarrow> keeps d d'"
  unfolding supersede_existing_def Let_def
  by (elim bindE_InrE, drule append_audit_frame [THEN keeps_queue],
      drule enqueue_session_event_frame [THEN keeps_queue]) (simp add: keeps_def)

lemma keeps_create:
  "create_session title tr qn chair r mode d = Inr (s, d') \<Longrightarrow> keeps d d'"
proof -
  assume "create_session title tr qn chair r mode d = Inr (s, d')"
  then obtain row d1 e sid where "insert_session row (d\<lparr>uuid_next := Suc (uuid_next d)\<rparr>) = Inr d1"
    "append_audit_event_locked e (add_roster_rows sid r d1) = Inr d'"
    unfolding create_session_def new_id_def Let_def prod.case by blast
  then have "keeps (d\<lparr>uuid_next := Suc (uuid_next d)\<rparr>) d1" "keeps (add_roster_rows sid r d1) d'"
    by (blast intro: keeps_intros)+
  then show ?thesis by (simp add: keeps_def add_roster_rows_def)
qed

lemma keeps_create_superseding:
  "create_session_superseding title tr fp qn chair r mode inputs d = Inr (x, d') \<Longrightarrow> keeps d d'"
  unfolding create_session_superseding_def new_id_def Let_def prod.case
  by (auto split: option.splits if_splits dest!: keeps_land keeps_supersede) (simp_all add: keeps_def)

lemma keeps_advance: "advance_state sid fr to d = Inr (b, d') \<Longrightarrow> keeps d d'"
  unfolding advance_state_def Let_def
  by (elim bindE_InrE, drule keeps_write)
    (auto split: if_splits dest!: state_change_audit_frame [THEN keeps_queue] simp: keeps_def)

lemma keeps_set_state: "set_state sid st d = Inr (u, d') \<Longrightarrow> keeps d d'"
  unfolding set_state_def Let_def
  by (elim bindE_InrE, drule keeps_write)
    (auto split: if_splits dest!: state_change_audit_frame [THEN keeps_queue] simp: keeps_def)

lemma keeps_reopen: "reopen_session sid fr d = Inr (b, d') \<Longrightarrow> keeps d d'"
  unfolding reopen_session_def Let_def by (elim bindE_InrE, drule keeps_write) simp

lemma keeps_close_if_active: "close_if_active sid et reason stale d = Inr (b, d') \<Longrightarrow> keeps d d'"
  unfolding close_if_active_def Let_def
  by (auto split: if_splits dest!: append_audit_frame [THEN keeps_queue]
      enqueue_session_event_frame [THEN keeps_queue]) (simp_all add: keeps_def)

lemma keeps_close_result: "close_session_with_result sid fr dec r y g au ids fm rc d = Inr (b, d') \<Longrightarrow> keeps d d'"
  unfolding close_session_with_result_def Let_def
  by (auto split: if_splits dest!: append_audit_frame [THEN keeps_queue]
      enqueue_session_event_frame [THEN keeps_queue]) (simp_all add: keeps_def)

lemma keeps_add_bots: "add_session_bots_if_capacity sid bs cap inputs d = Inr (oc, d') \<Longrightarrow> keeps d d'"
  unfolding add_session_bots_if_capacity_def Let_def
  by (auto split: if_splits dest!: keeps_inputs) (simp add: keeps_def)

lemma db_inv_keeps: "db_inv d \<Longrightarrow> sess_inv d' \<Longrightarrow> keeps d d' \<Longrightarrow> db_inv d'"
  by (simp add: db_inv_def keeps_def out_inv_def msg_inv_def)

lemma advance_state_inv: "sess_inv d \<Longrightarrow> advance_state sid fr to d = Inr (b, d') \<Longrightarrow> sess_inv d'"
  using advance.cas_inv [of d sid fr to b d'] by simp

lemma close_result_inv:
  "sess_inv d \<Longrightarrow> close_session_with_result sid fr dec r y g au ids fm rc d = Inr (b, d') \<Longrightarrow> sess_inv d'"
  using close_cas.cas_inv [of d sid fr dec r y g au ids fm rc b d'] by simp

lemma close_if_active_inv: "sess_inv d \<Longrightarrow> close_if_active sid et reason stale d = Inr (b, d') \<Longrightarrow> sess_inv d'"
  using close_if_active_won [of d sid et reason stale d'] close_if_active_lost [of d sid et reason stale d']
  by (cases b) auto

lemma create_deduped_cases:
  "create_session_deduped title tr qn chair r mode d = Inr (x, d') \<Longrightarrow>
    d' = d \<or> (\<exists>s. create_session title tr qn chair r mode d = Inr (s, d'))"
  unfolding create_session_deduped_def
  by (auto split: option.splits sum.splits if_splits)

lemma add_bots_inv:
  assumes "sess_inv d" and "add_session_bots_if_capacity sid bs cap inputs d = Inr (oc, d')"
  shows "sess_inv d'"
proof (cases oc)
  case (Added a m)
  with assms add_bots_capacity show ?thesis by blast
next
  case Full
  with assms show ?thesis
    by (auto simp: add_session_bots_if_capacity_def Let_def split: if_splits)
qed

text \<open>The operations on bots, threads, messages, reactions and the outbox.\<close>

lemma sess_inv_other:
  "sessions d' = sessions d \<Longrightarrow> session_bots d' = session_bots d \<Longrightarrow> sess_inv d \<Longrightarrow> sess_inv d'"
  by (simp add: sess_inv_def)

lemma add_message_shape:
  assumes "add_message sid tid ak ai au c rt d = Inr (m, d')"
  shows "m_id m \<notin> m_id ` set (messages_t d)
    \<and> same_but_queue (d\<lparr>messages_t := messages_t d @ [m], uuid_next := Suc (uuid_next d)\<rparr>) d'
    \<and> m_session_id m = sid \<and> m_thread_id m = tid \<and> m_author_kind m = ak \<and> m_author_id m = ai
    \<and> m_audience m = au \<and> m_content m = c \<and> m_reply_to m = rt \<and> m_created_at m = now d"
proof -
  let ?mid = "fst (new_id ''msg'' d)"
  let ?m = "\<lparr>m_id = ?mid, m_session_id = sid, m_thread_id = tid, m_author_kind = ak, m_author_id = ai, m_audience = au,
    m_content = c, m_reply_to = rt, m_created_at = now d\<rparr>"
  let ?d2 = "d\<lparr>uuid_next := Suc (uuid_next d), messages_t := messages_t d @ [?m]\<rparr>"
  have fresh: "?mid \<notin> m_id ` set (messages_t d)"
    using assms by (auto simp: add_message_def new_id_def Let_def split: if_splits)
  have "same_but_queue ?d2 d'" and m: "m = ?m"
    using assms unfolding add_message_def new_id_def Let_def now_ms_def
    by (auto split: if_splits dest!: append_audit_frame enqueue_session_event_frame intro: same_but_queue_trans)
  moreover have "?d2 = d\<lparr>messages_t := messages_t d @ [m], uuid_next := Suc (uuid_next d)\<rparr>"
    unfolding m by simp
  ultimately show ?thesis using fresh m by simp
qed

lemma msg_inv_add_message:
  "msg_inv d \<Longrightarrow> add_message sid tid ak ai au c rt d = Inr (m, d') \<Longrightarrow> msg_inv d'"
  by (drule add_message_shape) (auto simp: msg_inv_def same_but_queue_fields)

lemma bots_upd_distinct:
  "(\<And>r. b_id (f r) = b_id r) \<Longrightarrow> map b_id (upd_where P f rows) = map b_id rows"
  by (simp add: map_upd_where)

lemma bot_ops_inv:
  "msg_inv d \<Longrightarrow> register_bot name role th tp d = Inr (b, d') \<Longrightarrow> msg_inv d'"
  "msg_inv d \<Longrightarrow> msg_inv (snd (seed_bot bid name role th tp d))"
  "msg_inv d \<Longrightarrow> msg_inv (touch_last_seen_at bid ts d)"
  "msg_inv d \<Longrightarrow> discover_bot bid nm role md d = Inr (bb, d') \<Longrightarrow> msg_inv d'"
  "msg_inv d \<Longrightarrow> msg_inv (snd (update_bot_metadata bid p d))"
  "msg_inv d \<Longrightarrow> msg_inv (snd (delete_bot bid d))"
proof -
  show "msg_inv d \<Longrightarrow> register_bot name role th tp d = Inr (b, d') \<Longrightarrow> msg_inv d'"
    by (auto simp: register_bot_def new_id_def Let_def msg_inv_def bot_row_def split: if_splits)
  show "msg_inv d \<Longrightarrow> msg_inv (snd (seed_bot bid name role th tp d))"
    using ins_ignore_distinct [of b_id "bots d"] by (simp add: seed_bot_def msg_inv_def)
  show "msg_inv d \<Longrightarrow> msg_inv (touch_last_seen_at bid ts d)"
    by (simp add: touch_last_seen_at_def msg_inv_def bots_upd_distinct)
  show "msg_inv d \<Longrightarrow> discover_bot bid nm role md d = Inr (bb, d') \<Longrightarrow> msg_inv d'"
    using find_None_conv [of "\<lambda>r. b_id r = bid" "bots d"]
    by (auto simp: discover_bot_def Let_def msg_inv_def bots_upd_distinct find_bot_def bot_row_def split: option.splits)
  show "msg_inv d \<Longrightarrow> msg_inv (snd (update_bot_metadata bid p d))"
    by (simp add: update_bot_metadata_def msg_inv_def bots_upd_distinct patch_bot_def)
  show "msg_inv d \<Longrightarrow> msg_inv (snd (delete_bot bid d))"
    using distinct_del_where [of b_id "bots d"] by (simp add: delete_bot_def msg_inv_def)
qed

lemma msg_inv_frame: "msg_inv d \<Longrightarrow> msg_inv (snd (record_bot_frame bid e thr d))"
  by (cases "find_bot bid d") (simp_all add: record_bot_frame_def Let_def msg_inv_def set_bot_def bots_upd_distinct)

text \<open>The operations of this theory leave the sessions, and most of them the outbox, alone.\<close>

definition off_sessions :: "db \<Rightarrow> db \<Rightarrow> bool" where
  "off_sessions d d' \<longleftrightarrow> sessions d' = sessions d \<and> session_bots d' = session_bots d"

definition off_outbox :: "db \<Rightarrow> db \<Rightarrow> bool" where
  "off_outbox d d' \<longleftrightarrow> off_sessions d d' \<and> outbox d' = outbox d \<and> outbox_seq d' = outbox_seq d"

lemma db_inv_off: "db_inv d \<Longrightarrow> off_outbox d d' \<Longrightarrow> msg_inv d' \<Longrightarrow> db_inv d'"
  by (simp add: db_inv_def off_outbox_def off_sessions_def sess_inv_def out_inv_def)

lemma off_outbox_bots:
  "register_bot name role th tp d = Inr (b, d') \<Longrightarrow> off_outbox d d'"
  "off_outbox d (snd (seed_bot bid name role th tp d))"
  "off_outbox d (touch_last_seen_at bid ts d)"
  "discover_bot bid nm role md d = Inr (bb, d') \<Longrightarrow> off_outbox d d'"
  "off_outbox d (snd (update_bot_metadata bid p d))"
  "off_outbox d (snd (delete_bot bid d))"
  by (auto simp: off_outbox_def off_sessions_def register_bot_def seed_bot_def touch_last_seen_at_def discover_bot_def
      update_bot_metadata_def delete_bot_def new_id_def Let_def split: if_splits option.splits)

lemma off_outbox_frame: "off_outbox d (snd (record_bot_frame bid e thr d))"
  by (cases "find_bot bid d") (simp_all add: record_bot_frame_def off_outbox_def off_sessions_def set_bot_def Let_def)

lemma off_outbox_messages:
  "add_message sid tid ak ai au c rt d = Inr (m, d') \<Longrightarrow> off_outbox d d'"
  "upsert_thread sid root d = Inr (t, d') \<Longrightarrow> off_outbox d d'"
  "off_outbox d (edit_message mid c d)"
  "off_outbox d (add_reaction mid bid e d)"
  "off_outbox d (remove_reaction mid bid e d)"
proof -
  show "add_message sid tid ak ai au c rt d = Inr (m, d') \<Longrightarrow> off_outbox d d'"
    by (drule add_message_shape) (auto simp: off_outbox_def off_sessions_def same_but_queue_fields)
  show "upsert_thread sid root d = Inr (t, d') \<Longrightarrow> off_outbox d d'"
    by (auto simp: upsert_thread_def off_outbox_def off_sessions_def new_id_def split: option.splits if_splits)
qed (simp_all add: off_outbox_def off_sessions_def edit_message_def add_reaction_def remove_reaction_def)

lemma msg_inv_messages:
  "msg_inv d \<Longrightarrow> upsert_thread sid root d = Inr (t, d') \<Longrightarrow> msg_inv d'"
  "msg_inv d \<Longrightarrow> msg_inv (edit_message mid c d)"
  "msg_inv d \<Longrightarrow> msg_inv (add_reaction mid bid e d)"
  "msg_inv d \<Longrightarrow> msg_inv (remove_reaction mid bid e d)"
proof -
  show "msg_inv d \<Longrightarrow> upsert_thread sid root d = Inr (t, d') \<Longrightarrow> msg_inv d'"
    using find_None_conv [of "\<lambda>t. th_session_id t = sid" "threads d"]
    by (auto simp: upsert_thread_def msg_inv_def new_id_def thread_for_session_def split: option.splits if_splits)
  show "msg_inv d \<Longrightarrow> msg_inv (edit_message mid c d)"
    by (simp add: edit_message_def msg_inv_def map_upd_where)
  show "msg_inv d \<Longrightarrow> msg_inv (add_reaction mid bid e d)"
    using ins_ignore_distinct [of id "reactions_t d"] by (simp add: add_reaction_def msg_inv_def)
  show "msg_inv d \<Longrightarrow> msg_inv (remove_reaction mid bid e d)"
    using distinct_del_where [of id "reactions_t d"] by (simp add: remove_reaction_def msg_inv_def)
qed

lemma db_inv_enqueue: "db_inv d \<Longrightarrow> db_inv (enqueue_outbox bid sid k f d)"
  using out_inv_enqueue [of d bid sid k f]
  by (simp add: db_inv_def enqueue_outbox_def sess_inv_def msg_inv_def)

lemma db_inv_ack: "db_inv d \<Longrightarrow> db_inv (ack_outbox n d)"
  using out_inv_ack [of d n] by (simp add: db_inv_def ack_outbox_def sess_inv_def msg_inv_def)

lemma db_inv_purge: "db_inv d \<Longrightarrow> db_inv (d\<lparr>outbox := del_where P (outbox d)\<rparr>)"
  using out_inv_del [of d P] by (simp add: db_inv_def sess_inv_def msg_inv_def)

lemma replace_keeps: "replace_session_bot sid b c d = Inr (x, d') \<Longrightarrow> keeps d d'"
  by (auto simp: replace_session_bot_def Let_def split: if_splits)

lemma small_session_ops:
  assumes "db_inv d"
  shows "db_inv (snd (add_session_bot sid b d))" "db_inv (snd (remove_session_bot sid b d))"
    "db_inv (set_session_quorum sid n d)" "db_inv (set_session_chair sid c d)"
    "db_inv (set_session_verdict sid dec r y g d)"
  using assms roster_ops_inv(1, 2) [of d] set_session_fields_inv [of d]
  by (auto simp: db_inv_def add_session_bot_def add_roster_row_def remove_session_bot_def Let_def
      set_session_quorum_def set_session_chair_def set_session_verdict_def msg_inv_def out_inv_def)

lemma store_step_inv:
  assumes "store_step d d'" and i: "db_inv d"
  shows "db_inv d'"
proof -
  have sess: "sess_inv d" and msg: "msg_inv d" using i by (simp_all add: db_inv_def)
  from assms(1) show ?thesis
  proof cases
    case (tick t)
    with i show ?thesis by (simp add: db_inv_def sess_inv_def out_inv_def msg_inv_def)
  next
    case (create_deduped title tr qn chair r mode x)
    then consider "d' = d" | y where "create_session title tr qn chair r mode d = Inr (y, d')"
      using create_deduped_cases by blast
    then show ?thesis
      by cases (use i create_session_inv [OF sess] keeps_create db_inv_keeps in blast)+
  next
    case (create_superseding title tr fp qn chair r mode inputs x)
    moreover from this have "sess_inv d'" using superseding_post [OF sess] by (cases x) blast
    ultimately show ?thesis using db_inv_keeps [OF i] keeps_create_superseding by blast
  next
    case (replace_bot sid b c x)
    then show ?thesis using db_inv_keeps [OF i roster_ops_inv(3) [OF sess] replace_keeps] by blast
  next
    case (register name role th tp b)
    then show ?thesis using db_inv_off [OF i off_outbox_bots(1) bot_ops_inv(1) [OF msg]] by blast
  next
    case (discover bid nm role md b)
    then show ?thesis using db_inv_off [OF i off_outbox_bots(4) bot_ops_inv(4) [OF msg]] by blast
  next
    case (thread sid root t)
    then show ?thesis using db_inv_off [OF i off_outbox_messages(2) msg_inv_messages(1) [OF msg]] by blast
  next
    case (message sid tid ak ai au c rt m)
    then show ?thesis using db_inv_off [OF i off_outbox_messages(1) msg_inv_add_message [OF msg]] by blast
  next
    case create
    then show ?thesis using db_inv_keeps [OF i create_session_inv [OF sess] keeps_create] by blast
  next
    case add_bots
    then show ?thesis using db_inv_keeps [OF i add_bots_inv [OF sess] keeps_add_bots] by blast
  next
    case state
    then show ?thesis using db_inv_keeps [OF i set_state_inv [OF sess] keeps_set_state] by blast
  next
    case advance
    then show ?thesis using db_inv_keeps [OF i advance_state_inv [OF sess] keeps_advance] by blast
  next
    case close_active
    then show ?thesis using db_inv_keeps [OF i close_if_active_inv [OF sess] keeps_close_if_active] by blast
  next
    case close_result
    show ?thesis
      by (rule db_inv_keeps [OF i close_result_inv [OF sess close_result] keeps_close_result [OF close_result]])
  next
    case reopen
    then show ?thesis using db_inv_keeps [OF i reopen_session_inv [OF sess] keeps_reopen] by blast
  next
    case mark
    with i show ?thesis by (auto simp: mark_once_def db_inv_def sess_inv_def out_inv_def msg_inv_def)
  next
    case standing
    with i show ?thesis by (auto simp: set_standing_roster_def db_inv_def sess_inv_def out_inv_def msg_inv_def)
  qed (simp_all add: small_session_ops [OF i] db_inv_enqueue [OF i] db_inv_ack [OF i] db_inv_purge [OF i]
      purge_outbox_for_session_bot_def purge_outbox_for_session_def purge_terminal_outbox_def
      db_inv_off [OF i off_outbox_bots(2) bot_ops_inv(2) [OF msg]]
      db_inv_off [OF i off_outbox_bots(3) bot_ops_inv(3) [OF msg]]
      db_inv_off [OF i off_outbox_bots(5) bot_ops_inv(5) [OF msg]]
      db_inv_off [OF i off_outbox_bots(6) bot_ops_inv(6) [OF msg]]
      db_inv_off [OF i off_outbox_frame msg_inv_frame [OF msg]]
      db_inv_off [OF i off_outbox_messages(3) msg_inv_messages(2) [OF msg]]
      db_inv_off [OF i off_outbox_messages(4) msg_inv_messages(3) [OF msg]]
      db_inv_off [OF i off_outbox_messages(5) msg_inv_messages(4) [OF msg]])
qed

section \<open>Properties of the store\<close>

lemma empty_db_inv: "db_inv empty_db"
  by (simp add: db_inv_def sess_inv_def out_inv_def msg_inv_def empty_db_def trigger_index_ok_def)

text \<open>
  Whatever sequence of store operations runs from the empty database, identifiers stay unique,
  no trigger has two active sessions, every session has at most one thread, and the outbox stays in
  sequence order.
\<close>

theorem reachable_store_inv:
  assumes "store_step\<^sup>*\<^sup>* empty_db d"
  shows "db_inv d"
  using assms by (induction rule: rtranclp_induct) (auto intro: empty_db_inv store_step_inv)

theorem reachable_store_inv_witness:
  "\<exists>d. store_step\<^sup>*\<^sup>* empty_db d \<and> outbox d \<noteq> [] \<and> db_inv d"
proof -
  let ?d = "enqueue_outbox ''b1'' ''ses_1'' ''b1:m1'' ''frame'' empty_db"
  have r: "store_step\<^sup>*\<^sup>* empty_db ?d" by (rule r_into_rtranclp) (rule store_step.enqueue)
  have "outbox ?d \<noteq> []" by (simp add: enqueue_outbox_def empty_db_def)
  with r reachable_store_inv [OF r] show ?thesis by blast
qed

text \<open>
  Delivery to a bot is in order and once per message: flushing hands over a prefix of the
  pending frames in enqueue order and leaves the rest pending, and a frame enqueued again under the
  same idempotency key, before or after its delivery, is dropped.
\<close>

theorem outbox_fifo_once:
  assumes "out_inv d"
  shows "fst (delivery_queue.flush_snapshot ack_outbox ok (pending_outbox b d) d) = takeWhile ok (map snd (pending_outbox b d))
    \<and> pending_outbox b (snd (delivery_queue.flush_snapshot ack_outbox ok (pending_outbox b d) d))
        = dropWhile (\<lambda>(n, f). ok f) (pending_outbox b d)
    \<and> (k \<notin> outbox_keys d \<longrightarrow> (\<exists>n. pending_outbox b (enqueue_outbox b sid k f d) = pending_outbox b d @ [(n, f)]))
    \<and> (let d1 = enqueue_outbox b sid k f d;
           d2 = snd (delivery_queue.flush_snapshot ack_outbox ok (pending_outbox b d1) d1)
       in enqueue_outbox b sid k f' d2 = d2)"
  using outq.flush_in_order [OF assms refl, of ok b] outq.enqueue_new [OF assms, of k b sid f]
    outq.redelivery_suppressed [OF assms, of b sid k f' ok f]
  by (simp add: Let_def)

theorem outbox_fifo_once_witness:
  "\<exists>n. pending_outbox ''b'' (enqueue_outbox ''b'' ''s'' ''b:m'' ''hello'' empty_db) = [(n, ''hello'')]"
proof -
  have "out_inv empty_db" using empty_db_inv by (simp add: db_inv_def)
  from outbox_fifo_once [OF this, of "\<lambda>_. True" "''b''" "''b:m''" "''s''" "''hello''"]
  show ?thesis by (simp add: outbox_keys_def pending_outbox_def empty_db_def)
qed

text \<open>
  A bot's done vote for a session counts exactly when it put the done emoji on a client or
  system message of that session or on a message of its own there; the emoji on a peer's message is
  no vote, and each voter is counted once.
\<close>

theorem done_vote_rule:
  "distinct (done_voters sid d) \<and>
    (b \<in> set (done_voters sid d) \<longleftrightarrow>
      (\<exists>m. m \<in> set (messages_t d) \<and> \<lparr>r_message_id = m_id m, r_bot_id = b, r_emoji = DONE_EMOJI\<rparr> \<in> set (reactions_t d)
        \<and> m_session_id m = sid \<and> (m_author_kind m = ''client'' \<or> m_author_kind m = ''system'' \<or> m_author_id m = Some b)))"
  using done_voters_iff [of b sid d] by auto

text \<open>
  Passive health accounting reports each crossing once: over any sequence of a bot's frames the
  reported transitions alternate, starting with a degradation for a bot that is not degraded, and an
  error frame degrades exactly when the error count reaches the threshold.
\<close>

theorem health_crossings_alternate:
  "alternating (degraded bid d) (frames bid threshold es d)
    \<and> (case find_bot bid d of None \<Rightarrow> frames bid threshold es d = []
       | Some r \<Rightarrow> fst (record_bot_frame bid True threshold d) =
           (if threshold \<le> b_consecutive_errors r + 1 \<and> b_health r \<noteq> ''degraded'' then Degraded else NoTransition))"
proof -
  have "frames bid threshold es d = []" if "find_bot bid d = None"
    using that by (induction es) (simp_all add: record_bot_frame_def)
  moreover have "fst (record_bot_frame bid True threshold d) =
      (if threshold \<le> b_consecutive_errors r + 1 \<and> b_health r \<noteq> ''degraded'' then Degraded else NoTransition)"
    if "find_bot bid d = Some r" for r
    using error_frame_counts [OF that, of threshold] by blast
  ultimately show ?thesis using frames_alternate by (auto split: option.split)
qed

end
