(* ===== verification/Store_Controllers.thy ===== *)
theory Store_Controllers
  imports Store_Messages "HOL-Library.Multiset"
begin

text \<open>
  The controller side of \<^verbatim>\<open>src/store.rs\<close>: installations, hashed action credentials, grants and
  scope bindings, the durable admission of an action (\<open>begin_controller_action\<close>) and its
  completion, session ownership, the outgoing event queue, and the journal queries. Hashes and other
  blobs are byte strings. A transaction dropped without commit leaves the database it started from.
\<close>

section \<open>Data\<close>

record ControllerInstallation =
  ci_id :: string
  ci_enabled :: bool
  ci_max_concurrent_sessions :: int
  ci_max_actions_per_minute :: int

record ControllerActionToken =
  cat_id :: string
  cat_controller_id :: string
  cat_token_hash :: string
  cat_pepper_version :: int

record NewControllerActionToken =
  nt_id :: string
  nt_token_hash :: string
  nt_pepper_version :: int
  nt_not_before :: int

record ControllerCredentialHash =
  ch_pepper_version :: int
  ch_token_hash :: string

record ControllerActionReplay =
  rp_request_hash :: string
  rp_http_status :: int
  rp_response_json :: json

record ControllerActionReconciliationRecord =
  rr_action_id :: string
  rr_action_kind :: string
  rr_scope :: string
  rr_state :: string
  rr_http_status :: "int option"
  rr_response_json :: "json option"
  rr_session_id :: "string option"
  rr_trigger_ref :: "string option"
  rr_trigger_fingerprint :: "string option"
  rr_session_trigger_ref :: "string option"
  rr_received_at :: int

record ControllerOpenIntent =
  oi_trigger_ref :: string
  oi_trigger_fingerprint :: "string option"
  oi_session_trigger_ref :: string

record ControllerSessionBinding =
  bd_controller_id :: string
  bd_scope :: string
  bd_trigger_ref :: string
  bd_trigger_fingerprint :: "string option"
  bd_session_id :: string

datatype ControllerOpenDecision =
    CreateDecision
  | Deduplicate ControllerSessionBinding
  | Supersede ControllerSessionBinding

record ControllerInstallationConfig =
  cfg_enabled :: bool
  cfg_max_concurrent_sessions :: int
  cfg_max_actions_per_minute :: int
  cfg_actions :: "string list"
  cfg_scopes :: "string list"

datatype ControllerActionDenial =
    CredentialDenied
  | GrantDenied
  | ScopeDenied
  | SessionOwnershipDenied
  | TriggerScopeDenied
  | DisabledDenied
  | RateQuota (rq_limit: int) (rq_reset_at: int)
  | ConcurrentSessionQuota (cq_limit: int) (cq_current: int)

datatype ControllerActionStart =
    Started "ControllerOpenDecision option"
  | Replay ControllerActionReplay
  | InProgress
  | OutcomeUnknown
  | RequestMismatch
  | Denied ControllerActionDenial

record ControllerEventDelivery =
  ed_id :: string
  ed_controller_id :: string
  ed_session_id :: "string option"
  ed_event_type :: string
  ed_endpoint :: string
  ed_key_version :: int
  ed_body_json :: json
  ed_attempts :: int
  ed_created_at :: int

definition CONTROLLER_ACTION_LEASE_MS :: int where
  "CONTROLLER_ACTION_LEASE_MS = 5 * 60 * 1000"

text \<open>Rust's saturating arithmetic on 64-bit integers.\<close>

definition saturate :: "int \<Rightarrow> int" where
  "saturate i = max (- (2 ^ 63)) (min (2 ^ 63 - 1) i)"

abbreviation saturating_add :: "int \<Rightarrow> int \<Rightarrow> int" where
  "saturating_add a b \<equiv> saturate (a + b)"

abbreviation saturating_sub :: "int \<Rightarrow> int \<Rightarrow> int" where
  "saturating_sub a b \<equiv> saturate (a - b)"

section \<open>Installations\<close>

definition new_controller :: "string \<Rightarrow> int \<Rightarrow> int \<Rightarrow> int \<Rightarrow> ControllerRow" where
  "new_controller controller_id max_sessions max_actions at =
    \<lparr>c_id = controller_id, c_enabled = True, c_max_concurrent_sessions = max_sessions,
     c_max_actions_per_minute = max_actions, c_created_at = at, c_updated_at = at,
     c_event_endpoint = None, c_event_key_version = None\<rparr>"

definition upsert_controller_installation :: "string \<Rightarrow> int \<Rightarrow> int \<Rightarrow> db \<Rightarrow> db" where
  "upsert_controller_installation controller_id max_sessions max_actions d =
    d\<lparr>controllers := upsert c_id
        (\<lambda>c. c\<lparr>c_max_concurrent_sessions := max_sessions, c_max_actions_per_minute := max_actions,
               c_updated_at := now_ms d\<rparr>)
        (new_controller controller_id max_sessions max_actions (now_ms d)) (controllers d)\<rparr>"

text \<open>
  A plain \<^verbatim>\<open>INSERT\<close> fails on a taken primary key or unique constraint, and the transaction with
  it.
\<close>

definition insert_grant :: "string \<Rightarrow> int \<Rightarrow> string \<Rightarrow> store_err + db \<Rightarrow> store_err + db" where
  "insert_grant controller_id at action r = bindE r (\<lambda>d.
    if list_ex (\<lambda>g. g_controller_id g = controller_id \<and> g_kind g = action) (controller_action_grants d)
    then Inl (ConstraintViolation ''controller_action_grants'')
    else Inr (d\<lparr>controller_action_grants := controller_action_grants d @
      [\<lparr>g_controller_id = controller_id, g_kind = action, g_granted = True, g_updated_at = at\<rparr>]\<rparr>))"

definition insert_binding :: "string \<Rightarrow> int \<Rightarrow> string \<Rightarrow> store_err + db \<Rightarrow> store_err + db" where
  "insert_binding controller_id at scope r = bindE r (\<lambda>d.
    if list_ex (\<lambda>b. bi_controller_id b = controller_id \<and> bi_scope b = scope) (controller_bindings d)
    then Inl (ConstraintViolation ''controller_bindings'')
    else Inr (d\<lparr>controller_bindings := controller_bindings d @
      [\<lparr>bi_controller_id = controller_id, bi_scope = scope, bi_enabled = True, bi_updated_at = at\<rparr>]\<rparr>))"

definition token_row :: "string \<Rightarrow> NewControllerActionToken \<Rightarrow> int \<Rightarrow> TokenRow" where
  "token_row controller_id token created_at =
    \<lparr>t_id = nt_id token, t_controller_id = controller_id, t_token_hash = nt_token_hash token,
     t_pepper_version = nt_pepper_version token, t_not_before = nt_not_before token, t_expires_at = None,
     t_revoked_at = None, t_created_at = created_at\<rparr>"

definition same_secret :: "TokenRow \<Rightarrow> TokenRow \<Rightarrow> bool" where
  "same_secret t u \<longleftrightarrow> t_controller_id t = t_controller_id u \<and> t_token_hash t = t_token_hash u
    \<and> t_pepper_version t = t_pepper_version u"

definition insert_token :: "TokenRow \<Rightarrow> db \<Rightarrow> store_err + db" where
  "insert_token row d =
    (if list_ex (\<lambda>t. t_id t = t_id row \<or> same_secret t row) (controller_action_tokens d)
     then Inl (ConstraintViolation ''controller_action_tokens'')
     else Inr (d\<lparr>controller_action_tokens := controller_action_tokens d @ [row]\<rparr>))"

definition provision_controller_installation ::
  "string \<Rightarrow> int \<Rightarrow> int \<Rightarrow> string list \<Rightarrow> string list \<Rightarrow> NewControllerActionToken \<Rightarrow> db \<Rightarrow> bool res" where
  "provision_controller_installation controller_id max_sessions max_actions actions scopes token d =
    (if controller_id \<in> c_id ` set (controllers d) then Inr (False, d)
     else bindE (fold (insert_binding controller_id (now_ms d)) scopes
             (fold (insert_grant controller_id (now_ms d)) actions
               (Inr (d\<lparr>controllers := controllers d @
                  [new_controller controller_id max_sessions max_actions (now_ms d)]\<rparr>)))) (\<lambda>d1.
          bindE (insert_token (token_row controller_id token (now_ms d)) d1) (\<lambda>d2. Inr (True, d2))))"

definition controller_installation :: "string \<Rightarrow> db \<Rightarrow> ControllerInstallation option" where
  "controller_installation controller_id d =
    map_option (\<lambda>c. \<lparr>ci_id = c_id c, ci_enabled = c_enabled c,
        ci_max_concurrent_sessions = c_max_concurrent_sessions c,
        ci_max_actions_per_minute = c_max_actions_per_minute c\<rparr>)
      (find (\<lambda>c. c_id c = controller_id) (controllers d))"

definition upd_controller :: "string \<Rightarrow> (ControllerRow \<Rightarrow> ControllerRow) \<Rightarrow> db \<Rightarrow> db" where
  "upd_controller controller_id f d = d\<lparr>controllers := upd_where (\<lambda>c. c_id c = controller_id) f (controllers d)\<rparr>"

definition set_controller_installation_enabled :: "string \<Rightarrow> bool \<Rightarrow> db \<Rightarrow> bool \<times> db" where
  "set_controller_installation_enabled controller_id enabled d =
    (count_where (\<lambda>c. c_id c = controller_id) (controllers d) = 1,
     upd_controller controller_id (\<lambda>c. c\<lparr>c_enabled := enabled, c_updated_at := now_ms d\<rparr>) d)"

definition read_config :: "string \<Rightarrow> db \<Rightarrow> ControllerInstallationConfig option" where
  "read_config controller_id d =
    map_option (\<lambda>c. \<lparr>cfg_enabled = c_enabled c,
        cfg_max_concurrent_sessions = c_max_concurrent_sessions c,
        cfg_max_actions_per_minute = c_max_actions_per_minute c,
        cfg_actions = sort (map g_kind (filter (\<lambda>g. g_controller_id g = controller_id \<and> g_granted g)
          (controller_action_grants d))),
        cfg_scopes = sort (map bi_scope (filter (\<lambda>b. bi_controller_id b = controller_id \<and> bi_enabled b)
          (controller_bindings d)))\<rparr>)
      (find (\<lambda>c. c_id c = controller_id) (controllers d))"

definition config_json :: "ControllerInstallationConfig \<Rightarrow> json" where
  "config_json c = JObj [(''enabled'', JBool (cfg_enabled c)),
    (''max_concurrent_sessions'', JNum (cfg_max_concurrent_sessions c)),
    (''max_actions_per_minute'', JNum (cfg_max_actions_per_minute c)),
    (''actions'', jstrs (cfg_actions c)), (''scopes'', jstrs (cfg_scopes c))]"

definition put_grant :: "string \<Rightarrow> string \<Rightarrow> bool \<Rightarrow> int \<Rightarrow> GrantRow list \<Rightarrow> GrantRow list" where
  "put_grant controller_id kind granted at =
    upsert (\<lambda>g. (g_controller_id g, g_kind g)) (\<lambda>g. g\<lparr>g_granted := granted, g_updated_at := at\<rparr>)
      \<lparr>g_controller_id = controller_id, g_kind = kind, g_granted = granted, g_updated_at = at\<rparr>"

definition put_binding :: "string \<Rightarrow> string \<Rightarrow> bool \<Rightarrow> int \<Rightarrow> BindingRow list \<Rightarrow> BindingRow list" where
  "put_binding controller_id scope enabled at =
    upsert (\<lambda>b. (bi_controller_id b, bi_scope b)) (\<lambda>b. b\<lparr>bi_enabled := enabled, bi_updated_at := at\<rparr>)
      \<lparr>bi_controller_id = controller_id, bi_scope = scope, bi_enabled = enabled, bi_updated_at = at\<rparr>"

text \<open>Replacing a list of grants revokes all of them and grants the listed ones again.\<close>

definition replace_grants :: "string \<Rightarrow> string list \<Rightarrow> int \<Rightarrow> GrantRow list \<Rightarrow> GrantRow list" where
  "replace_grants controller_id kinds at rows =
    fold (\<lambda>k. put_grant controller_id k True at) kinds
      (upd_where (\<lambda>g. g_controller_id g = controller_id) (\<lambda>g. g\<lparr>g_granted := False, g_updated_at := at\<rparr>) rows)"

definition replace_bindings :: "string \<Rightarrow> string list \<Rightarrow> int \<Rightarrow> BindingRow list \<Rightarrow> BindingRow list" where
  "replace_bindings controller_id scopes at rows =
    fold (\<lambda>s. put_binding controller_id s True at) scopes
      (upd_where (\<lambda>b. bi_controller_id b = controller_id) (\<lambda>b. b\<lparr>bi_enabled := False, bi_updated_at := at\<rparr>) rows)"

definition opt_upd :: "'a option \<Rightarrow> ('a \<Rightarrow> db \<Rightarrow> db) \<Rightarrow> db \<Rightarrow> db" where
  "opt_upd x f d = (case x of None \<Rightarrow> d | Some a \<Rightarrow> f a d)"

definition append_event_audit :: "string \<Rightarrow> string \<Rightarrow> string \<Rightarrow> json \<Rightarrow> int \<Rightarrow> db \<Rightarrow> db" where
  "append_event_audit controller_id event_id kind detail at d =
    d\<lparr>controller_event_audit := controller_event_audit d @
      [\<lparr>ea_id = int (length (controller_event_audit d)) + 1, ea_controller_id = controller_id,
        ea_event_id = event_id, ea_kind = kind, ea_detail = detail, ea_created_at = at\<rparr>]\<rparr>"

definition patch_controller_installation ::
  "string \<Rightarrow> bool option \<Rightarrow> int option \<Rightarrow> int option \<Rightarrow> string list option \<Rightarrow> string list option \<Rightarrow> db
    \<Rightarrow> ControllerInstallationConfig option res" where
  "patch_controller_installation controller_id enabled max_sessions max_actions actions scopes d =
    (case read_config controller_id d of
      None \<Rightarrow> Inr (None, d)
    | Some before \<Rightarrow>
        let at = now_ms d;
            d1 = opt_upd enabled (\<lambda>e. upd_controller controller_id (\<lambda>c. c\<lparr>c_enabled := e, c_updated_at := at\<rparr>)) d;
            d2 = opt_upd max_sessions (\<lambda>l. upd_controller controller_id
                   (\<lambda>c. c\<lparr>c_max_concurrent_sessions := l, c_updated_at := at\<rparr>)) d1;
            d3 = opt_upd max_actions (\<lambda>l. upd_controller controller_id
                   (\<lambda>c. c\<lparr>c_max_actions_per_minute := l, c_updated_at := at\<rparr>)) d2;
            d4 = opt_upd actions (\<lambda>as dd. dd\<lparr>controller_action_grants :=
                   replace_grants controller_id as at (controller_action_grants dd)\<rparr>) d3;
            d5 = opt_upd scopes (\<lambda>ss dd. dd\<lparr>controller_bindings :=
                   replace_bindings controller_id ss at (controller_bindings dd)\<rparr>) d4
        in (case read_config controller_id d5 of
             None \<Rightarrow> Inl (Bail ''registration vanished mid-transaction'')
           | Some aft \<Rightarrow>
               let (eid, d6) = new_id ''cfg'' d5
               in Inr (Some aft, append_event_audit controller_id eid ''installation_patched''
                    (JObj [(''before'', config_json before), (''after'', config_json aft)]) at d6)))"


section \<open>Credentials, grants and scopes\<close>

definition put_controller_action_token ::
  "string \<Rightarrow> string \<Rightarrow> string \<Rightarrow> int \<Rightarrow> int \<Rightarrow> int option \<Rightarrow> db \<Rightarrow> unit res" where
  "put_controller_action_token token_id controller_id token_hash pepper_version not_before expires_at d =
    (let row = \<lparr>t_id = token_id, t_controller_id = controller_id, t_token_hash = token_hash,
           t_pepper_version = pepper_version, t_not_before = not_before, t_expires_at = expires_at,
           t_revoked_at = None, t_created_at = now_ms d\<rparr> in
     if list_ex (\<lambda>t. t_id t \<noteq> token_id \<and> same_secret t row) (controller_action_tokens d)
     then Inl (ConstraintViolation ''controller_action_tokens'')
     else Inr ((), d\<lparr>controller_action_tokens := upsert t_id
       (\<lambda>t. t\<lparr>t_controller_id := controller_id, t_token_hash := token_hash, t_pepper_version := pepper_version,
              t_not_before := not_before, t_expires_at := expires_at, t_revoked_at := None\<rparr>)
       row (controller_action_tokens d)\<rparr>))"

definition expiring :: "string \<Rightarrow> int \<Rightarrow> int \<Rightarrow> TokenRow \<Rightarrow> bool" where
  "expiring controller_id expires_at at t \<longleftrightarrow> t_controller_id t = controller_id \<and> t_revoked_at t = None
    \<and> t_not_before t \<le> at \<and> (case t_expires_at t of None \<Rightarrow> True | Some e \<Rightarrow> e > expires_at)"

definition expire_controller_action_tokens :: "string \<Rightarrow> int \<Rightarrow> int \<Rightarrow> db \<Rightarrow> nat \<times> db" where
  "expire_controller_action_tokens controller_id expires_at at d =
    (count_where (expiring controller_id expires_at at) (controller_action_tokens d),
     d\<lparr>controller_action_tokens := upd_where (expiring controller_id expires_at at)
        (\<lambda>t. t\<lparr>t_expires_at := Some expires_at\<rparr>) (controller_action_tokens d)\<rparr>)"

definition rotate_controller_action_token ::
  "string \<Rightarrow> NewControllerActionToken \<Rightarrow> int \<Rightarrow> db \<Rightarrow> bool res" where
  "rotate_controller_action_token controller_id token old_tokens_expire_at d =
    (if controller_id \<notin> c_id ` set (controllers d) then Inr (False, d)
     else bindE (insert_token (token_row controller_id token (nt_not_before token))
            (snd (expire_controller_action_tokens controller_id old_tokens_expire_at (nt_not_before token) d)))
          (\<lambda>d'. Inr (True, d')))"

definition revoke_controller_action_token :: "string \<Rightarrow> string \<Rightarrow> int \<Rightarrow> db \<Rightarrow> bool \<times> db" where
  "revoke_controller_action_token controller_id token_id revoked_at d =
    (let P = (\<lambda>t. t_id t = token_id \<and> t_controller_id t = controller_id \<and> t_revoked_at t = None) in
     (count_where P (controller_action_tokens d) = 1,
      d\<lparr>controller_action_tokens := upd_where P (\<lambda>t. t\<lparr>t_revoked_at := Some revoked_at\<rparr>)
          (controller_action_tokens d)\<rparr>))"

definition token_active :: "int \<Rightarrow> TokenRow \<Rightarrow> bool" where
  "token_active at t \<longleftrightarrow> t_revoked_at t = None \<and> t_not_before t \<le> at
    \<and> (case t_expires_at t of None \<Rightarrow> True | Some e \<Rightarrow> e > at)"

definition active_controller_action_tokens :: "int \<Rightarrow> db \<Rightarrow> ControllerActionToken list" where
  "active_controller_action_tokens at d =
    map (\<lambda>t. \<lparr>cat_id = t_id t, cat_controller_id = t_controller_id t, cat_token_hash = t_token_hash t,
             cat_pepper_version = t_pepper_version t\<rparr>)
      (sort_key t_id (filter (token_active at) (controller_action_tokens d)))"

definition set_controller_action_grant :: "string \<Rightarrow> string \<Rightarrow> bool \<Rightarrow> db \<Rightarrow> db" where
  "set_controller_action_grant controller_id action_kind granted d =
    d\<lparr>controller_action_grants := put_grant controller_id action_kind granted (now_ms d) (controller_action_grants d)\<rparr>"

definition set_controller_scope_binding :: "string \<Rightarrow> string \<Rightarrow> bool \<Rightarrow> db \<Rightarrow> db" where
  "set_controller_scope_binding controller_id scope enabled d =
    d\<lparr>controller_bindings := put_binding controller_id scope enabled (now_ms d) (controller_bindings d)\<rparr>"

section \<open>Admitting an action\<close>

text \<open>
  The admission transaction, check by check in the order of the code. The credential count is a
  saturating byte over all pairs of an active token and a candidate hash.
\<close>

definition secret_matches :: "TokenRow \<times> ControllerCredentialHash \<Rightarrow> bool" where
  "secret_matches = (\<lambda>(t, h). ch_pepper_version h = t_pepper_version t \<and> ch_token_hash h = t_token_hash t)"

definition credential_matches :: "string \<Rightarrow> ControllerCredentialHash list \<Rightarrow> int \<Rightarrow> db \<Rightarrow> nat" where
  "credential_matches controller_id credential_hashes at d =
    foldl (\<lambda>n p. if secret_matches p then min 255 (n + 1) else n) 0
      (List.product (sort_key t_id (filter (\<lambda>t. t_controller_id t = controller_id \<and> token_active at t)
         (controller_action_tokens d))) credential_hashes)"

definition action_granted :: "string \<Rightarrow> string \<Rightarrow> db \<Rightarrow> bool" where
  "action_granted controller_id action_kind d =
    list_ex (\<lambda>g. g_controller_id g = controller_id \<and> g_kind g = action_kind \<and> g_granted g) (controller_action_grants d)"

definition scope_enabled :: "string \<Rightarrow> string \<Rightarrow> db \<Rightarrow> bool" where
  "scope_enabled controller_id scope d =
    list_ex (\<lambda>b. bi_controller_id b = controller_id \<and> bi_scope b = scope \<and> bi_enabled b) (controller_bindings d)"

definition owns_session :: "string \<Rightarrow> string \<Rightarrow> string \<Rightarrow> db \<Rightarrow> bool" where
  "owns_session controller_id scope session_id d =
    list_ex (\<lambda>r. cs_controller_id r = controller_id \<and> cs_scope r = scope \<and> cs_session_id r = session_id)
      (controller_sessions d)"

definition find_action :: "string \<Rightarrow> string \<Rightarrow> db \<Rightarrow> ActionRow option" where
  "find_action controller_id action_id d =
    find (\<lambda>a. (a_controller_id a, a_action_id a) = (controller_id, action_id)) (controller_action_idempotency d)"

definition upd_action :: "string \<Rightarrow> string \<Rightarrow> (ActionRow \<Rightarrow> ActionRow) \<Rightarrow> db \<Rightarrow> db" where
  "upd_action controller_id action_id f d =
    d\<lparr>controller_action_idempotency := upd_where
       (\<lambda>a. (a_controller_id a, a_action_id a) = (controller_id, action_id) \<and> a_state a = ''processing'') f
       (controller_action_idempotency d)\<rparr>"

text \<open>An action id seen before is answered from its journal row and never runs again.\<close>

definition answer_known_action :: "ActionRow \<Rightarrow> string \<Rightarrow> int \<Rightarrow> db \<Rightarrow> ControllerActionStart res" where
  "answer_known_action a request_hash at d =
    (if a_request_hash a \<noteq> request_hash then Inr (RequestMismatch, d)
     else if a_state a = ''completed'' then
       (case a_http_status a of
         None \<Rightarrow> Inl (Bail ''completed controller action missing status'')
       | Some st \<Rightarrow> (case a_response_json a of
           None \<Rightarrow> Inl (Bail ''completed controller action missing response'')
         | Some body \<Rightarrow> Inr (Replay \<lparr>rp_request_hash = a_request_hash a, rp_http_status = st,
             rp_response_json = body\<rparr>, d)))
     else if a_state a = ''processing'' \<and> saturating_sub at (a_received_at a) \<le> CONTROLLER_ACTION_LEASE_MS
       then Inr (InProgress, d)
     else if a_state a = ''processing'' then
       Inr (OutcomeUnknown, upd_action (a_controller_id a) (a_action_id a)
         (\<lambda>r. r\<lparr>a_state := ''indeterminate'', a_completed_at := Some at\<rparr>) d)
     else Inr (OutcomeUnknown, d))"

definition in_window :: "string \<Rightarrow> int \<Rightarrow> db \<Rightarrow> ActionRow list" where
  "in_window controller_id at d =
    filter (\<lambda>a. a_controller_id a = controller_id \<and> a_received_at a > saturating_sub at 60000)
      (controller_action_idempotency d)"

definition rate_reset_at :: "string \<Rightarrow> int \<Rightarrow> db \<Rightarrow> int" where
  "rate_reset_at controller_id at d =
    (let ts = map a_received_at (in_window controller_id at d) in
     saturating_add (if ts = [] then at else Min (set ts)) 60000)"

definition claimed_scope :: "string \<Rightarrow> string \<Rightarrow> db \<Rightarrow> string option" where
  "claimed_scope controller_id trigger_ref d =
    map_option ts_scope (find (\<lambda>t. (ts_controller_id t, ts_trigger_ref t) = (controller_id, trigger_ref))
      (controller_trigger_scopes d))"

definition claim_trigger_scope :: "string \<Rightarrow> string \<Rightarrow> string \<Rightarrow> int \<Rightarrow> db \<Rightarrow> ControllerActionDenial + db" where
  "claim_trigger_scope controller_id trigger_ref scope at d =
    (case claimed_scope controller_id trigger_ref d of
      Some s \<Rightarrow> if s \<noteq> scope then Inl TriggerScopeDenied else Inr d
    | None \<Rightarrow> Inr (d\<lparr>controller_trigger_scopes := controller_trigger_scopes d @
        [\<lparr>ts_controller_id = controller_id, ts_trigger_ref = trigger_ref, ts_scope = scope, ts_created_at = at\<rparr>]\<rparr>))"

definition to_binding :: "ControllerSessionRow \<Rightarrow> ControllerSessionBinding" where
  "to_binding r = \<lparr>bd_controller_id = cs_controller_id r, bd_scope = cs_scope r, bd_trigger_ref = cs_trigger_ref r,
     bd_trigger_fingerprint = cs_trigger_fingerprint r, bd_session_id = cs_session_id r\<rparr>"

definition controller_session_for_trigger :: "string \<Rightarrow> string \<Rightarrow> db \<Rightarrow> ControllerSessionBinding option" where
  "controller_session_for_trigger controller_id trigger_ref d =
    map_option to_binding (find (\<lambda>r. cs_controller_id r = controller_id \<and> cs_trigger_ref r = trigger_ref \<and> cs_current r)
      (controller_sessions d))"

definition live_session :: "string \<Rightarrow> db \<Rightarrow> bool" where
  "live_session sid d =
    (case session sid d of None \<Rightarrow> False | Some s \<Rightarrow> \<not> terminal (from_db_str (s_state s)))"

definition decide_open :: "string \<Rightarrow> string \<Rightarrow> ControllerOpenIntent \<Rightarrow> db \<Rightarrow> ControllerActionDenial + ControllerOpenDecision" where
  "decide_open controller_id scope intent d =
    (case controller_session_for_trigger controller_id (oi_trigger_ref intent) d of
      None \<Rightarrow> Inr CreateDecision
    | Some b \<Rightarrow>
        if bd_scope b \<noteq> scope then Inl TriggerScopeDenied
        else if live_session (bd_session_id b) d then
          (if bd_trigger_fingerprint b \<noteq> None \<and> bd_trigger_fingerprint b = oi_trigger_fingerprint intent
           then Inr (Deduplicate b) else Inr (Supersede b))
        else Inr CreateDecision)"

definition concurrent_sessions :: "string \<Rightarrow> db \<Rightarrow> int" where
  "concurrent_sessions controller_id d =
    int (count_where (\<lambda>r. cs_controller_id r = controller_id \<and>
      (case session (cs_session_id r) d of None \<Rightarrow> False | Some s \<Rightarrow> s_state s \<notin> {''closed'', ''aborted''}))
      (controller_sessions d))"

definition open_decision_for ::
  "string \<Rightarrow> string \<Rightarrow> ControllerOpenIntent option \<Rightarrow> int \<Rightarrow> db \<Rightarrow> ControllerActionDenial + (ControllerOpenDecision option \<times> db)" where
  "open_decision_for controller_id scope open_intent at d =
    (case open_intent of
      None \<Rightarrow> Inr (None, d)
    | Some intent \<Rightarrow>
        bindE (claim_trigger_scope controller_id (oi_trigger_ref intent) scope at d) (\<lambda>d1.
        bindE (decide_open controller_id scope intent d1) (\<lambda>dec. Inr (Some dec, d1))))"

definition admitted_row ::
  "string \<Rightarrow> string \<Rightarrow> string \<Rightarrow> string \<Rightarrow> string \<Rightarrow> string option \<Rightarrow> ControllerOpenIntent option \<Rightarrow> int \<Rightarrow> ActionRow" where
  "admitted_row controller_id action_id request_hash action_kind scope session_id open_intent at =
    \<lparr>a_controller_id = controller_id, a_action_id = action_id, a_request_hash = request_hash,
     a_action_kind = action_kind, a_scope = scope, a_state = ''processing'', a_http_status = None,
     a_response_json = None, a_trigger_ref = map_option oi_trigger_ref open_intent,
     a_trigger_fingerprint = Option.bind open_intent oi_trigger_fingerprint,
     a_session_trigger_ref = map_option oi_session_trigger_ref open_intent, a_session_id = session_id,
     a_received_at = at, a_completed_at = None\<rparr>"

definition admit_action ::
  "ControllerRow \<Rightarrow> string \<Rightarrow> string \<Rightarrow> string \<Rightarrow> string \<Rightarrow> string option \<Rightarrow> ControllerOpenIntent option \<Rightarrow> int
    \<Rightarrow> db \<Rightarrow> ControllerActionStart \<times> db" where
  "admit_action c action_id request_hash action_kind scope session_id open_intent at d =
    (if int (length (in_window (c_id c) at d)) \<ge> c_max_actions_per_minute c
     then (Denied (RateQuota (c_max_actions_per_minute c) (rate_reset_at (c_id c) at d)), d)
     else (case open_decision_for (c_id c) scope open_intent at d of
       Inl den \<Rightarrow> (Denied den, d)
     | Inr (dec, d1) \<Rightarrow>
         if dec = Some CreateDecision \<and> concurrent_sessions (c_id c) d1 \<ge> c_max_concurrent_sessions c
         then (Denied (ConcurrentSessionQuota (c_max_concurrent_sessions c) (concurrent_sessions (c_id c) d1)), d)
         else (Started dec, d1\<lparr>controller_action_idempotency := controller_action_idempotency d1 @
           [admitted_row (c_id c) action_id request_hash action_kind scope session_id open_intent at]\<rparr>)))"

definition begin_controller_action ::
  "string \<Rightarrow> ControllerCredentialHash list \<Rightarrow> string \<Rightarrow> string \<Rightarrow> string \<Rightarrow> string \<Rightarrow> string option
    \<Rightarrow> ControllerOpenIntent option \<Rightarrow> int \<Rightarrow> db \<Rightarrow> ControllerActionStart res" where
  "begin_controller_action controller_id credential_hashes action_id request_hash action_kind scope session_id
      open_intent at d =
    (case find (\<lambda>c. c_id c = controller_id) (controllers d) of
      None \<Rightarrow> Inr (Denied CredentialDenied, d)
    | Some c \<Rightarrow>
        if \<not> c_enabled c \<and> session_id = None then Inr (Denied DisabledDenied, d)
        else if credential_matches controller_id credential_hashes at d \<noteq> 1 then Inr (Denied CredentialDenied, d)
        else if \<not> action_granted controller_id action_kind d then Inr (Denied GrantDenied, d)
        else if \<not> scope_enabled controller_id scope d then Inr (Denied ScopeDenied, d)
        else if (case session_id of None \<Rightarrow> False | Some sid \<Rightarrow> \<not> owns_session controller_id scope sid d)
          then Inr (Denied SessionOwnershipDenied, d)
        else (case find_action controller_id action_id d of
          Some a \<Rightarrow> answer_known_action a request_hash at d
        | None \<Rightarrow> Inr (admit_action c action_id request_hash action_kind scope session_id open_intent at d)))"


section \<open>Finishing an action\<close>

definition admitted_open :: "string \<Rightarrow> string \<Rightarrow> db \<Rightarrow> ActionRow option" where
  "admitted_open controller_id action_id d =
    find (\<lambda>a. a_controller_id a = controller_id \<and> a_action_id a = action_id
        \<and> a_action_kind a = ''open_session'' \<and> a_state a = ''processing''
        \<and> list_ex (\<lambda>t. ts_controller_id t = a_controller_id a \<and> Some (ts_trigger_ref t) = a_trigger_ref a
             \<and> ts_scope t = a_scope a) (controller_trigger_scopes d))
      (controller_action_idempotency d)"

definition bind_session :: "string \<Rightarrow> string \<Rightarrow> ControllerSessionBinding \<Rightarrow> int \<Rightarrow> db \<Rightarrow> store_err + db" where
  "bind_session controller_id action_id b completed_at d =
    (if bd_controller_id b \<noteq> controller_id then Inl (Bail ''controller session binding owner mismatch'')
     else (case admitted_open controller_id action_id d of
       None \<Rightarrow> Inl (Bail ''controller session binding has no admitted open action'')
     | Some a \<Rightarrow>
         if a_scope a \<noteq> bd_scope b \<or> a_trigger_ref a \<noteq> Some (bd_trigger_ref b)
            \<or> a_trigger_fingerprint a \<noteq> bd_trigger_fingerprint b
         then Inl (Bail ''controller session binding does not match admitted intent'')
         else
           let rows = upd_where (\<lambda>r. cs_controller_id r = bd_controller_id b \<and> cs_trigger_ref r = bd_trigger_ref b
                        \<and> cs_current r) (\<lambda>r. r\<lparr>cs_current := False\<rparr>) (controller_sessions d)
           in if bd_session_id b \<in> cs_session_id ` set rows
              then Inl (ConstraintViolation ''controller_sessions.session_id'')
              else enqueue_controller_event_locked controller_id (Some (bd_session_id b)) ''session.opened''
                (JObj [(''scope'', JStr (bd_scope b)), (''trigger_ref'', JStr (bd_trigger_ref b)),
                       (''trigger_fingerprint'', jopt (bd_trigger_fingerprint b))])
                (''session.opened:'' @ bd_session_id b) completed_at
                (d\<lparr>controller_sessions := rows @ [\<lparr>cs_controller_id = bd_controller_id b, cs_scope = bd_scope b,
                   cs_trigger_ref = bd_trigger_ref b, cs_trigger_fingerprint = bd_trigger_fingerprint b,
                   cs_session_id = bd_session_id b, cs_current = True, cs_created_at = completed_at\<rparr>]\<rparr>)))"

definition complete_row :: "int \<Rightarrow> json \<Rightarrow> int \<Rightarrow> string option \<Rightarrow> ActionRow \<Rightarrow> ActionRow" where
  "complete_row http_status response completed_at bound a =
    a\<lparr>a_state := ''completed'', a_http_status := Some http_status, a_response_json := Some response,
      a_completed_at := Some completed_at, a_session_id := coalesce bound (a_session_id a)\<rparr>"

definition finish_controller_action ::
  "string \<Rightarrow> string \<Rightarrow> int \<Rightarrow> json \<Rightarrow> ControllerSessionBinding option \<Rightarrow> int \<Rightarrow> db \<Rightarrow> unit res" where
  "finish_controller_action controller_id action_id http_status response session_binding completed_at d =
    bindE (case session_binding of None \<Rightarrow> Inr d | Some b \<Rightarrow> bind_session controller_id action_id b completed_at d) (\<lambda>d1.
      if count_where (\<lambda>a. (a_controller_id a, a_action_id a) = (controller_id, action_id) \<and> a_state a = ''processing'')
           (controller_action_idempotency d1) \<noteq> 1
      then Inl (Bail ''controller action is not in processing state'')
      else
        let d2 = upd_action controller_id action_id
              (complete_row http_status response completed_at (map_option bd_session_id session_binding)) d1
        in if 200 \<le> http_status \<and> http_status < 300 then Inr ((), d2)
           else (case find_action controller_id action_id d2 of
             None \<Rightarrow> Inl QueryReturnedNoRows
           | Some a \<Rightarrow> bindE (enqueue_controller_event_locked controller_id (a_session_id a) ''action.failed''
               (JObj [(''action_id'', JStr action_id), (''http_status'', JNum http_status)])
               (''action.failed:'' @ action_id) completed_at d2) (\<lambda>d3. Inr ((), d3))))"

definition controller_action_for_reconciliation ::
  "string \<Rightarrow> string \<Rightarrow> string \<Rightarrow> db \<Rightarrow> ControllerActionReconciliationRecord option" where
  "controller_action_for_reconciliation controller_id action_id scope d =
    map_option (\<lambda>a. \<lparr>rr_action_id = a_action_id a, rr_action_kind = a_action_kind a, rr_scope = a_scope a,
        rr_state = a_state a, rr_http_status = a_http_status a, rr_response_json = a_response_json a,
        rr_session_id = a_session_id a, rr_trigger_ref = a_trigger_ref a,
        rr_trigger_fingerprint = a_trigger_fingerprint a, rr_session_trigger_ref = a_session_trigger_ref a,
        rr_received_at = a_received_at a\<rparr>)
      (find (\<lambda>a. a_controller_id a = controller_id \<and> a_action_id a = action_id \<and> a_scope a = scope
          \<and> scope_enabled controller_id scope d
          \<and> (a_action_kind a \<noteq> ''open_session'' \<or> a_trigger_ref a = None
             \<or> list_ex (\<lambda>t. ts_controller_id t = a_controller_id a \<and> Some (ts_trigger_ref t) = a_trigger_ref a
                  \<and> ts_scope t = a_scope a) (controller_trigger_scopes d)))
        (controller_action_idempotency d))"

section \<open>The outgoing event queue\<close>

definition configure_controller_events :: "string \<Rightarrow> string \<Rightarrow> int \<Rightarrow> string list \<Rightarrow> int \<Rightarrow> db \<Rightarrow> bool \<times> db" where
  "configure_controller_events controller_id endpoint key_version event_types at d =
    (if count_where (\<lambda>c. c_id c = controller_id) (controllers d) \<noteq> 1 then (False, d)
     else (True, (upd_controller controller_id
        (\<lambda>c. c\<lparr>c_event_endpoint := Some endpoint, c_event_key_version := Some key_version, c_updated_at := at\<rparr>) d)
        \<lparr>controller_event_grants := replace_grants controller_id event_types at (controller_event_grants d)\<rparr>))"

definition enqueue_session_intent :: "string \<Rightarrow> string \<Rightarrow> json \<Rightarrow> db \<Rightarrow> store_err + db" where
  "enqueue_session_intent session_id message_id payload d =
    enqueue_controller_session_event_locked session_id ''session.intent'' payload
      (''session.intent:'' @ message_id) (now_ms d) d"

definition upd_event :: "string \<Rightarrow> string \<Rightarrow> (EventRow \<Rightarrow> EventRow) \<Rightarrow> EventRow list \<Rightarrow> EventRow list" where
  "upd_event event_id from_state f = upd_where (\<lambda>e. e_id e = event_id \<and> e_state e = from_state) f"

definition event_in :: "string \<Rightarrow> string \<Rightarrow> EventRow list \<Rightarrow> nat" where
  "event_in event_id st rows = count_where (\<lambda>e. e_id e = event_id \<and> e_state e = st) rows"

definition to_delivery :: "EventRow \<Rightarrow> ControllerEventDelivery" where
  "to_delivery e = \<lparr>ed_id = e_id e, ed_controller_id = e_controller_id e, ed_session_id = e_session_id e,
     ed_event_type = e_event_type e, ed_endpoint = e_event_endpoint e, ed_key_version = e_event_key_version e,
     ed_body_json = e_body_json e, ed_attempts = e_attempts e, ed_created_at = e_created_at e\<rparr>"

fun claim_ids :: "int \<Rightarrow> string list \<Rightarrow> EventRow list \<Rightarrow> ControllerEventDelivery list \<times> EventRow list" where
  "claim_ids lease_until [] rows = ([], rows)"
| "claim_ids lease_until (i # is) rows =
    (if event_in i ''pending'' rows \<noteq> 1 then claim_ids lease_until is rows
     else
       let rows' = upd_event i ''pending'' (\<lambda>e. e\<lparr>e_state := ''delivering'', e_attempts := e_attempts e + 1,
                     e_lease_until := Some lease_until\<rparr>) rows;
           (ds, rows'') = claim_ids lease_until is rows'
       in ((case find (\<lambda>e. e_id e = i) rows' of None \<Rightarrow> ds | Some e \<Rightarrow> to_delivery e # ds), rows''))"

definition release_expired :: "int \<Rightarrow> EventRow list \<Rightarrow> EventRow list" where
  "release_expired at = upd_where
    (\<lambda>e. e_state e = ''delivering'' \<and> (case e_lease_until e of None \<Rightarrow> False | Some l \<Rightarrow> l \<le> at))
    (\<lambda>e. e\<lparr>e_state := ''pending'', e_lease_until := None\<rparr>)"

definition due_ids :: "int \<Rightarrow> nat \<Rightarrow> EventRow list \<Rightarrow> string list" where
  "due_ids at limit rows = map e_id (take limit (sort_key e_next_attempt_at (sort_key e_created_at
     (filter (\<lambda>e. e_state e = ''pending'' \<and> e_next_attempt_at e \<le> at) rows))))"

definition claim_controller_events :: "int \<Rightarrow> nat \<Rightarrow> int \<Rightarrow> db \<Rightarrow> ControllerEventDelivery list \<times> db" where
  "claim_controller_events at limit lease_ms d =
    (let rows = release_expired at (controller_events d);
         (ds, rows') = claim_ids (saturating_add at lease_ms) (due_ids at limit rows) rows
     in (ds, d\<lparr>controller_events := rows'\<rparr>))"

definition complete_controller_event :: "string \<Rightarrow> int \<Rightarrow> db \<Rightarrow> bool \<times> db" where
  "complete_controller_event event_id delivered_at d =
    (event_in event_id ''delivering'' (controller_events d) = 1,
     d\<lparr>controller_events := upd_event event_id ''delivering'' (\<lambda>e. e\<lparr>e_state := ''delivered'',
        e_delivered_at := Some delivered_at, e_lease_until := None, e_last_error := None\<rparr>) (controller_events d)\<rparr>)"

definition fail_controller_event :: "string \<Rightarrow> string \<Rightarrow> int option \<Rightarrow> int \<Rightarrow> db \<Rightarrow> bool \<times> db" where
  "fail_controller_event event_id error next_attempt_at at d =
    (let updated = event_in event_id ''delivering'' (controller_events d) in
     (updated = 1,
      case next_attempt_at of
        Some t \<Rightarrow> d\<lparr>controller_events := upd_event event_id ''delivering'' (\<lambda>e. e\<lparr>e_state := ''pending'',
          e_next_attempt_at := t, e_lease_until := None, e_last_error := Some error\<rparr>) (controller_events d)\<rparr>
      | None \<Rightarrow>
          let d1 = d\<lparr>controller_events := upd_event event_id ''delivering'' (\<lambda>e. e\<lparr>e_state := ''dead_letter'',
                e_lease_until := None, e_last_error := Some error\<rparr>) (controller_events d)\<rparr>
          in if updated = 1 then
               (case find (\<lambda>e. e_id e = event_id) (controller_events d1) of
                 None \<Rightarrow> d1
               | Some e \<Rightarrow> append_event_audit (e_controller_id e) (e_id e) ''dead_letter'' (JStr error) at d1)
             else d1))"

definition prune_delivered_controller_events :: "int \<Rightarrow> db \<Rightarrow> nat \<times> db" where
  "prune_delivered_controller_events before d =
    (let P = (\<lambda>e. e_state e = ''delivered'' \<and> (case e_delivered_at e of None \<Rightarrow> False | Some t \<Rightarrow> t < before)) in
     (count_where P (controller_events d), d\<lparr>controller_events := del_where P (controller_events d)\<rparr>))"

definition controller_event_audit_of :: "string \<Rightarrow> db \<Rightarrow> EventAuditRow list" where
  "controller_event_audit_of controller_id d =
    take 200 (rev (sort_key ea_created_at (sort_key ea_id
      (filter (\<lambda>r. ea_controller_id r = controller_id) (controller_event_audit d)))))"

section \<open>What the other operations leave of the controller tables\<close>

definition ctl ::
  "db \<Rightarrow> ControllerRow list \<times> TokenRow list \<times> GrantRow list \<times> BindingRow list \<times> TriggerScopeRow list
    \<times> ActionRow list \<times> ControllerSessionRow list \<times> GrantRow list" where
  "ctl d = (controllers d, controller_action_tokens d, controller_action_grants d, controller_bindings d,
    controller_trigger_scopes d, controller_action_idempotency d, controller_sessions d, controller_event_grants d)"

lemma ctl_upd [simp]:
  "ctl (d\<lparr>sessions := a\<rparr>) = ctl d" "ctl (d\<lparr>session_bots := b\<rparr>) = ctl d" "ctl (d\<lparr>uuid_next := u\<rparr>) = ctl d"
  "ctl (d\<lparr>now := t\<rparr>) = ctl d" "ctl (d\<lparr>settings := st\<rparr>) = ctl d" "ctl (d\<lparr>bots := bs\<rparr>) = ctl d"
  "ctl (d\<lparr>threads := th\<rparr>) = ctl d" "ctl (d\<lparr>messages_t := ms\<rparr>) = ctl d" "ctl (d\<lparr>reactions_t := rs\<rparr>) = ctl d"
  "ctl (d\<lparr>outbox := ob\<rparr>) = ctl d" "ctl (d\<lparr>outbox_seq := os\<rparr>) = ctl d"
  "ctl (d\<lparr>controller_events := ce\<rparr>) = ctl d" "ctl (d\<lparr>controller_event_audit := ca\<rparr>) = ctl d"
  "ctl (d\<lparr>audit_events := ae\<rparr>) = ctl d" "ctl (add_roster_rows sid r d) = ctl d"
  by (simp_all add: ctl_def add_roster_rows_def)

lemma ctl_queue: "same_but_queue d d' \<Longrightarrow> ctl d' = ctl d"
  by (simp add: ctl_def same_but_queue_fields)

lemma ctl_inputs: "insert_opening_inputs sid at inputs d = Inr d' \<Longrightarrow> ctl d' = ctl d"
  by (drule insert_opening_inputs_shape) (auto simp: ctl_def)

lemma ctl_write: "write_sessions rows d = Inr d' \<Longrightarrow> ctl d' = ctl d"
  by (simp add: write_sessions_Inr)

lemma ctl_insert: "insert_session s d = Inr d' \<Longrightarrow> ctl d' = ctl d"
  by (auto simp: insert_session_def split: if_splits dest: ctl_write)

lemmas ctl_dests = ctl_queue ctl_inputs ctl_write ctl_insert
  append_audit_frame [THEN ctl_queue] enqueue_session_event_frame [THEN ctl_queue]
  state_change_audit_frame [THEN ctl_queue]

lemma ctl_land: "land_session row r inputs oc d = Inr (x, d') \<Longrightarrow> ctl d' = ctl d"
  unfolding land_session_def by (elim bindE_InrE) (auto dest!: ctl_dests)

lemma ctl_supersede: "supersede_existing e sid at d = Inr d' \<Longrightarrow> ctl d' = ctl d"
  unfolding supersede_existing_def Let_def by (elim bindE_InrE) (auto dest!: ctl_dests)

lemma ctl_create: "create_session title tr qn chair r mode d = Inr (s, d') \<Longrightarrow> ctl d' = ctl d"
  unfolding create_session_def new_id_def Let_def prod.case by (elim bindE_InrE) (auto dest!: ctl_dests)

lemma ctl_create_superseding:
  "create_session_superseding title tr fp qn chair r mode inputs d = Inr (x, d') \<Longrightarrow> ctl d' = ctl d"
  unfolding create_session_superseding_def new_id_def Let_def prod.case
  by (auto split: option.splits if_splits dest!: ctl_land ctl_supersede)

lemma ctl_transitions:
  "advance_state sid fr to d = Inr (b, d') \<Longrightarrow> ctl d' = ctl d"
  "set_state sid st d = Inr (u, d') \<Longrightarrow> ctl d' = ctl d"
  "reopen_session sid fr d = Inr (b, d') \<Longrightarrow> ctl d' = ctl d"
  unfolding advance_state_def set_state_def reopen_session_def Let_def
  by (elim bindE_InrE; auto split: if_splits dest!: ctl_dests)+

lemma ctl_closes:
  "close_if_active sid et reason stale d = Inr (b, d') \<Longrightarrow> ctl d' = ctl d"
  "close_session_with_result sid fr dec r y g au ids fm rc d = Inr (b, d') \<Longrightarrow> ctl d' = ctl d"
  unfolding close_if_active_def close_session_with_result_def Let_def
  by (auto split: if_splits dest!: ctl_dests)

lemma ctl_roster:
  "add_session_bots_if_capacity sid bs cap inputs d = Inr (oc, d') \<Longrightarrow> ctl d' = ctl d"
  "replace_session_bot sid b c d = Inr (x, d') \<Longrightarrow> ctl d' = ctl d"
  unfolding add_session_bots_if_capacity_def replace_session_bot_def Let_def
  by (auto split: if_splits dest!: ctl_dests)

lemma ctl_bots:
  "register_bot name role th tp d = Inr (b, d') \<Longrightarrow> ctl d' = ctl d"
  "discover_bot bid nm role md d = Inr (bb, d') \<Longrightarrow> ctl d' = ctl d"
  "upsert_thread sid root d = Inr (t, d') \<Longrightarrow> ctl d' = ctl d"
  "add_message sid tid ak ai au c rt d = Inr (m, d') \<Longrightarrow> ctl d' = ctl d"
  unfolding register_bot_def discover_bot_def upsert_thread_def add_message_def new_id_def Let_def
  by (auto split: if_splits option.splits dest!: ctl_dests)

lemma ctl_pure:
  "ctl (snd (add_session_bot sid b d)) = ctl d" "ctl (snd (remove_session_bot sid b d)) = ctl d"
  "ctl (set_session_quorum sid n d) = ctl d" "ctl (set_session_chair sid c d) = ctl d"
  "ctl (set_session_verdict sid dec r y g d) = ctl d" "ctl (snd (seed_bot bid name role th tp d)) = ctl d"
  "ctl (touch_last_seen_at bid ts d) = ctl d" "ctl (snd (update_bot_metadata bid p d)) = ctl d"
  "ctl (snd (delete_bot bid d)) = ctl d" "ctl (snd (record_bot_frame bid e thr d)) = ctl d"
  "ctl (edit_message mid x d) = ctl d" "ctl (add_reaction mid bid em d) = ctl d"
  "ctl (remove_reaction mid bid em d) = ctl d" "ctl (enqueue_outbox bid sid k f d) = ctl d"
  "ctl (ack_outbox sq d) = ctl d" "ctl (purge_outbox_for_session_bot sid bid d) = ctl d"
  "ctl (purge_outbox_for_session sid d) = ctl d" "ctl (purge_terminal_outbox d) = ctl d"
  "ctl (snd (mark_once k d)) = ctl d" "ctl (set_standing_roster bs d) = ctl d"
  by (simp_all add: ctl_def add_session_bot_def add_roster_row_def remove_session_bot_def set_session_quorum_def
      set_session_chair_def set_session_verdict_def seed_bot_def touch_last_seen_at_def update_bot_metadata_def
      delete_bot_def record_bot_frame_def set_bot_def edit_message_def add_reaction_def remove_reaction_def
      enqueue_outbox_def ack_outbox_def purge_outbox_for_session_bot_def purge_outbox_for_session_def
      purge_terminal_outbox_def mark_once_def set_standing_roster_def Let_def split: option.splits)

lemma store_step_ctl: "store_step d d' \<Longrightarrow> ctl d' = ctl d"
proof (induction rule: store_step.induct)
  case (create_deduped title tr qn chair r mode d s d')
  then show ?case using create_deduped_cases ctl_create by metis
qed (simp_all add: ctl_pure, (blast intro: ctl_create ctl_create_superseding ctl_roster ctl_transitions ctl_closes ctl_bots)+)

section \<open>Steps of the controller store\<close>

definition admitted_label :: "string \<Rightarrow> string \<Rightarrow> ControllerActionStart \<Rightarrow> (string \<times> string) option" where
  "admitted_label c aid r = (case r of Started _ \<Rightarrow> Some (c, aid) | _ \<Rightarrow> None)"

inductive ctl_step :: "db \<Rightarrow> (string \<times> string) option \<Rightarrow> db \<Rightarrow> bool" where
  kernel: "store_step d d' \<Longrightarrow> ctl_step d None d'"
| install: "ctl_step d None (upsert_controller_installation c ms ma d)"
| provision: "provision_controller_installation c ms ma as ss tok d = Inr (x, d') \<Longrightarrow> ctl_step d None d'"
| enable: "ctl_step d None (snd (set_controller_installation_enabled c e d))"
| patch: "patch_controller_installation c e ms ma as ss d = Inr (x, d') \<Longrightarrow> ctl_step d None d'"
| put_token: "put_controller_action_token t c h v nb ex d = Inr (x, d') \<Longrightarrow> ctl_step d None d'"
| expire: "ctl_step d None (snd (expire_controller_action_tokens c ex at d))"
| rotate: "rotate_controller_action_token c tok ex d = Inr (x, d') \<Longrightarrow> ctl_step d None d'"
| revoke: "ctl_step d None (snd (revoke_controller_action_token c t at d))"
| grant: "ctl_step d None (set_controller_action_grant c k g d)"
| scope: "ctl_step d None (set_controller_scope_binding c s e d)"
| act: "begin_controller_action c creds aid rh k s sid oi at d = Inr (r, d') \<Longrightarrow>
    ctl_step d (admitted_label c aid r) d'"
| finish: "finish_controller_action c aid st body b at d = Inr (x, d') \<Longrightarrow> ctl_step d None d'"
| configure: "ctl_step d None (snd (configure_controller_events c ep kv ts at d))"
| intent: "enqueue_session_intent sid mid pl d = Inr d' \<Longrightarrow> ctl_step d None d'"
| claim: "ctl_step d None (snd (claim_controller_events at n lease d))"
| complete: "ctl_step d None (snd (complete_controller_event eid at d))"
| fail: "ctl_step d None (snd (fail_controller_event eid err nxt at d))"
| prune: "ctl_step d None (snd (prune_delivered_controller_events before d))"

definition action_key :: "ActionRow \<Rightarrow> string \<times> string" where
  "action_key a = (a_controller_id a, a_action_id a)"

definition trigger_key :: "TriggerScopeRow \<Rightarrow> string \<times> string" where
  "trigger_key t = (ts_controller_id t, ts_trigger_ref t)"

definition token_secret :: "TokenRow \<Rightarrow> string \<times> string \<times> int" where
  "token_secret t = (t_controller_id t, t_token_hash t, t_pepper_version t)"

definition current_triggers :: "ControllerSessionRow list \<Rightarrow> (string \<times> string) list" where
  "current_triggers rows = map (\<lambda>r. (cs_controller_id r, cs_trigger_ref r)) (filter cs_current rows)"

text \<open>
  Installations and credentials have unique identities; a secret is stored once. Actions are keyed
  by controller and action id, and a completed one has its response. A session is owned once, a
  trigger has one current session, and every owned session lies in the scope its trigger claimed.
\<close>

definition inst_inv :: "db \<Rightarrow> bool" where
  "inst_inv d \<longleftrightarrow> distinct (map c_id (controllers d)) \<and> distinct (map t_id (controller_action_tokens d))
    \<and> distinct (map token_secret (controller_action_tokens d))"

definition act_inv :: "db \<Rightarrow> bool" where
  "act_inv d \<longleftrightarrow> distinct (map action_key (controller_action_idempotency d))
    \<and> (\<forall>a \<in> set (controller_action_idempotency d). a_state a = ''completed'' \<longrightarrow>
         a_http_status a \<noteq> None \<and> a_response_json a \<noteq> None)
    \<and> distinct (map trigger_key (controller_trigger_scopes d))"

definition own_inv :: "db \<Rightarrow> bool" where
  "own_inv d \<longleftrightarrow> distinct (map cs_session_id (controller_sessions d))
    \<and> distinct (current_triggers (controller_sessions d))
    \<and> (\<forall>r \<in> set (controller_sessions d). claimed_scope (cs_controller_id r) (cs_trigger_ref r) d = Some (cs_scope r))"

definition ctl_inv :: "db \<Rightarrow> bool" where
  "ctl_inv d \<longleftrightarrow> inst_inv d \<and> act_inv d \<and> own_inv d"

lemma same_secret_iff: "same_secret t u \<longleftrightarrow> token_secret t = token_secret u"
  by (auto simp: same_secret_def token_secret_def)

lemma inst_inv_cong:
  "controllers d' = controllers d \<Longrightarrow> controller_action_tokens d' = controller_action_tokens d \<Longrightarrow> inst_inv d' = inst_inv d"
  by (simp add: inst_inv_def)

lemma act_inv_cong:
  "controller_action_idempotency d' = controller_action_idempotency d \<Longrightarrow>
    controller_trigger_scopes d' = controller_trigger_scopes d \<Longrightarrow> act_inv d' = act_inv d"
  by (simp add: act_inv_def)

lemma own_inv_cong:
  "controller_sessions d' = controller_sessions d \<Longrightarrow>
    controller_trigger_scopes d' = controller_trigger_scopes d \<Longrightarrow> own_inv d' = own_inv d"
  by (simp add: own_inv_def claimed_scope_def)

lemma ctl_inv_ctl: "ctl d' = ctl d \<Longrightarrow> ctl_inv d' = ctl_inv d"
  using inst_inv_cong [of d' d] act_inv_cong [of d' d] own_inv_cong [of d' d] by (simp add: ctl_inv_def ctl_def)

text \<open>Operations on installations leave actions and ownership alone.\<close>

definition acts :: "db \<Rightarrow> ActionRow list \<times> TriggerScopeRow list \<times> ControllerSessionRow list" where
  "acts d = (controller_action_idempotency d, controller_trigger_scopes d, controller_sessions d)"

definition insts :: "db \<Rightarrow> ControllerRow list \<times> TokenRow list" where
  "insts d = (controllers d, controller_action_tokens d)"

lemma ctl_inv_acts: "acts d' = acts d \<Longrightarrow> inst_inv d' \<Longrightarrow> ctl_inv d \<Longrightarrow> ctl_inv d'"
  using act_inv_cong [of d' d] own_inv_cong [of d' d] by (simp add: ctl_inv_def acts_def)

lemma ctl_acts: "ctl d' = ctl d \<Longrightarrow> acts d' = acts d"
  by (simp add: ctl_def acts_def)

lemma fold_insert_Inl [simp]:
  "fold (insert_grant c at) as (Inl e) = Inl e" "fold (insert_binding c at) as (Inl e) = Inl e"
  by (induction as) (simp_all add: insert_grant_def insert_binding_def)

lemma insert_grant_Inr: "insert_grant c at a (Inr d) = Inr d' \<Longrightarrow> acts d' = acts d \<and> insts d' = insts d"
  by (auto simp: insert_grant_def acts_def insts_def split: if_splits)

lemma insert_binding_Inr: "insert_binding c at a (Inr d) = Inr d' \<Longrightarrow> acts d' = acts d \<and> insts d' = insts d"
  by (auto simp: insert_binding_def acts_def insts_def split: if_splits)

lemma fold_insert_grant: "fold (insert_grant c at) as (Inr d) = Inr d' \<Longrightarrow> acts d' = acts d \<and> insts d' = insts d"
proof (induction as arbitrary: d)
  case (Cons a as)
  then show ?case by (cases "insert_grant c at a (Inr d)") (simp_all add: insert_grant_Inr)
qed simp

lemma fold_insert_binding: "fold (insert_binding c at) as (Inr d) = Inr d' \<Longrightarrow> acts d' = acts d \<and> insts d' = insts d"
proof (induction as arbitrary: d)
  case (Cons a as)
  then show ?case by (cases "insert_binding c at a (Inr d)") (simp_all add: insert_binding_Inr)
qed simp

lemma insert_token_inv:
  assumes "insert_token row d = Inr d'" and "inst_inv d"
  shows "inst_inv d' \<and> acts d' = acts d"
proof -
  have "t_id row \<notin> t_id ` set (controller_action_tokens d)"
    and "token_secret row \<notin> token_secret ` set (controller_action_tokens d)"
    and "d' = d\<lparr>controller_action_tokens := controller_action_tokens d @ [row]\<rparr>"
    using assms(1) unfolding insert_token_def list_ex_iff same_secret_iff
    by (simp_all split: if_splits) (metis imageE)+
  with assms(2) show ?thesis by (simp add: inst_inv_def acts_def)
qed

lemma upd_controller_inv:
  assumes "\<And>c. c_id (f c) = c_id c"
  shows "inst_inv (upd_controller cid f d) = inst_inv d" "acts (upd_controller cid f d) = acts d"
  using assms by (simp_all add: upd_controller_def inst_inv_def acts_def map_upd_where)

lemma tokens_upd_inv:
  assumes "\<And>t. t_id (f t) = t_id t" and "\<And>t. token_secret (f t) = token_secret t"
  shows "inst_inv (d\<lparr>controller_action_tokens := upd_where P f (controller_action_tokens d)\<rparr>) = inst_inv d"
  using assms by (simp add: inst_inv_def map_upd_where)

lemma opt_upd_keep:
  assumes "\<And>a e. Q (f a e) = Q e"
  shows "Q (opt_upd x f d) = Q d"
  using assms by (simp add: opt_upd_def split: option.split)

lemma patch_inv:
  assumes "patch_controller_installation c e ms ma as ss d = Inr (x, d')"
  shows "acts d' = acts d \<and> inst_inv d' = inst_inv d"
proof -
  have "acts (d\<lparr>controller_action_grants := gs\<rparr>) = acts d" "acts (d\<lparr>controller_bindings := bs\<rparr>) = acts d"
    "inst_inv (d\<lparr>controller_action_grants := gs\<rparr>) = inst_inv d" "inst_inv (d\<lparr>controller_bindings := bs\<rparr>) = inst_inv d"
    for d gs bs by (simp_all add: acts_def inst_inv_def)
  moreover have "acts (append_event_audit a b k j t (d\<lparr>uuid_next := n\<rparr>)) = acts d"
    "inst_inv (append_event_audit a b k j t (d\<lparr>uuid_next := n\<rparr>)) = inst_inv d" for d a b k j t n
    by (simp_all add: acts_def inst_inv_def append_event_audit_def)
  ultimately show ?thesis
    using assms unfolding patch_controller_installation_def Let_def new_id_def prod.case
    by (auto split: option.splits simp: opt_upd_keep [where Q = acts] opt_upd_keep [where Q = inst_inv] upd_controller_inv)
qed

lemma put_token_inv:
  assumes "put_controller_action_token i c h v nb ex d = Inr (x, d')" and "inst_inv d"
  shows "inst_inv d' \<and> acts d' = acts d"
proof -
  define row where "row = \<lparr>t_id = i, t_controller_id = c, t_token_hash = h, t_pepper_version = v,
    t_not_before = nb, t_expires_at = ex, t_revoked_at = None, t_created_at = now_ms d\<rparr>"
  define f where "f = (\<lambda>t. t\<lparr>t_controller_id := c, t_token_hash := h, t_pepper_version := v, t_not_before := nb,
    t_expires_at := ex, t_revoked_at := None\<rparr> :: TokenRow)"
  let ?ts = "controller_action_tokens d"
  have d': "d' = d\<lparr>controller_action_tokens := upsert t_id f row ?ts\<rparr>"
    and fresh: "\<And>t. t \<in> set ?ts \<Longrightarrow> t_id t \<noteq> i \<Longrightarrow> token_secret t \<noteq> token_secret row"
    using assms(1) unfolding put_controller_action_token_def Let_def list_ex_iff same_secret_iff
    by (simp_all add: row_def f_def split: if_splits) blast
  have keep: "t_id (f t) = t_id t" "token_secret (f t) = token_secret row" "t_id row = i" for t
    by (simp_all add: f_def row_def token_secret_def)
  have u: "distinct (map t_id ?ts)" "distinct (map token_secret ?ts)"
    using assms(2) by (simp_all add: inst_inv_def)
  have "distinct (map token_secret (upsert t_id f row ?ts))"
  proof (cases "i \<in> t_id ` set ?ts")
    case True
    then show ?thesis using distinct_upd_second_key [OF u fresh keep(2)] keep(3) by (simp add: upsert_def)
  next
    case False
    then have "token_secret t \<noteq> token_secret row" if "t \<in> set ?ts" for t
      using fresh [of t] that by blast
    then have "token_secret row \<notin> token_secret ` set ?ts" by fastforce
    with u False keep(3) show ?thesis by (simp add: upsert_def)
  qed
  moreover have "distinct (map t_id (upsert t_id f row ?ts))" using u keep(1) by (intro upsert_distinct)
  ultimately show ?thesis using assms(2) d' by (simp add: inst_inv_def acts_def)
qed

section \<open>Admission and completion\<close>

lemma begin_StartedD:
  assumes "begin_controller_action cid creds aid rh k scope sid oi at d = Inr (Started dec, d')"
  shows "\<exists>c. find (\<lambda>c. c_id c = cid) (controllers d) = Some c \<and> (c_enabled c \<or> sid \<noteq> None)
    \<and> credential_matches cid creds at d = 1 \<and> action_granted cid k d \<and> scope_enabled cid scope d
    \<and> (\<forall>s. sid = Some s \<longrightarrow> owns_session cid scope s d) \<and> find_action cid aid d = None
    \<and> admit_action c aid rh k scope sid oi at d = (Started dec, d')"
  using assms unfolding begin_controller_action_def answer_known_action_def
  by (simp split: option.splits if_splits)

lemma admit_StartedD:
  assumes "admit_action c aid rh k scope sid oi at d = (Started dec, d')"
  shows "\<exists>d1. open_decision_for (c_id c) scope oi at d = Inr (dec, d1)
    \<and> int (length (in_window (c_id c) at d)) < c_max_actions_per_minute c
    \<and> (dec = Some CreateDecision \<longrightarrow> concurrent_sessions (c_id c) d1 < c_max_concurrent_sessions c)
    \<and> d' = d1\<lparr>controller_action_idempotency := controller_action_idempotency d1 @
        [admitted_row (c_id c) aid rh k scope sid oi at]\<rparr>"
  using assms unfolding admit_action_def by (auto split: if_splits sum.splits)

lemma claimed_scope_append:
  "claimed_scope c t (d\<lparr>controller_trigger_scopes := controller_trigger_scopes d @
      [\<lparr>ts_controller_id = c', ts_trigger_ref = t', ts_scope = s, ts_created_at = at\<rparr>]\<rparr>) =
    (case claimed_scope c t d of Some x \<Rightarrow> Some x | None \<Rightarrow> if c = c' \<and> t = t' then Some s else None)"
  by (auto simp: claimed_scope_def find_append split: option.splits)

lemma claimed_None_iff: "claimed_scope c t d = None \<longleftrightarrow> (c, t) \<notin> trigger_key ` set (controller_trigger_scopes d)"
  by (auto simp: claimed_scope_def find_None_conv trigger_key_def)

text \<open>Deciding about an open only ever adds a scope claim, and then the trigger belongs to the scope.\<close>

lemma open_decisionD:
  assumes "open_decision_for cid scope oi at d = Inr (dec, d1)"
  shows "(\<exists>ts. d1 = d\<lparr>controller_trigger_scopes := ts\<rparr>)"
    and "\<And>intent. oi = Some intent \<Longrightarrow> claimed_scope cid (oi_trigger_ref intent) d1 = Some scope"
    and "\<And>c t s. claimed_scope c t d = Some s \<Longrightarrow> claimed_scope c t d1 = Some s"
    and "distinct (map trigger_key (controller_trigger_scopes d)) \<Longrightarrow> distinct (map trigger_key (controller_trigger_scopes d1))"
    and "(oi = None) = (dec = None)"
proof -
  consider (none) "oi = None" "dec = None" "d1 = d"
    | (known) intent where "oi = Some intent" "dec \<noteq> None" "claimed_scope cid (oi_trigger_ref intent) d = Some scope" "d1 = d"
    | (new) intent where "oi = Some intent" "dec \<noteq> None" "claimed_scope cid (oi_trigger_ref intent) d = None"
        "d1 = d\<lparr>controller_trigger_scopes := controller_trigger_scopes d @
          [\<lparr>ts_controller_id = cid, ts_trigger_ref = oi_trigger_ref intent, ts_scope = scope, ts_created_at = at\<rparr>]\<rparr>"
    using assms unfolding open_decision_for_def claim_trigger_scope_def
    by (auto split: option.splits if_splits elim!: bindE_InrE)
  note c = this
  have self: "\<exists>ts. d = d\<lparr>controller_trigger_scopes := ts\<rparr>"
    by (rule exI [of _ "controller_trigger_scopes d"]) simp
  from c show "\<exists>ts. d1 = d\<lparr>controller_trigger_scopes := ts\<rparr>" by cases (use self in auto)
  from c show "\<And>intent. oi = Some intent \<Longrightarrow> claimed_scope cid (oi_trigger_ref intent) d1 = Some scope"
    by cases (simp_all add: claimed_scope_append)
  from c show "\<And>c t s. claimed_scope c t d = Some s \<Longrightarrow> claimed_scope c t d1 = Some s"
    by cases (simp_all add: claimed_scope_append)
  from c show "distinct (map trigger_key (controller_trigger_scopes d)) \<Longrightarrow> distinct (map trigger_key (controller_trigger_scopes d1))"
    by cases (simp_all add: claimed_None_iff trigger_key_def)
  from c show "(oi = None) = (dec = None)" by cases simp_all
qed

lemma find_action_None: "find_action c aid d = None \<longleftrightarrow> (c, aid) \<notin> action_key ` set (controller_action_idempotency d)"
  by (auto simp: find_action_def find_None_conv action_key_def)

lemma find_action_SomeD: "find_action c aid d = Some a \<Longrightarrow> a \<in> set (controller_action_idempotency d) \<and> action_key a = (c, aid)"
  unfolding find_action_def by (drule find_SomeD) (simp add: action_key_def)

lemma begin_started_tables:
  assumes "begin_controller_action cid creds aid rh k scope sid oi at d = Inr (Started dec, d')"
  shows "(\<exists>ts. d' = d\<lparr>controller_trigger_scopes := ts, controller_action_idempotency :=
        controller_action_idempotency d @ [admitted_row cid aid rh k scope sid oi at]\<rparr>)"
    and "(cid, aid) \<notin> action_key ` set (controller_action_idempotency d)"
    and "oi = Some intent \<Longrightarrow> claimed_scope cid (oi_trigger_ref intent) d' = Some scope"
    and "claimed_scope c0 t d = Some s \<Longrightarrow> claimed_scope c0 t d' = Some s"
    and "distinct (map trigger_key (controller_trigger_scopes d)) \<Longrightarrow>
      distinct (map trigger_key (controller_trigger_scopes d'))"
proof -
  obtain c where c: "find (\<lambda>c. c_id c = cid) (controllers d) = Some c" and na: "find_action cid aid d = None"
    and adm: "admit_action c aid rh k scope sid oi at d = (Started dec, d')"
    using begin_StartedD [OF assms] by blast
  have [simp]: "c_id c = cid" using find_SomeD [OF c] by simp
  obtain d1 where o1: "open_decision_for cid scope oi at d = Inr (dec, d1)"
    and d': "d' = d1\<lparr>controller_action_idempotency := controller_action_idempotency d1 @
        [admitted_row cid aid rh k scope sid oi at]\<rparr>"
    using admit_StartedD [OF adm] by auto
  obtain ts where ts: "d1 = d\<lparr>controller_trigger_scopes := ts\<rparr>" using open_decisionD(1) [OF o1] by blast
  have cl: "claimed_scope c t d' = claimed_scope c t d1" for c t by (simp add: d' claimed_scope_def)
  show "\<exists>ts. d' = d\<lparr>controller_trigger_scopes := ts, controller_action_idempotency :=
        controller_action_idempotency d @ [admitted_row cid aid rh k scope sid oi at]\<rparr>"
    using ts d' by (intro exI [of _ ts]) simp
  show "(cid, aid) \<notin> action_key ` set (controller_action_idempotency d)" using na by (simp add: find_action_None)
  show "oi = Some intent \<Longrightarrow> claimed_scope cid (oi_trigger_ref intent) d' = Some scope"
    using open_decisionD(2) [OF o1] cl by simp
  show "claimed_scope c0 t d = Some s \<Longrightarrow> claimed_scope c0 t d' = Some s" using open_decisionD(3) [OF o1] cl by simp
  show "distinct (map trigger_key (controller_trigger_scopes d)) \<Longrightarrow>
      distinct (map trigger_key (controller_trigger_scopes d'))"
    using open_decisionD(4) [OF o1] d' by simp
qed

lemma begin_other_tables:
  assumes "begin_controller_action cid creds aid rh k scope sid oi at d = Inr (r, d')" and "\<And>dec. r \<noteq> Started dec"
  shows "d' = d \<or> r = OutcomeUnknown \<and>
    d' = upd_action cid aid (\<lambda>a. a\<lparr>a_state := ''indeterminate'', a_completed_at := Some at\<rparr>) d"
proof -
  have adm: "admit_action c aid rh k scope sid oi at d = (r, d') \<Longrightarrow> d' = d" for c
    using assms(2) unfolding admit_action_def by (cases r) (auto split: if_splits sum.splits)
  have ans: "answer_known_action a rh at d = Inr (r, d') \<Longrightarrow> action_key a = (cid, aid) \<Longrightarrow> ?thesis" for a
    unfolding answer_known_action_def action_key_def by (auto split: if_splits option.splits)
  show ?thesis
    using assms(1) adm ans find_action_SomeD [of cid aid d]
    unfolding begin_controller_action_def by (simp split: option.splits if_splits)
qed

text \<open>Completion: what a binding requires and what it writes.\<close>

lemma bind_sessionD:
  assumes "bind_session cid aid b at d = Inr d'"
  shows "\<exists>a rows. admitted_open cid aid d = Some a \<and> a_scope a = bd_scope b \<and> a_trigger_ref a = Some (bd_trigger_ref b)
    \<and> a_trigger_fingerprint a = bd_trigger_fingerprint b \<and> bd_controller_id b = cid
    \<and> rows = upd_where (\<lambda>r. cs_controller_id r = cid \<and> cs_trigger_ref r = bd_trigger_ref b \<and> cs_current r)
        (\<lambda>r. r\<lparr>cs_current := False\<rparr>) (controller_sessions d)
    \<and> bd_session_id b \<notin> cs_session_id ` set (controller_sessions d)
    \<and> controller_sessions d' = rows @ [\<lparr>cs_controller_id = cid, cs_scope = bd_scope b,
        cs_trigger_ref = bd_trigger_ref b, cs_trigger_fingerprint = bd_trigger_fingerprint b,
        cs_session_id = bd_session_id b, cs_current = True, cs_created_at = at\<rparr>]
    \<and> controller_action_idempotency d' = controller_action_idempotency d
    \<and> controller_trigger_scopes d' = controller_trigger_scopes d \<and> insts d' = insts d"
proof -
  let ?upd = "upd_where (\<lambda>r. cs_controller_id r = cid \<and> cs_trigger_ref r = bd_trigger_ref b \<and> cs_current r)
        (\<lambda>r. r\<lparr>cs_current := False\<rparr>) (controller_sessions d)"
  have "map cs_session_id ?upd = map cs_session_id (controller_sessions d)" by (rule map_upd_where) simp
  then have ids: "cs_session_id ` set ?upd = cs_session_id ` set (controller_sessions d)" by (metis set_map)
  show ?thesis
    using assms ids unfolding bind_session_def Let_def insts_def
    by (auto split: if_splits option.splits dest!: enqueue_controller_event_frame simp: same_but_queue_fields)
qed

lemma admitted_openD:
  assumes "admitted_open cid aid d = Some a"
  shows "a \<in> set (controller_action_idempotency d) \<and> action_key a = (cid, aid) \<and> a_state a = ''processing''
    \<and> a_action_kind a = ''open_session'' \<and> (\<exists>t \<in> set (controller_trigger_scopes d). ts_controller_id t = cid
        \<and> Some (ts_trigger_ref t) = a_trigger_ref a \<and> ts_scope t = a_scope a)"
  using find_SomeD [OF assms [unfolded admitted_open_def]]
  by (auto simp: action_key_def list_ex_iff)

lemma current_triggers_retire:
  "current_triggers (upd_where (\<lambda>r. cs_controller_id r = c \<and> cs_trigger_ref r = t \<and> cs_current r)
      (\<lambda>r. r\<lparr>cs_current := False\<rparr>) rows) = filter (\<lambda>k. k \<noteq> (c, t)) (current_triggers rows)"
  by (induction rows) (auto simp: current_triggers_def upd_where_def)

lemma claimed_scope_mem:
  assumes "distinct (map trigger_key (controller_trigger_scopes d))" and "t \<in> set (controller_trigger_scopes d)"
  shows "claimed_scope (ts_controller_id t) (ts_trigger_ref t) d = Some (ts_scope t)"
  using find_unique_key [OF assms] by (simp add: claimed_scope_def trigger_key_def)

lemma bind_own_inv:
  assumes "bind_session cid aid b at d = Inr d'" and "own_inv d" and "act_inv d"
  shows "own_inv d' \<and> act_inv d' \<and> insts d' = insts d"
proof -
  let ?P = "\<lambda>r. cs_controller_id r = cid \<and> cs_trigger_ref r = bd_trigger_ref b \<and> cs_current r"
  let ?row = "\<lparr>cs_controller_id = cid, cs_scope = bd_scope b, cs_trigger_ref = bd_trigger_ref b,
    cs_trigger_fingerprint = bd_trigger_fingerprint b, cs_session_id = bd_session_id b, cs_current = True,
    cs_created_at = at\<rparr>"
  let ?rows = "upd_where ?P (\<lambda>r. r\<lparr>cs_current := False\<rparr>) (controller_sessions d)"
  obtain a where a: "admitted_open cid aid d = Some a" "a_scope a = bd_scope b" "a_trigger_ref a = Some (bd_trigger_ref b)"
    and fresh: "bd_session_id b \<notin> cs_session_id ` set (controller_sessions d)"
    and cs: "controller_sessions d' = ?rows @ [?row]"
    and same: "controller_action_idempotency d' = controller_action_idempotency d"
      "controller_trigger_scopes d' = controller_trigger_scopes d" "insts d' = insts d"
    using bind_sessionD [OF assms(1)] by blast
  have ids: "map cs_session_id ?rows = map cs_session_id (controller_sessions d)" by (rule map_upd_where) simp
  have cl: "claimed_scope c t d' = claimed_scope c t d" for c t using same(2) by (simp add: claimed_scope_def)
  obtain t where t: "t \<in> set (controller_trigger_scopes d)" "ts_controller_id t = cid"
    "ts_trigger_ref t = bd_trigger_ref b" "ts_scope t = bd_scope b"
    using admitted_openD [OF a(1)] a(2, 3) by auto
  have row_claim: "claimed_scope cid (bd_trigger_ref b) d = Some (bd_scope b)"
    using claimed_scope_mem [OF _ t(1)] assms(3) t by (simp add: act_inv_def)
  have "\<forall>r \<in> set (controller_sessions d'). claimed_scope (cs_controller_id r) (cs_trigger_ref r) d' = Some (cs_scope r)"
    using assms(2) row_claim by (auto simp: cs cl own_inv_def set_upd_where)
  moreover have "distinct (map cs_session_id (controller_sessions d'))"
    using assms(2) fresh by (simp add: cs ids own_inv_def)
  moreover have "distinct (current_triggers (controller_sessions d'))"
    using assms(2) current_triggers_retire [of cid "bd_trigger_ref b" "controller_sessions d"]
    by (simp add: cs own_inv_def current_triggers_def)
  ultimately have "own_inv d'" by (simp add: own_inv_def)
  with same assms(3) show ?thesis by (simp add: act_inv_def)
qed

definition processing :: "string \<times> string \<Rightarrow> ActionRow \<Rightarrow> bool" where
  "processing key a \<longleftrightarrow> action_key a = key \<and> a_state a = ''processing''"

lemma upd_action_alt:
  "upd_action c aid f d = d\<lparr>controller_action_idempotency := upd_where (processing (c, aid)) f (controller_action_idempotency d)\<rparr>"
proof -
  have "(\<lambda>a. (a_controller_id a, a_action_id a) = (c, aid) \<and> a_state a = ''processing'') = processing (c, aid)"
    by (rule ext) (simp add: processing_def action_key_def)
  then show ?thesis by (simp only: upd_action_def)
qed

lemma act_inv_upd_action:
  assumes "act_inv d" and "\<And>a. action_key (f a) = action_key a"
    and "\<And>a. a_state (f a) = ''completed'' \<Longrightarrow> a_http_status (f a) \<noteq> None \<and> a_response_json (f a) \<noteq> None"
  shows "act_inv (upd_action c aid f d)"
  using assms unfolding upd_action_alt act_inv_def
  by (simp add: map_upd_where set_upd_where) blast

lemma finishD:
  assumes "finish_controller_action cid aid st body b at d = Inr (x, d')"
  shows "\<exists>d1. (case b of None \<Rightarrow> d1 = d | Some bb \<Rightarrow> bind_session cid aid bb at d = Inr d1)
    \<and> count_where (processing (cid, aid)) (controller_action_idempotency d1) = 1
    \<and> same_but_queue (upd_action cid aid (complete_row st body at (map_option bd_session_id b)) d1) d'"
proof -
  have P: "(\<lambda>a. (a_controller_id a, a_action_id a) = (cid, aid) \<and> a_state a = ''processing'') = processing (cid, aid)"
    by (rule ext) (simp add: processing_def action_key_def)
  show ?thesis
    using assms unfolding finish_controller_action_def P Let_def
    by (cases b) (auto split: if_splits option.splits dest!: enqueue_controller_event_frame)
qed

lemma finish_inv:
  assumes "finish_controller_action cid aid st body b at d = Inr (x, d')" and "ctl_inv d"
  shows "ctl_inv d' \<and> set (map action_key (controller_action_idempotency d')) = set (map action_key (controller_action_idempotency d))"
proof -
  let ?f = "complete_row st body at (map_option bd_session_id b)"
  obtain d1 where b: "case b of None \<Rightarrow> d1 = d | Some bb \<Rightarrow> bind_session cid aid bb at d = Inr d1"
    and q: "same_but_queue (upd_action cid aid ?f d1) d'"
    using finishD [OF assms(1)] by blast
  have one: "own_inv d1 \<and> act_inv d1 \<and> insts d1 = insts d
    \<and> controller_action_idempotency d1 = controller_action_idempotency d"
  proof (cases b)
    case None
    with b assms(2) show ?thesis by (simp add: ctl_inv_def)
  next
    case (Some bb)
    with b have bb: "bind_session cid aid bb at d = Inr d1" by simp
    show ?thesis using bind_own_inv [OF bb] bind_sessionD [OF bb] assms(2) unfolding ctl_inv_def by blast
  qed
  have k: "action_key (?f a) = action_key a" for a by (simp add: complete_row_def action_key_def)
  have "act_inv (upd_action cid aid ?f d1)"
    using one k by (intro act_inv_upd_action) (simp_all add: complete_row_def)
  moreover have "own_inv (upd_action cid aid ?f d1)"
    using one own_inv_cong [of "upd_action cid aid ?f d1" d1] by (simp add: upd_action_def)
  moreover have "inst_inv (upd_action cid aid ?f d1)"
    using one assms(2) by (simp add: upd_action_def inst_inv_def insts_def ctl_inv_def)
  ultimately have "ctl_inv (upd_action cid aid ?f d1)" by (simp add: ctl_inv_def)
  moreover have "set (map action_key (controller_action_idempotency d')) = set (map action_key (controller_action_idempotency d1))"
    using same_but_queue_fields(13) [OF q] map_upd_where [of "processing (cid, aid)" action_key ?f] k
    by (simp only: upd_action_alt) simp
  ultimately show ?thesis using one ctl_inv_ctl [OF ctl_queue [OF q]] by simp
qed

lemma begin_inv:
  assumes "begin_controller_action cid creds aid rh k scope sid oi at d = Inr (r, d')" and "ctl_inv d"
  shows "ctl_inv d'"
proof (cases "\<exists>dec. r = Started dec")
  case True
  then obtain dec where "r = Started dec" ..
  with assms(1) have b: "begin_controller_action cid creds aid rh k scope sid oi at d = Inr (Started dec, d')" by simp
  note tabs = begin_started_tables [OF b]
  obtain ts where d': "d' = d\<lparr>controller_trigger_scopes := ts, controller_action_idempotency :=
        controller_action_idempotency d @ [admitted_row cid aid rh k scope sid oi at]\<rparr>"
    using tabs(1) by blast
  have "act_inv d'"
    using assms(2) tabs(2, 5) by (auto simp: d' act_inv_def ctl_inv_def admitted_row_def action_key_def)
  moreover have "own_inv d'" using assms(2) tabs(4) by (simp add: ctl_inv_def own_inv_def d')
  moreover have "inst_inv d'" using assms(2) by (simp add: ctl_inv_def inst_inv_def d')
  ultimately show ?thesis by (simp add: ctl_inv_def)
next
  case False
  let ?f = "\<lambda>a :: ActionRow. a\<lparr>a_state := ''indeterminate'', a_completed_at := Some at\<rparr>"
  have "act_inv (upd_action cid aid ?f d)"
    using assms(2) by (intro act_inv_upd_action) (simp_all add: ctl_inv_def action_key_def)
  then have "ctl_inv (upd_action cid aid ?f d)"
    using assms(2) own_inv_cong [of "upd_action cid aid ?f d" d] inst_inv_cong [of "upd_action cid aid ?f d" d]
    by (simp add: ctl_inv_def upd_action_def)
  with False begin_other_tables [OF assms(1)] assms(2) show ?thesis by auto
qed

lemma installation_step_inv:
  "inst_inv d \<Longrightarrow> inst_inv (upsert_controller_installation c ms ma d)"
  "inst_inv (snd (set_controller_installation_enabled c e d)) = inst_inv d"
  "inst_inv (snd (expire_controller_action_tokens c ex at d)) = inst_inv d"
  "inst_inv (snd (revoke_controller_action_token c t at d)) = inst_inv d"
  "inst_inv (set_controller_action_grant c k g d) = inst_inv d"
  "inst_inv (set_controller_scope_binding c s e d) = inst_inv d"
  "inst_inv (snd (configure_controller_events c ep kv ts at d)) = inst_inv d"
  by (auto simp: upsert_controller_installation_def set_controller_installation_enabled_def
      expire_controller_action_tokens_def revoke_controller_action_token_def Let_def tokens_upd_inv token_secret_def
      set_controller_action_grant_def set_controller_scope_binding_def configure_controller_events_def
      upd_controller_inv inst_inv_def upsert_distinct upd_controller_def map_upd_where)

lemma installation_step_acts:
  "acts (upsert_controller_installation c ms ma d) = acts d"
  "acts (snd (set_controller_installation_enabled c e d)) = acts d"
  "acts (snd (expire_controller_action_tokens c ex at d)) = acts d"
  "acts (snd (revoke_controller_action_token c t at d)) = acts d"
  "acts (set_controller_action_grant c k g d) = acts d"
  "acts (set_controller_scope_binding c s e d) = acts d"
  "acts (snd (configure_controller_events c ep kv ts at d)) = acts d"
  by (simp_all add: upsert_controller_installation_def set_controller_installation_enabled_def upd_controller_def
      expire_controller_action_tokens_def revoke_controller_action_token_def Let_def acts_def
      set_controller_action_grant_def set_controller_scope_binding_def configure_controller_events_def)

lemma event_step_ctl:
  "enqueue_session_intent sid mid pl d = Inr d' \<Longrightarrow> ctl d' = ctl d"
  "ctl (snd (claim_controller_events at n lease d)) = ctl d"
  "ctl (snd (complete_controller_event eid at d)) = ctl d"
  "ctl (snd (fail_controller_event eid err nxt at d)) = ctl d"
  "ctl (snd (prune_delivered_controller_events before d)) = ctl d"
  by (auto simp: enqueue_session_intent_def claim_controller_events_def complete_controller_event_def
      fail_controller_event_def prune_delivered_controller_events_def append_event_audit_def Let_def split_beta
      split: option.splits dest: enqueue_session_event_frame [THEN ctl_queue])

lemma provision_inv:
  assumes "provision_controller_installation c ms ma as ss tok d = Inr (x, d')" and "inst_inv d"
  shows "inst_inv d' \<and> acts d' = acts d"
proof (cases "c \<in> c_id ` set (controllers d)")
  case True
  with assms show ?thesis by (simp add: provision_controller_installation_def)
next
  case False
  let ?d0 = "d\<lparr>controllers := controllers d @ [new_controller c ms ma (now_ms d)]\<rparr>"
  obtain d1 d2 where f1: "fold (insert_grant c (now_ms d)) as (Inr ?d0) = Inr d1"
    and f2: "fold (insert_binding c (now_ms d)) ss (Inr d1) = Inr d2"
    and f3: "insert_token (token_row c tok (now_ms d)) d2 = Inr d'"
    using assms(1) False unfolding provision_controller_installation_def
    by (cases "fold (insert_grant c (now_ms d)) as (Inr ?d0)") auto
  have "inst_inv ?d0" using assms(2) False by (simp add: inst_inv_def new_controller_def)
  moreover have "insts d2 = insts ?d0" "acts d2 = acts ?d0"
    using fold_insert_grant [OF f1] fold_insert_binding [OF f2] by simp_all
  ultimately have "inst_inv d2" by (simp add: inst_inv_def insts_def)
  with insert_token_inv [OF f3] \<open>acts d2 = acts ?d0\<close> show ?thesis by (simp add: acts_def)
qed

lemma rotate_inv:
  assumes "rotate_controller_action_token c tok ex d = Inr (x, d')" and "inst_inv d"
  shows "inst_inv d' \<and> acts d' = acts d"
  using assms insert_token_inv installation_step_inv(3) installation_step_acts(3)
  unfolding rotate_controller_action_token_def by (auto split: if_splits)

lemma ctl_step_inv:
  assumes "ctl_step d l d'" and i: "ctl_inv d"
  shows "ctl_inv d'"
proof -
  have ii: "inst_inv d" using i by (simp add: ctl_inv_def)
  from assms(1) show ?thesis
  proof cases
    case kernel
    then show ?thesis using i ctl_inv_ctl store_step_ctl by blast
  next
    case provision
    then show ?thesis using provision_inv [OF _ ii] ctl_inv_acts i by blast
  next
    case patch
    then show ?thesis using patch_inv ii ctl_inv_acts i by blast
  next
    case put_token
    then show ?thesis using put_token_inv [OF _ ii] ctl_inv_acts i by blast
  next
    case rotate
    then show ?thesis using rotate_inv [OF _ ii] ctl_inv_acts i by blast
  next
    case act
    then show ?thesis using begin_inv i by blast
  next
    case finish
    then show ?thesis using finish_inv i by blast
  next
    case intent
    then show ?thesis using event_step_ctl(1) ctl_inv_ctl i by blast
  qed (use i ii in \<open>simp_all add: ctl_inv_acts [OF installation_step_acts(1) installation_step_inv(1)]
      ctl_inv_acts [OF installation_step_acts(2)] ctl_inv_acts [OF installation_step_acts(3)]
      ctl_inv_acts [OF installation_step_acts(4)] ctl_inv_acts [OF installation_step_acts(5)]
      ctl_inv_acts [OF installation_step_acts(6)] ctl_inv_acts [OF installation_step_acts(7)]
      installation_step_inv ctl_inv_ctl [OF event_step_ctl(2)] ctl_inv_ctl [OF event_step_ctl(3)]
      ctl_inv_ctl [OF event_step_ctl(4)] ctl_inv_ctl [OF event_step_ctl(5)]\<close>)
qed

definition action_log :: "db \<Rightarrow> (string \<times> string) set" where
  "action_log d = action_key ` set (controller_action_idempotency d)"

lemma action_log_acts: "acts d' = acts d \<Longrightarrow> action_log d' = action_log d"
  by (simp add: acts_def action_log_def)

lemma action_log_upd_action:
  "(\<And>a. action_key (f a) = action_key a) \<Longrightarrow> action_log (upd_action c aid f d) = action_log d"
  by (simp add: upd_action_alt action_log_def flip: set_map) (simp add: map_upd_where)

lemma begin_log:
  assumes "begin_controller_action cid creds aid rh k scope sid oi at d = Inr (r, d')"
  shows "(case r of Started dec \<Rightarrow> (cid, aid) \<notin> action_log d \<and> action_log d' = insert (cid, aid) (action_log d)
    | _ \<Rightarrow> action_log d' = action_log d)"
proof (cases "\<exists>dec. r = Started dec")
  case True
  then obtain dec where r: "r = Started dec" ..
  with assms have b: "begin_controller_action cid creds aid rh k scope sid oi at d = Inr (Started dec, d')" by simp
  show ?thesis
    using begin_started_tables(1, 2) [OF b] by (auto simp: r action_log_def admitted_row_def action_key_def)
next
  case False
  with begin_other_tables [OF assms] have "action_log d' = action_log d"
    by (auto simp: action_log_upd_action action_key_def)
  with False show ?thesis by (simp split: ControllerActionStart.split)
qed

lemma finish_log: "finish_controller_action cid aid st body b at d = Inr (x, d') \<Longrightarrow> action_log d' = action_log d"
proof -
  assume f: "finish_controller_action cid aid st body b at d = Inr (x, d')"
  let ?f = "complete_row st body at (map_option bd_session_id b)"
  obtain d1 where b: "case b of None \<Rightarrow> d1 = d | Some bb \<Rightarrow> bind_session cid aid bb at d = Inr d1"
    and q: "same_but_queue (upd_action cid aid ?f d1) d'"
    using finishD [OF f] by blast
  have "controller_action_idempotency d1 = controller_action_idempotency d"
    using b bind_sessionD by (cases b) force+
  moreover have "action_log (upd_action cid aid ?f d1) = action_log d1"
    by (rule action_log_upd_action) (simp add: complete_row_def action_key_def)
  ultimately show ?thesis using same_but_queue_fields(13) [OF q] by (simp add: action_log_def)
qed

lemma insert_token_acts: "insert_token row d = Inr d' \<Longrightarrow> acts d' = acts d"
  by (auto simp: insert_token_def acts_def split: if_splits)

lemma installation_acts:
  "provision_controller_installation c ms ma as ss tok d = Inr (x, d') \<Longrightarrow> acts d' = acts d"
  "put_controller_action_token i c h v nb ex d = Inr (y, d') \<Longrightarrow> acts d' = acts d"
  "rotate_controller_action_token c tok rx d = Inr (x, d') \<Longrightarrow> acts d' = acts d"
proof -
  assume a: "provision_controller_installation c ms ma as ss tok d = Inr (x, d')"
  let ?d0 = "d\<lparr>controllers := controllers d @ [new_controller c ms ma (now_ms d)]\<rparr>"
  show "acts d' = acts d"
  proof (cases "c \<in> c_id ` set (controllers d)")
    case False
    obtain d1 d2 where f1: "fold (insert_grant c (now_ms d)) as (Inr ?d0) = Inr d1"
      and f2: "fold (insert_binding c (now_ms d)) ss (Inr d1) = Inr d2"
      and f3: "insert_token (token_row c tok (now_ms d)) d2 = Inr d'"
      using a False unfolding provision_controller_installation_def
      by (cases "fold (insert_grant c (now_ms d)) as (Inr ?d0)") auto
    then show ?thesis
      using fold_insert_grant [OF f1] fold_insert_binding [OF f2] insert_token_acts [OF f3] by (simp add: acts_def)
  qed (use a in \<open>simp add: provision_controller_installation_def\<close>)
next
  assume "put_controller_action_token i c h v nb ex d = Inr (y, d')"
  then show "acts d' = acts d" by (auto simp: put_controller_action_token_def Let_def acts_def split: if_splits)
next
  assume "rotate_controller_action_token c tok rx d = Inr (x, d')"
  then show "acts d' = acts d"
    using insert_token_acts installation_step_acts(3)
    unfolding rotate_controller_action_token_def by (auto split: if_splits)
qed

lemmas event_step_acts = event_step_ctl(2-5) [THEN ctl_acts]

text \<open>Only admission and completion touch the action journal and the ownership of sessions.\<close>

lemma ctl_step_acts:
  assumes "ctl_step d l d'"
  shows "(l = None \<and> acts d' = acts d)
    \<or> (\<exists>c creds aid rh k s sid oi at r. begin_controller_action c creds aid rh k s sid oi at d = Inr (r, d')
        \<and> l = admitted_label c aid r)
    \<or> (l = None \<and> (\<exists>c aid st body b at x. finish_controller_action c aid st body b at d = Inr (x, d')))"
  using assms
proof cases
  case act
  then show ?thesis by blast
next
  case finish
  then show ?thesis by blast
next
  case kernel
  then show ?thesis using ctl_acts [OF store_step_ctl] by blast
next
  case intent
  then have "acts d' = acts d" by (intro ctl_acts event_step_ctl(1))
  with intent show ?thesis by simp
next
  case provision
  then have "acts d' = acts d" by (intro installation_acts(1))
  with provision show ?thesis by simp
next
  case put_token
  then have "acts d' = acts d" by (intro installation_acts(2))
  with put_token show ?thesis by simp
next
  case rotate
  then have "acts d' = acts d" by (intro installation_acts(3))
  with rotate show ?thesis by simp
next
  case patch
  then have "acts d' = acts d" by (intro conjunct1 [OF patch_inv])
  with patch show ?thesis by simp
qed (simp_all add: installation_step_acts event_step_acts)

lemma ctl_step_log:
  assumes "ctl_step d l d'"
  shows "action_log d' = action_log d \<union> set_option l \<and> set_option l \<inter> action_log d = {}"
  using ctl_step_acts [OF assms]
proof (elim disjE exE conjE)
  assume "l = None" and a: "acts d' = acts d"
  then show ?thesis using action_log_acts [OF a] by simp
next
  fix c creds aid rh k s sid oi at r
  assume b: "begin_controller_action c creds aid rh k s sid oi at d = Inr (r, d')" and "l = admitted_label c aid r"
  then show ?thesis using begin_log [OF b] by (cases r) (simp_all add: admitted_label_def)
next
  fix c aid st body b at x
  assume "l = None" and f: "finish_controller_action c aid st body b at d = Inr (x, d')"
  then show ?thesis using finish_log [OF f] by simp
qed

interpretation actions: admission_log ctl_step action_log
proof
  fix s s' :: db and l k
  show "ctl_step s (Some k) s' \<Longrightarrow> k \<notin> action_log s" using ctl_step_log by fastforce
  show "ctl_step s l s' \<Longrightarrow> action_log s' = action_log s \<union> set_option l" using ctl_step_log by blast
qed

text \<open>A completed action is never touched again.\<close>

lemma upd_action_completed:
  assumes "a \<in> set (controller_action_idempotency d)" and "a_state a = ''completed''"
  shows "a \<in> set (controller_action_idempotency (upd_action c aid f d))"
  using assms by (auto simp: upd_action_alt set_upd_where processing_def)

lemma finish_actions:
  assumes "finish_controller_action cid aid st body b at d = Inr (x, d')"
  shows "controller_action_idempotency d' =
      upd_where (processing (cid, aid)) (complete_row st body at (map_option bd_session_id b)) (controller_action_idempotency d)"
    and "count_where (processing (cid, aid)) (controller_action_idempotency d) = 1"
proof -
  let ?f = "complete_row st body at (map_option bd_session_id b)"
  obtain d1 where b: "case b of None \<Rightarrow> d1 = d | Some bb \<Rightarrow> bind_session cid aid bb at d = Inr d1"
    and n: "count_where (processing (cid, aid)) (controller_action_idempotency d1) = 1"
    and q: "same_but_queue (upd_action cid aid ?f d1) d'"
    using finishD [OF assms] by blast
  have "controller_action_idempotency d1 = controller_action_idempotency d"
    using b bind_sessionD by (cases b) force+
  then show "controller_action_idempotency d' = upd_where (processing (cid, aid)) ?f (controller_action_idempotency d)"
    and "count_where (processing (cid, aid)) (controller_action_idempotency d) = 1"
    using same_but_queue_fields(13) [OF q] n by (simp_all add: upd_action_alt)
qed

lemma ctl_step_completed:
  assumes "ctl_step d l d'" and a: "a \<in> set (controller_action_idempotency d)" "a_state a = ''completed''"
  shows "a \<in> set (controller_action_idempotency d')"
  using ctl_step_acts [OF assms(1)]
proof (elim disjE exE conjE)
  assume "acts d' = acts d"
  with a show ?thesis by (simp add: acts_def)
next
  fix c creds aid rh k s sid oi at r
  assume b: "begin_controller_action c creds aid rh k s sid oi at d = Inr (r, d')"
  show ?thesis
  proof (cases "\<exists>dec. r = Started dec")
    case True
    with b begin_started_tables(1) [of c creds aid rh k s sid oi at d _ d'] a show ?thesis by fastforce
  next
    case False
    with begin_other_tables [OF b] a upd_action_completed [OF a] show ?thesis by auto
  qed
next
  fix c aid st body b at x
  assume "finish_controller_action c aid st body b at d = Inr (x, d')"
  from finish_actions(1) [OF this] a show ?thesis by (auto simp: set_upd_where processing_def)
qed

lemma run_completed:
  assumes "actions.run d ks d'" and "a \<in> set (controller_action_idempotency d)" "a_state a = ''completed''"
  shows "a \<in> set (controller_action_idempotency d')"
  using actions.run_induct_state [OF assms(1), of "\<lambda>d. a \<in> set (controller_action_idempotency d)"]
    assms(2) ctl_step_completed [OF _ _ assms(3)] by blast

lemma run_ctl_inv: "actions.run d ks d' \<Longrightarrow> ctl_inv d \<Longrightarrow> ctl_inv d'"
  by (erule actions.run_induct_state) (auto intro: ctl_step_inv)

lemma empty_ctl_inv: "ctl_inv empty_db"
  by (simp add: ctl_inv_def inst_inv_def act_inv_def own_inv_def current_triggers_def empty_db_def)

lemma finish_records:
  assumes "finish_controller_action cid aid st body b at d = Inr (x, d')"
  shows "\<exists>a \<in> set (controller_action_idempotency d'). action_key a = (cid, aid) \<and> a_state a = ''completed''
    \<and> a_http_status a = Some st \<and> a_response_json a = Some body"
proof -
  obtain a where a: "a \<in> set (controller_action_idempotency d)" "processing (cid, aid) a"
    using finish_actions(2) [OF assms] count_where_pos [of "processing (cid, aid)" "controller_action_idempotency d"] by auto
  let ?a = "complete_row st body at (map_option bd_session_id b) a"
  have "?a \<in> set (controller_action_idempotency d')"
    using a finish_actions(1) [OF assms] by (force simp: set_upd_where)
  then show ?thesis using a(2) by (intro bexI [of _ ?a]) (simp_all add: complete_row_def action_key_def processing_def)
qed

lemma find_action_unique:
  assumes "act_inv d" and "a \<in> set (controller_action_idempotency d)"
  shows "find_action (a_controller_id a) (a_action_id a) d = Some a"
  using find_unique_key [of action_key "controller_action_idempotency d" a] assms
  by (simp add: act_inv_def find_action_def action_key_def)

section \<open>An example installation\<close>

definition example_token :: NewControllerActionToken where
  "example_token = \<lparr>nt_id = ''t'', nt_token_hash = ''x'', nt_pepper_version = 1, nt_not_before = 0\<rparr>"

definition example_cred :: "ControllerCredentialHash list" where
  "example_cred = [\<lparr>ch_pepper_version = 1, ch_token_hash = ''x''\<rparr>]"

definition example_ctl_db :: db where
  "example_ctl_db = empty_db\<lparr>controllers := [new_controller ''c'' 5 60 0],
    controller_action_grants := [\<lparr>g_controller_id = ''c'', g_kind = ''k'', g_granted = True, g_updated_at = 0\<rparr>],
    controller_bindings := [\<lparr>bi_controller_id = ''c'', bi_scope = ''s'', bi_enabled = True, bi_updated_at = 0\<rparr>],
    controller_action_tokens := [token_row ''c'' example_token 0]\<rparr>"

definition example_started :: db where
  "example_started = example_ctl_db\<lparr>controller_action_idempotency :=
    [admitted_row ''c'' ''a'' ''h'' ''k'' ''s'' None None 100]\<rparr>"

definition example_finished :: db where
  "example_finished = example_ctl_db\<lparr>controller_action_idempotency :=
    [complete_row 200 JNull 200 None (admitted_row ''c'' ''a'' ''h'' ''k'' ''s'' None None 100)]\<rparr>"

lemma example_provision:
  "provision_controller_installation ''c'' 5 60 [''k''] [''s''] example_token empty_db = Inr (True, example_ctl_db)"
  by (simp add: provision_controller_installation_def insert_grant_def insert_binding_def insert_token_def
      example_ctl_db_def empty_db_def now_ms_def)

lemma example_credential: "credential_matches ''c'' example_cred at d = 1"
  if "0 \<le> at" and "controller_action_tokens d = [token_row ''c'' example_token 0]"
  using that by (simp add: credential_matches_def example_cred_def example_token_def token_row_def
      token_active_def secret_matches_def)

lemma example_begin:
  "begin_controller_action ''c'' example_cred ''a'' ''h'' ''k'' ''s'' None None 100 example_ctl_db
    = Inr (Started None, example_started)"
  by (simp add: begin_controller_action_def example_credential example_ctl_db_def example_started_def empty_db_def
      new_controller_def action_granted_def scope_enabled_def find_action_def admit_action_def in_window_def
      open_decision_for_def)

lemma example_finish:
  "finish_controller_action ''c'' ''a'' 200 JNull None 200 example_started = Inr ((), example_finished)"
  by (simp add: finish_controller_action_def example_started_def example_finished_def admitted_row_def
      count_where_def upd_action_def upd_where_def)

lemma example_replay:
  "begin_controller_action ''c'' example_cred ''a'' ''h'' ''k'' ''s'' None None 300 example_finished
    = Inr (Replay \<lparr>rp_request_hash = ''h'', rp_http_status = 200, rp_response_json = JNull\<rparr>, example_finished)"
  by (simp add: begin_controller_action_def example_credential example_ctl_db_def example_finished_def empty_db_def
      new_controller_def action_granted_def scope_enabled_def find_action_def answer_known_action_def
      complete_row_def admitted_row_def)

lemma example_run: "actions.run empty_db [(''c'', ''a'')] example_started"
proof (rule actions.run.quiet [OF ctl_step.provision [OF example_provision]])
  have "ctl_step example_ctl_db (Some (''c'', ''a'')) example_started"
    using ctl_step.act [OF example_begin] by (simp add: admitted_label_def)
  then show "actions.run example_ctl_db [(''c'', ''a'')] example_started"
    by (rule actions.run.admit [OF _ actions.run.stop])
qed

section \<open>Properties\<close>

text \<open>
  An action is executed at most once: in every run of the store from the empty database, whatever
  kernel, installation and event operations are interleaved, no pair of controller and action id is
  admitted twice, and the admitted pairs are exactly those on record.
\<close>

theorem action_admitted_once:
  assumes "actions.run empty_db ks d"
  shows "distinct ks \<and> set ks = action_log d"
  using actions.run_admits_once [OF assms] actions.run_logged [OF assms] by (simp add: action_log_def empty_db_def)

theorem action_admitted_once_witness:
  "distinct [(''c'', ''a'')] \<and> set [(''c'', ''a'')] = action_log example_started"
  by (rule action_admitted_once [OF example_run])

text \<open>
  A completed action is answered from its record for ever: after the completion, whatever runs
  in between, asking again with the same action id never runs it, changes nothing, and returns
  the recorded status and body unless the request is refused or differs from the original.
\<close>

theorem completed_action_replays:
  assumes "ctl_inv d" and "finish_controller_action cid aid st body b at d = Inr (x, d1)" and "actions.run d1 ks d2"
    and "begin_controller_action cid creds aid rh k scope sid oi at' d2 = Inr (r, d3)"
  shows "d3 = d2 \<and> (r = RequestMismatch \<or> (\<exists>den. r = Denied den)
    \<or> r = Replay \<lparr>rp_request_hash = rh, rp_http_status = st, rp_response_json = body\<rparr>)"
proof -
  obtain a where a: "a \<in> set (controller_action_idempotency d1)" "action_key a = (cid, aid)" "a_state a = ''completed''"
    "a_http_status a = Some st" "a_response_json a = Some body"
    using finish_records [OF assms(2)] by blast
  have inv: "ctl_inv d2" using run_ctl_inv [OF assms(3)] finish_inv [OF assms(2, 1)] by blast
  have "a \<in> set (controller_action_idempotency d2)" by (rule run_completed [OF assms(3) a(1, 3)])
  then have "find_action cid aid d2 = Some a"
    using find_action_unique [of d2 a] inv a(2) by (simp add: ctl_inv_def action_key_def)
  then show ?thesis
    using assms(4) a unfolding begin_controller_action_def answer_known_action_def
    by (auto split: option.splits if_splits)
qed

theorem completed_action_replays_witness:
  "\<exists>r d3. begin_controller_action ''c'' example_cred ''a'' ''h'' ''k'' ''s'' None None 300 example_finished = Inr (r, d3)
    \<and> d3 = example_finished \<and> (r = RequestMismatch \<or> (\<exists>den. r = Denied den)
      \<or> r = Replay \<lparr>rp_request_hash = ''h'', rp_http_status = 200, rp_response_json = JNull\<rparr>)"
  using completed_action_replays [OF run_ctl_inv [OF example_run empty_ctl_inv] example_finish actions.run.stop example_replay]
    example_replay by blast

text \<open>The saturating counter is one exactly when one pair matches.\<close>

lemma foldl_saturating:
  "foldl (\<lambda>n p. if P p then min 255 (n + 1) else n) n ps = (if n \<le> 255 then min 255 (n + length (filter P ps))
    else if filter P ps = [] then n else 255)" for n :: nat
  by (induction ps arbitrary: n) (auto simp: min_def)

lemma filter_product_length:
  "length (filter P (List.product xs ys)) = (\<Sum>x \<leftarrow> xs. length (filter (\<lambda>y. P (x, y)) ys))"
  by (induction xs) (simp_all add: filter_map comp_def)

lemma credential_matches_count:
  "credential_matches cid creds at d = min 255 (length (filter secret_matches
    (List.product (filter (\<lambda>t. t_controller_id t = cid \<and> token_active at t) (controller_action_tokens d)) creds)))"
proof -
  have "(\<Sum>x \<leftarrow> sort_key t_id ts. f x) = (\<Sum>x \<leftarrow> ts. f x)" for ts :: "TokenRow list" and f :: "TokenRow \<Rightarrow> nat"
    by (metis mset_map mset_sort sum_mset_sum_list)
  then show ?thesis by (simp add: credential_matches_def foldl_saturating filter_product_length)
qed

lemma in_window_started:
  assumes "- (2 ^ 63) \<le> at" "at \<le> 2 ^ 63 - 1" "d' = d\<lparr>controller_trigger_scopes := ts, controller_action_idempotency :=
      controller_action_idempotency d @ [admitted_row cid aid rh k scope sid oi at]\<rparr>"
  shows "length (in_window cid at d') = Suc (length (in_window cid at d)) \<or> at = - (2 ^ 63)"
  using assms(1, 2) by (auto simp: assms(3) in_window_def admitted_row_def saturate_def)

text \<open>
  Admission: when an action starts, exactly one active token of the controller matches one of the
  presented hashes, the action kind is granted, the scope is enabled, a target session belongs to
  the controller in that scope, a disabled controller only reaches sessions it owns, the action id is
  new, the rate limit holds after the admission, a fresh session fits the concurrency limit, and the
  trigger of an open belongs to the scope from then on.
\<close>

theorem admission_rule:
  assumes "begin_controller_action cid creds aid rh k scope sid oi at d = Inr (Started dec, d')"
    and "- (2 ^ 63) < at" "at \<le> 2 ^ 63 - 1"
  shows "length (filter secret_matches (List.product
        (filter (\<lambda>t. t_controller_id t = cid \<and> token_active at t) (controller_action_tokens d)) creds)) = 1
    \<and> action_granted cid k d \<and> scope_enabled cid scope d
    \<and> (\<forall>s. sid = Some s \<longrightarrow> owns_session cid scope s d)
    \<and> (\<forall>intent. oi = Some intent \<longrightarrow> claimed_scope cid (oi_trigger_ref intent) d' = Some scope)
    \<and> (cid, aid) \<in> action_log d' - action_log d
    \<and> (\<exists>c. find (\<lambda>c. c_id c = cid) (controllers d) = Some c \<and> (c_enabled c \<or> sid \<noteq> None)
        \<and> int (length (in_window cid at d')) \<le> c_max_actions_per_minute c
        \<and> (dec = Some CreateDecision \<longrightarrow> concurrent_sessions cid d' < c_max_concurrent_sessions c))"
proof -
  obtain c where c: "find (\<lambda>c. c_id c = cid) (controllers d) = Some c" "c_enabled c \<or> sid \<noteq> None"
    "credential_matches cid creds at d = 1" "action_granted cid k d" "scope_enabled cid scope d"
    "\<forall>s. sid = Some s \<longrightarrow> owns_session cid scope s d"
    and adm: "admit_action c aid rh k scope sid oi at d = (Started dec, d')"
    using begin_StartedD [OF assms(1)] by blast
  have [simp]: "c_id c = cid" using find_SomeD [OF c(1)] by simp
  obtain d1 where quota: "int (length (in_window cid at d)) < c_max_actions_per_minute c"
    "dec = Some CreateDecision \<longrightarrow> concurrent_sessions cid d1 < c_max_concurrent_sessions c"
    and d1: "d' = d1\<lparr>controller_action_idempotency := controller_action_idempotency d1 @
        [admitted_row cid aid rh k scope sid oi at]\<rparr>"
    using admit_StartedD [OF adm] by auto
  note tabs = begin_started_tables [OF assms(1)]
  obtain ts where d': "d' = d\<lparr>controller_trigger_scopes := ts, controller_action_idempotency :=
      controller_action_idempotency d @ [admitted_row cid aid rh k scope sid oi at]\<rparr>"
    using tabs(1) by blast
  have cs: "concurrent_sessions cid d' = concurrent_sessions cid d1"
    by (simp add: d1 concurrent_sessions_def session_def)
  have win: "int (length (in_window cid at d')) \<le> c_max_actions_per_minute c"
    using in_window_started [OF _ assms(3) d'] assms(2) quota(1) by auto
  have "(cid, aid) \<in> action_log d' - action_log d"
    using begin_log [OF assms(1)] by simp
  moreover have "length (filter secret_matches (List.product
        (filter (\<lambda>t. t_controller_id t = cid \<and> token_active at t) (controller_action_tokens d)) creds)) = 1"
    using c(3) by (simp add: credential_matches_count min_def split: if_splits)
  ultimately show ?thesis using c tabs(3) win quota(2) cs by simp
qed

theorem admission_rule_witness:
  "(''c'', ''a'') \<in> action_log example_started - action_log example_ctl_db"
  using admission_rule [OF example_begin] by simp

text \<open>
  A refusal changes nothing, and admission always answers: in a database that satisfies the
  invariant no call fails, and every answer other than a start or an unknown outcome leaves the
  database as it was, the scope claim of a refused open included.
\<close>

theorem refusals_change_nothing:
  assumes "ctl_inv d"
  shows "\<exists>r d'. begin_controller_action cid creds aid rh k scope sid oi at d = Inr (r, d')
    \<and> ((\<exists>dec. r = Started dec) \<or> r = OutcomeUnknown \<or> d' = d)"
proof -
  have known: "\<exists>x. answer_known_action a rh at d = Inr x" if "find_action cid aid d = Some a" for a
    using find_action_SomeD [OF that] assms
    by (auto simp: answer_known_action_def ctl_inv_def act_inv_def split: option.splits)
  have "\<exists>x. begin_controller_action cid creds aid rh k scope sid oi at d = Inr x"
    by (cases "find_action cid aid d") (use known in \<open>simp_all add: begin_controller_action_def split: option.split\<close>)
  then obtain r d' where b: "begin_controller_action cid creds aid rh k scope sid oi at d = Inr (r, d')" by auto
  then show ?thesis using begin_other_tables [OF b] by blast
qed

theorem refusals_change_nothing_witness:
  "\<exists>r d'. begin_controller_action ''d'' [] ''a'' ''h'' ''k'' ''s'' None None 100 example_started = Inr (r, d')
    \<and> ((\<exists>dec. r = Started dec) \<or> r = OutcomeUnknown \<or> d' = example_started)"
  by (rule refusals_change_nothing [OF run_ctl_inv [OF example_run empty_ctl_inv]])

text \<open>
  C34. Ownership: in every reachable database a session belongs to one controller and scope, a trigger
  has at most one current session, every owned session lies in the scope its trigger claimed, no
  secret is stored twice, and every completed action has its response.
\<close>

theorem reachable_ownership:
  assumes "actions.run empty_db ks d"
  shows "ctl_inv d"
  using run_ctl_inv [OF assms empty_ctl_inv] .

theorem reachable_ownership_witness: "ctl_inv example_started"
  by (rule reachable_ownership [OF example_run])

end
