(* ===== verification/Store_Journal.thy ===== *)
theory Store_Journal
  imports Store_Tables "HOL-Library.Multiset"
begin

text \<open>
  The audit journal of \<^verbatim>\<open>src/store.rs\<close> beyond the append primitive: the public append, cursor
  pagination and retention. Shown here: following the cursors of the pages visits every matching
  event exactly once, newest first.
\<close>

section \<open>Operations\<close>

definition append_audit_event :: "AuditEvent \<Rightarrow> db \<Rightarrow> AuditEventRecord res" where
  "append_audit_event e d = bindE (append_audit_event_locked e d) (\<lambda>d'.
    case find (\<lambda>r. av_service (aer_event r) = av_service e \<and> av_event_key (aer_event r) = av_event_key e) (audit_events d') of
      None \<Rightarrow> Inl QueryReturnedNoRows
    | Some r \<Rightarrow> Inr (r, d'))"

record AuditEventPage =
  pg_events :: "AuditEventRecord list"
  pg_next_cursor :: "string option"

definition opt_eq :: "'a option \<Rightarrow> 'a option \<Rightarrow> bool" where
  "opt_eq wanted actual \<longleftrightarrow> wanted = None \<or> actual = wanted"

definition audit_matches :: "AuditEventQuery \<Rightarrow> AuditEventRecord \<Rightarrow> bool" where
  "audit_matches q r \<longleftrightarrow> (let e = aer_event r; c = av_correlation e in
     opt_eq (q_delivery_id q) (ac_delivery_id c) \<and> opt_eq (q_controller_id q) (ac_controller_id c)
     \<and> opt_eq (q_action_id q) (ac_action_id c) \<and> opt_eq (q_runtime_event_id q) (ac_runtime_event_id c)
     \<and> opt_eq (q_session_id q) (ac_session_id c) \<and> opt_eq (q_message_id q) (ac_message_id c)
     \<and> opt_eq (q_write_id q) (ac_write_id c) \<and> opt_eq (q_trigger_ref q) (ac_trigger_ref c)
     \<and> opt_eq (q_kind q) (Some (av_kind e))
     \<and> (case q_since q of None \<Rightarrow> True | Some t \<Rightarrow> av_recorded_at e \<ge> t)
     \<and> (case q_until q of None \<Rightarrow> True | Some t \<Rightarrow> av_recorded_at e \<le> t))"

definition after_cursor :: "AuditCursor option \<Rightarrow> AuditEventRecord \<Rightarrow> bool" where
  "after_cursor cur r \<longleftrightarrow> (case cur of None \<Rightarrow> True
    | Some c \<Rightarrow> av_recorded_at (aer_event r) < cur_recorded_at c
        \<or> (av_recorded_at (aer_event r) = cur_recorded_at c \<and> aer_seq r < cur_seq c))"

definition audit_order :: "AuditEventRecord list \<Rightarrow> AuditEventRecord list" where
  "audit_order rows = rev (sort_key (\<lambda>r. av_recorded_at (aer_event r)) (sort_key aer_seq rows))"

definition cursor_of :: "AuditEventRecord \<Rightarrow> AuditCursor" where
  "cursor_of r = \<lparr>cur_recorded_at = av_recorded_at (aer_event r), cur_seq = aer_seq r\<rparr>"

definition audit_events_page :: "AuditEventQuery \<Rightarrow> db \<Rightarrow> AuditEventPage" where
  "audit_events_page q d =
    (let limit = bounded_limit q;
         evs = take (limit + 1) (audit_order (filter (\<lambda>r. audit_matches q r \<and> after_cursor (q_cursor q) r) (audit_events d)));
         has_more = length evs > limit;
         kept = (if has_more then take limit evs else evs)
     in \<lparr>pg_events = kept,
         pg_next_cursor = (if has_more \<and> kept \<noteq> [] then Some (encode (cursor_of (last kept))) else None)\<rparr>)"

text \<open>SQLite's \<^verbatim>\<open>LIKE\<close>: case-insensitive on ASCII, percent for any run, underscore for one character.\<close>

fun sql_like :: "string \<Rightarrow> string \<Rightarrow> bool" where
  "sql_like [] s \<longleftrightarrow> s = []"
| "sql_like (p # ps) s \<longleftrightarrow>
    (if p = CHR ''%'' then sql_like ps s \<or> (case s of [] \<Rightarrow> False | _ # s' \<Rightarrow> sql_like (p # ps) s')
     else (case s of
        [] \<Rightarrow> False
      | c # s' \<Rightarrow> if p = CHR ''_'' then sql_like ps (dropWhile is_continuation s')
          else ascii_lower p = ascii_lower c \<and> sql_like ps s'))"

definition long_lived :: "AuditEvent \<Rightarrow> bool" where
  "long_lived e \<longleftrightarrow> audit_outcome_str (av_outcome e) \<in> {''failed'', ''outcome_unknown'', ''reconciled''}
    \<or> sql_like ''security.%'' (av_kind e) \<or> sql_like ''config.%'' (av_kind e) \<or> sql_like ''operator.%'' (av_kind e)
    \<or> sql_like ''%dead_lettered'' (av_kind e) \<or> av_kind e = ''audit.retention_pruned''"

definition prune_audit_events :: "int \<Rightarrow> int \<Rightarrow> db \<Rightarrow> nat \<times> db" where
  "prune_audit_events before extended_before d =
    (let P = (\<lambda>r. (av_recorded_at (aer_event r) < before \<and> \<not> long_lived (aer_event r))
                \<or> (av_recorded_at (aer_event r) < min extended_before before \<and> long_lived (aer_event r))) in
     (count_where P (audit_events d), d\<lparr>audit_events := del_where P (audit_events d)\<rparr>))"

section \<open>The journal's invariant\<close>

text \<open>Sequence numbers are unique and below the counter; event ids and keys are unique.\<close>

definition journal_inv :: "db \<Rightarrow> bool" where
  "journal_inv d \<longleftrightarrow> distinct (map aer_seq (audit_events d)) \<and> (\<forall>r \<in> set (audit_events d). aer_seq r \<le> audit_seq d)
    \<and> distinct (map (av_event_id \<circ> aer_event) (audit_events d))
    \<and> distinct (map (\<lambda>r. (av_service (aer_event r), av_event_key (aer_event r))) (audit_events d))"

lemma append_locked_inv:
  assumes "append_audit_event_locked e d = Inr d'" and "journal_inv d"
  shows "journal_inv d'"
proof (cases "audit_recorded e d")
  case True
  with assms show ?thesis by (auto simp: append_audit_event_locked_def split: sum.splits)
next
  case False
  let ?row = "\<lparr>aer_seq = audit_seq d + 1, aer_event = e\<rparr>"
  have d': "d' = d\<lparr>audit_events := audit_events d @ [?row], audit_seq := audit_seq d + 1\<rparr>"
    using assms(1) False by (auto simp: append_audit_event_locked_def split: sum.splits)
  have "av_event_id e \<noteq> av_event_id (aer_event r)
    \<and> (av_service e, av_event_key e) \<noteq> (av_service (aer_event r), av_event_key (aer_event r))"
    "aer_seq r < audit_seq d + 1" if "r \<in> set (audit_events d)" for r
    using that False assms(2) by (auto simp: audit_recorded_def list_ex_iff journal_inv_def)
  then have "av_event_id e \<notin> (av_event_id \<circ> aer_event) ` set (audit_events d)"
    "(av_service e, av_event_key e) \<notin> (\<lambda>r. (av_service (aer_event r), av_event_key (aer_event r))) ` set (audit_events d)"
    "audit_seq d + 1 \<notin> aer_seq ` set (audit_events d)" "\<forall>r \<in> set (audit_events d). aer_seq r \<le> audit_seq d + 1"
    by fastforce+
  with assms(2) show ?thesis by (simp add: d' journal_inv_def)
qed

lemma append_locked_seq:
  "append_audit_event_locked e d = Inr d' \<Longrightarrow> audit_seq d \<le> audit_seq d' \<and> set (audit_events d) \<subseteq> set (audit_events d')"
  by (auto simp: append_audit_event_locked_def split: sum.splits if_splits)

lemma prune_inv: "journal_inv d \<Longrightarrow> journal_inv (snd (prune_audit_events b e d))"
  by (simp add: journal_inv_def prune_audit_events_def Let_def distinct_del_where)

section \<open>Pages\<close>

definition newer :: "AuditEventRecord \<Rightarrow> AuditEventRecord \<Rightarrow> bool" where
  "newer r s \<longleftrightarrow> av_recorded_at (aer_event s) < av_recorded_at (aer_event r)
    \<or> (av_recorded_at (aer_event s) = av_recorded_at (aer_event r) \<and> aer_seq s < aer_seq r)"

lemma sorted_two_keys:
  fixes f :: "'a \<Rightarrow> 'b :: linorder"
  assumes "sorted_wrt (\<lambda>x y. f x \<le> f y) ys" and "\<And>k. sorted_wrt R (filter (\<lambda>y. f y = k) ys)"
  shows "sorted_wrt (\<lambda>x y. f x < f y \<or> (f x = f y \<and> R x y)) ys"
  using assms
proof (induction ys)
  case (Cons y ys)
  have "sorted_wrt R (filter (\<lambda>y. f y = k) ys)" for k using Cons.prems(2) [of k] by (auto split: if_splits)
  moreover have "f y < f x \<or> (f y = f x \<and> R y x)" if "x \<in> set ys" for x
    using Cons.prems(1) Cons.prems(2) [of "f y"] that by (fastforce simp: less_le)
  ultimately show ?case using Cons by simp
qed simp

lemma audit_order_sorted:
  assumes "distinct (map aer_seq rows)"
  shows "sorted_wrt newer (audit_order rows)"
proof -
  let ?f = "\<lambda>r. av_recorded_at (aer_event r)"
  let ?zs = "sort_key aer_seq rows"
  have "distinct (map aer_seq ?zs)" using assms
    by (metis distinct_map distinct_sort set_sort)
  then have "sorted_wrt (<) (map aer_seq ?zs)" by (simp add: strict_sorted_iff)
  then have z: "sorted_wrt (\<lambda>x y. aer_seq x < aer_seq y) ?zs" by (simp add: sorted_wrt_map)
  have "sorted_wrt (\<lambda>x y. ?f x < ?f y \<or> (?f x = ?f y \<and> aer_seq x < aer_seq y)) (sort_key ?f ?zs)"
  proof (rule sorted_two_keys)
    show "sorted_wrt (\<lambda>x y. ?f x \<le> ?f y) (sort_key ?f ?zs)"
      using sorted_sort_key [of ?f ?zs] by (simp add: sorted_wrt_map)
    show "sorted_wrt (\<lambda>x y. aer_seq x < aer_seq y) (filter (\<lambda>y. ?f y = k) (sort_key ?f ?zs))" for k
      using z by (simp add: sort_key_stable sorted_wrt_filter)
  qed
  then show ?thesis unfolding audit_order_def sorted_wrt_rev
    by (rule sorted_wrt_mono_rel [rotated]) (auto simp: newer_def)
qed

lemma filter_audit_order: "audit_order (filter (\<lambda>r. P r \<and> Q r) rows) = filter Q (audit_order (filter P rows))"
  by (simp add: audit_order_def filter_sort conj_commute flip: rev_filter)

lemma after_cursor_of: "after_cursor (Some (cursor_of s)) = newer s"
  by (rule ext) (simp add: after_cursor_def cursor_of_def newer_def)

lemma newer_asym: "newer r s \<Longrightarrow> \<not> newer s r"
  by (auto simp: newer_def)

text \<open>A cursor at an event selects exactly the events listed after it.\<close>

lemma filter_after:
  assumes "sorted_wrt newer (pre @ s # post)"
  shows "filter (after_cursor (Some (cursor_of s))) (pre @ s # post) = post"
proof -
  have "\<forall>r \<in> set pre. newer r s" "\<forall>r \<in> set post. newer s r"
    using assms by (simp_all add: sorted_wrt_append)
  then have pre: "\<forall>r \<in> set pre. \<not> newer s r" and post: "filter (newer s) post = post"
    using newer_asym by (blast, simp add: filter_id_conv)
  have "\<not> newer s s" by (simp add: newer_def)
  with pre have "filter (newer s) (pre @ s # post) = post" by (simp add: post filter_empty_conv)
  then show ?thesis by (simp only: after_cursor_of)
qed

text \<open>The client: follow the cursors, with fuel for the number of pages.\<close>

fun walk :: "nat \<Rightarrow> AuditEventQuery \<Rightarrow> db \<Rightarrow> AuditEventRecord list option" where
  "walk 0 q d = None"
| "walk (Suc n) q d =
    (let p = audit_events_page q d in
     case pg_next_cursor p of
       None \<Rightarrow> Some (pg_events p)
     | Some s \<Rightarrow> (case decode s of
         None \<Rightarrow> None
       | Some c \<Rightarrow> map_option (\<lambda>rs. pg_events p @ rs) (walk n (q\<lparr>q_cursor := Some c\<rparr>) d)))"

lemma page_limit [simp]: "bounded_limit (q\<lparr>q_cursor := c\<rparr>) = bounded_limit q"
  by (simp add: bounded_limit_def)

lemma page_matches [simp]: "audit_matches (q\<lparr>q_cursor := c\<rparr>) = audit_matches q"
  by (rule ext) (simp add: audit_matches_def)

lemma bounded_limit_pos: "0 < bounded_limit q"
  by (simp add: bounded_limit_def DEFAULT_PAGE_LIMIT_def MAX_PAGE_LIMIT_def)

text \<open>A page is the front of what its cursor selects, and its own cursor stands at its last event.\<close>

lemma page_shape:
  fixes q d
  defines "rest \<equiv> filter (after_cursor (q_cursor q)) (audit_order (filter (audit_matches q) (audit_events d)))"
  shows "pg_events (audit_events_page q d) = take (bounded_limit q) rest"
    and "pg_next_cursor (audit_events_page q d) =
      (if length rest \<le> bounded_limit q then None else Some (encode (cursor_of (last (take (bounded_limit q) rest)))))"
  using bounded_limit_pos [of q]
  by (auto simp: rest_def audit_events_page_def Let_def filter_audit_order min_def)

lemma walk_from:
  assumes all: "all = audit_order (filter (audit_matches q) (audit_events d))" and srt: "sorted_wrt newer all"
    and rng: "\<And>r. r \<in> set all \<Longrightarrow> i64_range (av_recorded_at (aer_event r)) \<and> i64_range (aer_seq r)"
    and split: "all = pre @ rest" and sel: "filter (after_cursor (q_cursor q)) all = rest" and "length rest < n"
  shows "walk n q d = Some rest"
  using assms
proof (induction n arbitrary: q pre rest)
  case (Suc n)
  let ?k = "bounded_limit q"
  have ev: "pg_events (audit_events_page q d) = take ?k rest"
    and nx: "pg_next_cursor (audit_events_page q d) =
      (if length rest \<le> ?k then None else Some (encode (cursor_of (last (take ?k rest)))))"
    using page_shape [of q d] Suc.prems(1, 5) by simp_all
  show ?case
  proof (cases "length rest \<le> ?k")
    case True
    with ev nx show ?thesis by simp
  next
    case False
    let ?s = "last (take ?k rest)"
    have ne: "take ?k rest \<noteq> []" using False bounded_limit_pos [of q] by auto
    then have "?s \<in> set rest" by (meson in_set_takeD last_in_set)
    then have dec: "decode (encode (cursor_of ?s)) = Some (cursor_of ?s)"
      using Suc.prems(3, 4) split_once_append [OF int_str_no_colon, of "cur_recorded_at (cursor_of ?s)" "int_str (cur_seq (cursor_of ?s))"]
      by (simp add: encode_def decode_def parse_i64_int_str cursor_of_def)
    have "all = pre @ (take ?k rest @ drop ?k rest)" using Suc.prems(4) by simp
    also have "take ?k rest = butlast (take ?k rest) @ [?s]" by (rule append_butlast_last_id [OF ne, symmetric])
    finally have cut: "all = (pre @ butlast (take ?k rest)) @ ?s # drop ?k rest"
      by (simp only: append.assoc append_Cons append_Nil)
    have sel: "filter (after_cursor (Some (cursor_of ?s))) all = drop ?k rest"
      by (subst cut) (rule filter_after [OF Suc.prems(2) [unfolded cut]])
    have "walk n (q\<lparr>q_cursor := Some (cursor_of ?s)\<rparr>) d = Some (drop ?k rest)"
    proof (rule Suc.IH [where pre = "pre @ take ?k rest"])
      show "all = audit_order (filter (audit_matches (q\<lparr>q_cursor := Some (cursor_of ?s)\<rparr>)) (audit_events d))"
        unfolding page_matches by (rule Suc.prems(1))
      show "all = (pre @ take ?k rest) @ drop ?k rest" using Suc.prems(4) by simp
      show "filter (after_cursor (q_cursor (q\<lparr>q_cursor := Some (cursor_of ?s)\<rparr>))) all = drop ?k rest"
        using sel by simp
      show "length (drop ?k rest) < n" using Suc.prems(6) bounded_limit_pos [of q] False by simp
    qed (fact Suc.prems)+
    with ev nx dec False show ?thesis by simp
  qed
qed simp

section \<open>Properties\<close>

text \<open>
  C38. Following the page cursors from the start ends and returns every matching event exactly once,
  newest first, whatever the page size; a page is never empty while events remain.
\<close>

theorem audit_walk_complete:
  assumes "journal_inv d" and "\<forall>r \<in> set (audit_events d). i64_range (av_recorded_at (aer_event r)) \<and> i64_range (aer_seq r)"
    and "length (audit_events d) < n"
  shows "walk n (q\<lparr>q_cursor := None\<rparr>) d = Some (audit_order (filter (audit_matches q) (audit_events d)))
    \<and> sorted_wrt newer (audit_order (filter (audit_matches q) (audit_events d)))
    \<and> mset (audit_order (filter (audit_matches q) (audit_events d))) = mset (filter (audit_matches q) (audit_events d))"
proof -
  let ?rows = "filter (audit_matches q) (audit_events d)"
  have "distinct (map aer_seq ?rows)" using assms(1) by (simp add: journal_inv_def distinct_map_filter)
  then have s: "sorted_wrt newer (audit_order ?rows)" by (rule audit_order_sorted)
  have "walk n (q\<lparr>q_cursor := None\<rparr>) d = Some (audit_order ?rows)"
    by (rule walk_from [where pre = "[]" and all = "audit_order ?rows"])
      (use s assms(2, 3) in \<open>auto simp: audit_order_def after_cursor_def intro: le_less_trans [OF length_filter_le]\<close>)
  with s show ?thesis by (simp add: audit_order_def)
qed

definition example_journal :: db where
  "example_journal = empty_db\<lparr>audit_seq := 2, audit_events :=
    [\<lparr>aer_seq = 1, aer_event = session_audit_event empty_db ''k'' ''s'' ASucceeded 0 None JNull\<rparr>,
     \<lparr>aer_seq = 2, aer_event = session_audit_event empty_db ''k'' ''t'' ASucceeded 0 None JNull\<rparr>]\<rparr>"

definition example_query :: AuditEventQuery where
  "example_query = \<lparr>q_delivery_id = None, q_controller_id = None, q_action_id = None, q_runtime_event_id = None,
    q_session_id = None, q_message_id = None, q_write_id = None, q_trigger_ref = None, q_kind = None,
    q_since = None, q_until = None, q_cursor = None, q_limit = 1\<rparr>"

theorem audit_walk_complete_witness:
  "walk 3 (example_query\<lparr>q_cursor := None\<rparr>) example_journal =
    Some (audit_order (filter (audit_matches example_query) (audit_events example_journal)))"
proof -
  have "journal_inv example_journal"
    by (simp add: journal_inv_def example_journal_def session_audit_event_def keyed_session_audit_event_def)
  moreover have "\<forall>r \<in> set (audit_events example_journal). i64_range (av_recorded_at (aer_event r)) \<and> i64_range (aer_seq r)"
    by (simp add: example_journal_def session_audit_event_def keyed_session_audit_event_def i64_range_def now_ms_def empty_db_def)
  moreover have "length (audit_events example_journal) < 3" by (simp add: example_journal_def)
  ultimately show ?thesis using audit_walk_complete [of example_journal 3 example_query] by blast
qed

text \<open>
  The journal records an event once: appending returns the recorded event of that service and
  key; appending any event with the same key again returns the same record and writes nothing, as
  long as the event itself is valid, and the journal's invariant is kept.
\<close>

theorem journal_append_once:
  assumes "journal_inv d" and "append_audit_event e d = Inr (r, d')"
    and "av_service e' = av_service e" "av_event_key e' = av_event_key e" "validate e' = Inr ()"
  shows "journal_inv d' \<and> r \<in> set (audit_events d') \<and> append_audit_event e' d' = Inr (r, d')"
proof -
  let ?P = "\<lambda>r. av_service (aer_event r) = av_service e \<and> av_event_key (aer_event r) = av_event_key e"
  have l: "append_audit_event_locked e d = Inr d'" and f: "find ?P (audit_events d') = Some r"
    using assms(2) by (auto simp: append_audit_event_def split: option.splits)
  have "r \<in> set (audit_events d')" and "?P r" using find_SomeD [OF f] by auto
  then have "audit_recorded e' d'" using assms(3, 4) by (auto simp: audit_recorded_def list_ex_iff)
  then have "append_audit_event_locked e' d' = Inr d'"
    using assms(5) by (simp add: append_audit_event_locked_def)
  then have "append_audit_event e' d' = Inr (r, d')"
    using f assms(3, 4) by (simp add: append_audit_event_def)
  with \<open>r \<in> set (audit_events d')\<close> append_locked_inv [OF l assms(1)] show ?thesis by simp
qed

theorem journal_append_once_witness:
  "\<exists>r d'. append_audit_event (session_audit_event empty_db ''k'' ''s'' ASucceeded 0 None JNull) empty_db = Inr (r, d')
    \<and> journal_inv d' \<and> append_audit_event (session_audit_event empty_db ''k'' ''s'' AFailed 0 None JNull) d' = Inr (r, d')"
proof -
  let ?e = "\<lambda>oc. session_audit_event empty_db ''k'' ''s'' oc 0 None JNull"
  have v: "validate (?e oc) = Inr ()" for oc
    unfolding session_audit_event_def
    by (rule keyed_event_valid)
      (simp_all add: kind_ok_def clock_ok_def empty_db_def i64_range_def plain_def is_continuation_def ws1_def)
  have i: "journal_inv empty_db" by (simp add: journal_inv_def empty_db_def)
  have "\<exists>r d'. append_audit_event (?e ASucceeded) empty_db = Inr (r, d')"
    using v by (simp add: append_audit_event_def append_audit_event_locked_def audit_recorded_def empty_db_def)
  then obtain r d' where a: "append_audit_event (?e ASucceeded) empty_db = Inr (r, d')" by blast
  show ?thesis
    using journal_append_once [OF i a _ _ v [of AFailed]] a
    by (auto simp: session_audit_event_def keyed_session_audit_event_def)
qed

end
