(* ===== verification/Controller_Events.thy ===== *)
theory Controller_Events
  imports Store_Controllers Store_Journal
begin

text \<open>
  Signed delivery of runtime events to controllers (\<^verbatim>\<open>src/controller_events.rs\<close>): the signing keys,
  the signed request, one dispatch with its retry schedule, and the dispatcher's inner loop. HMAC,
  SHA-256, hexadecimal and JSON encoding and the URL parser are third-party code: fields of the
  environment record the definitions read. The transport is a function from the request to a
  status or an error. Shown here: a retry index is never out of range, what one dispatch does to the
  queue, that the drain loop ends however the endpoints answer, and that the signed text determines
  every field it covers.
\<close>

section \<open>Environment and constants\<close>

record Url =
  url_scheme :: string
  url_host :: "string option"
  url_username :: string
  url_password :: "string option"
  url_path :: string
  url_query :: "string option"
  url_fragment :: "string option"

record event_env =
  hmac_sha256 :: "string \<Rightarrow> string \<Rightarrow> string"
  sha256 :: "string \<Rightarrow> string"
  hex_encode :: "string \<Rightarrow> string"
  base64_url :: "string \<Rightarrow> string"
  json_text :: "json \<Rightarrow> string"
  parse_url :: "string \<Rightarrow> Url option"

definition DELIVERY_LEASE_MS :: int where "DELIVERY_LEASE_MS = 30000"
definition DELIVERY_WINDOW_MS :: int where "DELIVERY_WINDOW_MS = 5 * 60 * 1000"
definition DELIVERED_RETENTION_MS :: int where "DELIVERED_RETENTION_MS = 7 * 24 * 60 * 60 * 1000"
definition PRUNE_INTERVAL_MS :: int where "PRUNE_INTERVAL_MS = 60 * 60 * 1000"
definition RETRY_DELAYS_MS :: "int list" where "RETRY_DELAYS_MS = [10000, 30000, 90000]"

section \<open>Delivery journal\<close>

definition delivery_audit_event ::
  "db \<Rightarrow> ControllerEventDelivery \<Rightarrow> string \<Rightarrow> AuditOutcome \<Rightarrow> int \<Rightarrow> json \<Rightarrow> AuditError option \<Rightarrow> AuditEvent" where
  "delivery_audit_event d delivery kind outcome occurred_at detail error =
    (let event_key = kind @ '':'' @ ed_id delivery @ '':'' @ int_str (ed_attempts delivery) in
     \<lparr>av_version = AUDIT_EVENT_VERSION,
      av_event_id = ''aud:'' @ AUDIT_SERVICE @ '':'' @ event_key,
      av_event_key = event_key,
      av_occurred_at = occurred_at,
      av_recorded_at = now_ms d,
      av_service = AUDIT_SERVICE,
      av_kind = kind,
      av_outcome = outcome,
      av_caused_by = None,
      av_correlation = correlation_default\<lparr>ac_controller_id := Some (ed_controller_id delivery),
        ac_session_id := ed_session_id delivery, ac_runtime_event_id := Some (ed_id delivery)\<rparr>,
      av_actor = None,
      av_target = None,
      av_detail = detail,
      av_error = error\<rparr>)"

text \<open>A failed journal append is logged and otherwise ignored.\<close>

definition append_or_warn :: "AuditEvent \<Rightarrow> db \<Rightarrow> db" where
  "append_or_warn e d = (case append_audit_event e d of Inl _ \<Rightarrow> d | Inr (_, d') \<Rightarrow> d')"

definition append_delivery_audit ::
  "ControllerEventDelivery \<Rightarrow> string \<Rightarrow> AuditOutcome \<Rightarrow> int \<Rightarrow> json \<Rightarrow> AuditError option \<Rightarrow> db \<Rightarrow> db" where
  "append_delivery_audit delivery kind outcome occurred_at detail error d =
    append_or_warn (delivery_audit_event d delivery kind outcome occurred_at detail error) d"

section \<open>Signing\<close>

type_synonym ControllerEventKeys = "(int \<times> string) list"

fun check_keys :: "ControllerEventKeys \<Rightarrow> string + unit" where
  "check_keys [] = Inr ()"
| "check_keys ((version, key) # rest) =
    (if version \<le> 0 then Inl ''controller event signing key versions must be positive''
     else if length key < 32
     then Inl (''controller event signing key v'' @ int_str version @ '' must be at least 32 bytes'')
     else check_keys rest)"

definition new_keys :: "ControllerEventKeys \<Rightarrow> string + ControllerEventKeys" where
  "new_keys keys =
    (if keys = [] then Inl ''controller event signing keys must not be empty''
     else bindE (check_keys keys) (\<lambda>_. Inr keys))"

definition latest_version :: "ControllerEventKeys \<Rightarrow> int" where
  "latest_version keys = fst (last keys)"

definition signing_secret :: "event_env \<Rightarrow> ControllerEventKeys \<Rightarrow> int \<Rightarrow> string \<Rightarrow> string + string" where
  "signing_secret env keys version controller_id =
    (case map_of keys version of
      None \<Rightarrow> Inl (''unknown controller event signing key v'' @ int_str version)
    | Some key \<Rightarrow> Inr (hmac_sha256 env key (''openab-controller-event-v1'' @ [CHR 0x00] @ controller_id)))"

definition issued_secret :: "event_env \<Rightarrow> ControllerEventKeys \<Rightarrow> int \<Rightarrow> string \<Rightarrow> string + string" where
  "issued_secret env keys version controller_id =
    bindE (signing_secret env keys version controller_id) (\<lambda>s. Inr (base64_url env s))"

record ControllerEventRequest =
  req_endpoint :: string
  req_headers :: "(string \<times> string) list"
  req_body :: string

definition validate_https_endpoint :: "event_env \<Rightarrow> string \<Rightarrow> string + unit" where
  "validate_https_endpoint env endpoint =
    (case parse_url env endpoint of
      None \<Rightarrow> Inl ''parse controller event endpoint''
    | Some url \<Rightarrow>
        if url_scheme url \<noteq> ''https'' then Inl ''controller event endpoint must use HTTPS''
        else if url_host url = None \<or> url_username url \<noteq> [] \<or> url_password url \<noteq> None
        then Inl ''controller event endpoint must have a host and no userinfo''
        else if url_fragment url \<noteq> None then Inl ''controller event endpoint must not contain a fragment''
        else Inr ())"

definition request_target :: "event_env \<Rightarrow> string \<Rightarrow> string + string" where
  "request_target env endpoint =
    (case parse_url env endpoint of
      None \<Rightarrow> Inl ''parse controller event endpoint''
    | Some url \<Rightarrow>
        let target = (if url_path url = [] then ''/'' else url_path url) in
        Inr (case url_query url of None \<Rightarrow> target | Some q \<Rightarrow> target @ ''?'' @ q))"

definition nl :: string where "nl = [CHR 0x0A]"

definition canonical :: "string \<Rightarrow> string \<Rightarrow> int \<Rightarrow> string \<Rightarrow> string \<Rightarrow> string" where
  "canonical controller_id event_id timestamp_secs target body_hash =
    ''v1'' @ nl @ controller_id @ nl @ event_id @ nl @ int_str timestamp_secs @ nl @ ''POST'' @ nl
      @ target @ nl @ body_hash"

definition signed_request ::
  "event_env \<Rightarrow> ControllerEventKeys \<Rightarrow> ControllerEventDelivery \<Rightarrow> int \<Rightarrow> string + ControllerEventRequest" where
  "signed_request env keys delivery timestamp_secs =
    bindE (request_target env (ed_endpoint delivery)) (\<lambda>target.
      let body = json_text env (ed_body_json delivery);
          body_hash = hex_encode env (sha256 env body);
          text = canonical (ed_controller_id delivery) (ed_id delivery) timestamp_secs target body_hash
      in bindE (signing_secret env keys (ed_key_version delivery) (ed_controller_id delivery)) (\<lambda>secret.
        Inr \<lparr>req_endpoint = ed_endpoint delivery,
             req_headers = [(''X-OAB-Controller-ID'', ed_controller_id delivery),
               (''X-OAB-Event-ID'', ed_id delivery),
               (''X-OAB-Signature'', ''sha256='' @ hex_encode env (hmac_sha256 env secret text)),
               (''X-OAB-Timestamp'', int_str timestamp_secs)],
             req_body = body\<rparr>))"

section \<open>One dispatch\<close>

text \<open>Rust's integer division rounds towards zero.\<close>

definition whole_seconds :: "int \<Rightarrow> int" where
  "whole_seconds ms = (if ms < 0 then - (- ms div 1000) else ms div 1000)"

type_synonym transport = "ControllerEventRequest \<Rightarrow> string + nat"

text \<open>Indexing past the end of the delay table would panic: \<open>None\<close>.\<close>

definition retry_delay :: "int \<Rightarrow> int option" where
  "retry_delay i = (if 0 \<le> i \<and> i < int (length RETRY_DELAYS_MS) then Some (RETRY_DELAYS_MS ! nat i) else None)"

definition next_attempt :: "int \<Rightarrow> ControllerEventDelivery \<Rightarrow> store_err + int option" where
  "next_attempt at delivery =
    (if saturating_sub at (ed_created_at delivery) \<ge> DELIVERY_WINDOW_MS \<or> ed_attempts delivery \<ge> 4 then Inr None
     else (case retry_delay (ed_attempts delivery - 1) of
        None \<Rightarrow> Inl (Bail ''index out of bounds'')
      | Some delay \<Rightarrow> Inr (Some (saturating_add at delay))))"

definition attempt_detail :: "ControllerEventDelivery \<Rightarrow> (string \<times> json) list \<Rightarrow> json" where
  "attempt_detail delivery extra =
    JObj ([(''event_type'', JStr (ed_event_type delivery)), (''attempt'', JNum (ed_attempts delivery))] @ extra)"

definition settle_delivered :: "ControllerEventDelivery \<Rightarrow> nat \<Rightarrow> db \<Rightarrow> db" where
  "settle_delivered delivery status d =
    append_delivery_audit delivery ''runtime_event.delivered'' ASucceeded (now_ms d)
      (attempt_detail delivery [(''http_status'', JNum (int status))]) None
      (snd (complete_controller_event (ed_id delivery) (now_ms d) d))"

definition settle_failed :: "int \<Rightarrow> ControllerEventDelivery \<Rightarrow> string \<Rightarrow> db \<Rightarrow> store_err + db" where
  "settle_failed at delivery error d =
    bindE (next_attempt at delivery) (\<lambda>nxt.
      let d1 = snd (fail_controller_event (ed_id delivery) error nxt (now_ms d) d);
          (kind, outcome) = (if nxt \<noteq> None then (''runtime_event.retry_scheduled'', ARetryScheduled)
            else (''runtime_event.dead_lettered'', AFailed))
      in Inr (append_delivery_audit delivery kind outcome (now_ms d)
           (attempt_detail delivery [(''retry_at'', jopt_num nxt)])
           (Some \<lparr>aerr_class = ''controller_event_delivery_failed'', aerr_retryable = (nxt \<noteq> None),
              aerr_message = None, aerr_status = None\<rparr>) d1))"

definition deliver_one :: "event_env \<Rightarrow> ControllerEventKeys \<Rightarrow> transport \<Rightarrow> int \<Rightarrow> ControllerEventDelivery \<Rightarrow> db \<Rightarrow> store_err + db" where
  "deliver_one env keys post at delivery d =
    (let d1 = append_delivery_audit delivery ''runtime_event.attempted'' APending at (attempt_detail delivery []) None d
     in case bindE (signed_request env keys delivery (whole_seconds at)) post of
          Inr status \<Rightarrow>
            if 200 \<le> status \<and> status < 300 then Inr (settle_delivered delivery status d1)
            else settle_failed at delivery (''controller endpoint returned HTTP '' @ nat_str status) d1
        | Inl error \<Rightarrow> settle_failed at delivery error d1)"

fun deliver_all :: "event_env \<Rightarrow> ControllerEventKeys \<Rightarrow> transport \<Rightarrow> int \<Rightarrow> ControllerEventDelivery list \<Rightarrow> db \<Rightarrow> store_err + db" where
  "deliver_all env keys post at [] d = Inr d"
| "deliver_all env keys post at (x # xs) d =
    bindE (deliver_one env keys post at x d) (\<lambda>d'. deliver_all env keys post at xs d')"

definition dispatch_once :: "event_env \<Rightarrow> ControllerEventKeys option \<Rightarrow> transport \<Rightarrow> int \<Rightarrow> db \<Rightarrow> nat res" where
  "dispatch_once env runtime post at d =
    (case runtime of
      None \<Rightarrow> Inr (0, d)
    | Some keys \<Rightarrow>
        let (deliveries, d1) = claim_controller_events at 1 DELIVERY_LEASE_MS d
        in bindE (deliver_all env keys post at deliveries d1) (\<lambda>d2. Inr (length deliveries, d2)))"

text \<open>
  The dispatcher's inner loop, with fuel; the clock and the endpoints may answer differently in every
  round. \<open>None\<close> is fuel exhausted; an error ends the loop like an empty queue does.
\<close>

fun drain :: "nat \<Rightarrow> event_env \<Rightarrow> ControllerEventKeys option \<Rightarrow> (nat \<Rightarrow> transport) \<Rightarrow> (nat \<Rightarrow> int) \<Rightarrow> db \<Rightarrow> db option" where
  "drain 0 env runtime post clock d = None"
| "drain (Suc n) env runtime post clock d =
    (case dispatch_once env runtime (post n) (clock n) d of
      Inl _ \<Rightarrow> Some d
    | Inr (sent, d') \<Rightarrow> if sent = 0 then Some d' else drain n env runtime post clock d')"

definition prune_tick :: "int \<Rightarrow> int \<Rightarrow> db \<Rightarrow> int \<times> db" where
  "prune_tick at last_prune_at d =
    (if saturating_sub at last_prune_at \<ge> PRUNE_INTERVAL_MS
     then (at, snd (prune_delivered_controller_events (saturating_sub at DELIVERED_RETENTION_MS) d))
     else (last_prune_at, d))"

section \<open>The queue under a dispatch\<close>

definition ev_inv :: "db \<Rightarrow> bool" where
  "ev_inv d \<longleftrightarrow> distinct (map e_id (controller_events d)) \<and> (\<forall>e \<in> set (controller_events d). 0 \<le> e_attempts e)"

lemma append_or_warn_events [simp]:
  "controller_events (append_or_warn e d) = controller_events d"
  "now_ms (append_or_warn e d) = now_ms d"
  by (auto simp: append_or_warn_def append_audit_event_def now_ms_def split: sum.splits option.splits
      dest!: append_audit_shape)

lemma append_delivery_audit_events [simp]:
  "controller_events (append_delivery_audit dl k oc at dt er d) = controller_events d"
  "now_ms (append_delivery_audit dl k oc at dt er d) = now_ms d"
  by (simp_all add: append_delivery_audit_def)

definition claimed :: "int \<Rightarrow> EventRow \<Rightarrow> EventRow" where
  "claimed lease_until e = e\<lparr>e_state := ''delivering'', e_attempts := e_attempts e + 1, e_lease_until := Some lease_until\<rparr>"

text \<open>The event a dispatch picks: the first due one in the order of the query.\<close>

definition due :: "int \<Rightarrow> EventRow list \<Rightarrow> EventRow list" where
  "due at rows = sort_key e_next_attempt_at (sort_key e_created_at
     (filter (\<lambda>e. e_state e = ''pending'' \<and> e_next_attempt_at e \<le> at) (release_expired at rows)))"

lemma set_due: "set (due at rows) = {e \<in> set (release_expired at rows). e_state e = ''pending'' \<and> e_next_attempt_at e \<le> at}"
  by (simp add: due_def)

lemma release_ids: "map e_id (release_expired at rows) = map e_id rows"
  by (simp add: release_expired_def map_upd_where)

lemma claim_one:
  assumes "ev_inv d"
  shows "claim_controller_events at 1 lease d =
    (case due at (controller_events d) of
      [] \<Rightarrow> ([], d\<lparr>controller_events := release_expired at (controller_events d)\<rparr>)
    | e # _ \<Rightarrow> ([to_delivery (claimed (saturating_add at lease) e)],
        d\<lparr>controller_events := upd_where (\<lambda>x. e_id x = e_id e) (claimed (saturating_add at lease))
            (release_expired at (controller_events d))\<rparr>))"
proof -
  let ?rows = "release_expired at (controller_events d)"
  let ?L = "saturating_add at lease"
  have dist: "distinct (map e_id ?rows)" using assms by (simp add: release_ids ev_inv_def)
  have ids: "due_ids at (Suc 0) ?rows = map e_id (take (Suc 0) (due at (controller_events d)))"
    by (simp add: due_ids_def due_def)
  show ?thesis
  proof (cases "due at (controller_events d)")
    case Nil
    then show ?thesis by (simp add: claim_controller_events_def Let_def ids)
  next
    case (Cons e es)
    then have e: "e \<in> set ?rows" "e_state e = ''pending''" using set_due [of at "controller_events d"] by auto
    have P: "x \<in> set ?rows \<Longrightarrow> (e_id x = e_id e \<and> e_state x = ''pending'') = (e_id x = e_id e)" for x
      using e dist by (auto simp: distinct_map inj_on_def)
    have upd: "upd_event (e_id e) ''pending'' f ?rows = upd_where (\<lambda>x. e_id x = e_id e) f ?rows" for f
      unfolding upd_event_def upd_where_def using P by (intro map_cong) auto
    have f: "find (\<lambda>x. e_id x = e_id e) (upd_where (\<lambda>x. e_id x = e_id e) (claimed ?L) ?rows) = Some (claimed ?L e)"
      using find_unique_key [OF dist e(1)]
      by (subst find_map_upd) (simp_all add: claimed_def)
    have n: "event_in (e_id e) ''pending'' ?rows = 1"
      using count_unique [OF dist, of "e_id e" "\<lambda>x. e_state x = ''pending''"] find_unique_key [OF dist e(1)] e(2)
      by (simp add: event_in_def)
    show ?thesis
      using Cons f n by (simp add: claim_controller_events_def Let_def ids upd claimed_def [symmetric])
  qed
qed

text \<open>What the row of a dispatched event looks like afterwards.\<close>

definition delivered_row :: "int \<Rightarrow> EventRow \<Rightarrow> EventRow" where
  "delivered_row t e = e\<lparr>e_state := ''delivered'', e_delivered_at := Some t, e_lease_until := None, e_last_error := None\<rparr>"

definition failed_row :: "string \<Rightarrow> int option \<Rightarrow> EventRow \<Rightarrow> EventRow" where
  "failed_row error nxt e = (case nxt of
      Some t \<Rightarrow> e\<lparr>e_state := ''pending'', e_next_attempt_at := t, e_lease_until := None, e_last_error := Some error\<rparr>
    | None \<Rightarrow> e\<lparr>e_state := ''dead_letter'', e_lease_until := None, e_last_error := Some error\<rparr>)"

lemma retry_in_range: "1 \<le> ed_attempts dl \<Longrightarrow> \<exists>nxt. next_attempt at dl = Inr nxt"
  by (simp add: next_attempt_def retry_delay_def RETRY_DELAYS_MS_def)

lemma next_attempt_None_iff:
  assumes "1 \<le> ed_attempts dl"
  shows "next_attempt at dl = Inr None \<longleftrightarrow> saturating_sub at (ed_created_at dl) \<ge> DELIVERY_WINDOW_MS \<or> ed_attempts dl \<ge> 4"
  using assms by (auto simp: next_attempt_def retry_delay_def RETRY_DELAYS_MS_def)

lemma next_attempt_Some:
  "next_attempt at dl = Inr (Some t) \<Longrightarrow> ed_attempts dl < 4"
  by (auto simp: next_attempt_def split: if_splits option.splits)

lemma complete_events:
  "controller_events (snd (complete_controller_event i t d)) = upd_event i ''delivering'' (delivered_row t) (controller_events d)"
  by (simp add: complete_controller_event_def delivered_row_def [abs_def])

lemma fail_events:
  "controller_events (snd (fail_controller_event i er nxt t d)) = upd_event i ''delivering'' (failed_row er nxt) (controller_events d)"
  by (auto simp: fail_controller_event_def failed_row_def [abs_def] append_event_audit_def Let_def split: option.splits)

text \<open>
  The outcome of one attempt as a function on the claimed row: the verdict of signing and transport
  decides between delivered, pending again and dead letter.
\<close>

definition attempt_result :: "event_env \<Rightarrow> ControllerEventKeys \<Rightarrow> transport \<Rightarrow> int \<Rightarrow> ControllerEventDelivery \<Rightarrow> string + nat" where
  "attempt_result env keys post at dl = bindE (signed_request env keys dl (whole_seconds at)) post"

definition accepted :: "string + nat \<Rightarrow> bool" where
  "accepted r \<longleftrightarrow> (case r of Inr st \<Rightarrow> 200 \<le> st \<and> st < 300 | Inl _ \<Rightarrow> False)"

definition attempt_error :: "string + nat \<Rightarrow> string" where
  "attempt_error r = (case r of Inr st \<Rightarrow> ''controller endpoint returned HTTP '' @ nat_str st | Inl e \<Rightarrow> e)"

lemma deliver_one_events:
  assumes "1 \<le> ed_attempts dl"
  shows "\<exists>d' nxt. deliver_one env keys post at dl d = Inr d' \<and> next_attempt at dl = Inr nxt \<and> now_ms d' = now_ms d \<and>
    controller_events d' = upd_event (ed_id dl) ''delivering''
      (if accepted (attempt_result env keys post at dl) then delivered_row (now_ms d)
       else failed_row (attempt_error (attempt_result env keys post at dl)) nxt) (controller_events d)"
proof -
  obtain nxt where nxt: "next_attempt at dl = Inr nxt" using retry_in_range [OF assms] by blast
  have now: "now_ms (snd (complete_controller_event i t d)) = now_ms d" "now_ms (snd (fail_controller_event i er x t d)) = now_ms d"
    for i t er x d
    by (simp_all add: complete_controller_event_def fail_controller_event_def append_event_audit_def now_ms_def Let_def split: option.split)
  show ?thesis
    unfolding deliver_one_def Let_def attempt_result_def [symmetric]
    by (cases "attempt_result env keys post at dl")
      (simp_all add: accepted_def attempt_error_def settle_delivered_def settle_failed_def nxt Let_def split_beta
        complete_events fail_events now)
qed

text \<open>One dispatch, for a queue in order: it never fails, and rewrites exactly the picked row.\<close>

definition outcome_row :: "event_env \<Rightarrow> ControllerEventKeys \<Rightarrow> transport \<Rightarrow> int \<Rightarrow> int \<Rightarrow> EventRow \<Rightarrow> EventRow" where
  "outcome_row env keys post at clock e =
    (let c = claimed (saturating_add at DELIVERY_LEASE_MS) e; dl = to_delivery c;
         r = attempt_result env keys post at dl
     in if accepted r then delivered_row clock c
        else failed_row (attempt_error r) (case next_attempt at dl of Inr nxt \<Rightarrow> nxt | Inl _ \<Rightarrow> None) c)"

lemma dispatch_cases:
  assumes "ev_inv d"
  shows "\<exists>d'. dispatch_once env (Some keys) post at d = Inr (min 1 (length (due at (controller_events d))), d')
    \<and> controller_events d' = (case due at (controller_events d) of
        [] \<Rightarrow> release_expired at (controller_events d)
      | e # _ \<Rightarrow> upd_where (\<lambda>x. e_id x = e_id e) (outcome_row env keys post at (now_ms d)) (release_expired at (controller_events d)))"
proof (cases "due at (controller_events d)")
  case Nil
  then show ?thesis by (simp add: dispatch_once_def claim_one [OF assms, simplified])
next
  case (Cons e es)
  let ?rows = "release_expired at (controller_events d)"
  let ?L = "saturating_add at DELIVERY_LEASE_MS"
  let ?dl = "to_delivery (claimed ?L e)"
  let ?P = "\<lambda>x. e_id x = e_id e"
  let ?d1 = "d\<lparr>controller_events := upd_where ?P (claimed ?L) ?rows\<rparr>"
  have dist: "distinct (map e_id ?rows)" using assms by (simp add: release_ids ev_inv_def)
  have e: "e \<in> set ?rows" using Cons set_due [of at "controller_events d"] by auto
  then have "0 \<le> e_attempts e" using assms by (auto simp: ev_inv_def release_expired_def set_upd_where)
  then have "1 \<le> ed_attempts ?dl" by (simp add: to_delivery_def claimed_def)
  then obtain d' nxt where d': "deliver_one env keys post at ?dl ?d1 = Inr d'" and nxt: "next_attempt at ?dl = Inr nxt"
    and ev: "controller_events d' = upd_event (ed_id ?dl) ''delivering''
      (if accepted (attempt_result env keys post at ?dl) then delivered_row (now_ms ?d1)
       else failed_row (attempt_error (attempt_result env keys post at ?dl)) nxt) (controller_events ?d1)"
    using deliver_one_events [of ?dl env keys post at ?d1] by blast
  have id: "ed_id ?dl = e_id e" and nm: "now_ms ?d1 = now_ms d" by (simp_all add: to_delivery_def claimed_def now_ms_def)
  have only: "x = e" if "x \<in> set ?rows" "e_id x = e_id e" for x using that e dist by (auto simp: distinct_map inj_on_def)
  have upd: "upd_event (e_id e) ''delivering'' g (upd_where ?P (claimed ?L) ?rows) = upd_where ?P (\<lambda>x. g (claimed ?L x)) ?rows" for g
    by (auto simp: upd_event_def upd_where_def claimed_def)
  let ?g = "if accepted (attempt_result env keys post at ?dl) then delivered_row (now_ms d)
       else failed_row (attempt_error (attempt_result env keys post at ?dl)) nxt"
  have ge: "?g (claimed ?L e) = outcome_row env keys post at (now_ms d) e" using nxt by (simp add: outcome_row_def Let_def)
  have eq: "upd_where ?P (\<lambda>x. ?g (claimed ?L x)) ?rows = upd_where ?P (outcome_row env keys post at (now_ms d)) ?rows"
    unfolding upd_where_def
  proof (rule map_cong [OF refl])
    fix x assume "x \<in> set ?rows"
    then show "(if ?P x then ?g (claimed ?L x) else x) = (if ?P x then outcome_row env keys post at (now_ms d) x else x)"
      using only [of x] ge by (cases "?P x") simp_all
  qed
  have "controller_events d' = upd_event (e_id e) ''delivering'' ?g (upd_where ?P (claimed ?L) ?rows)"
    using ev unfolding id nm by simp
  also have "\<dots> = upd_where ?P (\<lambda>x. ?g (claimed ?L x)) ?rows" by (rule upd)
  finally have "controller_events d' = upd_where ?P (outcome_row env keys post at (now_ms d)) ?rows" unfolding eq .
  then show ?thesis using Cons d' by (simp add: dispatch_once_def claim_one [OF assms, simplified])
qed

section \<open>Progress of the queue\<close>

text \<open>How many more dispatches a row can take, whatever happens: the measure of the drain loop.\<close>

definition row_budget :: "EventRow \<Rightarrow> nat" where
  "row_budget e = (if e_state e \<in> {''pending'', ''delivering''} then Suc (nat (4 - e_attempts e)) else 0)"

definition budget :: "db \<Rightarrow> nat" where
  "budget d = sum_list (map row_budget (controller_events d))"

lemma release_budget: "map row_budget (release_expired at rows) = map row_budget rows"
  by (auto simp: release_expired_def upd_where_def row_budget_def)

lemma release_ev: "e \<in> set (release_expired at rows) \<Longrightarrow> \<exists>r \<in> set rows. e_id e = e_id r \<and> e_attempts e = e_attempts r"
  by (auto simp: release_expired_def set_upd_where)

lemma row_states [simp]:
  "e_state (delivered_row t e) = ''delivered''"
  "e_state (failed_row er nxt e) = (case nxt of None \<Rightarrow> ''dead_letter'' | Some _ \<Rightarrow> ''pending'')"
  by (simp_all add: delivered_row_def failed_row_def split: option.split)

lemma outcome_row_id [simp]: "e_id (outcome_row env keys post at clock e) = e_id e"
  by (auto simp: outcome_row_def Let_def delivered_row_def failed_row_def claimed_def split: option.split)

lemma outcome_row_attempts [simp]: "e_attempts (outcome_row env keys post at clock e) = e_attempts e + 1"
  by (auto simp: outcome_row_def Let_def delivered_row_def failed_row_def claimed_def split: option.split)

lemma outcome_row_budget:
  assumes "e_state e = ''pending''"
  shows "row_budget (outcome_row env keys post at clock e) < row_budget e"
proof -
  let ?dl = "to_delivery (claimed (saturating_add at DELIVERY_LEASE_MS) e)"
  have att: "ed_attempts ?dl = e_attempts e + 1" by (simp add: to_delivery_def claimed_def)
  show ?thesis
  proof (cases "\<exists>s. next_attempt at ?dl = Inr (Some s)")
    case True
    then have "e_attempts e + 1 < 4" using next_attempt_Some att by fastforce
    with assms show ?thesis by (auto simp: row_budget_def)
  next
    case False
    then have "e_state (outcome_row env keys post at clock e) \<in> {''delivered'', ''dead_letter''}"
      by (auto simp: outcome_row_def Let_def split: option.splits sum.splits)
    with assms show ?thesis by (auto simp: row_budget_def)
  qed
qed

lemma dispatch_progress:
  assumes "ev_inv d" and "dispatch_once env (Some keys) post at d = Inr (n, d')"
  shows "ev_inv d' \<and> budget d' + n \<le> budget d"
proof (cases "due at (controller_events d)")
  case Nil
  then have d': "controller_events d' = release_expired at (controller_events d)" and n: "n = 0"
    using dispatch_cases [OF assms(1), of env keys post at] assms(2) by auto
  show ?thesis
    using assms(1) release_budget [of at "controller_events d"] release_ev [of _ at "controller_events d"]
    by (fastforce simp: ev_inv_def budget_def d' n release_ids)
next
  case (Cons e es)
  let ?rows = "release_expired at (controller_events d)"
  let ?h = "outcome_row env keys post at (now_ms d)"
  have d': "controller_events d' = upd_where (\<lambda>x. e_id x = e_id e) ?h ?rows" and n: "n = 1"
    using dispatch_cases [OF assms(1), of env keys post at] assms(2) Cons by auto
  have e: "e \<in> set ?rows" "e_state e = ''pending''" using Cons set_due [of at "controller_events d"] by auto
  have dist: "distinct (map e_id ?rows)" using assms(1) by (simp add: release_ids ev_inv_def)
  have "budget d' + row_budget e = budget d + row_budget (?h e)"
    using sum_upd_one [OF dist e(1), of row_budget ?h] by (simp add: budget_def d' release_budget)
  with outcome_row_budget [OF e(2), of env keys post at "now_ms d"] have "budget d' + n \<le> budget d" by (simp add: n)
  moreover have "0 \<le> e_attempts x" if "x \<in> set ?rows" for x
    using that assms(1) release_ev [OF that] by (auto simp: ev_inv_def)
  then have "ev_inv d'" using dist by (auto simp: ev_inv_def d' map_upd_where set_upd_where)
  ultimately show ?thesis by simp
qed

lemma due_release: "due at (release_expired at rows) = due at rows"
proof -
  have "release_expired at (release_expired at rows) = release_expired at rows"
    by (auto simp: release_expired_def upd_where_def split: option.splits)
  then show ?thesis by (simp add: due_def)
qed

section \<open>Properties\<close>

text \<open>
  C37. The dispatcher's loop ends. However the endpoints and the clock behave, a queue allows only as
  many dispatches as its events have attempts left; with that much fuel the loop returns, the queue
  is still well formed, and at the last clock reading no event was due any more.
\<close>

theorem drain_terminates:
  assumes "ev_inv d" and "budget d < n"
  shows "\<exists>d' k. k < n \<and> drain n env (Some keys) post clock d = Some d' \<and> ev_inv d' \<and> due (clock k) (controller_events d') = []"
  using assms
proof (induction n arbitrary: d)
  case (Suc n)
  obtain d' where d': "dispatch_once env (Some keys) (post n) (clock n) d = Inr (min 1 (length (due (clock n) (controller_events d))), d')"
    using dispatch_cases [OF Suc.prems(1), of env keys "post n" "clock n"] by blast
  note pr = dispatch_progress [OF Suc.prems(1) d']
  show ?case
  proof (cases "due (clock n) (controller_events d)")
    case Nil
    then have "controller_events d' = release_expired (clock n) (controller_events d)"
      using dispatch_cases [OF Suc.prems(1), of env keys "post n" "clock n"] d' by auto
    with Nil have "due (clock n) (controller_events d') = []" by (simp add: due_release)
    with d' Nil pr show ?thesis by (intro exI [of _ d'] exI [of _ n]) simp
  next
    case (Cons e es)
    then have "budget d' < n" using pr Suc.prems(2) by simp
    then obtain d'' k where "k < n" "drain n env (Some keys) post clock d' = Some d''" "ev_inv d''"
      "due (clock k) (controller_events d'') = []"
      using Suc.IH [of d'] pr by blast
    with d' Cons show ?thesis by (intro exI [of _ d''] exI [of _ k]) simp
  qed
qed simp

definition example_event :: EventRow where
  "example_event = \<lparr>e_id = ''e'', e_controller_id = ''c'', e_session_id = None, e_event_type = ''session.opened'',
    e_event_endpoint = ''https://x/'', e_event_key_version = 1, e_body_json = JNull, e_idempotency_key = ''i'',
    e_state = ''pending'', e_attempts = 0, e_created_at = 0, e_next_attempt_at = 0, e_lease_until = None,
    e_delivered_at = None, e_last_error = None\<rparr>"

definition example_queue :: db where
  "example_queue = empty_db\<lparr>controller_events := [example_event]\<rparr>"

lemma example_queue_inv: "ev_inv example_queue" "budget example_queue = 5"
  by (simp_all add: ev_inv_def budget_def example_queue_def example_event_def row_budget_def)

theorem drain_terminates_witness:
  "\<forall>env keys. \<exists>d'. drain 6 env (Some keys) (\<lambda>_ _. Inr 500) (\<lambda>_. 0) example_queue = Some d' \<and> ev_inv d'
    \<and> due 0 (controller_events d') = []"
  using drain_terminates [of example_queue 6 _ _ "\<lambda>_ _. Inr 500" "\<lambda>_. 0"] example_queue_inv by simp

text \<open>
  One dispatch never fails and settles one event: it picks the first due event, counts the attempt,
  and leaves it delivered when signing and transport succeeded with a 2xx status; otherwise it is
  rescheduled 10, 30 or 90 seconds ahead while it has been tried fewer than four times and is younger
  than five minutes, and is a dead letter from then on. Every event that was delivered or dead
  before is unchanged.
\<close>

theorem dispatch_settles:
  assumes "ev_inv d" and "due at (controller_events d) = e # es"
    and "r = attempt_result env keys post at (to_delivery (claimed (saturating_add at DELIVERY_LEASE_MS) e))"
  shows "\<exists>d'. dispatch_once env (Some keys) post at d = Inr (1, d')
    \<and> (\<exists>e' \<in> set (controller_events d'). e_id e' = e_id e \<and> e_attempts e' = e_attempts e + 1
        \<and> (if accepted r then e_state e' = ''delivered''
           else if saturating_sub at (e_created_at e) < DELIVERY_WINDOW_MS \<and> e_attempts e < 3
           then e_state e' = ''pending'' \<and> e_next_attempt_at e' = saturating_add at ([10000, 30000, 90000] ! nat (e_attempts e))
           else e_state e' = ''dead_letter''))
    \<and> (\<forall>x \<in> set (controller_events d). e_state x \<in> {''delivered'', ''dead_letter''} \<longrightarrow> x \<in> set (controller_events d'))"
proof -
  let ?rows = "release_expired at (controller_events d)"
  let ?h = "outcome_row env keys post at (now_ms d)"
  let ?dl = "to_delivery (claimed (saturating_add at DELIVERY_LEASE_MS) e)"
  obtain d' where d': "dispatch_once env (Some keys) post at d = Inr (1, d')"
    and ev: "controller_events d' = upd_where (\<lambda>x. e_id x = e_id e) ?h ?rows"
    using dispatch_cases [OF assms(1), of env keys post at] assms(2) by auto
  have e: "e \<in> set ?rows" "e_state e = ''pending''" using assms(2) set_due [of at "controller_events d"] by auto
  have dist: "distinct (map e_id ?rows)" using assms(1) by (simp add: release_ids ev_inv_def)
  have a0: "0 \<le> e_attempts e" using e(1) assms(1) release_ev [OF e(1)] by (auto simp: ev_inv_def)
  have dl: "ed_attempts ?dl = e_attempts e + 1" "ed_created_at ?dl = e_created_at e"
    by (simp_all add: to_delivery_def claimed_def)
  have nxt: "next_attempt at ?dl = Inr (if saturating_sub at (e_created_at e) < DELIVERY_WINDOW_MS \<and> e_attempts e < 3
      then Some (saturating_add at ([10000, 30000, 90000] ! nat (e_attempts e))) else None)"
    using a0 by (auto simp: next_attempt_def dl retry_delay_def RETRY_DELAYS_MS_def)
  have mem: "?h e \<in> set (controller_events d')" using e(1) by (auto simp: ev set_upd_where)
  have st: "if accepted r then e_state (?h e) = ''delivered''
      else if saturating_sub at (e_created_at e) < DELIVERY_WINDOW_MS \<and> e_attempts e < 3
      then e_state (?h e) = ''pending'' \<and> e_next_attempt_at (?h e) = saturating_add at ([10000, 30000, 90000] ! nat (e_attempts e))
      else e_state (?h e) = ''dead_letter''"
    using nxt by (simp add: assms(3) outcome_row_def Let_def failed_row_def)
  have "x \<in> set (controller_events d')"
    if x: "x \<in> set (controller_events d)" "e_state x \<in> {''delivered'', ''dead_letter''}" for x
  proof -
    have xr: "x \<in> set ?rows" using x by (auto simp: release_expired_def set_upd_where)
    have "x \<noteq> e" using x(2) e(2) by auto
    then have "e_id x \<noteq> e_id e" using xr e(1) dist by (auto simp: distinct_map inj_on_def)
    then show ?thesis using xr by (auto simp: ev set_upd_where)
  qed
  with d' mem st show ?thesis by (intro exI [of _ d'] conjI bexI [of _ "?h e"]) simp_all
qed

lemma example_due: "due 0 (controller_events example_queue) = [example_event]"
  by (simp add: due_def example_queue_def release_expired_def upd_where_def example_event_def)

theorem dispatch_settles_witness:
  "\<forall>env keys. \<exists>d'. dispatch_once env (Some keys) (\<lambda>_. Inr 500) 0 example_queue = Inr (1, d')
    \<and> (\<exists>e' \<in> set (controller_events d'). e_id e' = ''e'' \<and> e_attempts e' = 1 \<and> e_state e' = ''pending'')"
proof (intro allI)
  fix env keys
  let ?r = "attempt_result env keys (\<lambda>_. Inr 500) 0 (to_delivery (claimed (saturating_add 0 DELIVERY_LEASE_MS) example_event))"
  have "\<not> accepted ?r"
    by (cases "signed_request env keys (to_delivery (claimed (saturating_add 0 DELIVERY_LEASE_MS) example_event)) (whole_seconds 0)")
      (simp_all add: attempt_result_def accepted_def)
  then show "\<exists>d'. dispatch_once env (Some keys) (\<lambda>_. Inr 500) 0 example_queue = Inr (1, d')
    \<and> (\<exists>e' \<in> set (controller_events d'). e_id e' = ''e'' \<and> e_attempts e' = 1 \<and> e_state e' = ''pending'')"
    using dispatch_settles [OF example_queue_inv(1) example_due refl, of env keys "\<lambda>_. Inr 500"]
    by (auto simp: example_event_def saturate_def DELIVERY_WINDOW_MS_def)
qed

text \<open>
  A claim is a lease: an event claimed at one time is not claimed again before the lease runs
  out, so two dispatchers never hold the same event; a claim only takes due, pending events and
  counts the attempt.
\<close>

theorem claim_is_exclusive:
  assumes "ev_inv d" and "claim_controller_events at 1 lease d = (ds, d1)"
    and "at' < saturating_add at lease" and "claim_controller_events at' 1 lease' d1 = (ds', d2)"
  shows "ed_id ` set ds \<inter> ed_id ` set ds' = {}
    \<and> (\<forall>x \<in> set ds. \<exists>e \<in> set (release_expired at (controller_events d)). e_id e = ed_id x
        \<and> e_state e = ''pending'' \<and> e_next_attempt_at e \<le> at \<and> ed_attempts x = e_attempts e + 1)"
proof (cases "due at (controller_events d)")
  case Nil
  then show ?thesis using assms(1, 2) claim_one [OF assms(1), of at lease] by simp
next
  case (Cons e es)
  let ?L = "saturating_add at lease"
  let ?rows = "release_expired at (controller_events d)"
  have dist: "distinct (map e_id ?rows)" using assms(1) by (simp add: release_ids ev_inv_def)
  have ds: "ds = [to_delivery (claimed ?L e)]"
    and ev: "controller_events d1 = upd_where (\<lambda>x. e_id x = e_id e) (claimed ?L) ?rows"
    using assms(2) claim_one [OF assms(1), of at lease] Cons by auto
  have e: "e \<in> set ?rows" "e_state e = ''pending''" "e_next_attempt_at e \<le> at"
    using Cons set_due [of at "controller_events d"] by auto
  have "0 \<le> e_attempts x" if "x \<in> set ?rows" for x using that assms(1) release_ev [OF that] by (auto simp: ev_inv_def)
  then have inv1: "ev_inv d1" using dist by (auto simp: ev_inv_def ev claimed_def map_upd_where set_upd_where)
  have ne: "e_id x \<noteq> e_id e" if "x \<in> set (due at' (controller_events d1))" for x
  proof
    assume i: "e_id x = e_id e"
    have x: "x \<in> set (release_expired at' (controller_events d1))" "e_state x = ''pending''"
      using that set_due [of at' "controller_events d1"] by simp_all
    obtain y where y: "y \<in> set (controller_events d1)" "e_id y = e_id e"
      "x = (if e_state y = ''delivering'' \<and> (case e_lease_until y of None \<Rightarrow> False | Some l \<Rightarrow> l \<le> at')
            then y\<lparr>e_state := ''pending'', e_lease_until := None\<rparr> else y)"
      using x(1) i by (auto simp: release_expired_def set_upd_where split: if_splits)
    obtain z where "y = claimed ?L z" using y(1, 2) by (auto simp: ev set_upd_where split: if_splits)
    with y(3) x(2) assms(3) show False by (simp add: claimed_def)
  qed
  have "ed_id ` set ds' \<inter> {e_id e} = {}"
  proof (cases "due at' (controller_events d1)")
    case Nil
    then show ?thesis using assms(4) claim_one [OF inv1, of at' lease'] by simp
  next
    case (Cons y ys)
    then have "ds' = [to_delivery (claimed (saturating_add at' lease') y)]"
      using assms(4) claim_one [OF inv1, of at' lease'] by simp
    then show ?thesis using ne [of y] Cons by (simp add: to_delivery_def claimed_def)
  qed
  moreover have "ed_id ` set ds = {e_id e}" by (simp add: ds to_delivery_def claimed_def)
  ultimately show ?thesis using e by (auto simp: ds to_delivery_def claimed_def)
qed

theorem claim_is_exclusive_witness:
  "\<exists>ds d1 ds' d2. claim_controller_events 0 1 30000 example_queue = (ds, d1) \<and> ds \<noteq> []
    \<and> claim_controller_events 29999 1 30000 d1 = (ds', d2) \<and> ed_id ` set ds \<inter> ed_id ` set ds' = {}"
proof -
  obtain ds d1 where c: "claim_controller_events 0 1 30000 example_queue = (ds, d1)" by force
  obtain ds' d2 where c': "claim_controller_events 29999 1 30000 d1 = (ds', d2)" by force
  have "ds \<noteq> []" using c claim_one [OF example_queue_inv(1), of 0 30000] by (auto simp: example_due)
  moreover have "(29999 :: int) < saturating_add 0 30000" by (simp add: saturate_def)
  ultimately show ?thesis using claim_is_exclusive [OF example_queue_inv(1) c _ c'] c c' by blast
qed

lemma sep_inj:
  assumes "x \<notin> set a" "x \<notin> set a'" "a @ x # b = a' @ x # b'"
  shows "a = a' \<and> b = b'"
  using assms
proof (induction a arbitrary: a')
  case Nil
  then show ?case by (cases a') auto
next
  case (Cons y a)
  then show ?case by (cases a') auto
qed

lemma int_str_no_nl: "CHR 0x0A \<notin> set (int_str i)"
proof -
  have "\<not> is_digit (CHR 0x0A)" by (simp add: is_digit_def)
  then have "CHR 0x0A \<notin> set (nat_str n)" for n
    using nat_str_digits [of n, unfolded list_all_iff] by blast
  then show ?thesis by (simp add: int_str_def)
qed

lemma int_str_inj:
  assumes "int_str i = int_str j" "i64_range i" "i64_range j"
  shows "i = j"
proof -
  have "Some i = Some j" using parse_i64_int_str [OF assms(2)] unfolding assms(1) parse_i64_int_str [OF assms(3)] by simp
  then show ?thesis by simp
qed

text \<open>
  The signed text determines what it covers: two requests whose controller, event id and target
  contain no line break have the same text only when controller, event, time, target and body hash
  all agree.
\<close>

theorem signed_text_binds_fields:
  assumes "canonical c i t tg h = canonical c' i' t' tg' h'"
    and "\<forall>s \<in> {c, c', i, i', tg, tg'}. CHR 0x0A \<notin> set s" and "i64_range t" "i64_range t'"
  shows "c = c' \<and> i = i' \<and> t = t' \<and> tg = tg' \<and> h = h'"
proof -
  let ?n = "CHR 0x0A"
  have "c @ ?n # (i @ ?n # (int_str t @ ?n # (''POST'' @ ?n # (tg @ ?n # h))))
      = c' @ ?n # (i' @ ?n # (int_str t' @ ?n # (''POST'' @ ?n # (tg' @ ?n # h'))))"
    using assms(1) by (simp add: canonical_def nl_def)
  from sep_inj [OF _ _ this] assms(2) have "c = c'"
    and r: "i @ ?n # (int_str t @ ?n # (''POST'' @ ?n # (tg @ ?n # h))) = i' @ ?n # (int_str t' @ ?n # (''POST'' @ ?n # (tg' @ ?n # h')))"
    by auto
  from sep_inj [OF _ _ r] assms(2) have "i = i'"
    and r: "int_str t @ ?n # (''POST'' @ ?n # (tg @ ?n # h)) = int_str t' @ ?n # (''POST'' @ ?n # (tg' @ ?n # h'))" by auto
  from sep_inj [OF int_str_no_nl int_str_no_nl r] have "int_str t = int_str t'" and r: "tg @ ?n # h = tg' @ ?n # h'" by auto
  from sep_inj [OF _ _ r] assms(2) have "tg = tg'" "h = h'" by auto
  with \<open>c = c'\<close> \<open>i = i'\<close> int_str_inj [OF \<open>int_str t = int_str t'\<close> assms(3, 4)] show ?thesis by simp
qed

theorem signed_text_binds_fields_witness:
  "canonical ''c'' ''e'' 5 ''/x'' ''h'' = canonical ''c'' ''e'' 5 ''/x'' ''h'' \<and> ''h'' = ''h''"
  using signed_text_binds_fields [of "''c''" "''e''" 5 "''/x''" "''h''" "''c''" "''e''" 5 "''/x''" "''h''"]
  by (simp add: i64_range_def)

end
