(* ===== verification/Hub.thy ===== *)
theory Hub
  imports Controller_Events
begin

text \<open>
  The shared runtime (\<^verbatim>\<open>src/state.rs\<close>), the wire protocol's data (\<^verbatim>\<open>src/protocol.rs\<close>) and the
  life of a bot connection (\<^verbatim>\<open>src/ws.rs\<close>). A connection is its generation number; what was
  handed to its channel is the wire log, and a channel whose receiver is gone refuses frames. The
  encoder of frames is a field of the state. Shown here: the connection stacks refine a log of
  connects and disconnects, a flush hands over the whole queue or nothing, frames queued while a bot
  is away reach its next connection in order, and closed sessions send nothing.
\<close>

section \<open>Wire data\<close>

definition EVENT_SCHEMA :: string where "EVENT_SCHEMA = ''openab.gateway.event.v1''"
definition RESPONSE_SCHEMA :: string where "RESPONSE_SCHEMA = ''openab.gateway.response.v1''"

record ChannelInfo =
  ci_channel_id :: string
  ci_channel_type :: string
  ci_thread_id :: "string option"

record SenderInfo =
  si_id :: string
  si_name :: string
  si_display_name :: string
  si_is_bot :: bool

record Content =
  ct_type :: string
  ct_text :: string
  ct_attachments :: "json list"

definition text_content :: "string \<Rightarrow> Content" where
  "text_content s = \<lparr>ct_type = ''text'', ct_text = s, ct_attachments = []\<rparr>"

record GatewayEvent =
  ge_schema :: string
  ge_event_id :: string
  ge_timestamp :: string
  ge_platform :: string
  ge_event_type :: string
  ge_channel :: ChannelInfo
  ge_sender :: SenderInfo
  ge_content :: Content
  ge_mentions :: "string list"
  ge_message_id :: string

record ReplyChannel =
  rc_id :: string
  rc_thread_id :: "string option"

record GatewayReply =
  gr_schema :: string
  gr_reply_to :: string
  gr_platform :: string
  gr_channel :: ReplyChannel
  gr_content :: Content
  gr_command :: "string option"
  gr_request_id :: "string option"
  gr_quote_message_id :: "string option"

record GatewayResponse =
  gp_schema :: string
  gp_request_id :: string
  gp_success :: bool
  gp_thread_id :: "string option"
  gp_message_id :: "string option"
  gp_error :: "string option"

definition response_ok :: "string \<Rightarrow> GatewayResponse" where
  "response_ok request_id = \<lparr>gp_schema = RESPONSE_SCHEMA, gp_request_id = request_id, gp_success = True,
    gp_thread_id = None, gp_message_id = None, gp_error = None\<rparr>"

section \<open>The runtime state\<close>

text \<open>
  The fields of \<^verbatim>\<open>AppState\<close> that its operations read or change. Locks and atomics guard single steps
  here. Three fields stand for the world around the process: the dead list holds the generations
  whose receiver is gone, the wire and webhook lists what was sent, and the environment variables
  are read where the code reads them. Encoders of frames and responses are fields too.
\<close>

record AppState =
  store :: db
  hub :: "string \<Rightarrow> nat list option"
  conn_seq :: nat
  dead :: "nat list"
  wire :: "(nat \<times> string) list"
  north :: "json list"
  platform :: string
  frame_text :: "GatewayEvent \<Rightarrow> string"
  last_store_ok_ms :: int
  compatibility_seen :: "string list"
  council_roster :: "string list"
  close_webhook_url :: "string option"
  webhooks :: "json list"
  recruit_seen :: "string \<Rightarrow> string list"
  intent_seen :: "string \<Rightarrow> string \<Rightarrow> string list"
  response_text :: "GatewayResponse \<Rightarrow> string"
  env :: "string \<Rightarrow> string option"

definition on_store :: "(db \<Rightarrow> db) \<Rightarrow> AppState \<Rightarrow> AppState" where
  "on_store f a = a\<lparr>store := f (store a)\<rparr>"

section \<open>Journal projection of north events\<close>

fun jget :: "json \<Rightarrow> string \<Rightarrow> json" where
  "jget (JObj kvs) k = (case map_of kvs k of None \<Rightarrow> JNull | Some v \<Rightarrow> v)"
| "jget _ k = JNull"

fun jas_str :: "json \<Rightarrow> string option" where
  "jas_str (JStr s) = Some s"
| "jas_str _ = None"

definition message_audit_detail :: "db \<Rightarrow> json \<Rightarrow> string option \<Rightarrow> json" where
  "message_audit_detail d payload operation =
    (let content = (case jas_str (jget payload ''content'') of
           Some s \<Rightarrow> s
         | None \<Rightarrow> (case jas_str (jget payload ''body'') of Some s \<Rightarrow> s | None \<Rightarrow> []))
     in JObj ([(''message_id'', jget payload ''message_id''), (''author'', jget payload ''author''),
          (''audience'', jget payload ''audience''), (''content_bytes'', JNum (int (length content))),
          (''content_sha256'', JStr (sha256_hex d content))]
        @ (case operation of None \<Rightarrow> [] | Some x \<Rightarrow> [(''operation'', JStr x)])))"

definition north_projection :: "db \<Rightarrow> string \<Rightarrow> json \<Rightarrow> (string \<times> json) option" where
  "north_projection d kind payload =
    (if kind = ''state'' then
       Some (case jas_str (jget payload ''state'') of
           Some s \<Rightarrow> if s = ''closed'' then ''session.closed'' else if s = ''aborted'' then ''session.aborted''
               else ''session.state_changed''
         | None \<Rightarrow> ''session.state_changed'', payload)
     else if kind = ''message'' \<or> kind = ''controller_status'' then
       Some (''session.message_recorded'', message_audit_detail d payload None)
     else if kind = ''message_edit'' then
       Some (''session.message_recorded'', message_audit_detail d payload (Some ''edit''))
     else if kind = ''roster_add'' \<or> kind = ''roster_drop'' \<or> kind = ''roster_replace'' then
       Some (''session.roster_changed'', payload)
     else if kind = ''timeout'' then
       Some (''session.timed_out'', JObj (map (\<lambda>k. (k, jget payload k)) [''reason'', ''done'', ''total'', ''absent'', ''trigger_ref'']))
     else if kind = ''bot_health'' then Some (''bot.health_changed'', payload)
     else if kind = ''failover'' then Some (''bot.replaced'', payload)
     else if kind = ''chair_reassigned'' then Some (''bot.replaced'', payload)
     else None)"

definition north_key :: "string \<Rightarrow> string \<Rightarrow> string option \<Rightarrow> json \<Rightarrow> db \<Rightarrow> string \<times> db" where
  "north_key kind audit_kind message_id detail d =
    (case (audit_kind = ''session.message_recorded'', message_id) of
      (True, Some m) \<Rightarrow>
        (if kind = ''message_edit''
         then ''session.message_recorded:'' @ m @ '':edit:'' @
           (case jas_str (jget detail ''content_sha256'') of Some h \<Rightarrow> h | None \<Rightarrow> ''unknown'')
         else ''session.message_recorded:'' @ m, d)
    | _ \<Rightarrow> let (i, d') = new_id ''evt'' d in (audit_kind @ '':'' @ i, d'))"

definition author_actor :: "string \<Rightarrow> AuditActor" where
  "author_actor author = \<lparr>aa_kind = (if author = ''system'' then ''system'' else if author = ''client'' then ''client'' else ''bot''),
     aa_id = (if author = ''system'' \<or> author = ''client'' then None else Some author),
     aa_display = None, aa_association = None\<rparr>"

definition north_audit_event :: "string \<Rightarrow> string \<Rightarrow> json \<Rightarrow> int \<Rightarrow> db \<Rightarrow> AuditEvent option \<times> db" where
  "north_audit_event kind session_id payload at d =
    (case north_projection d kind payload of
      None \<Rightarrow> (None, d)
    | Some (audit_kind, detail) \<Rightarrow>
        let sess = (if session_id \<noteq> [] \<and> session_id \<noteq> ''-'' then Some session_id else None);
            message_id = jas_str (jget payload ''message_id'');
            (event_key, d') = north_key kind audit_kind message_id detail d;
            target = (case jas_str (jget payload ''bot'') of
                Some b \<Rightarrow> if b \<noteq> [] then Some \<lparr>at_kind = ''openab_bot'', at_reference = Some b, at_revision = None\<rparr>
                  else map_option (\<lambda>s. \<lparr>at_kind = ''openab_session'', at_reference = Some s, at_revision = None\<rparr>) sess
              | None \<Rightarrow> map_option (\<lambda>s. \<lparr>at_kind = ''openab_session'', at_reference = Some s, at_revision = None\<rparr>) sess)
        in (Some \<lparr>av_version = AUDIT_EVENT_VERSION,
              av_event_id = ''aud:'' @ AUDIT_SERVICE @ '':'' @ event_key,
              av_event_key = event_key,
              av_occurred_at = at,
              av_recorded_at = at,
              av_service = AUDIT_SERVICE,
              av_kind = audit_kind,
              av_outcome = ASucceeded,
              av_caused_by = None,
              av_correlation = correlation_default\<lparr>ac_session_id := sess,
                ac_trigger_ref := jas_str (jget payload ''trigger_ref''), ac_message_id := message_id\<rparr>,
              av_actor = map_option author_actor (jas_str (jget payload ''author'')),
              av_target = target,
              av_detail = detail,
              av_error = None\<rparr>, d'))"

definition bot_connection_audit_event :: "db \<Rightarrow> string \<Rightarrow> nat \<Rightarrow> string \<Rightarrow> AuditEvent" where
  "bot_connection_audit_event d bot_id gen kind =
    (let event_key = kind @ '':'' @ bot_id @ '':'' @ nat_str gen in
     \<lparr>av_version = AUDIT_EVENT_VERSION,
      av_event_id = ''aud:'' @ AUDIT_SERVICE @ '':'' @ event_key,
      av_event_key = event_key,
      av_occurred_at = now_ms d,
      av_recorded_at = now_ms d,
      av_service = AUDIT_SERVICE,
      av_kind = kind,
      av_outcome = ASucceeded,
      av_caused_by = None,
      av_correlation = correlation_default,
      av_actor = None,
      av_target = Some \<lparr>at_kind = ''openab_bot'', at_reference = Some bot_id, at_revision = None\<rparr>,
      av_detail = JObj [(''generation'', JNum (int gen))],
      av_error = None\<rparr>)"

definition emit_north :: "string \<Rightarrow> string \<Rightarrow> json \<Rightarrow> AppState \<Rightarrow> AppState" where
  "emit_north kind session_id payload a =
    (let at = now_ms (store a);
         (audit, d) = north_audit_event kind session_id payload at (store a);
         d' = (case audit of None \<Rightarrow> d | Some e \<Rightarrow> append_or_warn e d)
     in a\<lparr>store := d', north := north a @ [JObj [(''type'', JStr kind), (''session_id'', JStr session_id),
          (''payload'', payload), (''ts'', JNum at)]]\<rparr>)"

section \<open>Telemetry and liveness\<close>

definition record_compat :: "string \<Rightarrow> int \<Rightarrow> AppState \<Rightarrow> AppState" where
  "record_compat surface amount a =
    (case record_compatibility_use surface amount (store a) of Inl _ \<Rightarrow> a | Inr (_, d) \<Rightarrow> a\<lparr>store := d\<rparr>)"

definition record_compatibility_use_once :: "string \<Rightarrow> string \<Rightarrow> AppState \<Rightarrow> AppState" where
  "record_compatibility_use_once surface identity a =
    (let key = surface @ [CHR 0x00] @ identity in
     if key \<in> set (compatibility_seen a) then a
     else record_compat surface 1 (a\<lparr>compatibility_seen := key # compatibility_seen a\<rparr>))"

definition mark_store_ok :: "AppState \<Rightarrow> AppState" where
  "mark_store_ok a = a\<lparr>last_store_ok_ms := now_ms (store a)\<rparr>"

text \<open>Unsigned saturating subtraction, then whole seconds.\<close>

definition store_stalled_secs :: "AppState \<Rightarrow> int" where
  "store_stalled_secs a = max 0 (now_ms (store a) - last_store_ok_ms a) div 1000"

section \<open>Connections\<close>

definition register_conn :: "string \<Rightarrow> AppState \<Rightarrow> nat \<times> AppState" where
  "register_conn bot_id a =
    (let gen = conn_seq a;
         stack = (case hub a bot_id of None \<Rightarrow> [] | Some st \<Rightarrow> st);
         a1 = a\<lparr>conn_seq := Suc gen, hub := (hub a)(bot_id := Some (stack @ [gen]))\<rparr>
     in (gen, on_store (\<lambda>d. append_or_warn (bot_connection_audit_event d bot_id gen ''bot.connected'') d) a1))"

definition unregister_conn :: "string \<Rightarrow> nat \<Rightarrow> AppState \<Rightarrow> bool \<times> AppState" where
  "unregister_conn bot_id gen a =
    (case hub a bot_id of
      None \<Rightarrow> (False, a)
    | Some stack \<Rightarrow>
        if gen \<in> set stack then
          let stack' = filter (\<lambda>g. g \<noteq> gen) stack;
              a1 = a\<lparr>hub := (hub a)(bot_id := (if stack' = [] then None else Some stack'))\<rparr>
          in (stack' = [], on_store (\<lambda>d. append_or_warn (bot_connection_audit_event d bot_id gen ''bot.disconnected'') d) a1)
        else (False, a))"

definition current_conn :: "string \<Rightarrow> AppState \<Rightarrow> nat option" where
  "current_conn bot_id a = (case hub a bot_id of None \<Rightarrow> None | Some [] \<Rightarrow> None | Some st \<Rightarrow> Some (last st))"

definition send_to_bot :: "string \<Rightarrow> string \<Rightarrow> AppState \<Rightarrow> bool \<times> AppState" where
  "send_to_bot bot_id text_frame a =
    (case current_conn bot_id a of
      None \<Rightarrow> (False, a)
    | Some g \<Rightarrow> if g \<in> set (dead a) then (False, a) else (True, a\<lparr>wire := wire a @ [(g, text_frame)]\<rparr>))"

fun flush_frames :: "string \<Rightarrow> (int \<times> string) list \<Rightarrow> AppState \<Rightarrow> bool \<times> AppState" where
  "flush_frames bot_id [] a = (False, a)"
| "flush_frames bot_id ((seq, frm) # rest) a =
    (let (sent, a1) = send_to_bot bot_id frm a in
     if sent then (True, snd (flush_frames bot_id rest (on_store (ack_outbox seq) a1))) else (False, a1))"

definition flush_outbox :: "string \<Rightarrow> AppState \<Rightarrow> bool \<times> AppState" where
  "flush_outbox bot_id a = flush_frames bot_id (pending_outbox bot_id (store a)) a"

definition gateway_event ::
  "AppState \<Rightarrow> string \<Rightarrow> string \<Rightarrow> string option \<Rightarrow> SenderInfo \<Rightarrow> Content \<Rightarrow> string list \<Rightarrow> string \<Rightarrow> GatewayEvent" where
  "gateway_event a event_id session_id thread_id sender content mentions message_id =
    \<lparr>ge_schema = EVENT_SCHEMA, ge_event_id = event_id, ge_timestamp = int_str (now_ms (store a)),
     ge_platform = platform a, ge_event_type = ''message'',
     ge_channel = \<lparr>ci_channel_id = session_id, ci_channel_type = ''supergroup'', ci_thread_id = thread_id\<rparr>,
     ge_sender = sender, ge_content = content, ge_mentions = mentions, ge_message_id = message_id\<rparr>"

definition session_terminal :: "string \<Rightarrow> db \<Rightarrow> bool" where
  "session_terminal sid d = (case session sid d of None \<Rightarrow> False | Some s \<Rightarrow> terminal (from_db_str (s_state s)))"

definition deliver_event ::
  "string \<Rightarrow> string \<Rightarrow> string option \<Rightarrow> SenderInfo \<Rightarrow> Content \<Rightarrow> string list \<Rightarrow> string \<Rightarrow> AppState \<Rightarrow> bool \<times> AppState" where
  "deliver_event bot_id session_id thread_id sender content mentions message_id a =
    (if session_terminal session_id (store a) then (False, a)
     else
       let (event_id, d) = new_id ''evt'' (store a);
           frm = frame_text a (gateway_event a event_id session_id thread_id sender content mentions message_id);
           idem_key = bot_id @ '':'' @ message_id
       in flush_outbox bot_id (a\<lparr>store := enqueue_outbox bot_id session_id idem_key frm d\<rparr>))"

definition is_connected :: "string \<Rightarrow> AppState \<Rightarrow> bool" where
  "is_connected bot_id a \<longleftrightarrow> hub a bot_id \<noteq> None"

section \<open>The life of a connection\<close>

definition no_patch :: BotMetadataPatch where
  "no_patch = \<lparr>bp_provider = None, bp_capabilities = None, bp_enabled = None, bp_health = None, bp_note = None,
    bp_version = None, bp_runtime = None\<rparr>"

definition recover_health :: "string \<Rightarrow> AppState \<Rightarrow> AppState" where
  "recover_health bot_id a =
    (case find_bot bot_id (store a) of
      Some r \<Rightarrow>
        if b_health r = ''unreachable'' then
          emit_north ''bot_health'' ''-'' (JObj [(''bot'', JStr bot_id), (''health'', JStr ''ok'')])
            (on_store (\<lambda>d. snd (update_bot_metadata bot_id (no_patch\<lparr>bp_health := Some ''ok''\<rparr>) d)) a)
        else a
    | None \<Rightarrow> a)"

definition conn_opened :: "string \<Rightarrow> AppState \<Rightarrow> nat \<times> AppState" where
  "conn_opened bot_id a =
    (let (gen, a1) = register_conn bot_id a;
         a2 = recover_health bot_id (on_store (touch_last_seen bot_id) a1)
     in (gen, snd (flush_outbox bot_id a2)))"

definition conn_closed :: "string \<Rightarrow> nat \<Rightarrow> AppState \<Rightarrow> AppState" where
  "conn_closed bot_id gen a =
    (let (fully_offline, a1) = unregister_conn bot_id gen a;
         a2 = a1\<lparr>dead := gen # dead a1\<rparr>
     in if fully_offline then on_store (touch_last_seen bot_id) a2 else snd (flush_outbox bot_id a2))"

section \<open>Flushing\<close>

definition live :: "string \<Rightarrow> AppState \<Rightarrow> bool" where
  "live bot_id a \<longleftrightarrow> (case current_conn bot_id a of None \<Rightarrow> False | Some g \<Rightarrow> g \<notin> set (dead a))"

definition flushed :: "string \<Rightarrow> db \<Rightarrow> db" where
  "flushed bot_id d = snd (delivery_queue.flush_snapshot ack_outbox (\<lambda>_. True) (pending_outbox bot_id d) d)"

lemma current_conn_cong [simp]:
  "current_conn b (a\<lparr>store := d\<rparr>) = current_conn b a" "current_conn b (a\<lparr>wire := w\<rparr>) = current_conn b a"
  "current_conn b (on_store f a) = current_conn b a" "current_conn b (a\<lparr>north := n\<rparr>) = current_conn b a"
  by (simp_all add: current_conn_def on_store_def)

lemma live_cong [simp]:
  "live b (a\<lparr>store := d\<rparr>) = live b a" "live b (a\<lparr>wire := w\<rparr>) = live b a"
  "live b (on_store f a) = live b a" "live b (a\<lparr>north := n\<rparr>) = live b a"
  by (simp_all add: live_def on_store_def split: option.split)

lemma flush_frames_live:
  assumes "live b a" and "current_conn b a = Some g"
  shows "flush_frames b ps a = (ps \<noteq> [], a\<lparr>store := snd (delivery_queue.flush_snapshot ack_outbox (\<lambda>_. True) ps (store a)),
    wire := wire a @ map (\<lambda>p. (g, snd p)) ps\<rparr>)"
  using assms
proof (induction ps arbitrary: a)
  case (Cons p ps)
  obtain n f where p: "p = (n, f)" by force
  have g: "g \<notin> set (dead a)" using Cons.prems by (simp add: live_def)
  let ?a1 = "on_store (ack_outbox n) (a\<lparr>wire := wire a @ [(g, f)]\<rparr>)"
  have "flush_frames b ps ?a1 = (ps \<noteq> [], ?a1\<lparr>store := snd (delivery_queue.flush_snapshot ack_outbox (\<lambda>_. True) ps (store ?a1)),
    wire := wire ?a1 @ map (\<lambda>p. (g, snd p)) ps\<rparr>)"
    using Cons.prems by (intro Cons.IH) simp_all
  then show ?case
    using Cons.prems g p by (simp add: send_to_bot_def on_store_def outq.flush_snapshot.simps split_beta)
qed (simp add: outq.flush_snapshot.simps)

lemma flush_frames_offline: "\<not> live b a \<Longrightarrow> flush_frames b ps a = (False, a)"
  by (cases ps) (auto simp: send_to_bot_def live_def split: option.splits)

lemma flush_live:
  assumes "live b a" and "current_conn b a = Some g"
  shows "flush_outbox b a = (pending_outbox b (store a) \<noteq> [], a\<lparr>store := flushed b (store a),
    wire := wire a @ map (\<lambda>p. (g, snd p)) (pending_outbox b (store a))\<rparr>)"
  unfolding flush_outbox_def flushed_def by (rule flush_frames_live [OF assms])

lemma flush_offline: "\<not> live b a \<Longrightarrow> flush_outbox b a = (False, a)"
  by (simp add: flush_outbox_def flush_frames_offline)

lemma flushed_queue:
  assumes "out_inv d"
  shows "pending_outbox b (flushed b d) = []" "out_inv (flushed b d)" "outbox_keys (flushed b d) = outbox_keys d"
  using outq.flush_all(2) [OF assms, of "\<lambda>_. True" b] outq.flush_in_order [OF assms refl, of "\<lambda>_. True" b]
  by (simp_all add: flushed_def)

section \<open>What a runtime step leaves of the queue\<close>

definition same_outbox :: "db \<Rightarrow> db \<Rightarrow> bool" where
  "same_outbox d d' \<longleftrightarrow> outbox d' = outbox d \<and> outbox_seq d' = outbox_seq d \<and> sessions d' = sessions d \<and> now d' = now d"

lemma same_outbox_refl [simp]: "same_outbox d d"
  by (simp add: same_outbox_def)

lemma same_outbox_trans: "same_outbox d d' \<Longrightarrow> same_outbox d' d'' \<Longrightarrow> same_outbox d d''"
  by (simp add: same_outbox_def)

lemma same_outboxD:
  assumes "same_outbox d d'"
  shows "pending_outbox b d' = pending_outbox b d" "out_inv d' = out_inv d" "outbox_keys d' = outbox_keys d"
    "now_ms d' = now_ms d" "session_terminal sid d' = session_terminal sid d"
  using assms
  by (simp_all add: same_outbox_def pending_outbox_def out_inv_def outbox_keys_def now_ms_def session_terminal_def session_def)

lemma same_outbox_append: "same_outbox d (append_or_warn e d)"
  by (auto simp: append_or_warn_def append_audit_event_def same_outbox_def split: sum.splits option.splits
      dest!: append_audit_shape)

lemma same_outbox_north:
  "same_outbox d (snd (north_audit_event k s p at d))"
  by (auto simp: north_audit_event_def north_key_def new_id_def Let_def same_outbox_def split: option.splits bool.splits)

lemma emit_north_frame:
  "same_outbox (store a) (store (emit_north k s p a))" "hub (emit_north k s p a) = hub a"
  "dead (emit_north k s p a) = dead a" "wire (emit_north k s p a) = wire a" "conn_seq (emit_north k s p a) = conn_seq a"
  "frame_text (emit_north k s p a) = frame_text a" "platform (emit_north k s p a) = platform a"
proof -
  show "same_outbox (store a) (store (emit_north k s p a))"
    using same_outbox_north [of "store a" k s p "now_ms (store a)"] same_outbox_append same_outbox_trans
    by (auto simp: emit_north_def Let_def split_beta split: option.split)
qed (simp_all add: emit_north_def Let_def split_beta)

lemma touch_same_outbox: "same_outbox d (touch_last_seen b d)"
  by (simp add: touch_last_seen_def touch_last_seen_at_def same_outbox_def)

lemma recover_health_frame:
  "same_outbox (store a) (store (recover_health b a))" "hub (recover_health b a) = hub a"
  "dead (recover_health b a) = dead a" "wire (recover_health b a) = wire a" "conn_seq (recover_health b a) = conn_seq a"
proof -
  have u: "same_outbox d (snd (update_bot_metadata b p d))" for d p
    by (simp add: update_bot_metadata_def same_outbox_def)
  show "same_outbox (store a) (store (recover_health b a))"
  proof (cases "find_bot b (store a)")
    case (Some r)
    let ?a1 = "on_store (\<lambda>d. snd (update_bot_metadata b (no_patch\<lparr>bp_health := Some ''ok''\<rparr>) d)) a"
    have "same_outbox (store a) (store ?a1)" unfolding on_store_def using u by simp
    then have "same_outbox (store a) (store (emit_north k s p ?a1))" for k s p
      by (rule same_outbox_trans) (rule emit_north_frame(1))
    with Some show ?thesis by (simp add: recover_health_def)
  qed (simp add: recover_health_def)
qed (simp_all add: recover_health_def emit_north_frame on_store_def split: option.split)

section \<open>Connections as a set\<close>

text \<open>
  The abstract view: which connections are registered. Generations are handed out in increasing
  order, so the current connection of a bot is the greatest registered one.
\<close>

definition conns :: "AppState \<Rightarrow> (string \<times> nat) set" where
  "conns a = {(b, g). \<exists>st. hub a b = Some st \<and> g \<in> set st}"

definition hub_inv :: "AppState \<Rightarrow> bool" where
  "hub_inv a \<longleftrightarrow> (\<forall>b st. hub a b = Some st \<longrightarrow> st \<noteq> [] \<and> sorted_wrt (<) st \<and> (\<forall>g \<in> set st. g < conn_seq a))"

lemma conns_stack: "hub a b = Some st \<Longrightarrow> {g. (b, g) \<in> conns a} = set st"
  by (auto simp: conns_def)

lemma sorted_last_Max: "st \<noteq> [] \<Longrightarrow> sorted_wrt (<) st \<Longrightarrow> last st = Max (set st)" for st :: "nat list"
proof (rule Max_eqI [symmetric])
  fix y assume a: "st \<noteq> []" "sorted_wrt (<) st" "y \<in> set st"
  then show "y \<le> last st"
    by (induction st rule: rev_induct) (auto simp: sorted_wrt_append)
qed simp_all

lemma current_conn_last: "hub a b = Some (st @ [g]) \<Longrightarrow> current_conn b a = Some g"
  by (cases st) (simp_all add: current_conn_def)

lemma current_is_greatest:
  assumes "hub_inv a"
  shows "current_conn b a = (if {g. (b, g) \<in> conns a} = {} then None else Some (Max {g. (b, g) \<in> conns a}))"
proof (cases "hub a b")
  case None
  then show ?thesis by (simp add: current_conn_def conns_def)
next
  case (Some st)
  then have st: "st \<noteq> []" "sorted_wrt (<) st" using assms by (auto simp: hub_inv_def)
  then have "current_conn b a = Some (last st)" using Some by (cases st) (simp_all add: current_conn_def)
  then show ?thesis using st conns_stack [OF Some] sorted_last_Max [OF st] by simp
qed

lemma register_conns:
  assumes "hub_inv a" and "register_conn b a = (g, a')"
  shows "hub_inv a'" "conns a' = insert (b, g) (conns a)" "g = conn_seq a" "(b, g) \<notin> conns a"
proof -
  let ?st = "case hub a b of None \<Rightarrow> [] | Some st \<Rightarrow> st"
  have h: "hub a' = (hub a)(b := Some (?st @ [conn_seq a]))" "conn_seq a' = Suc (conn_seq a)" and g: "g = conn_seq a"
    using assms(2) by (auto simp: register_conn_def Let_def on_store_def)
  have st: "sorted_wrt (<) ?st" "\<forall>x \<in> set ?st. x < conn_seq a"
    by (cases "hub a b"; use assms(1) in \<open>simp add: hub_inv_def\<close>)+
  then have new: "sorted_wrt (<) (?st @ [conn_seq a])" by (simp add: sorted_wrt_append)
  show "hub_inv a'" unfolding hub_inv_def h
  proof (intro allI impI)
    fix c s assume c: "((hub a)(b := Some (?st @ [conn_seq a]))) c = Some s"
    show "s \<noteq> [] \<and> sorted_wrt (<) s \<and> (\<forall>x \<in> set s. x < Suc (conn_seq a))"
    proof (cases "c = b")
      case True
      with c new st(2) show ?thesis by (auto simp: less_Suc_eq)
    next
      case False
      with c assms(1) show ?thesis by (auto simp: hub_inv_def less_Suc_eq)
    qed
  qed
  show "conns a' = insert (b, g) (conns a)" by (auto simp: conns_def h g split: option.splits if_splits)
  show "g = conn_seq a" by (rule g)
  show "(b, g) \<notin> conns a" using assms(1) g by (fastforce simp: conns_def hub_inv_def)
qed

lemma unregister_conns:
  assumes "hub_inv a" and "unregister_conn b g a = (off, a')"
  shows "hub_inv a'" "conns a' = conns a - {(b, g)}" "off \<longleftrightarrow> {x. (b, x) \<in> conns a} = {g}"
proof -
  consider (absent) "(b, g) \<notin> conns a" "a' = a" "\<not> off"
    | (present) st where "hub a b = Some st" "g \<in> set st" "off = (filter (\<lambda>x. x \<noteq> g) st = [])"
        "hub a' = (hub a)(b := (if filter (\<lambda>x. x \<noteq> g) st = [] then None else Some (filter (\<lambda>x. x \<noteq> g) st)))"
        "conn_seq a' = conn_seq a"
    using assms(2) by (auto simp: unregister_conn_def conns_def Let_def on_store_def split: option.splits if_splits)
  note cases = this
  from cases show "hub_inv a'"
  proof cases
    case (present st)
    let ?f = "filter (\<lambda>x. x \<noteq> g) st"
    have st: "sorted_wrt (<) st" "\<forall>x \<in> set st. x < conn_seq a" using assms(1) present(1) by (simp_all add: hub_inv_def)
    have f: "sorted_wrt (<) ?f" by (rule List.sorted_wrt_filter [OF st(1)])
    show ?thesis unfolding hub_inv_def present(4, 5)
    proof (intro allI impI)
      fix c s assume c: "((hub a)(b := (if ?f = [] then None else Some ?f))) c = Some s"
      show "s \<noteq> [] \<and> sorted_wrt (<) s \<and> (\<forall>x \<in> set s. x < conn_seq a)"
      proof (cases "c = b")
        case True
        with c f st(2) show ?thesis by (auto split: if_splits)
      next
        case False
        with c assms(1) show ?thesis by (auto simp: hub_inv_def)
      qed
    qed
  qed (use assms(1) in simp)
  from cases show "conns a' = conns a - {(b, g)}"
  proof cases
    case (present st)
    have "(c, x) \<in> conns a' \<longleftrightarrow> (c, x) \<in> conns a - {(b, g)}" for c x
    proof (cases "c = b")
      case True
      have "(b, x) \<in> conns a' \<longleftrightarrow> x \<in> set (filter (\<lambda>x. x \<noteq> g) st)"
        by (cases "filter (\<lambda>x. x \<noteq> g) st") (simp_all add: conns_def present(4))
      with True show ?thesis by (simp add: conns_def present(1))
    next
      case False
      then show ?thesis by (simp add: conns_def present(4))
    qed
    then show ?thesis by auto
  qed simp
  from cases show "off \<longleftrightarrow> {x. (b, x) \<in> conns a} = {g}"
  proof cases
    case (present st)
    then show ?thesis using conns_stack [OF present(1)] by (auto simp: filter_empty_conv)
  qed auto
qed

section \<open>Deliveries\<close>

text \<open>One addressed message: session, thread, sender, content, mentions and message id.\<close>

type_synonym parcel = "string \<times> string option \<times> SenderInfo \<times> Content \<times> string list \<times> string"

definition deliver :: "string \<Rightarrow> parcel \<Rightarrow> AppState \<Rightarrow> AppState" where
  "deliver b p a = (case p of (sid, tid, sender, content, mentions, mid) \<Rightarrow>
     snd (deliver_event b sid tid sender content mentions mid a))"

definition parcel_session :: "parcel \<Rightarrow> string" where "parcel_session p = fst p"
definition parcel_id :: "parcel \<Rightarrow> string" where "parcel_id p = snd (snd (snd (snd (snd p))))"

text \<open>The frame of a parcel under some event id.\<close>

definition frame_of :: "AppState \<Rightarrow> parcel \<Rightarrow> string \<Rightarrow> bool" where
  "frame_of a p f \<longleftrightarrow> (case p of (sid, tid, sender, content, mentions, mid) \<Rightarrow>
     \<exists>eid. f = frame_text a (gateway_event a eid sid tid sender content mentions mid))"

lemma deliver_queues:
  assumes "\<not> session_terminal (parcel_session p) (store a)"
  shows "\<exists>f u. frame_of a p f \<and> deliver b p a = snd (flush_outbox b
    (a\<lparr>store := enqueue_outbox b (parcel_session p) (b @ '':'' @ parcel_id p) f (store a\<lparr>uuid_next := u\<rparr>)\<rparr>))"
proof -
  obtain sid tid sender content mentions mid where p: "p = (sid, tid, sender, content, mentions, mid)" by (cases p)
  let ?eid = "''evt_'' @ uuid (store a) (uuid_next (store a))"
  show ?thesis
    using assms
    by (intro exI [of _ "frame_text a (gateway_event a ?eid sid tid sender content mentions mid)"]
        exI [of _ "Suc (uuid_next (store a))"])
      (auto simp: p deliver_def deliver_event_def parcel_session_def parcel_id_def frame_of_def new_id_def)
qed

lemma enqueue_offline:
  assumes "out_inv (store a)" and "\<not> live b a" and "\<not> session_terminal (parcel_session p) (store a)"
    and "b @ '':'' @ parcel_id p \<notin> outbox_keys (store a)"
  shows "\<exists>f n d. frame_of a p f \<and> deliver b p a = a\<lparr>store := d\<rparr> \<and> out_inv d
    \<and> pending_outbox b d = pending_outbox b (store a) @ [(n, f)]
    \<and> outbox_keys d = insert (b @ '':'' @ parcel_id p) (outbox_keys (store a)) \<and> now_ms d = now_ms (store a)
    \<and> (\<forall>s. session_terminal s d = session_terminal s (store a))"
proof -
  let ?k = "b @ '':'' @ parcel_id p"
  obtain f u where f: "frame_of a p f" and dl: "deliver b p a = snd (flush_outbox b
    (a\<lparr>store := enqueue_outbox b (parcel_session p) ?k f (store a\<lparr>uuid_next := u\<rparr>)\<rparr>))"
    using deliver_queues [OF assms(3)] by blast
  let ?base = "store a\<lparr>uuid_next := u\<rparr>"
  let ?d = "enqueue_outbox b (parcel_session p) ?k f ?base"
  have s: "same_outbox (store a) ?base" by (simp add: same_outbox_def)
  have q: "out_inv ?base" "?k \<notin> outbox_keys ?base" "pending_outbox b ?base = pending_outbox b (store a)"
    "outbox_keys ?base = outbox_keys (store a)"
    using assms(1, 4) same_outboxD [OF s] by simp_all
  obtain n where "pending_outbox b ?d = pending_outbox b (store a) @ [(n, f)]"
    using outq.enqueue_new [OF q(1, 2), of b "parcel_session p" f] q(3) by auto
  moreover have "deliver b p a = a\<lparr>store := ?d\<rparr>" using dl assms(2) by (simp add: flush_offline)
  moreover have "now_ms ?d = now_ms (store a)" "\<forall>s. session_terminal s ?d = session_terminal s (store a)"
    by (simp_all add: enqueue_outbox_def now_ms_def session_terminal_def session_def)
  moreover have "outbox_keys ?d = insert ?k (outbox_keys (store a))" using q(4) by simp
  ultimately show ?thesis using f out_inv_enqueue [OF q(1)] by blast
qed

lemma frame_of_cong: "frame_of (a\<lparr>store := d\<rparr>) p f = frame_of a p f" if "now_ms d = now_ms (store a)"
  using that by (simp add: frame_of_def gateway_event_def split: prod.split)

text \<open>Deliveries to an absent bot pile up in order.\<close>

lemma deliveries_offline:
  assumes "out_inv (store a)" and "\<not> live b a"
    and "\<And>p. p \<in> set ps \<Longrightarrow> \<not> session_terminal (parcel_session p) (store a)"
    and "\<And>p. p \<in> set ps \<Longrightarrow> b @ '':'' @ parcel_id p \<notin> outbox_keys (store a)" and "distinct (map parcel_id ps)"
  shows "\<exists>fs d. list_all2 (frame_of a) ps fs \<and> fold (deliver b) ps a = a\<lparr>store := d\<rparr> \<and> out_inv d
    \<and> map snd (pending_outbox b d) = map snd (pending_outbox b (store a)) @ fs"
  using assms
proof (induction ps arbitrary: a)
  case Nil
  then show ?case by (intro exI [of _ "[]"] exI [of _ "store a"]) simp
next
  case (Cons p ps)
  obtain f n d where f: "frame_of a p f" "deliver b p a = a\<lparr>store := d\<rparr>" "out_inv d"
    "pending_outbox b d = pending_outbox b (store a) @ [(n, f)]"
    "outbox_keys d = insert (b @ '':'' @ parcel_id p) (outbox_keys (store a))" "now_ms d = now_ms (store a)"
    "\<forall>s. session_terminal s d = session_terminal s (store a)"
    using enqueue_offline [OF Cons.prems(1, 2), of p] Cons.prems(3, 4) by (auto simp: list.set_intros)
  let ?a = "a\<lparr>store := d\<rparr>"
  have "\<exists>fs d'. list_all2 (frame_of ?a) ps fs \<and> fold (deliver b) ps ?a = ?a\<lparr>store := d'\<rparr> \<and> out_inv d'
    \<and> map snd (pending_outbox b d') = map snd (pending_outbox b (store ?a)) @ fs"
  proof (rule Cons.IH)
    show "out_inv (store ?a)" "\<not> live b ?a" using f(3) Cons.prems(2) by simp_all
    show "\<not> session_terminal (parcel_session q) (store ?a)" if "q \<in> set ps" for q using that Cons.prems(3) f(7) by simp
    show "b @ '':'' @ parcel_id q \<notin> outbox_keys (store ?a)" if "q \<in> set ps" for q
      using that Cons.prems(4, 5) f(5) by (auto simp: image_iff)
    show "distinct (map parcel_id ps)" using Cons.prems(5) by simp
  qed
  then obtain fs d' where "list_all2 (frame_of ?a) ps fs" "fold (deliver b) ps ?a = ?a\<lparr>store := d'\<rparr>" "out_inv d'"
    "map snd (pending_outbox b d') = map snd (pending_outbox b (store ?a)) @ fs" by blast
  moreover from this(1) have "list_all2 (frame_of a) ps fs"
    using f(6) by (simp add: frame_of_cong list_all2_conv_all_nth)
  ultimately show ?case using f by (intro exI [of _ "f # fs"] exI [of _ d']) simp
qed

text \<open>Delivering to a live bot empties its queue; a key the queue knows is not sent again.\<close>

lemma deliver_terminal: "session_terminal (parcel_session p) (store a) \<Longrightarrow> deliver b p a = a"
  by (cases p) (simp add: deliver_def deliver_event_def parcel_session_def)

lemma deliver_live:
  assumes "out_inv (store a)" and "live b a" and "\<not> session_terminal (parcel_session p) (store a)"
  shows "out_inv (store (deliver b p a)) \<and> live b (deliver b p a) \<and> pending_outbox b (store (deliver b p a)) = []
    \<and> b @ '':'' @ parcel_id p \<in> outbox_keys (store (deliver b p a))"
proof -
  let ?k = "b @ '':'' @ parcel_id p"
  obtain f u where dl: "deliver b p a = snd (flush_outbox b
    (a\<lparr>store := enqueue_outbox b (parcel_session p) ?k f (store a\<lparr>uuid_next := u\<rparr>)\<rparr>))"
    using deliver_queues [OF assms(3)] by blast
  let ?d = "enqueue_outbox b (parcel_session p) ?k f (store a\<lparr>uuid_next := u\<rparr>)"
  have "same_outbox (store a) (store a\<lparr>uuid_next := u\<rparr>)" by (simp add: same_outbox_def)
  then have i: "out_inv ?d" using assms(1) by (intro out_inv_enqueue) (simp add: same_outboxD)
  obtain g where g: "current_conn b (a\<lparr>store := ?d\<rparr>) = Some g" using assms(2) by (auto simp: live_def split: option.splits)
  have l: "live b (a\<lparr>store := ?d\<rparr>)" using assms(2) by simp
  show ?thesis unfolding dl flush_live [OF l g] using assms(2) flushed_queue [OF i, of b] by simp
qed

lemma deliver_known:
  assumes "out_inv (store a)" and "live b a" and "pending_outbox b (store a) = []"
    and "b @ '':'' @ parcel_id p \<in> outbox_keys (store a)"
  shows "wire (deliver b p a) = wire a"
proof (cases "session_terminal (parcel_session p) (store a)")
  case True
  then show ?thesis by (simp add: deliver_terminal)
next
  case False
  let ?k = "b @ '':'' @ parcel_id p"
  obtain f u where dl: "deliver b p a = snd (flush_outbox b
    (a\<lparr>store := enqueue_outbox b (parcel_session p) ?k f (store a\<lparr>uuid_next := u\<rparr>)\<rparr>))"
    using deliver_queues [OF False] by blast
  have s: "same_outbox (store a) (store a\<lparr>uuid_next := u\<rparr>)" by (simp add: same_outbox_def)
  have e: "enqueue_outbox b (parcel_session p) ?k f (store a\<lparr>uuid_next := u\<rparr>) = store a\<lparr>uuid_next := u\<rparr>"
    using assms(4) by (intro enqueue_outbox_known) (simp add: same_outboxD [OF s])
  show ?thesis unfolding dl e using assms(3) by (simp add: flush_outbox_def same_outboxD [OF s])
qed

section \<open>Properties\<close>

text \<open>
  The connection stacks implement a set of connections: registering adds a fresh one,
  unregistering removes exactly that one and reports whether it was the bot's last, the bot counts
  as connected exactly while the set has a connection of it, and frames go to the newest connection
  that is still registered, so an older one takes over when the newest drops.
\<close>

theorem hub_refines_connection_set:
  assumes "hub_inv a"
  shows "(let (g, a') = register_conn b a in hub_inv a' \<and> (b, g) \<notin> conns a \<and> conns a' = insert (b, g) (conns a)
        \<and> current_conn b a' = Some g)
    \<and> (let (off, a') = unregister_conn b g a in hub_inv a' \<and> conns a' = conns a - {(b, g)}
        \<and> (off \<longleftrightarrow> {x. (b, x) \<in> conns a} = {g}))
    \<and> (is_connected b a \<longleftrightarrow> (\<exists>x. (b, x) \<in> conns a))
    \<and> current_conn b a = (if {x. (b, x) \<in> conns a} = {} then None else Some (Max {x. (b, x) \<in> conns a}))"
proof -
  obtain g1 a1 where r: "register_conn b a = (g1, a1)" by force
  obtain off a2 where u: "unregister_conn b g a = (off, a2)" by force
  have "current_conn b a1 = Some g1"
    using r by (intro current_conn_last) (auto simp: register_conn_def Let_def on_store_def)
  moreover have "is_connected b a \<longleftrightarrow> (\<exists>x. (b, x) \<in> conns a)"
  proof (cases "hub a b")
    case (Some st)
    then have "st \<noteq> []" using assms by (simp add: hub_inv_def)
    then show ?thesis using Some by (cases st) (auto simp: is_connected_def conns_def)
  qed (simp add: is_connected_def conns_def)
  ultimately show ?thesis
    using register_conns [OF assms r] unregister_conns [OF assms u] current_is_greatest [OF assms, of b] r u by simp
qed

definition example_app :: AppState where
  "example_app = \<lparr>store = empty_db, hub = (\<lambda>_. None), conn_seq = 0, dead = [], wire = [], north = [],
    platform = ''feishu'', frame_text = ge_message_id, last_store_ok_ms = 0, compatibility_seen = [],
    council_roster = [''chair'', ''rev1'', ''rev2''], close_webhook_url = None, webhooks = [], recruit_seen = (\<lambda>_. []),
    intent_seen = (\<lambda>_ _. []), response_text = gp_request_id, env = (\<lambda>_. None)\<rparr>"

theorem hub_refines_connection_set_witness:
  "hub_inv example_app \<and> conns (snd (register_conn ''b'' example_app)) = {(''b'', 0)}
    \<and> fst (unregister_conn ''b'' 0 (snd (register_conn ''b'' example_app)))"
proof -
  let ?a = "snd (register_conn ''b'' example_app)"
  have i: "hub_inv example_app" and c: "conns example_app = {}" by (simp_all add: hub_inv_def conns_def example_app_def)
  obtain g a' where r: "register_conn ''b'' example_app = (g, a')" by force
  have g: "g = 0" using r by (simp add: register_conn_def example_app_def Let_def)
  from hub_refines_connection_set [OF i, of "''b''" 0] r c g
  have a: "hub_inv ?a" "conns ?a = {(''b'', 0)}" by simp_all
  obtain off a2 where u: "unregister_conn ''b'' 0 ?a = (off, a2)" by force
  from hub_refines_connection_set [OF a(1), of "''b''" 0] u a(2) have off by simp
  with u i a show ?thesis by simp
qed

text \<open>
  C35. A bot that was away gets everything, in order, once: however many messages of open sessions are
  addressed to it while it has no connection, its next connection receives first what was already
  queued and then exactly those frames in their order, and its queue is empty afterwards.
\<close>

theorem reconnect_delivers_in_order:
  assumes "out_inv (store a)" and "hub a b = None" and "conn_seq a \<notin> set (dead a)"
    and "\<forall>p \<in> set ps. \<not> session_terminal (parcel_session p) (store a) \<and> b @ '':'' @ parcel_id p \<notin> outbox_keys (store a)"
    and "distinct (map parcel_id ps)" and "conn_opened b (fold (deliver b) ps a) = (g, a')"
  shows "\<exists>fs. list_all2 (frame_of a) ps fs
    \<and> wire a' = wire a @ map (Pair g) (map snd (pending_outbox b (store a)) @ fs) \<and> pending_outbox b (store a') = []"
proof -
  have off: "\<not> live b a" using assms(2) by (simp add: live_def current_conn_def)
  obtain fs d where fs: "list_all2 (frame_of a) ps fs" and fd: "fold (deliver b) ps a = a\<lparr>store := d\<rparr>" and d: "out_inv d"
    "map snd (pending_outbox b d) = map snd (pending_outbox b (store a)) @ fs"
    using deliveries_offline [OF assms(1) off, of ps] assms(4, 5) by blast
  obtain g1 a1 where r: "register_conn b (a\<lparr>store := d\<rparr>) = (g1, a1)" by force
  have h1: "hub a1 b = Some [conn_seq a]" "dead a1 = dead a" "wire a1 = wire a" "g1 = conn_seq a"
    and s1: "same_outbox d (store a1)"
    using r assms(2) same_outbox_append [of d] by (auto simp: register_conn_def Let_def on_store_def)
  let ?a2 = "recover_health b (on_store (touch_last_seen b) a1)"
  have s2: "same_outbox d (store ?a2)"
  proof -
    have "same_outbox d (store (on_store (touch_last_seen b) a1))"
      using same_outbox_trans [OF s1 touch_same_outbox] by (simp add: on_store_def)
    then show ?thesis by (rule same_outbox_trans) (rule recover_health_frame(1))
  qed
  have c2: "current_conn b ?a2 = Some g1" and l2: "live b ?a2"
    using h1 assms(3) by (simp_all add: current_conn_def live_def recover_health_frame on_store_def)
  have q: "pending_outbox b (store ?a2) = pending_outbox b d" "out_inv (store ?a2)" using same_outboxD [OF s2] d(1) by simp_all
  have a': "a' = snd (flush_outbox b ?a2)" and g: "g = g1"
    using assms(6) r by (auto simp: conn_opened_def Let_def fd)
  have "wire ?a2 = wire a" using h1(3) by (simp add: recover_health_frame) (simp add: on_store_def)
  then have "wire a' = wire a @ map (\<lambda>p. (g, snd p)) (pending_outbox b d)"
    unfolding a' g flush_live [OF l2 c2] by (simp add: q)
  then have "wire a' = wire a @ map (Pair g) (map snd (pending_outbox b (store a)) @ fs)"
    unfolding d(2) [symmetric] by (simp add: comp_def)
  moreover have "pending_outbox b (store a') = []" by (simp add: a' flush_live [OF l2 c2] flushed_queue [OF q(2)])
  ultimately show ?thesis using fs by blast
qed

definition example_parcels :: "parcel list" where
  "example_parcels = map (\<lambda>m. (''s'', None, \<lparr>si_id = ''x'', si_name = ''x'', si_display_name = ''x'', si_is_bot = False\<rparr>,
    text_content m, [], m)) [''m1'', ''m2'']"

theorem reconnect_delivers_in_order_witness:
  "wire (snd (conn_opened ''b'' (fold (deliver ''b'') example_parcels example_app))) = [(0, ''m1''), (0, ''m2'')]"
proof -
  obtain g a' where c: "conn_opened ''b'' (fold (deliver ''b'') example_parcels example_app) = (g, a')" by force
  have "out_inv (store example_app)" "outbox_keys (store example_app) = {}" "pending_outbox ''b'' (store example_app) = []"
    using empty_db_inv by (simp_all add: example_app_def db_inv_def outbox_keys_def empty_db_def pending_outbox_def)
  moreover have "\<forall>p \<in> set example_parcels. \<not> session_terminal (parcel_session p) (store example_app)"
    by (simp add: example_parcels_def session_terminal_def session_def example_app_def empty_db_def)
  moreover have "distinct (map parcel_id example_parcels)" by (simp add: example_parcels_def parcel_id_def)
  ultimately obtain fs where fs: "list_all2 (frame_of example_app) example_parcels fs" "wire a' = map (Pair g) fs"
    using reconnect_delivers_in_order [of example_app "''b''" example_parcels g a'] c
    by (auto simp: example_app_def)
  have f: "frame_of example_app p x \<Longrightarrow> x = parcel_id p" for p x
    by (auto simp: frame_of_def example_app_def gateway_event_def parcel_id_def split: prod.splits)
  have "fs = map parcel_id example_parcels" using fs(1)
    by (induction rule: list_all2_induct) (auto dest: f)
  moreover have "g = 0"
  proof -
    have "conn_seq (deliver ''b'' p a) = conn_seq a" if "hub a ''b'' = None" for p a
      using that by (auto simp: deliver_def deliver_event_def Let_def flush_offline live_def current_conn_def split: prod.split)
    moreover have "hub (deliver ''b'' p a) = hub a" if "hub a ''b'' = None" for p a
      using that by (auto simp: deliver_def deliver_event_def Let_def flush_offline live_def current_conn_def split: prod.split)
    ultimately show ?thesis using c
      by (auto simp: conn_opened_def register_conn_def Let_def example_parcels_def example_app_def)
  qed
  ultimately show ?thesis using c fs(2) by (simp add: example_parcels_def parcel_id_def)
qed



text \<open>
  Generations restart with the process, and a journal key is the kind, the bot and the generation:
  the first connection of a bot after a restart is not journalled when its first connection before
  the restart was.
\<close>

definition restarted :: "AppState \<Rightarrow> AppState" where
  "restarted a = a\<lparr>hub := (\<lambda>_. None), conn_seq := 0, dead := [], compatibility_seen := [], recruit_seen := (\<lambda>_. []),
    intent_seen := (\<lambda>_ _. [])\<rparr>"

lemma append_recorded: "audit_recorded e d \<Longrightarrow> append_or_warn e d = d"
  by (simp add: append_or_warn_def append_audit_event_def append_audit_event_locked_def split: sum.split option.split)

lemma append_records:
  assumes "validate e = Inr ()"
  shows "audit_recorded e (append_or_warn e d)"
proof (cases "audit_recorded e d")
  case False
  let ?r = "\<lparr>aer_seq = audit_seq d + 1, aer_event = e\<rparr>"
  let ?d = "d\<lparr>audit_events := audit_events d @ [?r], audit_seq := audit_seq d + 1\<rparr>"
  have "\<exists>x \<in> set (audit_events ?d). av_service (aer_event x) = av_service e \<and> av_event_key (aer_event x) = av_event_key e"
    by (rule bexI [of _ ?r]) simp_all
  then have "find (\<lambda>r. av_service (aer_event r) = av_service e \<and> av_event_key (aer_event r) = av_event_key e) (audit_events ?d) \<noteq> None"
    unfolding find_None_iff by blast
  then have "append_or_warn e d = ?d"
    using False assms by (auto simp: append_or_warn_def append_audit_event_def append_audit_event_locked_def split: option.split)
  then show ?thesis by (simp add: audit_recorded_def)
qed (simp add: append_recorded)

lemma restart_repeats_journal_key:
  assumes "conn_seq a = 0" and "validate (bot_connection_audit_event (store a) b 0 ''bot.connected'') = Inr ()"
  shows "audit_events (store (snd (register_conn b (restarted (on_store (\<lambda>d. d\<lparr>now := t\<rparr>) (snd (register_conn b a)))))))
    = audit_events (store (snd (register_conn b a)))"
proof -
  let ?e = "\<lambda>d. bot_connection_audit_event d b 0 ''bot.connected''"
  let ?a1 = "snd (register_conn b a)"
  let ?d = "store ?a1\<lparr>now := t\<rparr>"
  have "store ?a1 = append_or_warn (?e (store a)) (store a)"
    using assms(1) by (simp add: register_conn_def Let_def on_store_def)
  then have "audit_recorded (?e (store a)) ?d" using append_records [OF assms(2), of "store a"] by (simp add: audit_recorded_def)
  then have "audit_recorded (?e ?d) ?d" by (simp add: audit_recorded_def bot_connection_audit_event_def Let_def)
  moreover have "store (snd (register_conn b (restarted (on_store (\<lambda>d. d\<lparr>now := t\<rparr>) ?a1)))) = append_or_warn (?e ?d) ?d"
    by (simp add: register_conn_def restarted_def Let_def on_store_def)
  ultimately show ?thesis by (simp add: append_recorded)
qed

end
