(* ===== verification/Orchestrator.thy ===== *)
theory Orchestrator
  imports Coordination Hub
begin

text \<open>
  The orchestrator (\<^verbatim>\<open>src/orchestrator.rs\<close>): what the plane does with a client message, with every
  reply of a bot, with the actions a coordinator returns, with silent bots and with stale sessions.
  A handler is an \<open>op\<close>: from a runtime state to an error or a result, together with the state it
  leaves, because a handler that fails half way keeps what its earlier transactions committed.
  Each store call is one transaction: it commits or leaves the database as it was. Log lines are
  not modelled; the journal, the north stream, the wire and the webhook are.
\<close>

section \<open>Handlers as state passing operations\<close>

datatype op_err =
    StoreFailed store_err
  | UnknownSession string
  | ReopenRefused string
  | DepthExceeded

type_synonym 'a op = "AppState \<Rightarrow> (op_err + 'a) \<times> AppState"

definition retA :: "'a \<Rightarrow> 'a op" where
  "retA x a = (Inr x, a)"

definition failA :: "op_err \<Rightarrow> 'a op" where
  "failA e a = (Inl e, a)"

definition bindA :: "'a op \<Rightarrow> ('a \<Rightarrow> 'b op) \<Rightarrow> 'b op" where
  "bindA m f a = (case m a of (Inl e, a1) \<Rightarrow> (Inl e, a1) | (Inr x, a1) \<Rightarrow> f x a1)"

definition seqA :: "unit op \<Rightarrow> 'b op \<Rightarrow> 'b op" where
  "seqA m k = bindA m (\<lambda>_. k)"

definition getA :: "(AppState \<Rightarrow> 'a) \<Rightarrow> 'a op" where
  "getA f a = (Inr (f a), a)"

definition readA :: "(db \<Rightarrow> 'a) \<Rightarrow> 'a op" where
  "readA f = getA (\<lambda>a. f (store a))"

definition modA :: "(AppState \<Rightarrow> AppState) \<Rightarrow> unit op" where
  "modA f a = (Inr (), f a)"

text \<open>A store transaction that may fail, one that cannot, and one without a result.\<close>

definition callA :: "(db \<Rightarrow> 'a res) \<Rightarrow> 'a op" where
  "callA f a = (case f (store a) of Inl e \<Rightarrow> (Inl (StoreFailed e), a) | Inr (x, d) \<Rightarrow> (Inr x, a\<lparr>store := d\<rparr>))"

definition execA :: "(db \<Rightarrow> 'a \<times> db) \<Rightarrow> 'a op" where
  "execA f a = (Inr (fst (f (store a))), a\<lparr>store := snd (f (store a))\<rparr>)"

definition writeA :: "(db \<Rightarrow> db) \<Rightarrow> unit op" where
  "writeA f = modA (on_store f)"

fun forA :: "('b \<Rightarrow> unit op) \<Rightarrow> 'b list \<Rightarrow> unit op" where
  "forA f [] = retA ()"
| "forA f (x # xs) = seqA (f x) (forA f xs)"

definition emitA :: "string \<Rightarrow> string \<Rightarrow> json \<Rightarrow> unit op" where
  "emitA event sid payload = modA (emit_north event sid payload)"

definition deliverA ::
  "string \<Rightarrow> string \<Rightarrow> string option \<Rightarrow> SenderInfo \<Rightarrow> Content \<Rightarrow> string list \<Rightarrow> string \<Rightarrow> unit op" where
  "deliverA bot_id sid thread sender content mentions mid =
    modA (\<lambda>a. snd (deliver_event bot_id sid thread sender content mentions mid a))"

text \<open>Running the steps of a handler one after the other.\<close>

named_theorems run \<open>what a handler does in a given state\<close>

lemma run_simps [run]:
  "bindA (readA f) k a = k (f (store a)) a" "bindA (getA g) k a = k (g a) a" "bindA (retA x) k a = k x a"
  "bindA (failA e) k a = (Inl e, a)" "bindA (execA h) k a = k (fst (h (store a))) (a\<lparr>store := snd (h (store a))\<rparr>)"
  "seqA (modA m) j a = j (m a)" "seqA (writeA w) j a = j (on_store w a)" "seqA (retA ()) j a = j a"
  "retA x a = (Inr x, a)"
  by (simp_all add: bindA_def readA_def getA_def retA_def failA_def execA_def seqA_def modA_def writeA_def)

lemma run_call [run]:
  "bindA (callA f) k a = (case f (store a) of Inl e \<Rightarrow> (Inl (StoreFailed e), a) | Inr (x, d) \<Rightarrow> k x (a\<lparr>store := d\<rparr>))"
  by (simp add: bindA_def callA_def split: sum.split prod.split)

section \<open>Configuration read from the environment\<close>

definition parse_usize :: "string \<Rightarrow> nat option" where
  "parse_usize s =
    (let digits = (case s of c # t \<Rightarrow> if c = CHR ''+'' then t else s | [] \<Rightarrow> [])
     in if digits = [] then None
        else (case digits_val 0 digits of None \<Rightarrow> None | Some n \<Rightarrow> if n < 2 ^ 64 then Some n else None))"

definition env_positive :: "string \<Rightarrow> nat \<Rightarrow> AppState \<Rightarrow> nat" where
  "env_positive name dflt a =
    (case Option.bind (env a name) parse_usize of Some n \<Rightarrow> if n > 0 then n else dflt | None \<Rightarrow> dflt)"

definition max_roster :: "AppState \<Rightarrow> nat" where
  "max_roster = env_positive ''OABCP_MAX_ROSTER'' 16"

definition recruit_session_cap :: "AppState \<Rightarrow> nat" where
  "recruit_session_cap = env_positive ''OABCP_RECRUIT_SESSION_CAP'' 5"

definition intent_session_cap :: "AppState \<Rightarrow> nat" where
  "intent_session_cap = env_positive ''OABCP_INTENT_SESSION_CAP'' 32"

definition backfill_max :: "AppState \<Rightarrow> nat option" where
  "backfill_max a =
    (let cap = (case Option.bind (env a ''OABCP_BACKFILL_MAX'') parse_usize of Some n \<Rightarrow> n | None \<Rightarrow> 40)
     in if cap > 0 then Some cap else None)"

definition health_error_threshold :: "AppState \<Rightarrow> int" where
  "health_error_threshold a =
    (case Option.bind (env a ''OABCP_HEALTH_ERROR_THRESHOLD'') parse_i64 of
       Some n \<Rightarrow> if n \<ge> 1 then n else 3
     | None \<Rightarrow> 3)"

definition auto_failover_enabled :: "AppState \<Rightarrow> bool" where
  "auto_failover_enabled a \<longleftrightarrow> env a ''OABCP_AUTO_FAILOVER'' \<in> {Some ''1'', Some ''true''}"

section \<open>Small helpers\<close>

definition target_msg :: "GatewayReply \<Rightarrow> string option" where
  "target_msg reply = (if gr_reply_to reply \<noteq> [] then Some (gr_reply_to reply) else gr_quote_message_id reply)"

definition bot_sender :: "string \<Rightarrow> string \<Rightarrow> SenderInfo" where
  "bot_sender bid name = \<lparr>si_id = bid, si_name = name, si_display_name = name, si_is_bot = True\<rparr>"

definition named_sender :: "string \<Rightarrow> SenderInfo" where
  "named_sender n = \<lparr>si_id = n, si_name = n, si_display_name = n, si_is_bot = False\<rparr>"

definition bot_name_of :: "string \<Rightarrow> db \<Rightarrow> string" where
  "bot_name_of bid d = (case bot_of bid d of Some b \<Rightarrow> bt_name b | None \<Rightarrow> [])"

definition sender_for :: "AppState \<Rightarrow> Message \<Rightarrow> SenderInfo" where
  "sender_for a m =
    (if m_author_kind m = ''bot''
     then let bid = (case m_author_id m of Some i \<Rightarrow> i | None \<Rightarrow> []) in bot_sender bid (bot_name_of bid (store a))
     else if m_author_kind m = ''system'' then named_sender ''system''
     else named_sender ''client'')"

definition list_bots :: "db \<Rightarrow> BotRow list" where
  "list_bots d = sort_key b_id (bots d)"

definition chair_latest_settled :: "string \<Rightarrow> string \<Rightarrow> db \<Rightarrow> string option" where
  "chair_latest_settled sid bot_id d =
    map_option m_content (find (\<lambda>m. m_author_id m = Some bot_id \<and> is_settled_content (m_content m)) (rev (messages sid d)))"

definition synthesis_attempts :: "string \<Rightarrow> db \<Rightarrow> int" where
  "synthesis_attempts sid d =
    int (count_where (\<lambda>m. m_author_kind m = ''system'' \<and> starts_with ''Quorum reached.'' (m_content m)) (messages sid d))"

definition chair_candidates :: "AppState \<Rightarrow> string list" where
  "chair_candidates a =
    sort (map b_id (filter (\<lambda>b. b_role b = ''chair'' \<and> b_enabled b \<and> b_health b = ''ok'' \<and> is_connected (b_id b) a)
      (list_bots (store a))))"

definition OrchCtx :: "AppState \<Rightarrow> Session \<Rightarrow> string list \<Rightarrow> Ctx" where
  "OrchCtx a s rost =
    \<lparr>cx_session_id = s_id s, cx_roster = rost, cx_chair = s_chair_bot s, cx_quorum_n = s_quorum_n s,
     cx_done_voters = done_voters (s_id s) (store a),
     cx_latest_settled = (\<lambda>b. chair_latest_settled (s_id s) b (store a)),
     cx_state = from_db_str (s_state s), cx_trigger_ref = s_trigger_ref s,
     cx_synthesis_attempts = synthesis_attempts (s_id s) (store a),
     cx_chair_candidates = chair_candidates a\<rparr>"

definition closed_state :: "Session \<Rightarrow> bool" where
  "closed_state s \<longleftrightarrow> terminal (from_db_str (s_state s))"

section \<open>Closing effects\<close>

definition close_webhook_payload :: "Session option \<Rightarrow> string \<Rightarrow> string list \<Rightarrow> string \<Rightarrow> string \<Rightarrow> int \<Rightarrow> json" where
  "close_webhook_payload s sid rost verdict reason ts =
    JObj [(''event'', JStr ''session.closed''), (''session_id'', JStr sid),
      (''trigger_ref'', jopt (Option.bind s s_trigger_ref)), (''mode'', jopt (map_option s_mode s)),
      (''verdict'', JStr verdict), (''reason'', JStr reason), (''roster'', jstrs rost),
      (''decision'', jopt (Option.bind s s_decision)), (''findings_red'', jopt_num (Option.bind s s_findings_red)),
      (''findings_yellow'', jopt_num (Option.bind s s_findings_yellow)),
      (''findings_green'', jopt_num (Option.bind s s_findings_green)), (''ts'', JNum ts)]"

definition fire_close_webhook :: "string \<Rightarrow> string \<Rightarrow> string \<Rightarrow> AppState \<Rightarrow> AppState" where
  "fire_close_webhook sid verdict reason a =
    (case close_webhook_url a of
      None \<Rightarrow> a
    | Some url \<Rightarrow> a\<lparr>webhooks := webhooks a @ [close_webhook_payload (session sid (store a)) sid (roster sid (store a))
        verdict reason (now_ms (store a))]\<rparr>)"

definition purge_session_outbox_after_close :: "string \<Rightarrow> AppState \<Rightarrow> AppState" where
  "purge_session_outbox_after_close sid = on_store (purge_outbox_for_session sid)"

definition closed_effects :: "string \<Rightarrow> string \<Rightarrow> unit op" where
  "closed_effects sid reason =
    seqA (modA (purge_session_outbox_after_close sid))
    (seqA (emitA ''state'' sid (JObj [(''state'', JStr ''closed''), (''reason'', JStr reason)]))
    (modA (fire_close_webhook sid [] reason)))"

definition handle_superseded_session :: "string \<Rightarrow> unit op" where
  "handle_superseded_session sid = closed_effects sid ''superseded''"

definition close_session_by_controller :: "string \<Rightarrow> string \<Rightarrow> bool op" where
  "close_session_by_controller sid reason =
    bindA (readA (session sid)) (\<lambda>s. case s of
      None \<Rightarrow> failA (UnknownSession sid)
    | Some _ \<Rightarrow>
        bindA (callA (close_if_active sid ''session.terminal'' reason None)) (\<lambda>won.
        if \<not> won then retA False
        else seqA (closed_effects sid reason) (retA True)))"

definition dispatch_coordinator :: "Session \<Rightarrow> Coordinator option op" where
  "dispatch_coordinator s =
    (case lookup (s_mode s) of
      Some coord \<Rightarrow> retA (Some coord)
    | None \<Rightarrow>
        seqA (emitA ''dispatch_error'' (s_id s) (JObj [(''mode'', JStr (s_mode s)), (''reason'', JStr ''unknown_mode'')]))
        (bindA (callA (close_if_active (s_id s) ''session.terminal'' ''unknown_mode'' None)) (\<lambda>won.
         seqA (if won then closed_effects (s_id s) ''unknown_mode'' else retA ()) (retA None))))"

definition timeout_note :: "nat \<Rightarrow> nat \<Rightarrow> string list \<Rightarrow> string" where
  "timeout_note n size_of_roster absent =
    ''TIMEOUT: session closed by watchdog '' @ EM_DASH @ '' '' @ nat_str n @ ''/'' @ nat_str size_of_roster @ '' signaled done.''
    @ (if absent = [] then [] else '' Absent: '' @ join '', '' absent @ ''.'')"

definition force_close_timeout :: "string \<Rightarrow> int \<Rightarrow> bool op" where
  "force_close_timeout sid stale_before =
    bindA (callA (close_if_active sid ''session.timeout'' ''timeout'' (Some stale_before))) (\<lambda>won.
    if \<not> won then retA False
    else
      seqA (modA (purge_session_outbox_after_close sid))
      (bindA (readA (session sid)) (\<lambda>s.
       bindA (readA (roster sid)) (\<lambda>rost.
       bindA (readA (done_voters sid)) (\<lambda>voters.
       bindA (readA (\<lambda>d. Option.bind (Option.bind s s_chair_bot) (\<lambda>chair. chair_latest_settled sid chair d))) (\<lambda>chair_final.
       let absent = filter (\<lambda>b. b \<notin> set voters) rost;
           note = timeout_note (length voters) (length rost) absent;
           verdict = (case chair_final of
               Some v \<Rightarrow> note @ [CHR 0x0A, CHR 0x0A] @ v
             | None \<Rightarrow> note @ '' (No verdict synthesized; reviews are in the thread.)'')
       in seqA (emitA ''timeout'' sid (JObj [(''reason'', JStr ''timeout''), (''done'', JNum (int (length voters))),
              (''total'', JNum (int (length rost))), (''absent'', jstrs absent),
              (''trigger_ref'', jopt (Option.bind s s_trigger_ref)), (''verdict'', JStr verdict)]))
          (seqA (emitA ''verdict'' sid (JObj [(''text'', JStr verdict), (''reason'', JStr ''timeout'')]))
          (seqA (emitA ''state'' sid (JObj [(''state'', JStr ''closed'')]))
          (seqA (modA (fire_close_webhook sid verdict ''timeout'')) (retA True))))))))))"

section \<open>Membership\<close>

datatype Admission = AdmAdded | AlreadyMember | AdmRejected string
datatype BatchAdmission = BatchAdded "string list" "string list" | BatchRejected string
datatype Replacement = Replaced | Noop | RepRejected string

definition admit :: "bool \<Rightarrow> bool \<Rightarrow> nat \<Rightarrow> nat \<Rightarrow> Admission" where
  "admit known already_member roster_len cap =
    (if already_member then AlreadyMember
     else if \<not> known then AdmRejected ''unknown bot''
     else if roster_len \<ge> cap then AdmRejected ''roster full''
     else AdmAdded)"

definition eligible_for :: "string \<Rightarrow> string option \<Rightarrow> Message \<Rightarrow> bool" where
  "eligible_for bot_id audience_alias m \<longleftrightarrow>
    m_author_kind m \<noteq> ''status'' \<and> m_author_id m \<noteq> Some bot_id
    \<and> (case m_audience m of None \<Rightarrow> True | Some aud \<Rightarrow> aud = bot_id \<or> audience_alias = Some aud)"

text \<open>The most recent rows under the cap, with the opening client message pinned in front.\<close>

definition select_backfill :: "nat option \<Rightarrow> Message list \<Rightarrow> Message list" where
  "select_backfill cap eligible =
    (case cap of
      None \<Rightarrow> eligible
    | Some n \<Rightarrow>
        if length eligible > n then
          (case find (\<lambda>m. m_author_kind m = ''client'') eligible of
            Some trig \<Rightarrow> trig # rev (take (n - 1) (filter (\<lambda>m. m_id m \<noteq> m_id trig) (rev eligible)))
          | None \<Rightarrow> rev (take n (rev eligible)))
        else eligible)"

definition backfill_bot_with_audience_alias :: "string \<Rightarrow> string \<Rightarrow> string option \<Rightarrow> unit op" where
  "backfill_bot_with_audience_alias sid bot_id audience_alias =
    bindA (readA (session sid)) (\<lambda>so. case so of
      None \<Rightarrow> failA (UnknownSession sid)
    | Some s \<Rightarrow>
        bindA (readA (thread_for_session sid)) (\<lambda>thread.
        bindA (readA (\<lambda>d. filter (eligible_for bot_id audience_alias) (messages sid d))) (\<lambda>eligible.
        bindA (getA (\<lambda>a. select_backfill (backfill_max a) eligible)) (\<lambda>selected.
        bindA (dispatch_coordinator s) (\<lambda>co. case co of
          None \<Rightarrow> retA ()
        | Some coord \<Rightarrow>
            bindA (readA (roster sid)) (\<lambda>rost.
            forA (\<lambda>m.
              bindA (getA (\<lambda>a. (sender_for a m,
                  if m_author_kind m = ''client'' then recipient_trigger_text coord (OrchCtx a s rost) bot_id (m_content m)
                  else m_content m))) (\<lambda>(sender, content).
              deliverA bot_id sid thread sender (text_content content) [] (m_id m))) selected))))))"

definition backfill_bot :: "string \<Rightarrow> string \<Rightarrow> unit op" where
  "backfill_bot sid bot_id = backfill_bot_with_audience_alias sid bot_id None"

definition add_to_roster :: "string \<Rightarrow> string \<Rightarrow> Admission op" where
  "add_to_roster sid bot_id =
    bindA (readA (session sid)) (\<lambda>so. case so of
      None \<Rightarrow> failA (UnknownSession sid)
    | Some _ \<Rightarrow>
        bindA (readA (roster sid)) (\<lambda>rost.
        bindA (getA (\<lambda>a. admit (bot_of bot_id (store a) \<noteq> None) (bot_id \<in> set rost) (length rost) (max_roster a))) (\<lambda>decision.
        if decision \<noteq> AdmAdded then retA decision
        else
          bindA (execA (add_session_bot sid bot_id)) (\<lambda>fresh.
          if \<not> fresh then retA AlreadyMember
          else
            seqA (backfill_bot sid bot_id)
            (seqA (emitA ''roster_add'' sid (JObj [(''bot'', JStr bot_id)])) (retA AdmAdded))))))"

definition add_to_roster_batch :: "string \<Rightarrow> string list \<Rightarrow> OpeningInput list \<Rightarrow> BatchAdmission op" where
  "add_to_roster_batch sid bot_ids opening_inputs =
    bindA (readA (session sid)) (\<lambda>so. case so of
      None \<Rightarrow> failA (UnknownSession sid)
    | Some s \<Rightarrow>
        if closed_state s then retA (BatchRejected ''terminal session'')
        else
          bindA (readA (\<lambda>d. list_ex (\<lambda>b. bot_of b d = None) bot_ids)) (\<lambda>unknown.
          if unknown then retA (BatchRejected ''unknown bot'')
          else
            bindA (getA max_roster) (\<lambda>cap.
            bindA (callA (add_session_bots_if_capacity sid bot_ids cap opening_inputs)) (\<lambda>outcome. case outcome of
              Full \<Rightarrow> retA (BatchRejected ''roster full'')
            | Added added already_members \<Rightarrow>
                seqA (forA (\<lambda>b. seqA (backfill_bot sid b) (emitA ''roster_add'' sid (JObj [(''bot'', JStr b)]))) added)
                (retA (BatchAdded added already_members))))))"

text \<open>Why a replacement is refused, in the order the code checks.\<close>

definition replacement_refusal :: "Session \<Rightarrow> string \<Rightarrow> string \<Rightarrow> db \<Rightarrow> string option" where
  "replacement_refusal s old_bot_id new_bot_id d =
    (if closed_state s then Some ''terminal session''
     else if old_bot_id \<notin> set (roster (s_id s) d) then Some ''old bot not in roster''
     else if new_bot_id \<in> set (roster (s_id s) d) then Some ''replacement already in roster''
     else (case bot_of old_bot_id d of
         None \<Rightarrow> Some ''old bot not registered''
       | Some old_bot \<Rightarrow> (case bot_of new_bot_id d of
             None \<Rightarrow> Some ''unknown replacement bot''
           | Some new_bot \<Rightarrow>
               let replacing_chair = (s_chair_bot s = Some old_bot_id) in
               if replacing_chair \<and> bt_role new_bot \<noteq> ''chair'' then Some ''replacement is not chair-capable''
               else if \<not> replacing_chair \<and> bt_role new_bot \<noteq> bt_role old_bot then Some ''replacement role mismatch''
               else None)))"

definition replace_roster_bot :: "string \<Rightarrow> string \<Rightarrow> string \<Rightarrow> Replacement op" where
  "replace_roster_bot sid old_bot_id new_bot_id =
    (if old_bot_id = new_bot_id then retA Noop
     else bindA (readA (session sid)) (\<lambda>so. case so of
      None \<Rightarrow> failA (UnknownSession sid)
    | Some s \<Rightarrow>
        bindA (readA (replacement_refusal s old_bot_id new_bot_id)) (\<lambda>refusal. case refusal of
          Some why \<Rightarrow> retA (RepRejected why)
        | None \<Rightarrow>
            let replacing_chair = (s_chair_bot s = Some old_bot_id) in
            bindA (callA (replace_session_bot sid old_bot_id new_bot_id)) (\<lambda>ok.
            if \<not> ok then retA (RepRejected ''old bot not in roster'')
            else
              seqA (if replacing_chair then writeA (set_session_chair sid new_bot_id) else retA ())
              (seqA (writeA (purge_outbox_for_session_bot sid old_bot_id))
              (seqA (if replacing_chair then backfill_bot_with_audience_alias sid new_bot_id (Some old_bot_id)
                     else backfill_bot sid new_bot_id)
              (seqA (emitA ''roster_replace'' sid (JObj [(''old_bot'', JStr old_bot_id), (''new_bot'', JStr new_bot_id),
                  (''chair'', JBool replacing_chair)]))
              (retA Replaced))))))))"

definition find_spare :: "string \<Rightarrow> BotRow \<Rightarrow> bool \<Rightarrow> AppState \<Rightarrow> string option" where
  "find_spare sid dead_bot chair a =
    (let want_role = (if chair then ''chair'' else b_role dead_bot) in
     map_option b_id (find (\<lambda>b. is_connected (b_id b) a \<and> b_enabled b \<and> b_health b = ''ok'' \<and> b_role b = want_role
       \<and> b_id b \<notin> set (roster sid (store a))) (list_bots (store a))))"

section \<open>Messages from the plane\<close>

definition deliver_system_prompt :: "Session \<Rightarrow> string \<Rightarrow> string \<Rightarrow> unit op" where
  "deliver_system_prompt s to content =
    bindA (readA (bot_name_of to)) (\<lambda>to_name.
    bindA (readA (thread_for_session (s_id s))) (\<lambda>thread.
    bindA (callA (add_message (s_id s) thread ''system'' None (Some to) content None)) (\<lambda>msg.
    seqA (deliverA to (s_id s) thread (named_sender ''system'') (text_content content) [to_name] (m_id msg))
    (emitA ''message'' (s_id s) (JObj [(''message_id'', JStr (m_id msg)), (''author'', JStr ''system''), (''content'', JStr content)])))))"

definition relay_settled :: "Session \<Rightarrow> string \<Rightarrow> string \<Rightarrow> unit op" where
  "relay_settled s from_bot to =
    bindA (readA (\<lambda>d. find (\<lambda>m. m_author_id m = Some from_bot \<and> is_settled_content (m_content m)) (rev (messages (s_id s) d))))
      (\<lambda>mo. case mo of
        None \<Rightarrow> retA ()
      | Some msg \<Rightarrow>
          bindA (readA (bot_name_of from_bot)) (\<lambda>bname.
          bindA (readA (thread_for_session (s_id s))) (\<lambda>thread.
          deliverA to (s_id s) thread (bot_sender from_bot bname) (text_content (m_content msg)) [] (m_id msg))))"

text \<open>The opening task of a chair: its own client message, else the one addressed to everybody.\<close>

definition task_for :: "string option \<Rightarrow> Message list \<Rightarrow> Message option" where
  "task_for who msgs =
    (case find (\<lambda>m. m_author_kind m = ''client'' \<and> m_audience m = who) msgs of
      Some m \<Rightarrow> Some m
    | None \<Rightarrow> find (\<lambda>m. m_author_kind m = ''client'' \<and> m_audience m = None) msgs)"

text \<open>
  The settled result span, over the messages newest first: the newest settled message of the author
  starts it, system and status rows are skipped, any other row that is not the author's ends it.
\<close>

definition by_author :: "string \<Rightarrow> Message \<Rightarrow> bool" where
  "by_author author m \<longleftrightarrow> m_author_kind m = ''bot'' \<and> m_author_id m = Some author"

fun span_back :: "string \<Rightarrow> Message list \<Rightarrow> string list" where
  "span_back author [] = []"
| "span_back author (m # ms) =
    (if m_author_kind m \<in> {''system'', ''status''} then span_back author ms
     else if \<not> by_author author m then []
     else if is_settled_content (m_content m) then m_id m # span_back author ms
     else span_back author ms)"

definition settled_result_span :: "Message list \<Rightarrow> string \<Rightarrow> string list" where
  "settled_result_span msgs author =
    (case dropWhile (\<lambda>m. \<not> (by_author author m \<and> is_settled_content (m_content m))) (rev msgs) of
      [] \<Rightarrow> []
    | m # ms \<Rightarrow> rev (m_id m # span_back author ms))"

section \<open>Executing a coordinator's actions\<close>

text \<open>
  Trimming a reviewer asks the coordinator again and runs what it returns, so the interpreter of
  actions and the trimming call each other. The interpreter below takes the nested run as an
  argument; \<open>run_actions_n\<close> ties the knot for a bounded depth.
\<close>

definition fixed_review_contract :: "Session \<Rightarrow> bool" where
  "fixed_review_contract s \<longleftrightarrow>
    (case s_trigger_ref s of None \<Rightarrow> False | Some t \<Rightarrow> starts_with ''controller:'' t) \<and> s_quorum_n s > 0"

text \<open>Asking the coordinator what follows from the changed roster.\<close>

definition ask_again :: "(Session \<Rightarrow> Action list \<Rightarrow> unit op) \<Rightarrow> string \<Rightarrow> unit op" where
  "ask_again run sid =
    bindA (readA (session sid)) (\<lambda>so. case so of
      None \<Rightarrow> retA ()
    | Some s \<Rightarrow>
        bindA (readA (roster sid)) (\<lambda>rost.
        bindA (dispatch_coordinator s) (\<lambda>co. case co of
          None \<Rightarrow> retA ()
        | Some coord \<Rightarrow> bindA (getA (\<lambda>a. on_roster_change coord (OrchCtx a s rost))) (run s))))"

text \<open>What becomes of a session with \<open>n\<close> reviewers left.\<close>

definition settle_trim ::
  "(Session \<Rightarrow> Action list \<Rightarrow> unit op) \<Rightarrow> string \<Rightarrow> string \<Rightarrow> string \<Rightarrow> Session \<Rightarrow> int \<Rightarrow> unit op" where
  "settle_trim run sid bot_id reason s n =
    (if fixed_review_contract s \<and> n < s_quorum_n s then
       bindA (close_session_by_controller sid ''insufficient_valid_reviewers'') (\<lambda>_.
       emitA ''insufficient_valid_reviewers'' sid (JObj [(''last_trimmed'', JStr bot_id), (''reason'', JStr reason),
         (''required_valid_reviewers'', JNum (s_quorum_n s)), (''remaining_reviewers'', JNum n)]))
     else if n = 0 then
       bindA (close_session_by_controller sid ''roster_exhausted'') (\<lambda>_.
       emitA ''roster_exhausted'' sid (JObj [(''last_trimmed'', JStr bot_id), (''reason'', JStr reason)]))
     else
       let quorum_n = min (s_quorum_n s) n in
       seqA (if quorum_n \<noteq> s_quorum_n s then writeA (set_session_quorum sid quorum_n) else retA ())
       (seqA (emitA ''roster_drop'' sid (JObj [(''bot'', JStr bot_id), (''reason'', JStr reason), (''quorum_n'', JNum quorum_n)]))
       (ask_again run sid)))"

definition trim_reviewer_body :: "(Session \<Rightarrow> Action list \<Rightarrow> unit op) \<Rightarrow> string \<Rightarrow> string \<Rightarrow> string \<Rightarrow> unit op" where
  "trim_reviewer_body run sid bot_id reason =
    bindA (execA (remove_session_bot sid bot_id)) (\<lambda>removed.
    if \<not> removed then retA ()
    else
      seqA (writeA (purge_outbox_for_session_bot sid bot_id))
      (bindA (readA (session sid)) (\<lambda>so. case so of
        None \<Rightarrow> retA ()
      | Some s \<Rightarrow>
          bindA (readA (\<lambda>d. int (length (reviewers (roster sid d) (s_chair_bot s)))))
            (settle_trim run sid bot_id reason s))))"

definition replace_or_trim_reviewer :: "(Session \<Rightarrow> Action list \<Rightarrow> unit op) \<Rightarrow> string \<Rightarrow> string \<Rightarrow> unit op" where
  "replace_or_trim_reviewer run sid bot_id =
    bindA (getA (\<lambda>a. Option.bind (find_bot bot_id (store a)) (\<lambda>row. find_spare sid row False a))) (\<lambda>spare. case spare of
      None \<Rightarrow> trim_reviewer_body run sid bot_id ''report_not_delivered''
    | Some sp \<Rightarrow>
        bindA (replace_roster_bot sid bot_id sp) (\<lambda>r.
        if r = Replaced then retA () else trim_reviewer_body run sid bot_id ''report_not_delivered''))"

text \<open>The result a close records: the verdict's structure, the span and the texts of the span.\<close>

definition span_texts :: "Message list \<Rightarrow> string \<Rightarrow> string \<Rightarrow> string list" where
  "span_texts msgs author verdict =
    (let span = settled_result_span msgs author in
     if span = [] then [verdict] else map m_content (filter (\<lambda>m. m_id m \<in> set span) msgs))"

definition close_action :: "Session \<Rightarrow> SessionState \<Rightarrow> string \<Rightarrow> string \<Rightarrow> unit op" where
  "close_action s from_state author verdict =
    bindA (readA (roster (s_id s))) (\<lambda>rost.
    bindA (getA (\<lambda>a. OrchCtx a s rost)) (\<lambda>cx.
    let sv = Option.bind (lookup (s_mode s)) (\<lambda>coord. structured_verdict coord cx verdict) in
    bindA (readA (messages (s_id s))) (\<lambda>msgs.
    let span = settled_result_span msgs author in
    bindA (callA (close_session_with_result (s_id s) from_state (map_option sv_decision sv) (Option.bind sv sv_red)
        (Option.bind sv sv_yellow) (Option.bind sv sv_green) (if span = [] then None else Some author)
        (if span = [] then None else Some (jstrs span)) (span_texts msgs author verdict) (reviewer_completion cx False)))
      (\<lambda>won.
      if \<not> won then retA ()
      else
        seqA (modA (purge_session_outbox_after_close (s_id s)))
        (seqA (emitA ''verdict'' (s_id s) (JObj [(''text'', JStr verdict), (''decision'', jopt (map_option sv_decision sv)),
            (''findings_red'', jopt_num (Option.bind sv sv_red)), (''findings_yellow'', jopt_num (Option.bind sv sv_yellow)),
            (''findings_green'', jopt_num (Option.bind sv sv_green))]))
        (seqA (emitA ''state'' (s_id s) (JObj [(''state'', JStr ''closed'')]))
        (modA (fire_close_webhook (s_id s) verdict ''normal''))))))))"

definition reassign_chair :: "Session \<Rightarrow> string \<Rightarrow> unit op" where
  "reassign_chair s to =
    bindA (execA (add_session_bot (s_id s) to)) (\<lambda>_.
    seqA (writeA (set_session_chair (s_id s) to))
    (bindA (readA (\<lambda>d. task_for (s_chair_bot s) (messages (s_id s) d))) (\<lambda>task.
     seqA (case task of Some m \<Rightarrow> deliver_system_prompt s to (m_content m) | None \<Rightarrow> retA ())
     (emitA ''chair_reassigned'' (s_id s) (JObj [(''chair'', JStr to)])))))"

text \<open>One action; the flag says that the last transition lost its race, and suppresses the prompt after it.\<close>

fun run_action :: "(Session \<Rightarrow> Action list \<Rightarrow> unit op) \<Rightarrow> Session \<Rightarrow> bool \<Rightarrow> Action \<Rightarrow> bool op" where
  "run_action run s tf (Relay from_bot to) = seqA (relay_settled s from_bot to) (retA False)"
| "run_action run s tf (Prompt to content) =
    (if tf then retA tf else seqA (deliver_system_prompt s to content) (retA tf))"
| "run_action run s tf (ReassignChair to) = seqA (reassign_chair s to) (retA False)"
| "run_action run s tf (TrimReviewer b) = seqA (replace_or_trim_reviewer run (s_id s) b) (retA False)"
| "run_action run s tf (Transition from_state to) =
    bindA (callA (advance_state (s_id s) from_state to)) (\<lambda>ok.
    seqA (if ok then emitA ''state'' (s_id s) (JObj [(''state'', JStr (as_str to))]) else retA ()) (retA (\<not> ok)))"
| "run_action run s tf (Close from_state author verdict) = seqA (close_action s from_state author verdict) (retA False)"

fun run_list :: "(Session \<Rightarrow> Action list \<Rightarrow> unit op) \<Rightarrow> Session \<Rightarrow> bool \<Rightarrow> Action list \<Rightarrow> unit op" where
  "run_list run s tf [] = retA ()"
| "run_list run s tf (act # rest) = bindA (run_action run s tf act) (\<lambda>tf'. run_list run s tf' rest)"

primrec run_actions_n :: "nat \<Rightarrow> Session \<Rightarrow> Action list \<Rightarrow> unit op" where
  "run_actions_n 0 = (\<lambda>s todo. failA DepthExceeded)"
| "run_actions_n (Suc n) = (\<lambda>s todo. run_list (run_actions_n n) s False todo)"

definition run_actions :: "Session \<Rightarrow> Action list \<Rightarrow> unit op" where
  "run_actions = run_actions_n 2"

section \<open>Done signals\<close>

definition reviewer_rerequest_attempts :: "string \<Rightarrow> string \<Rightarrow> db \<Rightarrow> int" where
  "reviewer_rerequest_attempts sid bot_id d =
    int (count_where (\<lambda>m. m_author_kind m = ''system'' \<and> m_audience m = Some bot_id
      \<and> starts_with REVIEWER_REREQUEST_PREFIX (m_content m)) (messages sid d))"

definition run_done :: "Session \<Rightarrow> string \<Rightarrow> unit op" where
  "run_done s bot_id =
    bindA (dispatch_coordinator s) (\<lambda>co. case co of
      None \<Rightarrow> retA ()
    | Some coord \<Rightarrow>
        bindA (readA (roster (s_id s))) (\<lambda>rost.
        bindA (getA (\<lambda>a. on_done_attempts coord (OrchCtx a s rost) bot_id
            (reviewer_rerequest_attempts (s_id s) bot_id (store a)))) (run_actions s)))"

definition check_text_done :: "Session \<Rightarrow> string \<Rightarrow> string \<Rightarrow> string \<Rightarrow> unit op" where
  "check_text_done s bot_id msg_id text_body =
    (if \<not> is_done_signal text_body then retA ()
     else bindA (dispatch_coordinator s) (\<lambda>co. case co of
      None \<Rightarrow> retA ()
    | Some coord \<Rightarrow>
        bindA (readA (roster (s_id s))) (\<lambda>rost.
        bindA (getA (\<lambda>a. accepts_text_done coord (OrchCtx a s rost) bot_id text_body)) (\<lambda>ok.
        if \<not> ok then retA ()
        else seqA (writeA (add_reaction msg_id bot_id DONE_EMOJI)) (run_done s bot_id)))))"

section \<open>Bot health and failover\<close>

definition runtime_council_roster :: "AppState \<Rightarrow> store_err + string list" where
  "runtime_council_roster a =
    (case standing_roster (store a) of
      Inl e \<Rightarrow> Inl e
    | Inr (Some r) \<Rightarrow> Inr r
    | Inr None \<Rightarrow> Inr (council_roster a))"

definition promotable :: "string \<Rightarrow> string list \<Rightarrow> AppState \<Rightarrow> BotRow \<Rightarrow> bool" where
  "promotable role rost a b \<longleftrightarrow>
    b_role b = role \<and> b_enabled b \<and> b_health b = ''ok'' \<and> b_id b \<notin> set rost \<and> is_connected (b_id b) a"

fun pick_standby :: "string \<Rightarrow> string option \<Rightarrow> string list \<Rightarrow> AppState \<Rightarrow> string option \<Rightarrow> BotRow list \<Rightarrow> string option" where
  "pick_standby role provider rost a fallback [] = fallback"
| "pick_standby role provider rost a fallback (b # bs) =
    (if \<not> promotable role rost a b then pick_standby role provider rost a fallback bs
     else if b_provider b \<noteq> provider \<or> provider = None then Some (b_id b)
     else pick_standby role provider rost a (case fallback of None \<Rightarrow> Some (b_id b) | Some f \<Rightarrow> Some f) bs)"

definition pick_healthy_standby :: "string \<Rightarrow> string option \<Rightarrow> string list \<Rightarrow> AppState \<Rightarrow> string option" where
  "pick_healthy_standby role provider rost a = pick_standby role provider rost a None (list_bots (store a))"

definition attempt_failover :: "string \<Rightarrow> AppState \<Rightarrow> AppState" where
  "attempt_failover degraded_bot_id a =
    (case runtime_council_roster a of
      Inl _ \<Rightarrow> a
    | Inr rost \<Rightarrow>
        if degraded_bot_id \<notin> set rost then a
        else
          let provider = Option.bind (find_bot degraded_bot_id (store a)) b_provider;
              role = (if hd rost = degraded_bot_id then ''chair'' else ''reviewer'')
          in case pick_healthy_standby role provider rost a of
               None \<Rightarrow> a
             | Some standby \<Rightarrow>
                 if \<not> auto_failover_enabled a then a
                 else
                   let new_roster = map (\<lambda>b. if b = degraded_bot_id then standby else b) rost
                   in emit_north ''failover'' ''-'' (JObj [(''degraded'', JStr degraded_bot_id), (''promoted'', JStr standby),
                        (''role'', JStr role), (''roster'', jstrs new_roster)]) (on_store (set_standing_roster new_roster) a))"

definition account_bot_health :: "string \<Rightarrow> string \<Rightarrow> unit op" where
  "account_bot_health bot_id text_body =
    (if is_streaming_stub text_body then retA ()
     else
       bindA (getA health_error_threshold) (\<lambda>threshold.
       bindA (execA (record_bot_frame bot_id (is_agent_error_frame text_body) threshold)) (\<lambda>t.
       if t = Degraded then modA (attempt_failover bot_id) else retA ())))"

section \<open>Directives in a message\<close>

fun first_some :: "('a \<Rightarrow> 'b option) \<Rightarrow> 'a list \<Rightarrow> 'b option" where
  "first_some f [] = None"
| "first_some f (x # xs) = (case f x of Some y \<Rightarrow> Some y | None \<Rightarrow> first_some f xs)"

definition directive :: "string \<Rightarrow> string \<Rightarrow> string option" where
  "directive prefix line = Option.bind (strip_prefix prefix line) (strip_suffix '']]'')"

definition parse_recruit :: "string \<Rightarrow> string option" where
  "parse_recruit text_body =
    first_some (\<lambda>line. case directive ''[[recruit:'' line of
        None \<Rightarrow> None
      | Some inner \<Rightarrow> if trim inner \<noteq> [] then Some (trim inner) else None) (unfenced_lines text_body)"

text \<open>\<open>str::split_once\<close> at the first white space character.\<close>

fun split_once_ws :: "string \<Rightarrow> (string \<times> string) option" where
  "split_once_ws [] = None"
| "split_once_ws (c # s) =
    (case skip_ws (c # s) of
      Some rest \<Rightarrow> Some ([], rest)
    | None \<Rightarrow> map_option (\<lambda>(v, r). (c # v, r)) (split_once_ws s))"

definition parse_intent :: "string \<Rightarrow> (string \<times> string) option" where
  "parse_intent text_body =
    first_some (\<lambda>line. case directive ''[[intent:'' line of
        None \<Rightarrow> None
      | Some inner \<Rightarrow>
          let (verb, args) = (case split_once_ws (trim inner) of Some (v, r) \<Rightarrow> (v, trim r) | None \<Rightarrow> (trim inner, []))
          in if verb \<noteq> [] then Some (verb, args) else None) (unfenced_lines text_body)"

definition may_recruit :: "Session \<Rightarrow> string \<Rightarrow> bool" where
  "may_recruit s bot_id \<longleftrightarrow> s_chair_bot s = Some bot_id"

fun recruit_event :: "Admission \<Rightarrow> string option" where
  "recruit_event AdmAdded = Some ''recruit''"
| "recruit_event AlreadyMember = None"
| "recruit_event (AdmRejected why) = (if why = ''unknown bot'' then Some ''provision_requested'' else Some ''recruit_rejected'')"

definition maybe_recruit :: "Session \<Rightarrow> string \<Rightarrow> string \<Rightarrow> unit op" where
  "maybe_recruit s bot_id text_body =
    (case parse_recruit text_body of
      None \<Rightarrow> retA ()
    | Some target \<Rightarrow>
        if \<not> may_recruit s bot_id
        then emitA ''recruit_denied'' (s_id s) (JObj [(''by'', JStr bot_id), (''target'', JStr target)])
        else
          bindA (getA (\<lambda>a. (recruit_seen a (s_id s), recruit_session_cap a))) (\<lambda>(seen, cap).
          if target \<in> set seen then retA ()
          else if length seen \<ge> cap
          then emitA ''recruit_rejected'' (s_id s) (JObj [(''by'', JStr bot_id), (''target'', JStr target), (''reason'', JStr ''rate_limited'')])
          else
            seqA (modA (\<lambda>a. a\<lparr>recruit_seen := (recruit_seen a)(s_id s := target # seen)\<rparr>))
            (bindA (add_to_roster (s_id s) target) (\<lambda>outcome.
             case recruit_event outcome of
               None \<Rightarrow> retA ()
             | Some event \<Rightarrow> emitA event (s_id s) (JObj [(''by'', JStr bot_id), (''target'', JStr target)])))))"

definition intentA :: "string \<Rightarrow> string \<Rightarrow> json \<Rightarrow> unit op" where
  "intentA sid message_id payload =
    callA (\<lambda>d. bindE (enqueue_session_intent sid message_id payload d) (\<lambda>d'. Inr ((), d')))"

definition maybe_intent :: "Session \<Rightarrow> string \<Rightarrow> string \<Rightarrow> string \<Rightarrow> unit op" where
  "maybe_intent s bot_id message_id text_body =
    (case parse_intent text_body of
      None \<Rightarrow> retA ()
    | Some (verb, args) \<Rightarrow>
        bindA (getA (\<lambda>a. (intent_seen a (s_id s) bot_id, intent_session_cap a))) (\<lambda>(seen, cap).
        if message_id \<in> set seen then retA ()
        else if length seen \<ge> cap
        then emitA ''intent_rejected'' (s_id s) (JObj [(''by'', JStr bot_id), (''verb'', JStr verb), (''reason'', JStr ''rate_limited'')])
        else
          seqA (modA (\<lambda>a. a\<lparr>intent_seen := (intent_seen a)(s_id s := (intent_seen a (s_id s))(bot_id := message_id # seen))\<rparr>))
          (seqA (emitA ''intent'' (s_id s) (JObj [(''by'', JStr bot_id), (''message_id'', JStr message_id),
              (''verb'', JStr verb), (''args'', JStr args)]))
          (intentA (s_id s) message_id (JObj [(''message_id'', JStr message_id), (''bot_id'', JStr bot_id),
              (''verb'', JStr verb), (''args'', JStr args)])))))"

section \<open>Replies of bots\<close>

definition ack :: "string \<Rightarrow> GatewayReply \<Rightarrow> string option \<Rightarrow> string option \<Rightarrow> unit op" where
  "ack bot_id reply thread_id message_id =
    (case gr_request_id reply of
      None \<Rightarrow> retA ()
    | Some req \<Rightarrow> modA (\<lambda>a. snd (send_to_bot bot_id (response_text a
        ((response_ok req)\<lparr>gp_thread_id := thread_id, gp_message_id := message_id\<rparr>)) a)))"

definition on_send :: "Session \<Rightarrow> string \<Rightarrow> string \<Rightarrow> GatewayReply \<Rightarrow> unit op" where
  "on_send s bot_id bot_name reply =
    (let body = ct_text (gr_content reply) in
     bindA (readA (\<lambda>d. case rc_thread_id (gr_channel reply) of Some t \<Rightarrow> Some t | None \<Rightarrow> thread_for_session (s_id s) d)) (\<lambda>thread.
     bindA (callA (add_message (s_id s) thread ''bot'' (Some bot_id) None body (gr_quote_message_id reply))) (\<lambda>msg.
     seqA (account_bot_health bot_id body)
     (seqA (emitA ''message'' (s_id s) (JObj [(''message_id'', JStr (m_id msg)), (''author'', JStr bot_name), (''content'', JStr body)]))
     (seqA (ack bot_id reply None (Some (m_id msg)))
     (seqA (maybe_recruit s bot_id body)
     (seqA (maybe_intent s bot_id (m_id msg) body)
     (check_text_done s bot_id (m_id msg) body))))))))"

definition redeliver_trigger_to_non_starter_chair :: "Session \<Rightarrow> unit op" where
  "redeliver_trigger_to_non_starter_chair s =
    (case s_chair_bot s of
      None \<Rightarrow> retA ()
    | Some chair \<Rightarrow>
        bindA (readA (roster (s_id s))) (\<lambda>rost.
        bindA (dispatch_coordinator s) (\<lambda>co. case co of
          None \<Rightarrow> retA ()
        | Some coord \<Rightarrow>
            if chair \<in> set (starters coord rost (Some chair)) then retA ()
            else
              bindA (readA (\<lambda>d. task_for (Some chair) (messages (s_id s) d))) (\<lambda>trig. case trig of
                None \<Rightarrow> retA ()
              | Some m \<Rightarrow>
                  bindA (getA (\<lambda>a. recipient_trigger_text coord (OrchCtx a s rost) chair (m_content m)))
                    (deliver_system_prompt s chair)))))"

definition on_create_topic :: "Session \<Rightarrow> string \<Rightarrow> GatewayReply \<Rightarrow> unit op" where
  "on_create_topic s bot_id reply =
    bindA (readA (\<lambda>d. thread_for_session (s_id s) d \<noteq> None)) (\<lambda>had_thread.
    bindA (callA (upsert_thread (s_id s) (gr_quote_message_id reply))) (\<lambda>thread_id.
    seqA (if \<not> had_thread then redeliver_trigger_to_non_starter_chair s else retA ())
    (seqA (emitA ''thread'' (s_id s) (JObj [(''thread_id'', JStr thread_id)]))
    (ack bot_id reply (Some thread_id) None))))"

definition reaction_write :: "string \<Rightarrow> string \<Rightarrow> string \<Rightarrow> bool \<Rightarrow> unit op" where
  "reaction_write mid bot_id emoji add =
    (if add then writeA (add_reaction mid bot_id emoji)
     else if emoji = DONE_EMOJI then retA ()
     else writeA (remove_reaction mid bot_id emoji))"

definition on_reaction :: "Session \<Rightarrow> string \<Rightarrow> GatewayReply \<Rightarrow> bool \<Rightarrow> unit op" where
  "on_reaction s bot_id reply add =
    (let emoji = ct_text (gr_content reply); target = target_msg reply in
     bindA (readA (\<lambda>d. Option.bind target (\<lambda>t. Option.bind (message_of t d)
         (\<lambda>m. if m_session_id m = s_id s then Some m else None)))) (\<lambda>found. case found of
       None \<Rightarrow>
         seqA (emitA ''reaction_rejected'' (s_id s) (JObj [(''bot'', JStr bot_id), (''emoji'', JStr emoji),
             (''target'', jopt target), (''reason'', JStr ''unresolvable_target'')]))
         (ack bot_id reply None None)
     | Some m \<Rightarrow>
         seqA (reaction_write (m_id m) bot_id emoji add)
         (seqA (emitA ''reaction'' (s_id s) (JObj [(''bot'', JStr bot_id), (''emoji'', JStr emoji), (''add'', JBool add)]))
         (seqA (ack bot_id reply None None)
         (if add \<and> emoji = DONE_EMOJI \<and> m_author_kind m \<in> {''client'', ''system''} then
            bindA (dispatch_coordinator s) (\<lambda>co. case co of
              None \<Rightarrow> retA ()
            | Some coord \<Rightarrow>
                bindA (readA (roster (s_id s))) (\<lambda>rost.
                bindA (getA (\<lambda>a. reaction_counts_as_done coord (OrchCtx a s rost) bot_id)) (\<lambda>counts.
                if counts then run_done s bot_id else retA ())))
          else retA ())))))"

definition on_edit :: "Session \<Rightarrow> string \<Rightarrow> GatewayReply \<Rightarrow> unit op" where
  "on_edit s bot_id reply =
    (let body = ct_text (gr_content reply) in
     case target_msg reply of
       None \<Rightarrow> retA ()
     | Some target \<Rightarrow>
         seqA (writeA (edit_message target body))
         (seqA (emitA ''message_edit'' (s_id s) (JObj [(''message_id'', JStr target), (''content'', JStr body)]))
         (seqA (ack bot_id reply None (Some target))
         (seqA (account_bot_health bot_id body)
         (seqA (maybe_recruit s bot_id body)
         (seqA (maybe_intent s bot_id target body)
         (check_text_done s bot_id target body)))))))"

definition handle_reply :: "string \<Rightarrow> GatewayReply \<Rightarrow> unit op" where
  "handle_reply bot_id reply =
    bindA (readA (session (rc_id (gr_channel reply)))) (\<lambda>so. case so of
      None \<Rightarrow> retA ()
    | Some s \<Rightarrow>
        bindA (readA (roster (s_id s))) (\<lambda>rost.
        if bot_id \<notin> set rost then retA ()
        else
          bindA (readA (bot_name_of bot_id)) (\<lambda>bot_name.
          case gr_command reply of
            None \<Rightarrow> if closed_state s then retA () else on_send s bot_id bot_name reply
          | Some c \<Rightarrow>
              if c = ''create_topic'' then (if closed_state s then retA () else on_create_topic s bot_id reply)
              else if c = ''add_reaction'' then on_reaction s bot_id reply True
              else if c = ''remove_reaction'' then on_reaction s bot_id reply False
              else if c = ''edit_message'' then (if closed_state s then retA () else on_edit s bot_id reply)
              else retA ())))"

section \<open>Client messages and controller requests\<close>

text \<open>What a client message does to the session row, by the state it was read in.\<close>

definition client_transition :: "Session \<Rightarrow> unit op" where
  "client_transition s =
    (case from_db_str (s_state s) of
      Open \<Rightarrow> bindA (callA (advance_state (s_id s) Open Deliberating)) (\<lambda>_. retA ())
    | Closed \<Rightarrow> bindA (callA (reopen_session (s_id s) Closed)) (\<lambda>_. retA ())
    | Aborted \<Rightarrow> bindA (callA (reopen_session (s_id s) Aborted)) (\<lambda>_. retA ())
    | _ \<Rightarrow> retA ())"

definition reopen_refusal :: "Session \<Rightarrow> string" where
  "reopen_refusal s = ''session '' @ s_id s @ '' is closed; mode '' @ [CHR 0x27] @ s_mode s @ [CHR 0x27]
    @ '' does not reopen on client messages - open a fresh session''"

definition fan_out_trigger :: "Session \<Rightarrow> Coordinator \<Rightarrow> string list \<Rightarrow> string option \<Rightarrow> Message \<Rightarrow> string \<Rightarrow> unit op" where
  "fan_out_trigger s coord rost thread msg content =
    forA (\<lambda>target.
      bindA (getA (\<lambda>a. (bot_name_of target (store a), recipient_trigger_text coord (OrchCtx a s rost) target content))) (\<lambda>(tname, body).
      deliverA target (s_id s) thread (named_sender ''client'') (text_content body)
        (if target \<in> set (starters coord rost (s_chair_bot s)) then [tname] else []) (m_id msg)))
      (fanout_targets rost None)"

definition post_client_message :: "string \<Rightarrow> string \<Rightarrow> Message op" where
  "post_client_message sid content =
    bindA (readA (session sid)) (\<lambda>so. case so of
      None \<Rightarrow> failA (UnknownSession sid)
    | Some s \<Rightarrow>
        bindA (if closed_state s
               then bindA (dispatch_coordinator s) (\<lambda>co. retA (case co of Some c \<Rightarrow> reopen_on_client_message c | None \<Rightarrow> False))
               else retA True) (\<lambda>allowed.
        if \<not> allowed then failA (ReopenRefused (reopen_refusal s))
        else
          bindA (callA (add_message sid None ''client'' None None content None)) (\<lambda>msg.
          seqA (client_transition s)
          (bindA (readA (roster sid)) (\<lambda>rost.
           bindA (readA (thread_for_session sid)) (\<lambda>thread.
           bindA (dispatch_coordinator s) (\<lambda>co. case co of
             None \<Rightarrow> retA msg
           | Some coord \<Rightarrow>
               seqA (fan_out_trigger s coord rost thread msg content)
               (seqA (emitA ''message'' sid (JObj [(''message_id'', JStr (m_id msg)), (''author'', JStr ''client''), (''content'', JStr content)]))
               (retA msg)))))))))"

definition deliver_opening_inputs :: "string \<Rightarrow> unit op" where
  "deliver_opening_inputs sid =
    bindA (readA (session sid)) (\<lambda>so. case so of
      None \<Rightarrow> failA (UnknownSession sid)
    | Some s \<Rightarrow>
        bindA (dispatch_coordinator s) (\<lambda>co. case co of
          None \<Rightarrow> retA ()
        | Some coord \<Rightarrow>
            bindA (readA (roster sid)) (\<lambda>rost.
            bindA (readA (thread_for_session sid)) (\<lambda>thread.
            bindA (readA (messages sid)) (forA (\<lambda>m.
              if m_author_kind m \<noteq> ''client'' \<or> m_author_id m \<noteq> None then retA ()
              else (case m_audience m of
                None \<Rightarrow> retA ()
              | Some target \<Rightarrow>
                  bindA (readA (bot_name_of target)) (\<lambda>name.
                  seqA (deliverA target sid thread (named_sender ''client'') (text_content (m_content m))
                    (if target \<in> set (starters coord rost (s_chair_bot s)) then [name] else []) (m_id m))
                  (emitA ''message'' sid (JObj [(''message_id'', JStr (m_id m)), (''author'', JStr ''client''),
                    (''audience'', JStr target), (''content'', JStr (m_content m))]))))))))))"

definition emit_controller_status :: "string \<Rightarrow> string \<Rightarrow> string \<Rightarrow> Message op" where
  "emit_controller_status sid target body =
    bindA (readA (session sid)) (\<lambda>so. case so of
      None \<Rightarrow> failA (UnknownSession sid)
    | Some _ \<Rightarrow>
        bindA (callA (add_message sid None ''status'' None (Some target) body None)) (\<lambda>msg.
        seqA (emitA ''controller_status'' sid (JObj [(''status_id'', JStr (m_id msg)), (''target'', JStr target), (''body'', JStr body)]))
        (retA msg)))"

section \<open>The liveness sweep\<close>

definition mark_unreachable :: "BotRow \<Rightarrow> AppState \<Rightarrow> AppState" where
  "mark_unreachable row a =
    (if b_health row = ''unreachable'' then a
     else emit_north ''bot_health'' ''-'' (JObj [(''bot'', JStr (b_id row)), (''health'', JStr ''unreachable'')])
       (on_store (\<lambda>d. snd (update_bot_metadata (b_id row) (no_patch\<lparr>bp_health := Some ''unreachable''\<rparr>) d)) a))"

definition replace_unreachable :: "string \<Rightarrow> BotRow \<Rightarrow> bool \<Rightarrow> bool op" where
  "replace_unreachable sid row is_chair =
    bindA (getA (is_connected (b_id row))) (\<lambda>up.
    if up then retA True
    else
      seqA (modA (mark_unreachable row))
      (bindA (getA (find_spare sid row is_chair)) (\<lambda>spare. case spare of
        None \<Rightarrow> retA False
      | Some sp \<Rightarrow> bindA (replace_roster_bot sid (b_id row) sp) (\<lambda>_. retA True))))"

definition trim_reviewer :: "string \<Rightarrow> string \<Rightarrow> unit op" where
  "trim_reviewer sid bot_id =
    bindA (getA (is_connected bot_id)) (\<lambda>up.
    if up then retA () else trim_reviewer_body run_actions sid bot_id ''unreachable'')"

definition sweep_bot :: "Session \<Rightarrow> string list \<Rightarrow> int \<Rightarrow> int \<Rightarrow> string \<Rightarrow> unit op" where
  "sweep_bot s voters at grace_ms bot_id =
    bindA (readA (find_bot bot_id)) (\<lambda>io. case io of
      None \<Rightarrow> retA ()
    | Some row \<Rightarrow>
        bindA (getA (is_connected bot_id)) (\<lambda>up.
        let seen = (case b_last_seen row of Some t \<Rightarrow> t | None \<Rightarrow> s_created_at s);
            is_chair = (s_chair_bot s = Some bot_id)
        in if up \<or> at - seen < grace_ms \<or> (\<not> is_chair \<and> bot_id \<in> set voters) then retA ()
           else
             bindA (replace_unreachable (s_id s) row is_chair) (\<lambda>handled.
             if handled \<or> is_chair then retA () else trim_reviewer (s_id s) bot_id)))"

definition sweep_session :: "int \<Rightarrow> int \<Rightarrow> string \<Rightarrow> unit op" where
  "sweep_session at grace_ms sid =
    bindA (readA (session sid)) (\<lambda>so. case so of
      None \<Rightarrow> retA ()
    | Some s \<Rightarrow>
        bindA (readA (done_voters sid)) (\<lambda>voters.
        bindA (readA (roster sid)) (forA (sweep_bot s voters at grace_ms))))"

definition sweep_liveness :: "int \<Rightarrow> unit op" where
  "sweep_liveness grace_ms =
    bindA (readA (\<lambda>d. (now_ms d, active_sessions_before (now_ms d + 1) d))) (\<lambda>(at, sids).
    forA (sweep_session at grace_ms) sids)"

end
