(* ===== verification/Orchestrator_Frames.thy ===== *)
theory Orchestrator_Frames
  imports Orchestrator
begin

text \<open>
  What the orchestrator's handlers do to the database, proved once for any preorder on databases
  that the store's operations respect. The locale \<open>kernel_frame\<close> lists the store calls the
  handlers make, with the guards under which they make them; every handler then respects the
  preorder, whatever its input and whether it succeeds or fails half way. The locale is
  extended by the edit of a message for bot replies, and by reopening for client messages.
\<close>

section \<open>Frames of handlers\<close>

named_theorems frames \<open>a handler respects the preorder when its parts do\<close>

definition framed :: "(db \<Rightarrow> db \<Rightarrow> bool) \<Rightarrow> 'a op \<Rightarrow> bool" where
  "framed R m \<longleftrightarrow> (\<forall>a. R (store a) (store (snd (m a))))"

lemma framedD: "framed R m \<Longrightarrow> R (store a) (store (snd (m a)))"
  by (simp add: framed_def)

lemma framed_if [frames]: "(c \<Longrightarrow> framed R m) \<Longrightarrow> (\<not> c \<Longrightarrow> framed R k) \<Longrightarrow> framed R (if c then m else k)"
  by simp

lemma framed_option [frames]:
  "(x = None \<Longrightarrow> framed R m) \<Longrightarrow> (\<And>y. x = Some y \<Longrightarrow> framed R (f y)) \<Longrightarrow> framed R (case x of None \<Rightarrow> m | Some y \<Rightarrow> f y)"
  by (cases x) simp_all

lemma framed_prod [frames]: "(\<And>x y. p = (x, y) \<Longrightarrow> framed R (f x y)) \<Longrightarrow> framed R (case p of (x, y) \<Rightarrow> f x y)"
  by (cases p) simp

lemma framed_let [frames]: "framed R (f v) \<Longrightarrow> framed R (Let v f)"
  by simp

lemma framed_outcome [frames]:
  "(\<And>x y. framed R (f x y)) \<Longrightarrow> framed R m \<Longrightarrow> framed R (case oc of Added x y \<Rightarrow> f x y | Full \<Rightarrow> m)"
  by (cases oc) simp_all

locale preorder_frame =
  fixes R :: "db \<Rightarrow> db \<Rightarrow> bool"
  assumes R_refl: "R d d"
    and R_trans: "R d d' \<Longrightarrow> R d' d'' \<Longrightarrow> R d d''"
begin

lemma framed_ret [frames]: "framed R (retA x)"
  by (simp add: framed_def retA_def R_refl)

lemma framed_fail [frames]: "framed R (failA e)"
  by (simp add: framed_def failA_def R_refl)

lemma framed_get [frames]: "framed R (getA f)"
  by (simp add: framed_def getA_def R_refl)

lemma framed_read [frames]: "framed R (readA f)"
  by (simp add: readA_def framed_get)

lemma framed_bind [frames]:
  assumes "framed R m" and "\<And>a x a'. m a = (Inr x, a') \<Longrightarrow> framed R (f x)"
  shows "framed R (bindA m f)"
  unfolding framed_def
proof
  fix a
  obtain r a1 where m: "m a = (r, a1)" by force
  have 1: "R (store a) (store a1)" using framedD [OF assms(1), of a] m by simp
  show "R (store a) (store (snd (bindA m f a)))"
  proof (cases r)
    case (Inr x)
    then have "framed R (f x)" using assms(2) m by blast
    then show ?thesis using R_trans [OF 1 framedD [of R "f x" a1]] Inr m by (simp add: bindA_def)
  qed (use 1 m in \<open>simp add: bindA_def\<close>)
qed

lemma framed_seq [frames]: "framed R m \<Longrightarrow> framed R k \<Longrightarrow> framed R (seqA m k)"
  unfolding seqA_def by (rule framed_bind)

lemma framed_for [frames]: "(\<And>x. framed R (f x)) \<Longrightarrow> framed R (forA f xs)"
  by (induction xs) (simp_all add: frames)

lemma framed_mod: "(\<And>a. R (store a) (store (f a))) \<Longrightarrow> framed R (modA f)"
  by (simp add: framed_def modA_def)

lemma framed_call: "(\<And>d x d'. f d = Inr (x, d') \<Longrightarrow> R d d') \<Longrightarrow> framed R (callA f)"
  by (auto simp: framed_def callA_def R_refl split: sum.split)

lemma framed_exec: "(\<And>d. R d (snd (f d))) \<Longrightarrow> framed R (execA f)"
  by (simp add: framed_def execA_def)

lemma framed_write: "(\<And>d. R d (f d)) \<Longrightarrow> framed R (writeA f)"
  unfolding writeA_def by (rule framed_mod) (simp add: on_store_def)

end

text \<open>Actions move a session forward only.\<close>

fun forward_action :: "Action \<Rightarrow> bool" where
  "forward_action (Transition f t) \<longleftrightarrow> f < t \<and> t < Closed"
| "forward_action (Close f a v) \<longleftrightarrow> f < Closed"
| "forward_action _ \<longleftrightarrow> True"

lemma lookup_forward:
  assumes "lookup mode = Some coord"
  shows "list_all forward_action (on_done_attempts coord cx b n)"
proof -
  note pol = lookup_policy [OF assms, of n]
  have "forward_action act" if "act \<in> set (on_done_attempts coord cx b n)" for act
    by (cases act) (use that in \<open>auto dest: policy.moves_forward [OF pol] policy.close_author [OF pol]\<close>)
  then show ?thesis by (simp add: list_all_iff)
qed

text \<open>A roster change asks for nothing but entering quorum and prompting the chair.\<close>

fun quorum_action :: "Action \<Rightarrow> bool" where
  "quorum_action (Transition f t) \<longleftrightarrow> f = Deliberating \<and> t = Quorum"
| "quorum_action (Prompt to content) \<longleftrightarrow> True"
| "quorum_action _ \<longleftrightarrow> False"

lemma lookup_roster_change:
  assumes "lookup mode = Some coord"
  shows "list_all quorum_action (on_roster_change coord cx)"
proof -
  consider "coord = QuorumCouncil" | "coord = TriageCouncil" | "coord = Solo" | "coord = Pipeline"
    using assms by (auto simp: lookup_def split: if_splits)
  then show ?thesis
    by cases (auto simp: list_all_iff QuorumCouncil_def TriageCouncil_def Solo_def Pipeline_def coordinator_defaults_def
        quorum_actions_def dest!: quorum_actions_set)
qed

lemma quorum_forward: "quorum_action act \<Longrightarrow> forward_action act"
  by (cases act) (simp_all add: less_SessionState_def)

lemma dispatch_lookup: "dispatch_coordinator s a = (Inr (Some coord), a') \<Longrightarrow> lookup (s_mode s) = Some coord"
  by (auto simp: dispatch_coordinator_def retA_def seqA_def bindA_def split: option.splits sum.splits prod.splits)

lemma getA_result: "getA f a = (Inr x, a') \<longleftrightarrow> x = f a \<and> a' = a"
  by (auto simp: getA_def)

section \<open>The store calls of the kernel\<close>

text \<open>First the calls behind a message of the plane: journal, identifiers, message rows and the outbox.\<close>

locale prompt_frame = preorder_frame +
  assumes R_audit: "R d (append_or_warn e d)"
    and R_uuid: "R d (d\<lparr>uuid_next := u\<rparr>)"
    and R_message: "add_message sid tid ak ai au c rt d = Inr (m, d') \<Longrightarrow> R d d'"
    and R_enqueue: "R d (enqueue_outbox b sid k f d)"
    and R_ack: "R d (ack_outbox n d)"
begin

lemma R_north: "R (store a) (store (emit_north k sid p a))"
proof -
  have "R d (snd (north_audit_event k sid p at d))" for at d
    using R_uuid [of d] R_refl [of d]
    by (auto simp: north_audit_event_def north_key_def new_id_def Let_def split: option.splits bool.splits)
  note n = this [of "store a" "now_ms (store a)"]
  show ?thesis
    using n R_trans [OF n R_audit] by (simp add: emit_north_def Let_def split_beta split: option.split)
qed

lemma R_flush_frames: "R (store a) (store (snd (flush_frames b ps a)))"
proof (induction ps arbitrary: a)
  case (Cons p ps)
  obtain n f where p: "p = (n, f)" by force
  obtain sent a1 where s: "send_to_bot b f a = (sent, a1)" by force
  have a1: "store a1 = store a" using s by (auto simp: send_to_bot_def split: option.splits if_splits)
  have "R (store a) (store (on_store (ack_outbox n) a1))" using R_ack a1 by (simp add: on_store_def)
  then have "R (store a) (store (snd (flush_frames b ps (on_store (ack_outbox n) a1))))"
    by (rule R_trans) (rule Cons.IH)
  then show ?case using p s a1 R_refl by simp
qed (simp add: R_refl)

lemma R_deliver: "R (store a) (store (snd (deliver_event b sid tid snd' ct ms mid a)))"
proof (cases "session_terminal sid (store a)")
  case False
  let ?d = "store a\<lparr>uuid_next := Suc (uuid_next (store a))\<rparr>"
  have "R (store a) (enqueue_outbox b sid k f ?d)" for k f by (rule R_trans [OF R_uuid R_enqueue])
  then have "R (store a) (store (snd (flush_outbox b (a\<lparr>store := enqueue_outbox b sid k f ?d\<rparr>))))" for k f
    unfolding flush_outbox_def
    using R_trans [OF _ R_flush_frames [of "a\<lparr>store := enqueue_outbox b sid k f ?d\<rparr>"]] by simp
  then show ?thesis using False by (simp add: deliver_event_def new_id_def)
qed (simp add: deliver_event_def R_refl)

lemma framed_emit [frames]: "framed R (emitA k sid p)"
  unfolding emitA_def by (rule framed_mod) (rule R_north)

lemma framed_deliver [frames]: "framed R (deliverA b sid tid sn ct ms mid)"
  unfolding deliverA_def by (rule framed_mod) (rule R_deliver)

lemma framed_add_message [frames]: "framed R (callA (add_message sid tid ak ai au c rt))"
  by (rule framed_call) (rule R_message)

lemma framed_prompt [frames]: "framed R (deliver_system_prompt s to c)" "framed R (relay_settled s b to)"
  unfolding deliver_system_prompt_def relay_settled_def by (intro frames)+

end

text \<open>Then everything else the handlers call.\<close>

locale kernel_frame = prompt_frame +
  assumes R_tick: "R d (d\<lparr>now := at\<rparr>)"
    and R_touch: "R d (touch_last_seen_at b ts d)"
    and R_react: "R d (add_reaction mid b em d)"
    and R_unreact: "em \<noteq> DONE_EMOJI \<Longrightarrow> R d (remove_reaction mid b em d)"
    and R_thread: "upsert_thread sid root d = Inr (t, d') \<Longrightarrow> R d d'"
    and R_purge_bot: "R d (purge_outbox_for_session_bot sid b d)"
    and R_purge_session: "R d (purge_outbox_for_session sid d)"
    and R_frame: "R d (snd (record_bot_frame b er thr d))"
    and R_standing: "R d (set_standing_roster bs d)"
    and R_patch: "R d (snd (update_bot_metadata b p d))"
    and R_add_bot: "R d (snd (add_session_bot sid b d))"
    and R_add_bots: "add_session_bots_if_capacity sid bs cap inputs d = Inr (oc, d') \<Longrightarrow> R d d'"
    and R_remove_bot: "R d (snd (remove_session_bot sid b d))"
    and R_replace_bot: "replace_session_bot sid b b' d = Inr (x, d') \<Longrightarrow> R d d'"
    and R_quorum: "R d (set_session_quorum sid n' d)"
    and R_chair: "R d (set_session_chair sid b d)"
    and R_advance: "advance_state sid fr to d = Inr (x, d') \<Longrightarrow> fr < to \<Longrightarrow> to < Closed \<Longrightarrow> R d d'"
    and R_close: "close_if_active sid et reason stale d = Inr (x, d') \<Longrightarrow> R d d'"
    and R_result: "close_session_with_result sid fr dec r y g author ids finals rc d = Inr (x, d') \<Longrightarrow> fr < Closed \<Longrightarrow> R d d'"
    and R_intent: "enqueue_session_intent sid mid payload d = Inr d' \<Longrightarrow> R d d'"
begin

lemma R_webhook: "R (store a) (store (fire_close_webhook sid v reason a))"
  by (simp add: fire_close_webhook_def R_refl split: option.split)

lemma framed_webhook [frames]: "framed R (modA (fire_close_webhook sid v reason))"
  by (rule framed_mod) (rule R_webhook)

lemma framed_purge [frames]: "framed R (modA (purge_session_outbox_after_close sid))"
  by (rule framed_mod) (simp add: purge_session_outbox_after_close_def on_store_def R_purge_session)

lemma framed_store [frames]:
  "framed R (writeA (add_reaction mid b em))"
  "framed R (callA (upsert_thread sid root))" "framed R (writeA (purge_outbox_for_session_bot sid b))"
  "framed R (execA (record_bot_frame b er thr))" "framed R (execA (add_session_bot sid b))"
  "framed R (callA (add_session_bots_if_capacity sid bs cap inputs))" "framed R (execA (remove_session_bot sid b))"
  "framed R (callA (replace_session_bot sid b b'))" "framed R (writeA (set_session_quorum sid n))"
  "framed R (writeA (set_session_chair sid b))" "framed R (callA (close_if_active sid et reason stale))"
  by (fastforce intro: framed_call framed_exec framed_write
      R_react R_thread R_purge_bot R_frame R_add_bot R_add_bots R_remove_bot R_replace_bot R_quorum R_chair R_close)+

lemma framed_closed_effects [frames]: "framed R (closed_effects sid reason)"
  unfolding closed_effects_def by (intro frames)

lemma framed_superseded: "framed R (handle_superseded_session sid)"
  unfolding handle_superseded_session_def by (intro frames)

lemma framed_controller_close [frames]: "framed R (close_session_by_controller sid reason)"
  unfolding close_session_by_controller_def by (intro frames)

lemma framed_dispatch [frames]: "framed R (dispatch_coordinator s)"
  unfolding dispatch_coordinator_def by (intro frames)

lemma framed_timeout: "framed R (force_close_timeout sid stale)"
  unfolding force_close_timeout_def by (intro frames)

lemma framed_backfill [frames]: "framed R (backfill_bot_with_audience_alias sid b al)" "framed R (backfill_bot sid b)"
  unfolding backfill_bot_def backfill_bot_with_audience_alias_def by (intro frames)+

lemma framed_membership [frames]:
  "framed R (add_to_roster sid b)" "framed R (add_to_roster_batch sid bs inputs)" "framed R (replace_roster_bot sid b b')"
  unfolding add_to_roster_def add_to_roster_batch_def replace_roster_bot_def by (intro frames)+

lemma framed_reassign [frames]: "framed R (reassign_chair s to)"
  unfolding reassign_chair_def by (intro frames)

lemma framed_intent [frames]: "framed R (intentA sid mid payload)"
  unfolding intentA_def by (rule framed_call) (auto dest: R_intent)

lemma framed_close_action: "f < Closed \<Longrightarrow> framed R (close_action s f author v)"
  unfolding close_action_def Let_def by (intro frames framed_call) (rule R_result)

text \<open>Trimming runs only what a roster change returns, so it respects the preorder when that run does.\<close>

lemma framed_trim_body:
  assumes "\<And>s todo. list_all quorum_action todo \<Longrightarrow> framed R (run s todo)"
  shows "framed R (trim_reviewer_body run sid b reason)"
  unfolding trim_reviewer_body_def settle_trim_def ask_again_def
  by (intro frames assms) (simp add: getA_result, blast dest: dispatch_lookup intro: lookup_roster_change)

lemma framed_replace_or_trim:
  assumes "\<And>s todo. list_all quorum_action todo \<Longrightarrow> framed R (run s todo)"
  shows "framed R (replace_or_trim_reviewer run sid b)"
  unfolding replace_or_trim_reviewer_def by (intro frames framed_trim_body assms)

lemma framed_run_action:
  assumes "\<And>s todo. list_all quorum_action todo \<Longrightarrow> framed R (run s todo)" and "forward_action act"
  shows "framed R (run_action run s tf act)"
proof (cases act)
  case (Transition f t)
  then have "framed R (callA (advance_state (s_id s) f t))" using assms(2) by (auto intro: framed_call R_advance)
  then show ?thesis unfolding Transition run_action.simps by (intro frames)
next
  case (Close f au v)
  then show ?thesis using assms(2) by (auto intro!: frames framed_close_action)
qed (use assms(1) in \<open>auto intro!: frames framed_replace_or_trim\<close>)

lemma framed_run_list:
  assumes "\<And>s todo. list_all quorum_action todo \<Longrightarrow> framed R (run s todo)"
  shows "list_all forward_action todo \<Longrightarrow> framed R (run_list run s tf todo)"
  by (induction todo arbitrary: tf) (simp_all add: frames framed_run_action [OF assms])

lemma framed_run_actions_n: "list_all forward_action todo \<Longrightarrow> framed R (run_actions_n n s todo)"
proof (induction n arbitrary: s todo)
  case (Suc n)
  have "framed R (run_actions_n n s' todo')" if "list_all quorum_action todo'" for s' todo'
    using that by (intro Suc.IH) (auto simp: list_all_iff quorum_forward)
  then show ?case using Suc.prems by (simp add: framed_run_list)
qed (simp add: framed_fail)

lemma framed_run_actions: "list_all forward_action todo \<Longrightarrow> framed R (run_actions s todo)"
  unfolding run_actions_def by (rule framed_run_actions_n)

lemma framed_done [frames]: "framed R (run_done s b)"
  unfolding run_done_def
  by (intro frames framed_run_actions) (simp add: getA_result, blast dest: dispatch_lookup intro: lookup_forward)

lemma framed_text_done [frames]: "framed R (check_text_done s b mid t)"
  unfolding check_text_done_def by (intro frames)

lemma framed_health [frames]: "framed R (account_bot_health b t)"
proof -
  have "R (store a) (store (attempt_failover b a))" for a
  proof -
    have "R (store a) (store (emit_north k sid p (on_store (set_standing_roster r) a)))" for k sid p r
      using R_trans [OF _ R_north, of _ "on_store (set_standing_roster r) a"] R_standing by (simp add: on_store_def)
    then show ?thesis by (simp add: attempt_failover_def Let_def R_refl split: sum.split option.split)
  qed
  then show ?thesis unfolding account_bot_health_def by (intro frames framed_mod)
qed

lemma framed_seen [frames]:
  "framed R (modA (\<lambda>a. a\<lparr>recruit_seen := f a\<rparr>))" "framed R (modA (\<lambda>a. a\<lparr>intent_seen := g a\<rparr>))"
  by (simp_all add: framed_def modA_def R_refl)

lemma framed_directives [frames]: "framed R (maybe_recruit s b t)" "framed R (maybe_intent s b mid t)"
  unfolding maybe_recruit_def maybe_intent_def by (intro frames)+

lemma framed_ack [frames]: "framed R (ack b reply t m)"
  unfolding ack_def
  by (intro frames framed_mod) (auto simp: send_to_bot_def R_refl split: option.split)

lemma framed_send: "framed R (on_send s b name reply)"
  unfolding on_send_def by (intro frames)

lemma framed_topic: "framed R (on_create_topic s b reply)"
  unfolding on_create_topic_def redeliver_trigger_to_non_starter_chair_def by (intro frames)

lemma framed_reaction: "framed R (on_reaction s b reply add)"
  unfolding on_reaction_def reaction_write_def by (intro frames framed_write R_unreact)

lemma framed_quiet_reply:
  assumes "gr_command reply \<noteq> Some ''edit_message''"
  shows "framed R (handle_reply b reply)"
  unfolding handle_reply_def using assms by (intro frames framed_send framed_topic framed_reaction) simp

lemma framed_status: "framed R (emit_controller_status sid target body)"
  unfolding emit_controller_status_def by (intro frames)

lemma framed_opening: "framed R (deliver_opening_inputs sid)"
  unfolding deliver_opening_inputs_def by (intro frames)

lemma framed_trim [frames]: "framed R (trim_reviewer sid b)"
proof -
  have "framed R (run_actions s todo)" if "list_all quorum_action todo" for s todo
    using that by (intro framed_run_actions) (auto simp: list_all_iff quorum_forward)
  then show ?thesis unfolding trim_reviewer_def by (intro frames framed_trim_body)
qed

lemma framed_unreachable [frames]: "framed R (replace_unreachable sid row ch)"
proof -
  have "R (store a) (store (mark_unreachable row a))" for a
  proof -
    let ?a = "on_store (\<lambda>d. snd (update_bot_metadata (b_id row) (no_patch\<lparr>bp_health := Some ''unreachable''\<rparr>) d)) a"
    have "R (store a) (store ?a)" using R_patch by (simp add: on_store_def)
    from R_trans [OF this R_north] show ?thesis by (simp add: mark_unreachable_def R_refl)
  qed
  then show ?thesis unfolding replace_unreachable_def by (intro frames framed_mod)
qed

lemma framed_sweep: "framed R (sweep_liveness grace)"
  unfolding sweep_liveness_def sweep_session_def sweep_bot_def by (intro frames)

lemma R_flush: "R (store a) (store (snd (flush_outbox b a)))"
  unfolding flush_outbox_def by (rule R_flush_frames)

lemma R_on_store: "(\<And>d. R d (f d)) \<Longrightarrow> R (store a) (store (on_store f a))"
  by (simp add: on_store_def)

lemma R_touched: "R (store a) (store (on_store (touch_last_seen b) a))"
  unfolding touch_last_seen_def by (intro R_on_store R_touch)

lemma R_recover: "R (store a) (store (recover_health b a))"
proof -
  have "R (store a) (store (emit_north k sid p (on_store (\<lambda>d. snd (update_bot_metadata b q d)) a)))" for k sid p q
    by (rule R_trans [OF R_on_store R_north]) (rule R_patch)
  then show ?thesis by (simp add: recover_health_def R_refl split: option.split)
qed

lemma R_register: "R (store a) (store (snd (register_conn b a)))"
  using R_audit by (simp add: register_conn_def Let_def on_store_def)

lemma R_unregister: "R (store a) (store (snd (unregister_conn b g a)))"
  using R_audit R_refl by (simp add: unregister_conn_def Let_def on_store_def split: option.split)

lemma R_opened: "R (store a) (store (snd (conn_opened b a)))"
  unfolding conn_opened_def Let_def split_beta snd_conv
  by (rule R_trans [OF R_register R_trans [OF R_touched R_trans [OF R_recover R_flush]]])

lemma R_closed: "R (store a) (store (conn_closed b g a))"
proof -
  obtain off a1 where u: "unregister_conn b g a = (off, a1)" by force
  let ?a = "a1\<lparr>dead := g # dead a1\<rparr>"
  have 1: "R (store a) (store ?a)" using R_unregister [of a b g] u by simp
  show ?thesis
    using R_trans [OF 1 R_touched [of ?a b]] R_trans [OF 1 R_flush [of ?a b]] u by (simp add: conn_closed_def Let_def)
qed

end

text \<open>Bot replies also edit messages.\<close>

locale reply_frame = kernel_frame +
  assumes R_edit: "R d (edit_message mid c d)"
begin

lemma framed_edit: "framed R (on_edit s b reply)"
  unfolding on_edit_def by (intro frames framed_write R_edit)

lemma framed_reply: "framed R (handle_reply b reply)"
  unfolding handle_reply_def by (intro frames framed_send framed_topic framed_reaction framed_edit)

end

text \<open>Client messages may reopen a session.\<close>

locale client_frame = kernel_frame +
  assumes R_reopen: "reopen_session sid fr d = Inr (x, d') \<Longrightarrow> R d d'"
begin

lemma framed_client: "framed R (post_client_message sid content)"
proof -
  have "framed R (client_transition s)" for s
    unfolding client_transition_def
    by (cases "from_db_str (s_state s)")
      (auto intro!: frames framed_call intro: R_reopen R_advance simp: less_SessionState_def)
  then show ?thesis
    unfolding post_client_message_def fan_out_trigger_def by (intro frames)
qed

end

section \<open>Steps of the plane\<close>

text \<open>
  What the plane does by itself and on behalf of bots and controllers, and, in \<open>plane_step\<close>, also
  of clients. Between two steps time passes. A failing handler is a step too: it ends in the state
  it had reached.
\<close>

inductive kernel_step :: "AppState \<Rightarrow> AppState \<Rightarrow> bool" where
  time_passes: "kernel_step a (on_store (\<lambda>d. d\<lparr>now := t\<rparr>) a)"
| reply: "kernel_step a (snd (handle_reply b r a))"
| timeout: "kernel_step a (snd (force_close_timeout sid stale a))"
| sweep: "kernel_step a (snd (sweep_liveness grace a))"
| opened: "kernel_step a (snd (conn_opened b a))"
| dropped: "kernel_step a (conn_closed b g a)"
| deliver_inputs: "kernel_step a (snd (deliver_opening_inputs sid a))"
| controller_status: "kernel_step a (snd (emit_controller_status sid target body a))"
| controller_close: "kernel_step a (snd (close_session_by_controller sid reason a))"
| superseded: "kernel_step a (snd (handle_superseded_session sid a))"
| recruit: "kernel_step a (snd (add_to_roster sid b a))"
| recruits: "kernel_step a (snd (add_to_roster_batch sid bs inputs a))"
| replace: "kernel_step a (snd (replace_roster_bot sid b b' a))"

inductive plane_step :: "AppState \<Rightarrow> AppState \<Rightarrow> bool" where
  kernel: "kernel_step a a' \<Longrightarrow> plane_step a a'"
| client: "plane_step a (snd (post_client_message sid content a))"

context reply_frame
begin

lemma kernel_step_R: "kernel_step a a' \<Longrightarrow> R (store a) (store a')"
proof (induction rule: kernel_step.induct)
  case (time_passes a t)
  show ?case by (intro R_on_store R_tick)
qed (intro framedD framed_reply framed_timeout framed_sweep framed_opening framed_status framed_controller_close
    framed_superseded framed_membership R_opened R_closed)+

lemma kernel_run_R: "kernel_step\<^sup>*\<^sup>* a a' \<Longrightarrow> R (store a) (store a')"
  by (induction rule: rtranclp_induct) (auto intro: R_refl R_trans kernel_step_R)

end

locale plane_frame = reply_frame + client_frame
begin

lemma plane_run_R: "plane_step\<^sup>*\<^sup>* a a' \<Longrightarrow> R (store a) (store a')"
proof (induction rule: rtranclp_induct)
  case (step a' a'')
  from step.hyps(2) have "R (store a') (store a'')"
    by cases (auto intro: kernel_step_R framedD [OF framed_client])
  with step.IH show ?case by (rule R_trans)
qed (rule R_refl)

end

end
