(* ===== verification/Orchestrator_Safety.thy ===== *)
theory Orchestrator_Safety
  imports Orchestrator_Frames
begin

text \<open>
  What no step of the plane can do: the frames of the orchestrator interpreted for the database
  invariant, for the progress of sessions, for the history of votes, messages and journal entries,
  and for the texts of messages.
\<close>

section \<open>The database invariant\<close>

definition inv_step :: "db \<Rightarrow> db \<Rightarrow> bool" where
  "inv_step d d' \<longleftrightarrow> (db_inv d \<longrightarrow> db_inv d')"

lemma inv_step_store: "store_step d d' \<Longrightarrow> inv_step d d'"
  by (simp add: inv_step_def store_step_inv)

lemma inv_step_queue: "same_but_queue d d' \<Longrightarrow> inv_step d d'"
  using sess_inv_queue [of d d']
  by (simp add: inv_step_def db_inv_def out_inv_def msg_inv_def same_but_queue_fields)

lemma append_or_warn_queue: "same_but_queue d (append_or_warn e d)"
  by (auto simp: append_or_warn_def append_audit_event_def split: sum.splits option.splits dest!: append_audit_frame)

lemma intent_queue: "enqueue_session_intent sid mid payload d = Inr d' \<Longrightarrow> same_but_queue d d'"
  unfolding enqueue_session_intent_def by (rule enqueue_session_event_frame)

lemma inv_step_uuid: "inv_step d (d\<lparr>uuid_next := u\<rparr>)"
  by (rule inv_step_queue) (simp add: same_but_queue_def)

lemmas inv_laws = inv_step_uuid append_or_warn_queue [THEN inv_step_queue]
  store_step.tick [THEN inv_step_store] store_step.touch [THEN inv_step_store] store_step.react [THEN inv_step_store]
  store_step.unreact [THEN inv_step_store] store_step.enqueue [THEN inv_step_store] store_step.ack [THEN inv_step_store]
  store_step.purge_bot [THEN inv_step_store] store_step.purge_session [THEN inv_step_store]
  store_step.frame [THEN inv_step_store] store_step.standing [THEN inv_step_store] store_step.patch [THEN inv_step_store]
  store_step.add_bot [THEN inv_step_store] store_step.remove_bot [THEN inv_step_store] store_step.quorum [THEN inv_step_store]
  store_step.chair [THEN inv_step_store] store_step.edit [THEN inv_step_store]

lemmas inv_call_laws = store_step.message [THEN inv_step_store] store_step.thread [THEN inv_step_store]
  store_step.add_bots [THEN inv_step_store] store_step.replace_bot [THEN inv_step_store]
  store_step.advance [THEN inv_step_store] store_step.close_active [THEN inv_step_store]
  store_step.close_result [THEN inv_step_store] store_step.reopen [THEN inv_step_store] intent_queue [THEN inv_step_queue]

interpretation inv: plane_frame inv_step
proof
  fix d d' d'' :: db
  show "inv_step d d" "inv_step d d' \<Longrightarrow> inv_step d' d'' \<Longrightarrow> inv_step d d''" by (auto simp: inv_step_def)
qed (rule inv_laws | erule inv_call_laws)+

section \<open>Sessions move forward and keep their outcome\<close>

definition outcome :: "Session \<Rightarrow> string \<times> int option \<times> string option \<times> (int option \<times> int option \<times> int option)
    \<times> string option \<times> json option" where
  "outcome s = (s_state s, s_closed_at s, s_decision s, (s_findings_red s, s_findings_yellow s, s_findings_green s),
     s_result_author_id s, s_result_message_ids s)"

definition row_progress :: "Session \<Rightarrow> Session \<Rightarrow> bool" where
  "row_progress s s' \<longleftrightarrow> s_id s' = s_id s \<and> from_db_str (s_state s) \<le> from_db_str (s_state s')
    \<and> (closed_state s \<longrightarrow> outcome s' = outcome s)"

definition progress :: "db \<Rightarrow> db \<Rightarrow> bool" where
  "progress d d' \<longleftrightarrow> list_all2 row_progress (sessions d) (sessions d')"

lemma row_progress_refl [simp]: "row_progress s s"
  by (simp add: row_progress_def)

lemma row_progress_trans: "row_progress s t \<Longrightarrow> row_progress t u \<Longrightarrow> row_progress s u"
  by (auto simp: row_progress_def closed_state_def outcome_def intro: order_trans)

lemma progress_same: "sessions d' = sessions d \<Longrightarrow> progress d d'"
  by (simp add: progress_def list_all2_refl)

lemma progress_queue: "same_but_queue d d' \<Longrightarrow> progress d d'"
  by (simp add: progress_same same_but_queue_fields)

lemma progress_upd:
  assumes "sessions d' = upd_where P f (sessions d)" and "\<And>s. P s \<Longrightarrow> row_progress s (f s)"
  shows "progress d d'"
  using assms by (simp add: progress_def upd_where_def list_all2_conv_all_nth)

lemma active_not_closed: "active s \<Longrightarrow> \<not> closed_state s \<and> from_db_str (s_state s) \<le> Closed"
  by (auto simp: active_def closed_state_def from_db_str_def less_eq_SessionState_def split: if_splits)

text \<open>The three writes of a session's state, each as an update of rows.\<close>

lemma advance_rows:
  assumes "advance_state sid fr to d = Inr (x, d')"
  shows "\<exists>f. sessions d' = upd_where (\<lambda>s. s_id s = sid \<and> s_state s = as_str fr) f (sessions d)
    \<and> (\<forall>s. s_id (f s) = s_id s \<and> s_state (f s) = as_str to)"
proof -
  let ?f = "\<lambda>s. s\<lparr>s_state := as_str to, s_closed_at := coalesce (closing_time to d) (s_closed_at s)\<rparr>"
  have "sessions d' = upd_where (\<lambda>s. s_id s = sid \<and> s_state s = as_str fr) ?f (sessions d)"
    using assms unfolding advance_state_def Let_def
    by (auto simp: write_sessions_Inr same_but_queue_fields split: if_splits dest!: state_change_audit_frame)
  then show ?thesis by fastforce
qed

lemma close_active_rows:
  assumes "close_if_active sid et reason stale d = Inr (x, d')"
  shows "sessions d' = upd_where (\<lambda>s. s_id s = sid \<and> close_guard stale d s)
    (\<lambda>s. s\<lparr>s_state := ''closed'', s_closed_at := Some (now_ms d)\<rparr>) (sessions d)"
  using assms unfolding close_if_active_def Let_def
  by (auto split: if_splits dest!: append_audit_frame enqueue_session_event_frame simp: same_but_queue_fields)

lemma close_result_rows:
  assumes "close_session_with_result sid fr dec r y g author ids finals rc d = Inr (x, d')"
  shows "sessions d' = upd_where (\<lambda>s. s_id s = sid \<and> s_state s = as_str fr)
    (\<lambda>s. s\<lparr>s_state := ''closed'', s_closed_at := Some (now_ms d),
        s_decision := dec, s_findings_red := r, s_findings_yellow := y, s_findings_green := g,
        s_result_author_id := author, s_result_message_ids := ids\<rparr>) (sessions d)"
  using assms unfolding close_session_with_result_def Let_def
  by (auto split: if_splits dest!: append_audit_frame enqueue_session_event_frame simp: same_but_queue_fields)

lemma closed_text: "from_db_str ''closed'' = Closed"
  by (simp add: from_db_str_def)

lemma below_closed: "st < Closed \<Longrightarrow> \<not> terminal st"
  by (auto simp: less_SessionState_def)

lemma progress_advance:
  assumes "advance_state sid fr to d = Inr (x, d')" and "fr < to" and "to < Closed"
  shows "progress d d'"
proof -
  obtain f where e: "sessions d' = upd_where (\<lambda>s. s_id s = sid \<and> s_state s = as_str fr) f (sessions d)"
    and f: "\<forall>s. s_id (f s) = s_id s \<and> s_state (f s) = as_str to" using advance_rows [OF assms(1)] by blast
  have "\<not> terminal fr" using assms(2, 3) below_closed less_trans by blast
  with f assms(2) show ?thesis by (intro progress_upd [OF e]) (auto simp: row_progress_def closed_state_def)
qed

lemma progress_close: "close_if_active sid et reason stale d = Inr (x, d') \<Longrightarrow> progress d d'"
  by (drule close_active_rows, erule progress_upd) (auto simp: row_progress_def closed_text dest: active_not_closed)

lemma progress_result:
  "close_session_with_result sid fr dec r y g author ids finals rc d = Inr (x, d') \<Longrightarrow> fr < Closed \<Longrightarrow> progress d d'"
  by (drule close_result_rows, erule progress_upd)
    (auto simp: row_progress_def closed_state_def closed_text dest: below_closed)

lemma progress_fields:
  "progress d (set_session_quorum sid n d)" "progress d (set_session_chair sid b d)"
  unfolding set_session_quorum_def set_session_chair_def
  by (rule progress_upd, simp, simp add: row_progress_def outcome_def)+

lemma progress_calls:
  "add_message sid tid ak ai au c rt d = Inr (m, d') \<Longrightarrow> progress d d'"
  "upsert_thread sid root d = Inr (t, d') \<Longrightarrow> progress d d'"
  "add_session_bots_if_capacity sid bs cap inputs d = Inr (oc, d') \<Longrightarrow> progress d d'"
  "replace_session_bot sid b b' d = Inr (z, d') \<Longrightarrow> progress d d'"
proof -
  show "add_message sid tid ak ai au c rt d = Inr (m, d') \<Longrightarrow> progress d d'"
    by (drule add_message_shape) (auto intro: progress_same simp: same_but_queue_fields)
  show "upsert_thread sid root d = Inr (t, d') \<Longrightarrow> progress d d'"
    by (rule progress_same) (auto simp: upsert_thread_def new_id_def Let_def split: option.splits if_splits)
  show "add_session_bots_if_capacity sid bs cap inputs d = Inr (oc, d') \<Longrightarrow> progress d d'"
    by (rule progress_same)
      (auto simp: add_session_bots_if_capacity_def Let_def split: if_splits dest!: insert_opening_inputs_shape)
  show "replace_session_bot sid b b' d = Inr (z, d') \<Longrightarrow> progress d d'"
    by (rule progress_same) (auto simp: replace_session_bot_def Let_def split: if_splits)
qed

lemmas plain_ops = touch_last_seen_at_def add_reaction_def remove_reaction_def ack_outbox_def enqueue_outbox_def
  purge_outbox_for_session_bot_def purge_outbox_for_session_def set_standing_roster_def update_bot_metadata_def
  add_session_bot_def add_roster_row_def remove_session_bot_def edit_message_def Let_def

lemma frame_fields:
  "sessions (snd (record_bot_frame b er thr d)) = sessions d" "messages_t (snd (record_bot_frame b er thr d)) = messages_t d"
  "reactions_t (snd (record_bot_frame b er thr d)) = reactions_t d"
  "audit_events (snd (record_bot_frame b er thr d)) = audit_events d"
  by (simp_all add: record_bot_frame_def set_bot_def Let_def split: option.split)

interpretation prog: reply_frame progress
proof
  fix d d' d'' :: db
  show "progress d d" by (rule progress_same) simp
  show "progress d d' \<Longrightarrow> progress d' d'' \<Longrightarrow> progress d d''"
    unfolding progress_def by (rule list_all2_trans [OF row_progress_trans])
qed (rule progress_fields progress_queue [OF append_or_warn_queue] | erule (2) progress_advance | erule (1) progress_result
    | erule progress_close progress_calls progress_queue [OF intent_queue] | rule progress_same, simp add: plain_ops frame_fields)+

section \<open>The journal only grows\<close>

definition journal_grows :: "db \<Rightarrow> db \<Rightarrow> bool" where
  "journal_grows d d' \<longleftrightarrow> (\<exists>es. audit_events d' = audit_events d @ es)"

lemma journal_same: "audit_events d' = audit_events d \<Longrightarrow> journal_grows d d'"
  by (simp add: journal_grows_def)

lemma journal_trans: "journal_grows d d' \<Longrightarrow> journal_grows d' d'' \<Longrightarrow> journal_grows d d''"
  by (auto simp: journal_grows_def)

lemma journal_append: "append_audit_event_locked e d = Inr d' \<Longrightarrow> journal_grows d d'"
  by (auto simp: append_audit_event_locked_def journal_grows_def split: sum.splits if_splits)

lemma journal_append_or_warn: "journal_grows d (append_or_warn e d)"
  by (auto simp: append_or_warn_def append_audit_event_def journal_same split: sum.splits option.splits dest!: journal_append)

lemma journal_cong: "audit_events d0 = audit_events d \<Longrightarrow> journal_grows d0 d' \<Longrightarrow> journal_grows d d'"
  by (simp add: journal_grows_def)

lemma journal_enqueue: "enqueue_controller_event_locked c s t pl k at d = Inr d' \<Longrightarrow> journal_grows d d'"
  unfolding enqueue_controller_event_locked_def
  by (auto simp: Let_def new_id_def event_ins_def journal_same split: option.splits dest!: journal_append elim!: journal_cong [rotated])

lemma journal_session_event: "enqueue_controller_session_event_locked s t pl k at d = Inr d' \<Longrightarrow> journal_grows d d'"
  by (auto simp: enqueue_controller_session_event_locked_def journal_same split: option.splits intro: journal_enqueue)

lemma journal_calls:
  "add_message sid tid ak ai au c rt d = Inr (m, d') \<Longrightarrow> journal_grows d d'"
  "upsert_thread sid root d = Inr (t, d') \<Longrightarrow> journal_grows d d'"
  "add_session_bots_if_capacity sid bs cap inputs d = Inr (oc, d') \<Longrightarrow> journal_grows d d'"
  "replace_session_bot sid b b' d = Inr (z, d') \<Longrightarrow> journal_grows d d'"
  "advance_state sid fr to d = Inr (x, d') \<Longrightarrow> journal_grows d d'"
  "close_if_active sid et reason stale d = Inr (x, d') \<Longrightarrow> journal_grows d d'"
  "close_session_with_result sid fr dec r y g author ids finals rc d = Inr (x, d') \<Longrightarrow> journal_grows d d'"
  "enqueue_session_intent sid mid payload d = Inr d' \<Longrightarrow> journal_grows d d'"
  "reopen_session sid fr d = Inr (x, d') \<Longrightarrow> journal_grows d d'"
proof -
  show "add_message sid tid ak ai au c rt d = Inr (m, d') \<Longrightarrow> journal_grows d d'"
    unfolding add_message_def new_id_def Let_def
    by (auto split: if_splits dest!: journal_append journal_session_event simp: journal_grows_def)
  show "upsert_thread sid root d = Inr (t, d') \<Longrightarrow> journal_grows d d'"
    by (rule journal_same) (auto simp: upsert_thread_def new_id_def Let_def split: option.splits if_splits)
  show "add_session_bots_if_capacity sid bs cap inputs d = Inr (oc, d') \<Longrightarrow> journal_grows d d'"
    by (rule journal_same)
      (auto simp: add_session_bots_if_capacity_def Let_def split: if_splits dest!: insert_opening_inputs_shape)
  show "replace_session_bot sid b b' d = Inr (z, d') \<Longrightarrow> journal_grows d d'"
    by (rule journal_same) (auto simp: replace_session_bot_def Let_def split: if_splits)
  show "advance_state sid fr to d = Inr (x, d') \<Longrightarrow> journal_grows d d'"
    unfolding advance_state_def Let_def state_change_audit_def
    by (auto simp: write_sessions_Inr journal_same split: if_splits dest!: journal_append elim!: journal_cong [rotated])
  show "close_if_active sid et reason stale d = Inr (x, d') \<Longrightarrow> journal_grows d d'"
    unfolding close_if_active_def Let_def
    by (auto split: if_splits dest!: journal_append journal_session_event simp: journal_grows_def)
  show "close_session_with_result sid fr dec r y g author ids finals rc d = Inr (x, d') \<Longrightarrow> journal_grows d d'"
    unfolding close_session_with_result_def Let_def
    by (auto split: if_splits dest!: journal_append journal_session_event simp: journal_grows_def)
  show "enqueue_session_intent sid mid payload d = Inr d' \<Longrightarrow> journal_grows d d'"
    unfolding enqueue_session_intent_def by (rule journal_session_event)
  show "reopen_session sid fr d = Inr (x, d') \<Longrightarrow> journal_grows d d'"
    unfolding reopen_session_def Let_def by (auto simp: write_sessions_Inr journal_same)
qed

interpretation journal: plane_frame journal_grows
proof
  fix d d' d'' :: db
  show "journal_grows d d" by (rule journal_same) simp
  show "journal_grows d d' \<Longrightarrow> journal_grows d' d'' \<Longrightarrow> journal_grows d d''" by (rule journal_trans)
qed (rule journal_append_or_warn | erule journal_calls
    | rule journal_same, simp add: plain_ops frame_fields set_session_quorum_def set_session_chair_def)+

section \<open>Votes and messages are kept\<close>

definition rows_kept :: "db \<Rightarrow> db \<Rightarrow> bool" where
  "rows_kept d d' \<longleftrightarrow> (\<forall>m \<in> set (messages_t d). \<exists>c. m\<lparr>m_content := c\<rparr> \<in> set (messages_t d'))
    \<and> (\<forall>r \<in> set (reactions_t d). r_emoji r = DONE_EMOJI \<longrightarrow> r \<in> set (reactions_t d'))"

definition texts_kept :: "db \<Rightarrow> db \<Rightarrow> bool" where
  "texts_kept d d' \<longleftrightarrow> set (messages_t d) \<subseteq> set (messages_t d')"

lemma rows_kept_texts: "texts_kept d d' \<Longrightarrow> set (reactions_t d) \<subseteq> set (reactions_t d') \<Longrightarrow> rows_kept d d'"
proof -
  have "\<exists>c. m\<lparr>m_content := c\<rparr> \<in> X" if "m \<in> X" for m :: Message and X
    using that by (intro exI [of _ "m_content m"]) simp
  then show "texts_kept d d' \<Longrightarrow> set (reactions_t d) \<subseteq> set (reactions_t d') \<Longrightarrow> rows_kept d d'"
    unfolding rows_kept_def texts_kept_def by blast
qed

lemma call_rows:
  "add_message sid tid ak ai au c rt d = Inr (m, d') \<Longrightarrow> texts_kept d d' \<and> reactions_t d' = reactions_t d"
  "upsert_thread sid root d = Inr (t, d') \<Longrightarrow> texts_kept d d' \<and> reactions_t d' = reactions_t d"
  "add_session_bots_if_capacity sid bs cap inputs d = Inr (oc, d') \<Longrightarrow> texts_kept d d' \<and> reactions_t d' = reactions_t d"
  "replace_session_bot sid b b' d = Inr (z, d') \<Longrightarrow> texts_kept d d' \<and> reactions_t d' = reactions_t d"
  "advance_state sid fr to d = Inr (x, d') \<Longrightarrow> texts_kept d d' \<and> reactions_t d' = reactions_t d"
  "close_if_active sid et reason stale d = Inr (x, d') \<Longrightarrow> texts_kept d d' \<and> reactions_t d' = reactions_t d"
  "close_session_with_result sid fr dec r y g author ids finals rc d = Inr (x, d') \<Longrightarrow> texts_kept d d' \<and> reactions_t d' = reactions_t d"
  "enqueue_session_intent sid mid payload d = Inr d' \<Longrightarrow> texts_kept d d' \<and> reactions_t d' = reactions_t d"
  "reopen_session sid fr d = Inr (x, d') \<Longrightarrow> texts_kept d d' \<and> reactions_t d' = reactions_t d"
proof -
  show "add_message sid tid ak ai au c rt d = Inr (m, d') \<Longrightarrow> texts_kept d d' \<and> reactions_t d' = reactions_t d"
    by (drule add_message_shape) (auto simp: texts_kept_def same_but_queue_fields)
  show "upsert_thread sid root d = Inr (t, d') \<Longrightarrow> texts_kept d d' \<and> reactions_t d' = reactions_t d"
    by (auto simp: upsert_thread_def new_id_def Let_def texts_kept_def split: option.splits if_splits)
  show "add_session_bots_if_capacity sid bs cap inputs d = Inr (oc, d') \<Longrightarrow> texts_kept d d' \<and> reactions_t d' = reactions_t d"
    by (auto simp: add_session_bots_if_capacity_def Let_def texts_kept_def split: if_splits dest!: insert_opening_inputs_shape)
  show "replace_session_bot sid b b' d = Inr (z, d') \<Longrightarrow> texts_kept d d' \<and> reactions_t d' = reactions_t d"
    by (auto simp: replace_session_bot_def Let_def texts_kept_def split: if_splits)
  show "advance_state sid fr to d = Inr (x, d') \<Longrightarrow> texts_kept d d' \<and> reactions_t d' = reactions_t d"
    unfolding advance_state_def Let_def texts_kept_def
    by (auto simp: write_sessions_Inr same_but_queue_fields split: if_splits dest!: state_change_audit_frame)
  show "close_if_active sid et reason stale d = Inr (x, d') \<Longrightarrow> texts_kept d d' \<and> reactions_t d' = reactions_t d"
    unfolding close_if_active_def Let_def texts_kept_def
    by (auto split: if_splits dest!: append_audit_frame enqueue_session_event_frame simp: same_but_queue_fields)
  show "close_session_with_result sid fr dec r y g author ids finals rc d = Inr (x, d') \<Longrightarrow> texts_kept d d' \<and> reactions_t d' = reactions_t d"
    unfolding close_session_with_result_def Let_def texts_kept_def
    by (auto split: if_splits dest!: append_audit_frame enqueue_session_event_frame simp: same_but_queue_fields)
  show "enqueue_session_intent sid mid payload d = Inr d' \<Longrightarrow> texts_kept d d' \<and> reactions_t d' = reactions_t d"
    by (drule intent_queue) (simp add: texts_kept_def same_but_queue_fields)
  show "reopen_session sid fr d = Inr (x, d') \<Longrightarrow> texts_kept d d' \<and> reactions_t d' = reactions_t d"
    unfolding reopen_session_def Let_def texts_kept_def by (auto simp: write_sessions_Inr)
qed

lemma texts_same: "messages_t d' = messages_t d \<Longrightarrow> texts_kept d d'"
  by (simp add: texts_kept_def)

lemma warn_rows: "messages_t (append_or_warn e d) = messages_t d" "reactions_t (append_or_warn e d) = reactions_t d"
  using append_or_warn_queue [of d e] by (simp_all add: same_but_queue_fields)

lemmas row_ops = plain_ops frame_fields set_session_quorum_def set_session_chair_def warn_rows

interpretation texts: client_frame texts_kept
proof
  fix d d' d'' :: db
  show "texts_kept d d" by (rule texts_same) simp
  show "texts_kept d d' \<Longrightarrow> texts_kept d' d'' \<Longrightarrow> texts_kept d d''" by (auto simp: texts_kept_def)
qed (erule call_rows [THEN conjunct1] | rule texts_same, simp add: row_ops)+

lemma rows_call: "texts_kept d d' \<and> reactions_t d' = reactions_t d \<Longrightarrow> rows_kept d d'"
  by (simp add: rows_kept_texts)

lemma rows_edit: "rows_kept d (edit_message mid c d)"
proof -
  have "\<exists>x. m\<lparr>m_content := x\<rparr> \<in> set (upd_where P (\<lambda>m. m\<lparr>m_content := c\<rparr>) ms)" if "m \<in> set ms" for m :: Message and ms P
    using that by (intro exI [of _ "if P m then c else m_content m"]) (auto simp: upd_where_def)
  then show ?thesis by (simp add: rows_kept_def edit_message_def)
qed

lemma rows_reactions:
  "rows_kept d (add_reaction mid b em d)" "em \<noteq> DONE_EMOJI \<Longrightarrow> rows_kept d (remove_reaction mid b em d)"
proof -
  show "rows_kept d (add_reaction mid b em d)"
    by (rule rows_kept_texts) (auto simp: add_reaction_def ins_ignore_def texts_kept_def)
  have k: "\<exists>c. m\<lparr>m_content := c\<rparr> \<in> X" if "m \<in> X" for m :: Message and X
    using that by (intro exI [of _ "m_content m"]) simp
  show "em \<noteq> DONE_EMOJI \<Longrightarrow> rows_kept d (remove_reaction mid b em d)"
    by (auto simp: rows_kept_def remove_reaction_def del_where_def k)
qed

interpretation rows: plane_frame rows_kept
proof
  fix d d' d'' :: db
  show "rows_kept d d" by (simp add: rows_kept_texts texts_kept_def)
  show "rows_kept d d' \<Longrightarrow> rows_kept d' d'' \<Longrightarrow> rows_kept d d''" unfolding rows_kept_def by fastforce
qed (rule rows_edit rows_reactions | erule call_rows [THEN rows_call] | assumption
    | rule rows_kept_texts, rule texts_same, simp add: row_ops, simp add: row_ops)+

section \<open>Properties\<close>

lemma progress_session:
  assumes "progress d d'" and "session sid d = Some s"
  shows "\<exists>s'. session sid d' = Some s' \<and> row_progress s s'"
proof -
  have "\<exists>s'. find (\<lambda>s. s_id s = sid) ys = Some s' \<and> row_progress s s'"
    if "list_all2 row_progress xs ys" "find (\<lambda>s. s_id s = sid) xs = Some s" for xs ys
    using that by (induction rule: list_all2_induct) (auto simp: row_progress_def split: if_splits)
  then show ?thesis using assms by (simp add: progress_def session_def)
qed

lemma votes_kept:
  assumes "rows_kept d d'"
  shows "set (done_voters sid d) \<subseteq> set (done_voters sid d')"
proof
  fix b assume "b \<in> set (done_voters sid d)"
  then obtain r m where r: "r \<in> set (reactions_t d)" "b = r_bot_id r" "r_emoji r = DONE_EMOJI"
    and m: "m \<in> set (messages_t d)" "m_id m = r_message_id r" "m_session_id m = sid"
      "m_author_kind m \<in> set [''client'', ''system''] \<or> m_author_id m = Some (r_bot_id r)"
    by (auto simp: done_voters_def vote_counts_def list_ex_iff)
  obtain c where "m\<lparr>m_content := c\<rparr> \<in> set (messages_t d')" using assms m(1) by (auto simp: rows_kept_def)
  moreover have "r \<in> set (reactions_t d')" using assms r by (simp add: rows_kept_def)
  ultimately show "b \<in> set (done_voters sid d')"
    using r m by (auto simp: done_voters_def vote_counts_def list_ex_iff intro!: bexI [of _ "m\<lparr>m_content := c\<rparr>"])
qed

lemma idle_reply:
  assumes "session (rc_id (gr_channel r)) (store a) = None
    \<or> (\<exists>s. session (rc_id (gr_channel r)) (store a) = Some s
        \<and> (b \<notin> set (roster (s_id s) (store a))
          \<or> closed_state s \<and> gr_command r \<noteq> Some ''add_reaction'' \<and> gr_command r \<noteq> Some ''remove_reaction''))"
  shows "handle_reply b r a = (Inr (), a)"
proof (cases "session (rc_id (gr_channel r)) (store a)")
  case None
  then show ?thesis by (simp add: handle_reply_def bindA_def readA_def getA_def retA_def)
next
  case (Some s)
  note run = handle_reply_def bindA_def readA_def getA_def retA_def Some
  show ?thesis
  proof (cases "b \<in> set (roster (s_id s) (store a))")
    case True
    then have "closed_state s" "gr_command r \<noteq> Some ''add_reaction''" "gr_command r \<noteq> Some ''remove_reaction''"
      using assms Some by simp_all
    then show ?thesis by (cases "gr_command r") (simp_all add: run)
  qed (simp add: run)
qed




text \<open>One council session, closed with a verdict, its roster and one message of a reviewer.\<close>

definition closed_session :: Session where
  "closed_session = example_session\<lparr>s_state := ''closed'', s_decision := Some ''approve''\<rparr>"

definition closed_message :: Message where
  "closed_message = \<lparr>m_id = ''m'', m_session_id = ''ses_a'', m_thread_id = None, m_author_kind = ''bot'',
    m_author_id = Some ''r1'', m_audience = None, m_content = ''LGTM'', m_reply_to = None, m_created_at = 0\<rparr>"

definition closed_app :: AppState where
  "closed_app = example_app\<lparr>store := empty_db\<lparr>sessions := [closed_session],
    session_bots := [\<lparr>sb_session_id = ''ses_a'', sb_bot_id = ''r1''\<rparr>], messages_t := [closed_message],
    reactions_t := [\<lparr>r_message_id = ''m'', r_bot_id = ''r1'', r_emoji = DONE_EMOJI\<rparr>]\<rparr>\<rparr>"

lemma closed_app_store:
  "session ''ses_a'' (store closed_app) = Some closed_session" "closed_state closed_session"
  "roster ''ses_a'' (store closed_app) = [''r1'']" "done_voters ''ses_a'' (store closed_app) = [''r1'']"
  "s_id closed_session = ''ses_a''" "messages_t (store closed_app) = [closed_message]"
  by (simp_all add: closed_app_def session_def closed_session_def example_session_def new_session_row_def closed_state_def
      from_db_str_def roster_def members_def done_voters_def vote_counts_def closed_message_def example_app_def)


text \<open>
  Evidence is never lost: whatever the plane, bots and clients do, a recorded done vote keeps
  counting for its session and the journal only grows at its end.
\<close>

theorem votes_and_journal_kept:
  assumes "plane_step\<^sup>*\<^sup>* a a'"
  shows "set (done_voters sid (store a)) \<subseteq> set (done_voters sid (store a'))
    \<and> (\<exists>es. audit_events (store a') = audit_events (store a) @ es)"
  using votes_kept [OF rows.plane_run_R [OF assms], of sid] journal.plane_run_R [OF assms]
  by (simp add: journal_grows_def)

theorem votes_and_journal_kept_witness:
  "''r1'' \<in> set (done_voters ''ses_a'' (store (snd (post_client_message ''ses_a'' ''more?'' closed_app))))"
proof -
  have "plane_step\<^sup>*\<^sup>* closed_app (snd (post_client_message ''ses_a'' ''more?'' closed_app))"
    by (rule r_into_rtranclp) (rule plane_step.client)
  from votes_and_journal_kept [OF this, of "''ses_a''"] closed_app_store(4) show ?thesis by simp
qed

text \<open>
  C33. Only edits change what was said: a step of the plane after which some message is missing or
  reads differently is an edit_message reply of a member of an open session.
\<close>

theorem only_edits_change_texts:
  assumes "plane_step a a'" and "\<not> set (messages_t (store a)) \<subseteq> set (messages_t (store a'))"
  shows "\<exists>b r s. a' = snd (handle_reply b r a) \<and> gr_command r = Some ''edit_message''
    \<and> session (rc_id (gr_channel r)) (store a) = Some s \<and> b \<in> set (roster (s_id s) (store a)) \<and> \<not> closed_state s"
proof -
  have lost: "\<not> texts_kept (store a) (store a')" using assms(2) by (simp add: texts_kept_def)
  obtain b r where r: "a' = snd (handle_reply b r a)"
  proof -
    have "\<exists>b r. a' = snd (handle_reply b r a)"
    proof (rule ccontr)
      assume n: "\<not> ?thesis"
      from assms(1) have "texts_kept (store a) (store a')"
      proof cases
        case kernel
        then show ?thesis
        proof cases
          case (time_passes t)
          then show ?thesis by (simp add: texts_kept_def on_store_def)
        qed (use n in \<open>auto intro: framedD texts.framed_timeout texts.framed_sweep texts.framed_opening texts.framed_status
            texts.framed_controller_close texts.framed_superseded texts.framed_membership texts.R_opened texts.R_closed\<close>)
      qed (auto intro: framedD texts.framed_client)
      with lost show False by contradiction
    qed
    then show ?thesis using that by blast
  qed
  have e: "gr_command r = Some ''edit_message''"
    using lost r framedD [OF texts.framed_quiet_reply, of r a b] by blast
  have "handle_reply b r a \<noteq> (Inr (), a)" using lost r texts.R_refl by auto
  then show ?thesis using idle_reply [of r a b] r e
    by (cases "session (rc_id (gr_channel r)) (store a)") auto
qed

text \<open>
  The edit itself checks neither the author nor the session of its target: a member of any open
  session can replace the text of any stored message, also one of a closed session.
\<close>

lemma edit_reaches_any_message:
  assumes "session (rc_id (gr_channel r)) (store a) = Some s" and "b \<in> set (roster (s_id s) (store a))"
    and "\<not> closed_state s" and "gr_command r = Some ''edit_message''" and "target_msg r = Some (m_id m)"
    and "m \<in> set (messages_t (store a))"
  shows "m\<lparr>m_content := ct_text (gr_content r)\<rparr> \<in> set (messages_t (store (snd (handle_reply b r a))))"
proof -
  let ?body = "ct_text (gr_content r)" and ?mid = "m_id m"
  let ?rest = "seqA (emitA ''message_edit'' (s_id s) (JObj [(''message_id'', JStr ?mid), (''content'', JStr ?body)]))
         (seqA (ack b r None (Some ?mid))
         (seqA (account_bot_health b ?body)
         (seqA (maybe_recruit s b ?body)
         (seqA (maybe_intent s b ?mid ?body)
         (check_text_done s b ?mid ?body)))))"
  let ?a = "on_store (edit_message ?mid ?body) a"
  have "handle_reply b r a = on_edit s b r a"
    using assms by (simp add: handle_reply_def bindA_def readA_def getA_def)
  also have "\<dots> = seqA (writeA (edit_message ?mid ?body)) ?rest a"
    using assms(5) by (simp add: on_edit_def Let_def)
  also have "\<dots> = ?rest ?a" by (rule run_simps)
  finally have h: "handle_reply b r a = ?rest ?a" .
  have "framed texts_kept ?rest"
    by (intro texts.framed_seq texts.framed_emit texts.framed_ack texts.framed_health texts.framed_directives texts.framed_text_done)
  then have "texts_kept (store ?a) (store (snd (handle_reply b r a)))" unfolding h by (rule framedD)
  moreover have "m\<lparr>m_content := ?body\<rparr> \<in> set (messages_t (store ?a))"
    using assms(6) by (auto simp: on_store_def edit_message_def upd_where_def)
  ultimately show ?thesis by (auto simp: texts_kept_def)
qed

text \<open>The same bot, also a member of an open session, rewrites the closed session's message from there.\<close>

definition second_session :: Session where
  "second_session = new_session_row ''ses_b'' ''t'' ''deliberating'' None None 1 None 0 ''council''"

definition two_sessions_app :: AppState where
  "two_sessions_app = closed_app\<lparr>store := store closed_app\<lparr>sessions := [closed_session, second_session],
    session_bots := [\<lparr>sb_session_id = ''ses_a'', sb_bot_id = ''r1''\<rparr>, \<lparr>sb_session_id = ''ses_b'', sb_bot_id = ''r1''\<rparr>]\<rparr>\<rparr>"

definition edit_reply :: GatewayReply where
  "edit_reply = \<lparr>gr_schema = [], gr_reply_to = ''m'', gr_platform = [], gr_channel = \<lparr>rc_id = ''ses_b'', rc_thread_id = None\<rparr>,
    gr_content = text_content ''rejected'', gr_command = Some ''edit_message'', gr_request_id = None, gr_quote_message_id = None\<rparr>"

lemma two_sessions_store:
  "session ''ses_b'' (store two_sessions_app) = Some second_session" "\<not> closed_state second_session"
  "roster ''ses_b'' (store two_sessions_app) = [''r1'']" "s_id second_session = ''ses_b''"
  "messages_t (store two_sessions_app) = [closed_message]" "db_inv (store two_sessions_app)"
proof -
  show "db_inv (store two_sessions_app)"
    by (simp add: db_inv_def sess_inv_def out_inv_def msg_inv_def two_sessions_app_def closed_app_def example_app_def
        trigger_index_ok_def active_triggers_simps active_def closed_session_def second_session_def example_session_def
        new_session_row_def empty_db_def)
qed (simp_all add: two_sessions_app_def closed_app_def example_app_def session_def closed_session_def second_session_def
    example_session_def new_session_row_def closed_state_def from_db_str_def roster_def members_def)

lemma edit_changes_closed_transcript:
  "closed_message\<lparr>m_content := ''rejected''\<rparr> \<in> set (messages_t (store (snd (handle_reply ''r1'' edit_reply two_sessions_app))))"
proof -
  have "m_id closed_message = ''m''" by (simp add: closed_message_def)
  then show ?thesis
    using edit_reaches_any_message [of edit_reply two_sessions_app second_session "''r1''" closed_message] two_sessions_store
    by (simp add: edit_reply_def target_msg_def text_content_def)
qed

theorem only_edits_change_texts_witness:
  "\<exists>b r s. snd (handle_reply ''r1'' edit_reply two_sessions_app) = snd (handle_reply b r two_sessions_app)
    \<and> gr_command r = Some ''edit_message'' \<and> session (rc_id (gr_channel r)) (store two_sessions_app) = Some s
    \<and> b \<in> set (roster (s_id s) (store two_sessions_app)) \<and> \<not> closed_state s"
proof -
  let ?a' = "snd (handle_reply ''r1'' edit_reply two_sessions_app)"
  have st: "plane_step two_sessions_app ?a'" by (intro plane_step.kernel kernel_step.reply)
  have "db_inv (store ?a')"
    using inv.plane_run_R [OF r_into_rtranclp [where r = plane_step, OF st]] two_sessions_store(6) by (simp add: inv_step_def)
  then have d: "inj_on m_id (set (messages_t (store ?a')))" by (simp add: db_inv_def msg_inv_def distinct_map)
  have "closed_message \<notin> set (messages_t (store ?a'))"
  proof
    assume "closed_message \<in> set (messages_t (store ?a'))"
    from inj_onD [OF d _ this edit_changes_closed_transcript] show False by (simp add: closed_message_def)
  qed
  then have "\<not> set (messages_t (store two_sessions_app)) \<subseteq> set (messages_t (store ?a'))"
    using two_sessions_store(5) by simp
  with st show ?thesis by (rule only_edits_change_texts)
qed

text \<open>
  Replies that have no business in a session are dropped whole: a reply for an unknown session,
  from a bot outside the roster, or a send, topic, edit or deletion in a closed session succeeds
  without changing anything, anywhere.
\<close>

theorem foreign_and_late_replies_are_inert:
  assumes "session (rc_id (gr_channel r)) (store a) = None
    \<or> (\<exists>s. session (rc_id (gr_channel r)) (store a) = Some s
        \<and> (b \<notin> set (roster (s_id s) (store a))
          \<or> closed_state s \<and> gr_command r \<noteq> Some ''add_reaction'' \<and> gr_command r \<noteq> Some ''remove_reaction''))"
  shows "handle_reply b r a = (Inr (), a)"
  by (rule idle_reply [OF assms])

theorem foreign_and_late_replies_are_inert_witness:
  "handle_reply ''r1'' (edit_reply\<lparr>gr_channel := \<lparr>rc_id = ''ses_a'', rc_thread_id = None\<rparr>\<rparr>) closed_app = (Inr (), closed_app)"
  using closed_app_store by (intro foreign_and_late_replies_are_inert) (simp add: edit_reply_def)

end
