(* ===== verification/Orchestrator_Behaviour.thy ===== *)
theory Orchestrator_Behaviour
  imports Orchestrator_Safety
begin

text \<open>
  What the orchestrator's handlers achieve: the interpreter of coordinator actions ends, the
  recorded result is the author's last uninterrupted turn, trimming never leaves a quorum that is
  met by nobody, and the watchdog closes what is stale and nothing else.
\<close>

section \<open>The interpreter of actions ends\<close>

text \<open>Handlers that never run out of depth.\<close>

definition bounded :: "'a op \<Rightarrow> bool" where
  "bounded m \<longleftrightarrow> (\<forall>a. fst (m a) \<noteq> Inl DepthExceeded)"

named_theorems bounds \<open>a handler stays within its depth when its parts do\<close>

lemma bounded_base [bounds]:
  "bounded (retA x)" "bounded (getA f)" "bounded (readA g)" "bounded (modA h)" "bounded (writeA w)" "bounded (execA e)"
  "bounded (callA c)" "bounded (failA (UnknownSession sid))" "bounded (emitA k sid p)"
  "bounded (deliverA b sid tid sn ct ms mid)"
  by (simp_all add: bounded_def retA_def getA_def readA_def modA_def writeA_def execA_def failA_def emitA_def deliverA_def
      callA_def split: sum.split prod.split)

lemma bounded_bind [bounds]:
  assumes "bounded m" and "\<And>a x a'. m a = (Inr x, a') \<Longrightarrow> bounded (f x)"
  shows "bounded (bindA m f)"
  unfolding bounded_def
proof
  fix a
  obtain r a1 where m: "m a = (r, a1)" by force
  show "fst (bindA m f a) \<noteq> Inl DepthExceeded"
  proof (cases r)
    case (Inl e)
    then show ?thesis using assms(1) m unfolding bounded_def by (auto simp: bindA_def dest: spec [of _ a])
  next
    case (Inr x)
    then have "bounded (f x)" using assms(2) m by blast
    then show ?thesis using Inr m by (simp add: bindA_def bounded_def)
  qed
qed

lemma bounded_seq [bounds]: "bounded m \<Longrightarrow> bounded k \<Longrightarrow> bounded (seqA m k)"
  unfolding seqA_def by (intro bounds)

lemma bounded_for [bounds]: "(\<And>x. bounded (f x)) \<Longrightarrow> bounded (forA f xs)"
  by (induction xs) (simp_all add: bounds)

lemma bounded_cases [bounds]:
  "(c \<Longrightarrow> bounded m) \<Longrightarrow> (\<not> c \<Longrightarrow> bounded k) \<Longrightarrow> bounded (if c then m else k)"
  "bounded m \<Longrightarrow> (\<And>y. x = Some y \<Longrightarrow> bounded (f y)) \<Longrightarrow> bounded (case x of None \<Rightarrow> m | Some y \<Rightarrow> f y)"
  "(\<And>u v. p = (u, v) \<Longrightarrow> bounded (g u v)) \<Longrightarrow> bounded (case p of (u, v) \<Rightarrow> g u v)"
  "bounded (h v) \<Longrightarrow> bounded (Let v h)"
  by (auto split: option.split prod.split)

lemma bounded_parts [bounds]:
  "bounded (closed_effects sid reason)" "bounded (close_session_by_controller sid reason)"
  "bounded (dispatch_coordinator s)" "bounded (backfill_bot_with_audience_alias sid b al)" "bounded (backfill_bot sid b)"
  "bounded (deliver_system_prompt s to c)" "bounded (relay_settled s b to)"
proof -
  show 1: "bounded (closed_effects sid reason)" for sid reason
    unfolding closed_effects_def by (intro bounds)
  show "bounded (close_session_by_controller sid reason)"
    unfolding close_session_by_controller_def by (intro bounds 1)
  show 2: "bounded (dispatch_coordinator s)" for s
    unfolding dispatch_coordinator_def by (intro bounds 1)
  show 3: "bounded (backfill_bot_with_audience_alias sid b al)" for sid b al
    unfolding backfill_bot_with_audience_alias_def by (intro bounds 2)
  show "bounded (backfill_bot sid b)" unfolding backfill_bot_def by (rule 3)
  show "bounded (deliver_system_prompt s to c)" unfolding deliver_system_prompt_def by (intro bounds)
  show "bounded (relay_settled s b to)" unfolding relay_settled_def by (intro bounds)
qed

lemma bounded_actions [bounds]:
  "bounded (replace_roster_bot sid b b')" "bounded (reassign_chair s to)" "bounded (close_action s f author v)"
  unfolding replace_roster_bot_def reassign_chair_def close_action_def by (intro bounds)+

text \<open>Trimming depends on the nested run only through what a roster change returns.\<close>

lemma bounded_trim:
  assumes "\<And>s todo. list_all quorum_action todo \<Longrightarrow> bounded (run s todo)"
  shows "bounded (trim_reviewer_body run sid b reason)"
  unfolding trim_reviewer_body_def settle_trim_def ask_again_def
  by (intro bounds assms) (simp add: getA_result, blast dest: dispatch_lookup intro: lookup_roster_change)

lemma bounded_run_list:
  assumes "\<And>s todo. list_all quorum_action todo \<Longrightarrow> bounded (run s todo)"
  shows "bounded (run_list run s tf todo)"
proof (induction todo arbitrary: tf)
  case (Cons act todo)
  have "bounded (replace_or_trim_reviewer run sid b)" for sid b
    unfolding replace_or_trim_reviewer_def by (intro bounds bounded_trim assms)
  then have "bounded (run_action run s tf act)" by (cases act) (auto intro!: bounds)
  then show ?case using Cons.IH by (auto intro!: bounds)
qed (simp add: bounds)

text \<open>Entering quorum and prompting never trims, so the nested run is irrelevant.\<close>

lemma run_list_flat: "list_all quorum_action todo \<Longrightarrow> run_list run s tf todo = run_list run' s tf todo"
proof (induction todo arbitrary: tf)
  case (Cons act todo)
  have "run_action run s tf act = run_action run' s tf act" using Cons.prems by (cases act) auto
  moreover have "run_list run s tf' todo = run_list run' s tf' todo" for tf' using Cons by simp
  ultimately show ?case by simp
qed simp

lemma bind_eq: "(\<And>a x a'. m a = (Inr x, a') \<Longrightarrow> f x = g x) \<Longrightarrow> bindA m f = bindA m g"
  by (rule ext) (auto simp: bindA_def split: prod.split sum.split)

lemma case_eqs:
  "(c \<Longrightarrow> m = m') \<Longrightarrow> (\<not> c \<Longrightarrow> k = k') \<Longrightarrow> (if c then m else k) = (if c then m' else k')"
  "(\<And>y. x = Some y \<Longrightarrow> f y = g y) \<Longrightarrow> (case x of None \<Rightarrow> n | Some y \<Rightarrow> f y) = (case x of None \<Rightarrow> n | Some y \<Rightarrow> g y)"
  "h v = h' v \<Longrightarrow> Let v h = Let v h'"
  "k = k' \<Longrightarrow> seqA j k = seqA j k'"
  by (auto split: option.split)

lemma trim_eq:
  assumes "\<And>s todo. list_all quorum_action todo \<Longrightarrow> run s todo = run' s todo"
  shows "trim_reviewer_body run sid b reason = trim_reviewer_body run' sid b reason"
  unfolding trim_reviewer_body_def settle_trim_def ask_again_def
  by (intro bind_eq case_eqs refl assms) (simp add: getA_result, blast dest: dispatch_lookup intro: lookup_roster_change)

lemma run_list_eq:
  assumes "\<And>s todo. list_all quorum_action todo \<Longrightarrow> run s todo = run' s todo"
  shows "run_list run s tf todo = run_list run' s tf todo"
proof (induction todo arbitrary: tf)
  case (Cons act todo)
  have "replace_or_trim_reviewer run sid b = replace_or_trim_reviewer run' sid b" for sid b
    unfolding replace_or_trim_reviewer_def by (simp add: trim_eq [OF assms] cong: if_cong)
  then have "run_action run s tf act = run_action run' s tf act" by (cases act) simp_all
  then show ?case using Cons.IH by simp
qed simp

text \<open>
  C29. Executing a coordinator's actions always ends: trimming a reviewer asks the coordinator again and
  runs its answer, but that answer never trims again, so the nesting is at most one deep. The depth
  of two at which the interpreter is tied is never exhausted, and no greater depth behaves
  differently, for any session and any list of actions.
\<close>

theorem run_actions_terminates:
  "fst (run_actions s todo a) \<noteq> Inl DepthExceeded \<and> run_actions_n (n + 2) s todo a = run_actions s todo a"
proof
  have flat: "run_actions_n (Suc k) s todo = run_actions_n 1 s todo" if "list_all quorum_action todo" for k s todo
    using run_list_flat [OF that, of "run_actions_n k" s False "run_actions_n 0"] by simp
  have "bounded (run_actions_n 1 s todo)" if "list_all quorum_action todo" for s todo
    using run_list_flat [OF that, of "run_actions_n 0" s False "\<lambda>_ _. retA ()"]
    by (simp add: bounded_run_list bounds)
  then have "bounded (run_actions s todo)"
    unfolding run_actions_def numeral_2_eq_2 run_actions_n.simps(2) [of "Suc 0"] by (intro bounded_run_list) simp
  then show "fst (run_actions s todo a) \<noteq> Inl DepthExceeded" by (simp add: bounded_def)
  have "run_list (run_actions_n (Suc n)) s False todo = run_list (run_actions_n 1) s False todo"
    by (rule run_list_eq) (rule flat)
  then show "run_actions_n (n + 2) s todo a = run_actions s todo a"
    by (simp add: run_actions_def numeral_2_eq_2)
qed

section \<open>The recorded result\<close>

definition settled_by :: "string \<Rightarrow> Message \<Rightarrow> bool" where
  "settled_by author m \<longleftrightarrow> by_author author m \<and> is_settled_content (m_content m)"

text \<open>Rows that do not end an author's turn: its own, and those of the plane.\<close>

definition in_turn :: "string \<Rightarrow> Message \<Rightarrow> bool" where
  "in_turn author m \<longleftrightarrow> m_author_kind m \<in> {''system'', ''status''} \<or> by_author author m"

lemma span_back_run: "span_back author ms = map m_id (filter (settled_by author) (takeWhile (in_turn author) ms))"
  by (induction ms) (auto simp: in_turn_def settled_by_def by_author_def)

lemma result_turn:
  assumes "m0 \<in> set msgs" and "settled_by author m0"
  shows "\<exists>pre turn post. msgs = pre @ turn @ post \<and> turn \<noteq> [] \<and> settled_by author (last turn)
    \<and> (\<forall>m \<in> set post. \<not> settled_by author m) \<and> (\<forall>m \<in> set turn. in_turn author m)
    \<and> (pre \<noteq> [] \<longrightarrow> \<not> in_turn author (last pre))
    \<and> settled_result_span msgs author = map m_id (filter (settled_by author) turn)"
proof -
  let ?P = "\<lambda>m. \<not> settled_by author m" and ?Q = "in_turn author"
  have "dropWhile ?P (rev msgs) \<noteq> []" using assms by (auto simp: dropWhile_eq_Nil_conv)
  then obtain m ms where dw: "dropWhile ?P (rev msgs) = m # ms" by (cases "dropWhile ?P (rev msgs)") auto
  have m: "settled_by author m" using hd_dropWhile [of ?P "rev msgs"] dw by simp
  let ?post = "rev (takeWhile ?P (rev msgs))" and ?turn = "rev (m # takeWhile ?Q ms)" and ?pre = "rev (dropWhile ?Q ms)"
  have "rev msgs = takeWhile ?P (rev msgs) @ m # ms" using takeWhile_dropWhile_id [of ?P "rev msgs"] dw by simp
  then have "rev (rev msgs) = rev (takeWhile ?P (rev msgs) @ m # ms)" by (rule arg_cong)
  moreover have "rev ms = ?pre @ rev (takeWhile ?Q ms)" by (simp flip: rev_append)
  ultimately have "msgs = ?pre @ ?turn @ ?post" by simp
  moreover have "\<forall>x \<in> set ?post. \<not> settled_by author x" by (auto dest: set_takeWhileD)
  moreover have "\<forall>x \<in> set ?turn. in_turn author x"
    using m by (auto simp: settled_by_def in_turn_def [of _ m] dest: set_takeWhileD)
  moreover have "?pre \<noteq> [] \<longrightarrow> \<not> in_turn author (last ?pre)"
    using hd_dropWhile [of ?Q ms] by (auto simp: last_rev)
  moreover have "settled_result_span msgs author = map m_id (filter (settled_by author) ?turn)"
    using dw m by (simp add: settled_result_span_def settled_by_def [symmetric] span_back_run rev_map rev_filter)
  ultimately show ?thesis using m by (intro exI [of _ ?pre] exI [of _ ?turn] exI [of _ ?post]) simp
qed

text \<open>
  C30. The result a close records is exactly the author's last turn: the messages fall into an earlier
  part, the turn and a later part; the later part has no settled message of the author; the turn
  ends with one, holds only the author's own rows and the plane's, and goes back as far as such rows
  go; the recorded identifiers are those of its settled messages in order, and the texts handed to a
  controller are exactly their texts. Without a settled message there is no result.
\<close>

theorem recorded_result_is_last_turn:
  assumes "distinct (map m_id msgs)"
  shows "if \<exists>m \<in> set msgs. settled_by author m
    then \<exists>pre turn post. msgs = pre @ turn @ post \<and> turn \<noteq> [] \<and> settled_by author (last turn)
      \<and> (\<forall>m \<in> set post. \<not> settled_by author m) \<and> (\<forall>m \<in> set turn. in_turn author m)
      \<and> (pre \<noteq> [] \<longrightarrow> \<not> in_turn author (last pre))
      \<and> settled_result_span msgs author = map m_id (filter (settled_by author) turn)
      \<and> span_texts msgs author v = map m_content (filter (settled_by author) turn)
    else settled_result_span msgs author = [] \<and> span_texts msgs author v = [v]"
proof (cases "\<exists>m \<in> set msgs. settled_by author m")
  case True
  then obtain m0 where "m0 \<in> set msgs" "settled_by author m0" by blast
  from result_turn [OF this] obtain pre turn post where t: "msgs = pre @ turn @ post" "turn \<noteq> []" "settled_by author (last turn)"
    "\<forall>m \<in> set post. \<not> settled_by author m" "\<forall>m \<in> set turn. in_turn author m" "pre \<noteq> [] \<longrightarrow> \<not> in_turn author (last pre)"
    "settled_result_span msgs author = map m_id (filter (settled_by author) turn)"
    by (elim exE conjE)
  let ?span = "settled_result_span msgs author"
  have inj: "inj_on m_id (set msgs)" using assms by (simp add: distinct_map)
  have in_span: "m_id m \<in> set ?span \<longleftrightarrow> m \<in> set turn \<and> settled_by author m" if "m \<in> set msgs" for m
  proof -
    have "set turn \<subseteq> set msgs" unfolding t(1) by auto
    then show ?thesis using that inj_onD [OF inj, of m] unfolding t(7) set_map set_filter by blast
  qed
  have disj: "set pre \<inter> set turn = {}" "set post \<inter> set turn = {}"
    using assms t(1) by (auto simp: distinct_map)
  have "filter (\<lambda>m. m_id m \<in> set ?span) pre = []" "filter (\<lambda>m. m_id m \<in> set ?span) post = []"
    using in_span t(1) disj by (auto simp: filter_empty_conv)
  moreover have "filter (\<lambda>m. m_id m \<in> set ?span) turn = filter (settled_by author) turn"
    using in_span t(1) by (intro filter_cong) auto
  ultimately have f: "filter (\<lambda>m. m_id m \<in> set ?span) msgs = filter (settled_by author) turn" unfolding t(1) by simp
  have "filter (settled_by author) turn \<noteq> []" using t(2, 3) by (auto simp: filter_empty_conv)
  then have "span_texts msgs author v = map m_content (filter (settled_by author) turn)"
    using f by (simp add: span_texts_def Let_def t(7))
  with t show ?thesis unfolding if_P [OF True] by (intro exI [of _ pre] exI [of _ turn] exI [of _ post] conjI)
next
  case False
  then have "dropWhile (\<lambda>m. \<not> (by_author author m \<and> is_settled_content (m_content m))) (rev msgs) = []"
    by (simp only: dropWhile_eq_Nil_conv settled_by_def set_rev) blast
  then have "settled_result_span msgs author = []" by (simp only: settled_result_span_def list.case)
  then show ?thesis using False by (simp add: span_texts_def)
qed

definition example_turn :: "Message list" where
  "example_turn = map (\<lambda>(i, k, au, c). \<lparr>m_id = i, m_session_id = ''s'', m_thread_id = None, m_author_kind = k, m_author_id = au,
      m_audience = None, m_content = c, m_reply_to = None, m_created_at = 0\<rparr>)
    [(''1'', ''bot'', Some ''c'', ''old''), (''2'', ''client'', None, ''go on''), (''3'', ''bot'', Some ''c'', ''part one''),
     (''4'', ''system'', None, ''note''), (''5'', ''bot'', Some ''c'', ''part two''), (''6'', ''bot'', Some ''r'', ''late'')]"

theorem recorded_result_is_last_turn_witness:
  "settled_result_span example_turn ''c'' = [''3'', ''5''] \<and> distinct (map m_id example_turn)
    \<and> (\<exists>pre turn post. example_turn = pre @ turn @ post
        \<and> settled_result_span example_turn ''c'' = map m_id (filter (settled_by ''c'') turn))"
proof -
  have s: "settled_result_span example_turn ''c'' = [''3'', ''5'']" by code_simp
  have d: "distinct (map m_id example_turn)" by (simp add: example_turn_def)
  have "\<exists>m \<in> set example_turn. settled_by ''c'' m" by code_simp
  with recorded_result_is_last_turn [OF d, of "''c''" "[]"]
  have "\<exists>pre turn post. example_turn = pre @ turn @ post
    \<and> settled_result_span example_turn ''c'' = map m_id (filter (settled_by ''c'') turn)"
    unfolding if_P [OF \<open>\<exists>m \<in> set example_turn. settled_by ''c'' m\<close>] by (elim exE conjE) (intro exI conjI)
  with s d show ?thesis by simp
qed

section \<open>The watchdog\<close>

lemma emit_north_log: "length (north (emit_north k sid p a)) = Suc (length (north a))"
  "webhooks (emit_north k sid p a) = webhooks a" "close_webhook_url (emit_north k sid p a) = close_webhook_url a"
  by (simp_all add: emit_north_def Let_def split_beta)

lemma webhook_log:
  "length (webhooks (fire_close_webhook sid v reason a)) = length (webhooks a) + (if close_webhook_url a = None then 0 else 1)"
  "store (fire_close_webhook sid v reason a) = store a" "north (fire_close_webhook sid v reason a) = north a"
  by (simp_all add: fire_close_webhook_def split: option.split)

lemma purge_log:
  "webhooks (purge_session_outbox_after_close sid a) = webhooks a" "north (purge_session_outbox_after_close sid a) = north a"
  "close_webhook_url (purge_session_outbox_after_close sid a) = close_webhook_url a"
  "sessions (store (purge_session_outbox_after_close sid a)) = sessions (store a)"
  "outbox (store (purge_session_outbox_after_close sid a)) = filter (\<lambda>r. o_session_id r \<noteq> Some sid) (outbox (store a))"
  by (simp_all add: purge_session_outbox_after_close_def on_store_def purge_outbox_for_session_def del_where_def)

lemma emit_north_rows:
  "sessions (store (emit_north k sid p a)) = sessions (store a)" "outbox (store (emit_north k sid p a)) = outbox (store a)"
  using emit_north_frame(1) [of a k sid p] by (simp_all add: same_outbox_def)

lemma timeout_won:
  assumes "close_if_active sid ''session.timeout'' ''timeout'' (Some stale) (store a) = Inr (True, d)"
  shows "case force_close_timeout sid stale a of (r, a') \<Rightarrow> r = Inr True \<and> sessions (store a') = sessions d
    \<and> (\<forall>o' \<in> set (outbox (store a')). o_session_id o' \<noteq> Some sid) \<and> length (north a') = length (north a) + 3
    \<and> length (webhooks a') = length (webhooks a) + (if close_webhook_url a = None then 0 else 1)"
  using assms
  by (simp add: force_close_timeout_def run emitA_def Let_def webhook_log emit_north_log emit_north_rows purge_log)

text \<open>
  C31. The watchdog ends every stale session and nothing else: on a database that accepts the close, the
  timeout handler reports success exactly when the session is active and its last activity lies
  before the deadline; then the session is closed, none of its frames is left to deliver, subscribers
  hear of the timeout, the verdict and the new state, and the close webhook fires once if one is
  configured. Otherwise nothing changes.
\<close>

theorem watchdog_closes_stale_sessions:
  assumes "sess_inv (store a)"
    and "close_if_active sid ''session.timeout'' ''timeout'' (Some stale) (store a) = Inr (won, d)"
    and "force_close_timeout sid stale a = (r, a')"
    and "stale_now \<longleftrightarrow> (\<exists>s. session sid (store a) = Some s \<and> active s \<and> last_activity s (store a) < stale)"
  shows "r = Inr stale_now \<and> (if stale_now then session_state (store a') sid = Some ''closed''
        \<and> (\<forall>o' \<in> set (outbox (store a')). o_session_id o' \<noteq> Some sid) \<and> length (north a') = length (north a) + 3
        \<and> length (webhooks a') = length (webhooks a) + (if close_webhook_url a = None then 0 else 1)
      else a' = a)"
proof (cases won)
  case True
  then have w: "close_if_active sid ''session.timeout'' ''timeout'' (Some stale) (store a) = Inr (True, d)"
    using assms(2) by simp
  note c = close_if_active_won [OF assms(1) w]
  have stale_now using c assms(4) by auto
  moreover have "session_state (store a') sid = session_state d sid"
    using timeout_won [OF w] assms(3) by (simp add: session_state_def session_def)
  ultimately show ?thesis using c timeout_won [OF w] assms(3) by simp
next
  case False
  then have w: "close_if_active sid ''session.timeout'' ''timeout'' (Some stale) (store a) = Inr (False, d)"
    using assms(2) by simp
  note c = close_if_active_lost [OF assms(1) w]
  have "\<not> stale_now" using c assms(4) by auto
  moreover have "force_close_timeout sid stale a = (Inr False, a\<lparr>store := d\<rparr>)"
    using w by (simp add: force_close_timeout_def run)
  ultimately show ?thesis using c assms(3) by simp
qed

text \<open>For a session without a controller the close goes through whenever its guard holds.\<close>

lemma timeout_close_ok:
  assumes "sess_inv d" "clock_ok d" "id_ok sid" and "session sid d = Some s" "close_guard stale d s"
    and "sid \<notin> cs_session_id ` set (controller_sessions d)"
  shows "\<exists>d'. close_if_active sid ''session.timeout'' ''timeout'' stale d = Inr (True, d')"
proof -
  let ?P = "\<lambda>s. s_id s = sid \<and> close_guard stale d s"
  let ?d1 = "d\<lparr>sessions := upd_where ?P (\<lambda>s. s\<lparr>s_state := ''closed'', s_closed_at := Some (now_ms d)\<rparr>) (sessions d)\<rparr>"
  have n: "count_where ?P (sessions d) = 1" unfolding count_session_one [OF assms(1)] using assms(4, 5) by blast
  have k: "kind_ok ''session.timed_out''" by (simp add: kind_ok_def plain_def ws1_def is_continuation_def)
  have "validate (keyed_session_audit_event ?d1 (''session.timed_out'' @ '':'' @ sid @ '':'' @ int_str (now_ms d))
      ''session.timed_out'' sid ASucceeded (now_ms d) tr dt) = Inr ()" for tr dt
    using assms(2) by (intro timed_key_valid k assms(3)) (simp_all add: clock_ok_def now_ms_def)
  then obtain d2 where a: "append_audit_event_locked (keyed_session_audit_event ?d1
      (''session.timed_out'' @ '':'' @ sid @ '':'' @ int_str (now_ms d)) ''session.timed_out'' sid ASucceeded (now_ms d)
      (trigger_ref_of sid ?d1) (JObj [(''reason'', JStr ''timeout'')])) ?d1 = Inr d2"
    using append_audit_ok by blast
  then have "controller_sessions d2 = controller_sessions d"
    using same_but_queue_fields(11) [OF append_audit_frame [OF a]] by simp
  with assms(6) have "enqueue_controller_session_event_locked sid t pl kk at d2 = Inr d2" for t pl kk at
    by (intro enqueue_session_event_ok) simp
  with n a show ?thesis by (simp add: close_if_active_def Let_def)
qed

theorem watchdog_closes_stale_sessions_witness:
  "\<exists>a'. force_close_timeout ''ses_a'' 99 (example_app\<lparr>store := example_db\<rparr>) = (Inr True, a')
    \<and> session_state (store a') ''ses_a'' = Some ''closed''"
proof -
  let ?a = "example_app\<lparr>store := example_db\<rparr>"
  have s: "session ''ses_a'' example_db = Some example_session"
    by (simp add: session_def example_db_def example_session_def new_session_row_def)
  have g: "active example_session" "last_activity example_session example_db < 99"
    by (simp_all add: example_session_def new_session_row_def active_def last_activity_def example_db_def empty_db_def max_list_def)
  obtain d where d: "close_if_active ''ses_a'' ''session.timeout'' ''timeout'' (Some 99) example_db = Inr (True, d)"
    using timeout_close_ok [OF example_inv, of "''ses_a''" example_session "Some 99"] s g
    by (fastforce simp: example_db_def empty_db_def clock_ok_def i64_range_def id_ok_def plain_def ws1_def is_continuation_def)
  obtain r a' where f: "force_close_timeout ''ses_a'' 99 ?a = (r, a')" by force
  have "\<exists>s. session ''ses_a'' (store ?a) = Some s \<and> active s \<and> last_activity s (store ?a) < 99" using s g by simp
  with watchdog_closes_stale_sessions [OF _ _ f, of True d True] example_inv d f show ?thesis by simp
qed

section \<open>Trimming a reviewer\<close>

text \<open>What prompting and entering quorum leave alone: quorum sizes, chairs and rosters.\<close>

definition seat :: "Session \<Rightarrow> string \<times> int \<times> string option" where
  "seat s = (s_id s, s_quorum_n s, s_chair_bot s)"

definition seats_kept :: "db \<Rightarrow> db \<Rightarrow> bool" where
  "seats_kept d d' \<longleftrightarrow> map seat (sessions d') = map seat (sessions d) \<and> session_bots d' = session_bots d"

lemma seats_same: "sessions d' = sessions d \<Longrightarrow> session_bots d' = session_bots d \<Longrightarrow> seats_kept d d'"
  by (simp add: seats_kept_def)

lemma seats_queue: "same_but_queue d d' \<Longrightarrow> seats_kept d d'"
  by (simp add: seats_same same_but_queue_fields)

lemma seats_upd:
  "sessions d' = upd_where P f (sessions d) \<Longrightarrow> (\<And>s. seat (f s) = seat s) \<Longrightarrow> session_bots d' = session_bots d \<Longrightarrow> seats_kept d d'"
  by (simp add: seats_kept_def upd_where_def)

lemma seats_message: "add_message sid tid ak ai au c rt d = Inr (m, d') \<Longrightarrow> seats_kept d d'"
  by (drule add_message_shape) (auto intro: seats_same simp: same_but_queue_fields)

lemma seats_advance: "advance_state sid fr to d = Inr (x, d') \<Longrightarrow> seats_kept d d'"
  unfolding advance_state_def Let_def
  by (rule seats_upd [where P = "\<lambda>s. s_id s = sid \<and> s_state s = as_str fr"
        and f = "\<lambda>s. s\<lparr>s_state := as_str to, s_closed_at := coalesce (closing_time to d) (s_closed_at s)\<rparr>"])
    (auto simp: seat_def write_sessions_Inr same_but_queue_fields split: if_splits dest!: state_change_audit_frame)

lemma seats_close:
  assumes "close_if_active sid et reason stale d = Inr (x, d')"
  shows "seats_kept d d'"
proof (rule seats_upd [OF close_active_rows [OF assms]])
  show "session_bots d' = session_bots d"
    using assms unfolding close_if_active_def Let_def
    by (auto split: if_splits dest!: append_audit_frame enqueue_session_event_frame simp: same_but_queue_fields)
qed (simp add: seat_def)

interpretation seats: prompt_frame seats_kept
proof
  fix d d' d'' :: db
  show "seats_kept d d" by (simp add: seats_kept_def)
  show "seats_kept d d' \<Longrightarrow> seats_kept d' d'' \<Longrightarrow> seats_kept d d''" by (simp add: seats_kept_def)
qed (erule seats_message | rule seats_queue [OF append_or_warn_queue] | rule seats_same, simp add: plain_ops, simp add: plain_ops)+

lemma seats_dispatch: "framed seats_kept (dispatch_coordinator s)"
proof -
  have "framed seats_kept (callA (close_if_active sid et reason stale))" for sid et reason stale
    by (rule seats.framed_call) (rule seats_close)
  moreover have "framed seats_kept (modA (purge_session_outbox_after_close sid))" for sid
    by (rule seats.framed_mod) (simp add: seats_kept_def purge_log(4) purge_session_outbox_after_close_def on_store_def
        purge_outbox_for_session_def)
  moreover have "framed seats_kept (modA (fire_close_webhook sid v reason))" for sid v reason
    by (rule seats.framed_mod) (simp add: seats_kept_def webhook_log)
  ultimately show ?thesis
    unfolding dispatch_coordinator_def closed_effects_def
    by (intro seats.framed_bind seats.framed_seq seats.framed_ret seats.framed_emit framed_option framed_if)
qed

lemma seats_run: "list_all quorum_action todo \<Longrightarrow> framed seats_kept (run_list run s tf todo)"
proof (induction todo arbitrary: tf)
  case (Cons act todo)
  have adv: "framed seats_kept (callA (advance_state sid f t))" for sid f t
    by (rule seats.framed_call) (rule seats_advance)
  have "framed seats_kept (run_action run s tf act)"
    using Cons.prems
    by (cases act) (auto intro!: seats.framed_bind seats.framed_seq seats.framed_ret seats.framed_emit seats.framed_prompt adv)
  then show ?case using Cons by (auto intro!: seats.framed_bind)
qed (simp add: seats.framed_ret)

lemma seats_session:
  assumes "seats_kept d d'" and "session sid d = Some s"
  shows "\<exists>s'. session sid d' = Some s' \<and> seat s' = seat s"
proof -
  have "\<exists>s'. find (\<lambda>s. s_id s = sid) ys = Some s' \<and> seat s' = seat s"
    if "map seat ys = map seat xs" "find (\<lambda>s. s_id s = sid) xs = Some s" for xs ys
    using that
  proof (induction xs arbitrary: ys)
    case (Cons x xs)
    then obtain y zs where "ys = y # zs" "seat y = seat x" "map seat zs = map seat xs" by (cases ys) auto
    with Cons show ?case by (auto simp: seat_def split: if_splits)
  qed simp
  then show ?thesis using assms by (simp add: seats_kept_def session_def)
qed

lemma active_iff: "active s \<longleftrightarrow> \<not> closed_state s"
  by (auto simp: active_def closed_state_def from_db_str_def)

lemma closed_effects_run:
  "\<exists>a'. closed_effects sid reason a = (Inr (), a') \<and> sessions (store a') = sessions (store a)"
  by (simp add: closed_effects_def run emitA_def modA_def webhook_log emit_north_rows purge_log)

text \<open>A controller's close leaves the session closed, whether this call or an earlier one closed it.\<close>

lemma controller_close_closes:
  assumes "sess_inv (store a)" and "session sid (store a) = Some s"
    and "close_session_by_controller sid reason a = (Inr x, a')"
  shows "\<exists>s'. session sid (store a') = Some s' \<and> closed_state s'"
proof -
  obtain won d where c: "close_if_active sid ''session.terminal'' reason None (store a) = Inr (won, d)"
    using assms(2, 3) by (auto simp: close_session_by_controller_def run split: sum.splits)
  show ?thesis
  proof (cases won)
    case True
    have "session_state d sid = Some ''closed''" using close_if_active_won [OF assms(1)] c True by simp
    moreover obtain a1 where a1: "closed_effects sid reason (a\<lparr>store := d\<rparr>) = (Inr (), a1)" "sessions (store a1) = sessions d"
      using closed_effects_run [of sid reason "a\<lparr>store := d\<rparr>"] by auto
    have "seqA (closed_effects sid reason) (retA True) (a\<lparr>store := d\<rparr>) = (Inr True, a1)"
      using a1(1) by (simp add: seqA_def bindA_def retA_def)
    then have "a' = a1" using assms(2, 3) c True by (simp add: close_session_by_controller_def run)
    ultimately have "session_state (store a') sid = Some ''closed''"
      using a1(2) by (simp add: session_state_def session_def)
    then show ?thesis by (auto simp: session_state_def closed_state_def from_db_str_def)
  next
    case False
    then have "a' = a\<lparr>store := d\<rparr>" "d = store a" "\<not> active s"
      using assms(2, 3) c close_if_active_lost [OF assms(1), of sid "''session.terminal''" reason None d]
      by (auto simp: close_session_by_controller_def run)
    then show ?thesis using assms(2) by (simp add: active_iff)
  qed
qed

lemma trim_removes:
  assumes "sess_inv d" and "b \<in> set (roster sid d)"
  shows "remove_session_bot sid b d = (True, d\<lparr>session_bots := del_where (\<lambda>r. sb_session_id r = sid \<and> sb_bot_id r = b) (session_bots d)\<rparr>)"
proof -
  let ?P = "\<lambda>r. sb_session_id r = sid \<and> sb_bot_id r = b"
  have row: "r = \<lparr>sb_session_id = sid, sb_bot_id = b\<rparr>" if "?P r" for r :: SessionBot using that by (cases r) simp
  have "distinct (filter ?P (session_bots d))" using assms(1) by (simp add: sess_inv_def)
  moreover have "set (filter ?P (session_bots d)) = {\<lparr>sb_session_id = sid, sb_bot_id = b\<rparr>}"
  proof -
    obtain r where "r \<in> set (session_bots d)" "?P r" using assms(2) by (auto simp: roster_def members_def)
    moreover from this(2) have "r = \<lparr>sb_session_id = sid, sb_bot_id = b\<rparr>" by (rule row)
    ultimately have "\<lparr>sb_session_id = sid, sb_bot_id = b\<rparr> \<in> set (session_bots d)" by simp
    then show ?thesis using row by auto
  qed
  ultimately have "length (filter ?P (session_bots d)) = 1" using distinct_card by fastforce
  then show ?thesis by (simp add: remove_session_bot_def count_where_def Let_def)
qed

text \<open>The coordinator is asked again with seats that nobody changes any more.\<close>

lemma seats_ask_again: "framed seats_kept (ask_again run_actions sid)"
proof -
  have "framed seats_kept (run_actions s todo)" if "list_all quorum_action todo" for s todo
    unfolding run_actions_def numeral_2_eq_2 run_actions_n.simps using that by (rule seats_run)
  then show ?thesis
    unfolding ask_again_def
    by (intro seats.framed_bind seats.framed_read seats.framed_get seats.framed_ret seats_dispatch framed_option)
      (auto simp: getA_result intro: lookup_roster_change dest!: dispatch_lookup)
qed

lemma settle_trim_quorum:
  assumes "sess_inv (store a)" and "session sid (store a) = Some s" and "0 < s_quorum_n s"
    and n: "n = int (length (reviewers (roster sid (store a)) (s_chair_bot s)))"
    and "settle_trim run_actions sid b reason s n a = (Inr (), a')"
  shows "\<exists>s'. session sid (store a') = Some s' \<and> (closed_state s'
    \<or> 1 \<le> s_quorum_n s' \<and> s_quorum_n s' \<le> int (length (reviewers (roster sid (store a')) (s_chair_bot s')))
      \<and> (fixed_review_contract s \<longrightarrow> s_quorum_n s' = s_quorum_n s))"
proof (cases "fixed_review_contract s \<and> n < s_quorum_n s \<or> n = 0")
  case True
  then obtain why x k p a1 where c: "close_session_by_controller sid why a = (Inr x, a1)" and a': "a' = emit_north k sid p a1"
    using assms(5) by (auto simp: settle_trim_def bindA_def emitA_def modA_def split: if_splits sum.splits prod.splits)
  from controller_close_closes [OF assms(1, 2) c] show ?thesis
    by (auto simp: a' session_def emit_north_rows)
next
  case False
  let ?q = "min (s_quorum_n s) n"
  let ?p = "JObj [(''bot'', JStr b), (''reason'', JStr reason), (''quorum_n'', JNum ?q)]"
  let ?a1 = "if ?q \<noteq> s_quorum_n s then on_store (set_session_quorum sid ?q) a else a"
  let ?a2 = "emit_north ''roster_drop'' sid ?p ?a1"
  have "settle_trim run_actions sid b reason s n a = ask_again run_actions sid ?a2"
  proof -
    have "settle_trim run_actions sid b reason s n a =
      seqA (if ?q \<noteq> s_quorum_n s then writeA (set_session_quorum sid ?q) else retA ())
       (seqA (emitA ''roster_drop'' sid ?p) (ask_again run_actions sid)) a"
      using False by (auto simp: settle_trim_def Let_def)
    then show ?thesis by (cases "?q = s_quorum_n s") (simp_all add: run emitA_def)
  qed
  from trans [OF this [symmetric] assms(5)] have a': "a' = snd (ask_again run_actions sid ?a2)"
    by (simp only: snd_conv)
  have 1: "session sid (store ?a1) = Some (s\<lparr>s_quorum_n := ?q\<rparr>)" "session_bots (store ?a1) = session_bots (store a)"
    using assms(2) session_SomeD [OF assms(2)] by (auto simp: on_store_def set_session_quorum_def session_upd)
  have "seats_kept (store ?a1) (store a')"
    unfolding a' by (rule seats.R_trans [OF seats.R_north framedD [OF seats_ask_again]])
  then obtain s' where "session sid (store a') = Some s'" "seat s' = seat (s\<lparr>s_quorum_n := ?q\<rparr>)"
    "session_bots (store a') = session_bots (store a)"
    using seats_session [OF _ 1(1)] 1(2) by (auto simp: seats_kept_def)
  then have s': "session sid (store a') = Some s'" "s_quorum_n s' = ?q" "s_chair_bot s' = s_chair_bot s"
    "roster sid (store a') = roster sid (store a)"
    by (simp_all add: seat_def roster_def)
  moreover have "1 \<le> ?q" "fixed_review_contract s \<longrightarrow> ?q = s_quorum_n s"
    using False n assms(3) by (auto simp: Suc_le_eq)
  ultimately show ?thesis using n by (intro exI [of _ s']) (simp add: s'(3, 4))
qed

text \<open>
  C2. Losing a reviewer never fakes a quorum: after a member is trimmed from a session that needs a
  positive number of votes, the session is closed, or its quorum is at least one and at most the
  number of reviewers left, and a controller's fixed minimum is still the one the session was opened
  with. A session that cannot meet its minimum any more is closed instead of being asked for less.
\<close>

theorem trimming_never_fakes_quorum:
  assumes "sess_inv (store a)" and "session sid (store a) = Some s" and "0 < s_quorum_n s"
    and "b \<in> set (roster sid (store a))" and "trim_reviewer_body run_actions sid b reason a = (Inr (), a')"
  shows "\<exists>s'. session sid (store a') = Some s' \<and> (closed_state s'
    \<or> 1 \<le> s_quorum_n s' \<and> s_quorum_n s' \<le> int (length (reviewers (roster sid (store a')) (s_chair_bot s')))
      \<and> (fixed_review_contract s \<longrightarrow> s_quorum_n s' = s_quorum_n s))"
proof -
  let ?a1 = "a\<lparr>store := store a\<lparr>session_bots := del_where (\<lambda>r. sb_session_id r = sid \<and> sb_bot_id r = b) (session_bots (store a))\<rparr>\<rparr>"
  let ?a2 = "on_store (purge_outbox_for_session_bot sid b) ?a1"
  have s2: "session sid (store ?a2) = Some s" and i2: "sess_inv (store ?a2)"
    using assms(1, 2) by (simp_all add: on_store_def purge_outbox_for_session_bot_def session_def sess_inv_def del_where_def)
  have "trim_reviewer_body run_actions sid b reason a = settle_trim run_actions sid b reason s
    (int (length (reviewers (roster sid (store ?a2)) (s_chair_bot s)))) ?a2"
    using s2 by (simp add: trim_reviewer_body_def run trim_removes [OF assms(1, 4)])
  with assms(5) show ?thesis by (intro settle_trim_quorum [OF i2 s2 assms(3) refl]) simp
qed

text \<open>A session of two reviewers and a quorum of two loses one of them.\<close>

definition pair_app :: AppState where
  "pair_app = example_app\<lparr>store := empty_db\<lparr>sessions := [new_session_row ''ses_p'' ''t'' ''deliberating'' None None 2 None 0 ''solo''],
    session_bots := [\<lparr>sb_session_id = ''ses_p'', sb_bot_id = ''r1''\<rparr>, \<lparr>sb_session_id = ''ses_p'', sb_bot_id = ''r2''\<rparr>]\<rparr>\<rparr>"

theorem trimming_never_fakes_quorum_witness:
  "\<exists>a' s'. trim_reviewer_body run_actions ''ses_p'' ''r2'' ''unreachable'' pair_app = (Inr (), a')
    \<and> session ''ses_p'' (store a') = Some s' \<and> (closed_state s' \<or> 1 \<le> s_quorum_n s')"
proof -
  let ?row = "new_session_row ''ses_p'' ''t'' ''deliberating'' None None 2 None 0 ''solo''"
  obtain r a' where t: "trim_reviewer_body run_actions ''ses_p'' ''r2'' ''unreachable'' pair_app = (r, a')" by force
  have s: "session ''ses_p'' (store pair_app) = Some ?row" and q: "0 < s_quorum_n ?row" and m: "''r2'' \<in> set (roster ''ses_p'' (store pair_app))"
    and i: "sess_inv (store pair_app)"
    by (simp_all add: pair_app_def session_def new_session_row_def roster_def members_def sess_inv_def trigger_index_ok_def)
  have "fst (trim_reviewer_body run_actions ''ses_p'' ''r2'' ''unreachable'' pair_app) = Inr ()" by code_simp
  then have "r = Inr ()" using t by simp
  with trimming_never_fakes_quorum [OF i s q m, of "''unreachable''" a'] t show ?thesis by auto
qed

section \<open>Late reactions\<close>

text \<open>
  Replies to a closed session are dropped, except reactions. A done reaction still asks the
  coordinator, and a prompt it returns is written to the closed transcript: here stage one of a
  closed pipeline reacts, and the plane appends the hand-over prompt for stage two.
\<close>

definition late_reaction_app :: AppState where
  "late_reaction_app = example_app\<lparr>store := empty_db\<lparr>
    sessions := [(new_session_row ''ses_q'' ''t'' ''closed'' None None 1 None 0 ''pipeline'')],
    session_bots := [\<lparr>sb_session_id = ''ses_q'', sb_bot_id = ''r1''\<rparr>, \<lparr>sb_session_id = ''ses_q'', sb_bot_id = ''r2''\<rparr>],
    messages_t := [closed_message\<lparr>m_session_id := ''ses_q'', m_author_kind := ''client'', m_author_id := None\<rparr>]\<rparr>\<rparr>"

definition done_reaction :: GatewayReply where
  "done_reaction = edit_reply\<lparr>gr_channel := \<lparr>rc_id = ''ses_q'', rc_thread_id = None\<rparr>,
    gr_content := text_content DONE_EMOJI, gr_command := Some ''add_reaction''\<rparr>"

lemma late_done_reaction_writes:
  "map m_author_kind (messages ''ses_q'' (store late_reaction_app)) = [''client'']"
  "map m_author_kind (messages ''ses_q'' (store (snd (handle_reply ''r1'' done_reaction late_reaction_app)))) = [''client'', ''system'']"
  by code_simp+

end
