(* ===== verification/Controller_Actions.thy ===== *)
theory Controller_Actions
  imports Orchestrator_Behaviour
begin

text \<open>
  The controller action interpreter (\<^verbatim>\<open>src/controller.rs\<close>): the validation and the execution of
  the five declarative actions. An interpreted action is a \<open>cop\<close>: a controller error or a result,
  with the state it leaves. Shown here: what refusals leave behind, what a successful opening
  guarantees, and which actions can touch which session.
\<close>

section \<open>Errors of the interpreter\<close>

datatype ControllerError =
    CInvalid string
  | CForbidden string
  | CNotFound string
  | CGone string
  | CInternal op_err

fun from_client_error :: "op_err \<Rightarrow> ControllerError" where
  "from_client_error (UnknownSession sid) = CNotFound (''unknown session '' @ sid)"
| "from_client_error (ReopenRefused msg) = CGone msg"
| "from_client_error e = CInternal e"

type_synonym 'a cop = "AppState \<Rightarrow> (ControllerError + 'a) \<times> AppState"

definition retC :: "'a \<Rightarrow> 'a cop" where
  "retC x a = (Inr x, a)"

definition failC :: "ControllerError \<Rightarrow> 'a cop" where
  "failC e a = (Inl e, a)"

definition bindC :: "'a cop \<Rightarrow> ('a \<Rightarrow> 'b cop) \<Rightarrow> 'b cop" where
  "bindC m f a = (case m a of (Inl e, a1) \<Rightarrow> (Inl e, a1) | (Inr x, a1) \<Rightarrow> f x a1)"

definition getC :: "(AppState \<Rightarrow> 'a) \<Rightarrow> 'a cop" where
  "getC f a = (Inr (f a), a)"

text \<open>A handler of the orchestrator under one of the two error conversions.\<close>

definition liftC :: "(op_err \<Rightarrow> ControllerError) \<Rightarrow> 'a op \<Rightarrow> 'a cop" where
  "liftC conv m a = (case m a of (Inl e, a1) \<Rightarrow> (Inl (conv e), a1) | (Inr x, a1) \<Rightarrow> (Inr x, a1))"

definition checkC :: "ControllerError option \<Rightarrow> 'a cop \<Rightarrow> 'a cop" where
  "checkC refusal m = (case refusal of Some e \<Rightarrow> failC e | None \<Rightarrow> m)"

section \<open>Validation\<close>

definition unknown_session :: "string \<Rightarrow> string" where
  "unknown_session sid = ''unknown session '' @ sid"

definition quoted :: "string \<Rightarrow> string" where
  "quoted s = [CHR 0x27] @ s @ [CHR 0x27]"

text \<open>The loop over the roster: a repeated bot, then an unknown one, in roster order.\<close>

fun roster_refusal :: "db \<Rightarrow> string list \<Rightarrow> string list \<Rightarrow> string option" where
  "roster_refusal d seen [] = None"
| "roster_refusal d seen (b # bs) =
    (if b \<in> set seen then Some (''open_session action roster contains duplicate bot '' @ quoted b)
     else if bot_of b d = None then Some (''open_session action references unknown bot '' @ quoted b)
     else roster_refusal d (b # seen) bs)"

text \<open>The loop over the recipient inputs, in key order: a recipient outside the bots, then an empty text.\<close>

fun recipient_refusal :: "string \<Rightarrow> string \<Rightarrow> string list \<Rightarrow> (string \<times> string) list \<Rightarrow> string option" where
  "recipient_refusal action stranger bs [] = None"
| "recipient_refusal action stranger bs ((recipient, content) # rest) =
    (if recipient \<notin> set bs then Some (action @ '' action recipient_inputs references '' @ stranger @ '' bot '' @ quoted recipient)
     else if trim content = [] then Some (action @ '' action recipient input for '' @ quoted recipient @ '' is empty'')
     else recipient_refusal action stranger bs rest)"

definition reviewer_capacity :: "OpenSessionAction \<Rightarrow> nat" where
  "reviewer_capacity act = count_where (\<lambda>b. Some b \<noteq> osa_chair_bot act) (osa_roster act)"

definition or_else :: "string option \<Rightarrow> string option \<Rightarrow> string option" where
  "or_else x y = (case x of Some s \<Rightarrow> Some s | None \<Rightarrow> y)"

definition when_some :: "bool \<Rightarrow> string \<Rightarrow> string option" where
  "when_some c s = (if c then Some s else None)"

definition validate_open_session :: "OpenSessionAction \<Rightarrow> db \<Rightarrow> string option" where
  "validate_open_session act d =
    or_else (when_some (osa_roster act = []) ''open_session action needs a non-empty roster'')
    (or_else (when_some (osa_quorum_n act < 0) ''open_session action quorum_n must be non-negative'')
    (or_else (when_some (lookup (osa_mode act) = None) (''open_session action has unknown mode '' @ quoted (osa_mode act)))
    (or_else (when_some (case osa_chair_bot act of None \<Rightarrow> False | Some chair \<Rightarrow> chair \<notin> set (osa_roster act))
        ''open_session action chair_bot must be in roster'')
    (or_else (when_some (osa_quorum_n act > int (reviewer_capacity act))
        (''open_session action quorum_n ('' @ int_str (osa_quorum_n act) @ '') exceeds reviewer count (''
          @ nat_str (reviewer_capacity act) @ '')''))
    (or_else (roster_refusal d [] (osa_roster act))
    (or_else (recipient_refusal ''open_session'' ''non-roster'' (osa_roster act) (osa_recipient_inputs act))
    (when_some (osa_recipient_inputs act \<noteq> [] \<and> trim (osa_prompt act) = []
        \<and> list_ex (\<lambda>b. map_of (osa_recipient_inputs act) b = None) (osa_roster act))
      ''open_session action needs prompt fallback or recipient input for every roster bot'')))))))"

section \<open>The five actions\<close>

definition opening_inputs :: "OpenSessionAction \<Rightarrow> OpeningInput list" where
  "opening_inputs act =
    (if osa_recipient_inputs act = [] then []
     else map (\<lambda>recipient. \<lparr>oi_recipient = recipient,
         oi_content = (case map_of (osa_recipient_inputs act) recipient of Some c \<Rightarrow> c | None \<Rightarrow> osa_prompt act)\<rparr>) (osa_roster act))"

text \<open>What a freshly landed session is told: its opening inputs, else the prompt unless it is blank.\<close>

definition announce_opening :: "OpenSessionAction \<Rightarrow> string \<Rightarrow> unit cop" where
  "announce_opening act sid =
    (if opening_inputs act \<noteq> [] then liftC CInternal (deliver_opening_inputs sid)
     else if trim (osa_prompt act) \<noteq> []
     then bindC (liftC from_client_error (post_client_message sid (osa_prompt act))) (\<lambda>_. retC ())
     else retC ())"

fun settle_opening :: "OpenSessionAction \<Rightarrow> string \<Rightarrow> SessionCreateOutcome \<Rightarrow> ControllerActionResult cop" where
  "settle_opening act sid OutcomeDeduped = retC (SessionOpened sid True)"
| "settle_opening act sid OutcomeCreated = bindC (announce_opening act sid) (\<lambda>_. retC (SessionOpened sid False))"
| "settle_opening act sid (OutcomeSuperseded old_id) =
    bindC (liftC CInternal (handle_superseded_session old_id)) (\<lambda>_.
    bindC (announce_opening act sid) (\<lambda>_. retC (Superseded sid old_id)))"

definition create_for :: "OpenSessionAction \<Rightarrow> db \<Rightarrow> (Session \<times> SessionCreateOutcome) res" where
  "create_for act = create_session_superseding (osa_title act) (osa_trigger_ref act) (osa_trigger_fingerprint act)
    (osa_quorum_n act) (osa_chair_bot act) (osa_roster act) (osa_mode act) (opening_inputs act)"

definition open_session :: "OpenSessionAction \<Rightarrow> ControllerActionResult cop" where
  "open_session act =
    bindC (getC (\<lambda>a. validate_open_session act (store a))) (\<lambda>refusal.
    checkC (map_option CInvalid refusal)
    (bindC (liftC CInternal (callA (create_for act))) (\<lambda>(s, outcome). settle_opening act (s_id s) outcome)))"

definition known_session :: "string \<Rightarrow> 'a cop \<Rightarrow> 'a cop" where
  "known_session sid m =
    bindC (getC (\<lambda>a. session sid (store a))) (\<lambda>s. if s = None then failC (CNotFound (unknown_session sid)) else m)"

definition post_message :: "PostMessageAction \<Rightarrow> ControllerActionResult cop" where
  "post_message act =
    known_session (pma_session_id act)
    (bindC (liftC from_client_error (post_client_message (pma_session_id act) (pma_content act))) (\<lambda>msg.
     retC (MessagePosted (m_id msg))))"

text \<open>
  When every client message of a session was addressed to somebody, a bot that joins has nothing to
  read unless it gets an input of its own.
\<close>

definition joiners :: "AddRosterAction \<Rightarrow> db \<Rightarrow> string list" where
  "joiners act d = sort (remdups (filter (\<lambda>b. b \<notin> set (roster (ara_session_id act) d)) (ara_bots act)))"

definition client_context :: "(string option \<Rightarrow> bool) \<Rightarrow> string \<Rightarrow> db \<Rightarrow> bool" where
  "client_context P sid d =
    list_ex (\<lambda>m. m_author_kind m = ''client'' \<and> m_author_id m = None \<and> P (m_audience m)) (messages sid d)"

definition context_refusal :: "AddRosterAction \<Rightarrow> db \<Rightarrow> string option" where
  "context_refusal act d =
    (if client_context (\<lambda>aud. aud \<noteq> None) (ara_session_id act) d \<and> \<not> client_context (\<lambda>aud. aud = None) (ara_session_id act) d
     then map_option (\<lambda>b. ''add_roster action needs recipient input for '' @ quoted b
         @ '' because session client context is audience-scoped'')
       (find (\<lambda>b. map_of (ara_recipient_inputs act) b = None) (joiners act d))
     else None)"

definition bots_refusal :: "AddRosterAction \<Rightarrow> string option" where
  "bots_refusal act = or_else (when_some (ara_bots act = []) ''add_roster action needs at least one bot'')
    (when_some (list_ex (\<lambda>b. trim b = []) (ara_bots act)) ''add_roster action contains an empty bot id'')"

definition roster_inputs :: "AddRosterAction \<Rightarrow> OpeningInput list" where
  "roster_inputs act = map (\<lambda>(r, c). \<lparr>oi_recipient = r, oi_content = c\<rparr>) (ara_recipient_inputs act)"

fun batch_answer :: "AddRosterAction \<Rightarrow> BatchAdmission \<Rightarrow> ControllerActionResult cop" where
  "batch_answer act (BatchAdded added already_members) = retC (RosterAdded (ara_session_id act) added already_members)"
| "batch_answer act (BatchRejected reason) =
    failC (if reason = ''terminal session'' then CGone (''session '' @ ara_session_id act @ '' is terminal'')
           else CInvalid reason)"

definition add_roster :: "AddRosterAction \<Rightarrow> ControllerActionResult cop" where
  "add_roster act =
    checkC (map_option CInvalid (bots_refusal act))
    (known_session (ara_session_id act)
    (checkC (map_option CInvalid (recipient_refusal ''add_roster'' ''unrequested'' (ara_bots act) (ara_recipient_inputs act)))
    (bindC (getC (\<lambda>a. context_refusal act (store a))) (\<lambda>refusal.
     checkC (map_option CInvalid refusal)
     (bindC (liftC CInternal (add_to_roster_batch (ara_session_id act) (ara_bots act) (roster_inputs act)))
       (batch_answer act))))))"

datatype ControlledClosePolicy = Allow | Deny

definition close_session :: "CloseSessionAction \<Rightarrow> ControlledClosePolicy \<Rightarrow> ControllerActionResult cop" where
  "close_session act pol =
    (if pol = Deny then failC (CForbidden ''close_session action is not authorized by controller policy'')
     else known_session (csa_session_id act)
      (let reason = trim (csa_reason act) in
       if reason = [] \<or> length reason > 256
       then failC (CInvalid ''close_session action reason must contain 1..=256 bytes'')
       else bindC (liftC CInternal (close_session_by_controller (csa_session_id act) reason)) (\<lambda>closed.
         retC (SessionClosed (csa_session_id act) closed))))"

definition emit_status :: "EmitStatusAction \<Rightarrow> ControllerActionResult cop" where
  "emit_status act =
    checkC (map_option CInvalid (or_else (when_some (trim (esa_target act) = []) ''emit_status action target must not be empty'')
      (when_some (trim (esa_body act) = []) ''emit_status action body must not be empty'')))
    (known_session (esa_session_id act)
    (bindC (liftC CInternal (emit_controller_status (esa_session_id act) (esa_target act) (esa_body act))) (\<lambda>status.
     retC (StatusEmitted (esa_session_id act) (m_id status)))))"

fun execute_with_close_policy :: "ControllerAction \<Rightarrow> ControlledClosePolicy \<Rightarrow> ControllerActionResult cop" where
  "execute_with_close_policy (OpenSession act) pol = open_session act"
| "execute_with_close_policy (PostMessage act) pol = post_message act"
| "execute_with_close_policy (AddRoster act) pol = add_roster act"
| "execute_with_close_policy (CloseSession act) pol = close_session act pol"
| "execute_with_close_policy (EmitStatus act) pol = emit_status act"

definition execute :: "ControllerAction \<Rightarrow> ControllerActionResult cop" where
  "execute act = execute_with_close_policy act Deny"

section \<open>Running the interpreter\<close>

lemma runC [run]:
  "bindC (getC f) k a = k (f a) a" "bindC (retC x) k a = k x a" "retC x a = (Inr x, a)" "failC e a = (Inl e, a)"
  "checkC None m a = m a" "checkC (Some e) m a = (Inl e, a)"
  by (simp_all add: bindC_def getC_def retC_def failC_def checkC_def)

lemma runC_call [run]:
  "bindC (liftC conv (callA f)) k a = (case f (store a) of Inl e \<Rightarrow> (Inl (conv (StoreFailed e)), a) | Inr (x, d) \<Rightarrow> k x (a\<lparr>store := d\<rparr>))"
  by (simp add: bindC_def liftC_def callA_def split: sum.split prod.split)

lemma liftC_Inl: "liftC conv m a = (Inl e, a') \<longleftrightarrow> (\<exists>e'. m a = (Inl e', a') \<and> e = conv e')"
  by (auto simp: liftC_def split: prod.splits sum.splits)

lemma liftC_Inr: "liftC conv m a = (Inr x, a') \<longleftrightarrow> m a = (Inr x, a')"
  by (auto simp: liftC_def split: prod.splits sum.splits)

lemma bindC_Inl:
  "bindC m f a = (Inl e, a') \<longleftrightarrow> m a = (Inl e, a') \<or> (\<exists>x a1. m a = (Inr x, a1) \<and> f x a1 = (Inl e, a'))"
  by (auto simp: bindC_def split: prod.splits sum.splits)

lemma bindC_Inr: "bindC m f a = (Inr y, a') \<longleftrightarrow> (\<exists>x a1. m a = (Inr x, a1) \<and> f x a1 = (Inr y, a'))"
  by (auto simp: bindC_def split: prod.splits sum.splits)

lemma checkC_Inl: "checkC r m a = (Inl e, a') \<longleftrightarrow> (r = Some e \<and> a' = a) \<or> (r = None \<and> m a = (Inl e, a'))"
  by (auto simp: checkC_def failC_def split: option.splits)

lemma checkC_Inr: "checkC r m a = (Inr x, a') \<longleftrightarrow> r = None \<and> m a = (Inr x, a')"
  by (auto simp: checkC_def failC_def split: option.splits)

lemma known_Inl:
  "known_session sid m a = (Inl e, a') \<longleftrightarrow>
    (if session sid (store a) = None then e = CNotFound (unknown_session sid) \<and> a' = a else m a = (Inl e, a'))"
  by (auto simp: known_session_def run)

lemma known_Inr: "known_session sid m a = (Inr x, a') \<longleftrightarrow> session sid (store a) \<noteq> None \<and> m a = (Inr x, a')"
  by (auto simp: known_session_def run)

lemmas interp = liftC_Inl liftC_Inr bindC_Inl bindC_Inr checkC_Inl checkC_Inr known_Inl known_Inr run

section \<open>Refusals\<close>

text \<open>The errors that say the request itself was wrong, as opposed to a failure or a session that is over.\<close>

fun refusal :: "ControllerError \<Rightarrow> bool" where
  "refusal (CInvalid m) \<longleftrightarrow> True"
| "refusal (CForbidden m) \<longleftrightarrow> True"
| "refusal (CNotFound m) \<longleftrightarrow> True"
| "refusal (CGone m) \<longleftrightarrow> False"
| "refusal (CInternal e) \<longleftrightarrow> False"

lemma bindA_Inr: "bindA m f a = (Inr y, a') \<longleftrightarrow> (\<exists>x a1. m a = (Inr x, a1) \<and> f x a1 = (Inr y, a'))"
  by (auto simp: bindA_def split: prod.splits sum.splits)

lemma bindA_Inl:
  "bindA m f a = (Inl e, a') \<longleftrightarrow> m a = (Inl e, a') \<or> (\<exists>x a1. m a = (Inr x, a1) \<and> f x a1 = (Inl e, a'))"
  by (auto simp: bindA_def split: prod.splits sum.splits)

lemma seqA_Inr: "seqA m k a = (Inr y, a') \<longleftrightarrow> (\<exists>a1. m a = (Inr (), a1) \<and> k a1 = (Inr y, a'))"
  by (simp add: seqA_def bindA_Inr)

lemma callA_Inr: "callA f a = (Inr x, a') \<longleftrightarrow> (\<exists>d. f (store a) = Inr (x, d) \<and> a' = a\<lparr>store := d\<rparr>)"
  by (auto simp: callA_def split: sum.splits)

lemma readA_Inr: "readA f a = (Inr x, a') \<longleftrightarrow> x = f (store a) \<and> a' = a"
  by (auto simp: readA_def getA_def)

lemmas handler = bindA_Inr seqA_Inr callA_Inr readA_Inr getA_result

lemma full_unchanged: "add_session_bots_if_capacity sid bs cap inputs d = Inr (Full, d') \<Longrightarrow> d' = d"
  by (auto simp: add_session_bots_if_capacity_def Let_def bindE_def split: if_splits sum.splits)

lemma batch_rejected:
  assumes "add_to_roster_batch sid bs inputs a = (Inr (BatchRejected why), a')"
  shows "a' = a"
  using assms unfolding add_to_roster_batch_def
  by (auto simp: handler retA_def failA_def dest!: full_unchanged split: option.splits if_splits RosterAddOutcome.splits)
    (metis RosterAddOutcome.exhaust)

text \<open>Handlers that never report an unknown session.\<close>

named_theorems findsess \<open>a handler never reports an unknown session\<close>

definition finds_session :: "'a op \<Rightarrow> bool" where
  "finds_session m \<longleftrightarrow> (\<forall>a e a'. m a = (Inl e, a') \<longrightarrow> (\<forall>x. e \<noteq> UnknownSession x))"

lemma finds_sessionD: "finds_session m \<Longrightarrow> m a = (Inl e, a') \<Longrightarrow> e \<noteq> UnknownSession x"
  by (auto simp: finds_session_def)

lemma finds_session_basic [findsess]:
  "finds_session (retA x)" "finds_session (readA f)" "finds_session (getA g)" "finds_session (modA h)"
  "finds_session (callA c)" "finds_session (writeA w)" "finds_session (failA (ReopenRefused m))"
  by (auto simp: finds_session_def retA_def readA_def getA_def modA_def callA_def writeA_def failA_def split: sum.splits)

lemma finds_session_bind [findsess]: "finds_session m \<Longrightarrow> (\<And>x. finds_session (f x)) \<Longrightarrow> finds_session (bindA m f)"
  unfolding finds_session_def bindA_Inl by blast

lemma finds_session_seq [findsess]: "finds_session m \<Longrightarrow> finds_session k \<Longrightarrow> finds_session (seqA m k)"
  unfolding seqA_def by (intro findsess)

lemma finds_session_for [findsess]: "(\<And>x. finds_session (f x)) \<Longrightarrow> finds_session (forA f xs)"
  by (induction xs) (simp_all add: findsess)

lemma finds_session_split [findsess]:
  "finds_session m \<Longrightarrow> finds_session k \<Longrightarrow> finds_session (if c then m else k)"
  "finds_session m \<Longrightarrow> (\<And>y. finds_session (f y)) \<Longrightarrow> finds_session (case v of None \<Rightarrow> m | Some y \<Rightarrow> f y)"
  "(\<And>x y. finds_session (g x y)) \<Longrightarrow> finds_session (case p of (x, y) \<Rightarrow> g x y)"
  by (auto split: option.splits prod.splits)

lemma finds_session_dispatch [findsess]: "finds_session (dispatch_coordinator s)"
  unfolding dispatch_coordinator_def closed_effects_def emitA_def by (intro findsess)

lemma finds_session_transition [findsess]: "finds_session (client_transition s)"
  unfolding client_transition_def by (cases "from_db_str (s_state s)") (simp_all add: findsess)

lemma post_errors:
  assumes "post_client_message sid c a = (Inl e, a')" and "session sid (store a) \<noteq> None"
  shows "e \<noteq> UnknownSession x"
proof -
  obtain s where s: "session sid (store a) = Some s" using assms(2) by blast
  let ?rest = "bindA (if closed_state s
      then bindA (dispatch_coordinator s) (\<lambda>co. retA (case co of Some c \<Rightarrow> reopen_on_client_message c | None \<Rightarrow> False))
      else retA True) (\<lambda>allowed.
      if \<not> allowed then failA (ReopenRefused (reopen_refusal s))
      else bindA (callA (add_message sid None ''client'' None None c None)) (\<lambda>msg.
        seqA (client_transition s)
        (bindA (readA (roster sid)) (\<lambda>rost.
         bindA (readA (thread_for_session sid)) (\<lambda>thread.
         bindA (dispatch_coordinator s) (\<lambda>co. case co of
           None \<Rightarrow> retA msg
         | Some coord \<Rightarrow>
             seqA (fan_out_trigger s coord rost thread msg c)
             (seqA (emitA ''message'' sid (JObj [(''message_id'', JStr (m_id msg)), (''author'', JStr ''client''), (''content'', JStr c)]))
             (retA msg))))))))"
  have f: "finds_session ?rest"
    unfolding fan_out_trigger_def deliverA_def emitA_def by (intro findsess)
  have "post_client_message sid c a = ?rest a"
    using s by (simp add: post_client_message_def run)
  then have "?rest a = (Inl e, a')" using assms(1) by (rule trans [OF sym])
  with f show ?thesis by (rule finds_sessionD)
qed

lemma from_client_refusal: "refusal (from_client_error e) \<Longrightarrow> \<exists>x. e = UnknownSession x"
  by (cases e) simp_all

lemma post_refused:
  assumes "liftC from_client_error (post_client_message sid c) a = (Inl e, a')" and "session sid (store a) \<noteq> None"
  shows "\<not> refusal e"
  using assms post_errors [OF _ assms(2)] from_client_refusal by (fastforce simp: interp)

text \<open>A landed session is there, and announcing it refuses nothing.\<close>

lemma landed_exists:
  assumes "create_session_superseding title tr fp qn chair r mode inputs d = Inr ((s, oc), d')" and "sess_inv d"
  shows "session (s_id s) d' \<noteq> None"
proof -
  have "session_state d' (s_id s) \<noteq> None" if "oc \<noteq> OutcomeDeduped"
    using superseding_post [OF assms(2, 1)] that by (auto simp: superseding_effect_def split: SessionCreateOutcome.splits)
  moreover have "s \<in> set (sessions d')" if "oc = OutcomeDeduped"
    using superseding_post [OF assms(2, 1)] that by (auto simp: superseding_effect_def)
  ultimately show ?thesis by (auto simp: session_state_def session_def find_None_iff)
qed

lemma announce_refused:
  assumes "announce_opening act sid a = (Inl e, a')" and "session sid (store a) \<noteq> None"
  shows "\<not> refusal e"
  using assms post_refused [OF _ assms(2)]
  by (auto simp: announce_opening_def interp split: if_splits)

lemma session_known: "session sid d \<noteq> None \<longleftrightarrow> sid \<in> s_id ` set (sessions d)"
  by (auto simp: session_def find_None_iff)

lemma superseded_keeps_session:
  assumes "handle_superseded_session old a = (r, a')" and "session sid (store a) \<noteq> None"
  shows "session sid (store a') \<noteq> None"
proof -
  have "progress (store a) (store a')" using framedD [OF prog.framed_superseded, of a old] assms(1) by simp
  then have "map s_id (sessions (store a')) = map s_id (sessions (store a))"
    unfolding progress_def by (auto simp: row_progress_def list_all2_conv_all_nth intro!: nth_equalityI)
  then have "s_id ` set (sessions (store a')) = s_id ` set (sessions (store a))" by (metis set_map)
  with assms(2) show ?thesis unfolding session_known by simp
qed

lemma open_session_shape:
  assumes "open_session act a = (r, a')"
  obtains (invalid) m where "validate_open_session act (store a) = Some m" "r = Inl (CInvalid m)" "a' = a"
    | (failed) e where "validate_open_session act (store a) = None" "r = Inl (CInternal e)" "a' = a"
    | (created) s oc d where "validate_open_session act (store a) = None" "create_for act (store a) = Inr ((s, oc), d)"
        "settle_opening act (s_id s) oc (a\<lparr>store := d\<rparr>) = (r, a')"
proof (cases "validate_open_session act (store a)")
  case (Some m)
  with assms have "r = Inl (CInvalid m)" "a' = a" by (simp_all add: open_session_def run)
  with Some show thesis by (rule invalid)
next
  case None
  show thesis
  proof (cases "create_for act (store a)")
    case (Inl e)
    with None assms have "r = Inl (CInternal (StoreFailed e))" "a' = a" by (simp_all add: open_session_def run)
    with None show thesis by (rule failed)
  next
    case (Inr p)
    obtain s oc d where p: "p = ((s, oc), d)" by (cases p) auto
    have "settle_opening act (s_id s) oc (a\<lparr>store := d\<rparr>) = (r, a')"
      using None assms Inr p by (simp add: open_session_def run)
    then show thesis using None Inr p created by simp
  qed
qed

lemma settle_refused:
  assumes "settle_opening act sid oc a = (Inl e, a')" and "session sid (store a) \<noteq> None"
  shows "\<not> refusal e"
proof (cases oc)
  case OutcomeCreated
  with assms show ?thesis by (auto simp: interp dest: announce_refused)
next
  case OutcomeDeduped
  with assms show ?thesis by (simp add: run)
next
  case (OutcomeSuperseded old)
  with assms show ?thesis by (auto simp: interp dest: announce_refused superseded_keeps_session)
qed

lemma open_refused:
  assumes "open_session act a = (Inl e, a')" and "refusal e" and "sess_inv (store a)"
  shows "a' = a"
  using assms(1)
proof (cases rule: open_session_shape)
  case (created s oc d)
  have "session (s_id s) d \<noteq> None" using landed_exists [OF created(2) [unfolded create_for_def] assms(3)] .
  then have "\<not> refusal e" using settle_refused [OF created(3)] by simp
  with assms(2) show ?thesis by simp
qed (use assms(2) in auto)

lemma batch_answer_refused:
  assumes "batch_answer act oc a1 = (Inl e, a')"
    and "add_to_roster_batch sid bs inputs a = (Inr oc, a1)"
  shows "a' = a"
  using assms by (cases oc) (auto simp: run dest: batch_rejected)

lemma execute_refused:
  assumes "execute_with_close_policy act pol a = (Inl e, a')" and "refusal e" and "sess_inv (store a)"
  shows "a' = a"
proof (cases act)
  case (OpenSession x)
  with assms show ?thesis by (auto dest: open_refused)
next
  case (PostMessage x)
  with assms show ?thesis by (auto simp: post_message_def known_Inl bindC_Inl run split: if_splits dest!: post_refused)
next
  case (AddRoster x)
  with assms show ?thesis
    by (auto simp: add_roster_def interp split: if_splits dest: batch_answer_refused)
next
  case (CloseSession x)
  with assms show ?thesis by (auto simp: close_session_def interp Let_def split: if_splits)
next
  case (EmitStatus x)
  with assms show ?thesis by (auto simp: emit_status_def interp split: if_splits)
qed

section \<open>Frames of the interpreter\<close>

text \<open>
  The interpreter adds one store call to those of the plane: creating a session. Any preorder that
  the plane and that call respect is respected by every action.
\<close>

definition framedC :: "(db \<Rightarrow> db \<Rightarrow> bool) \<Rightarrow> 'a cop \<Rightarrow> bool" where
  "framedC R m \<longleftrightarrow> (\<forall>a. R (store a) (store (snd (m a))))"

lemma framedC_D: "framedC R m \<Longrightarrow> R (store a) (store (snd (m a)))"
  by (simp add: framedC_def)

lemma framedC_lift [frames]: "framed R m \<Longrightarrow> framedC R (liftC conv m)"
  by (auto simp: framed_def framedC_def liftC_def split: prod.split sum.split) (metis snd_conv)+

lemma framedC_if [frames]: "(c \<Longrightarrow> framedC R m) \<Longrightarrow> (\<not> c \<Longrightarrow> framedC R k) \<Longrightarrow> framedC R (if c then m else k)"
  by simp

lemma framedC_let [frames]: "framedC R (f v) \<Longrightarrow> framedC R (Let v f)"
  by simp

lemma framedC_prod [frames]: "(\<And>x y. framedC R (f x y)) \<Longrightarrow> framedC R (case p of (x, y) \<Rightarrow> f x y)"
  by (cases p) simp

context preorder_frame
begin

lemma framedC_basic [frames]: "framedC R (retC x)" "framedC R (failC e)" "framedC R (getC f)"
  by (simp_all add: framedC_def retC_def failC_def getC_def R_refl)

lemma framedC_check [frames]: "framedC R m \<Longrightarrow> framedC R (checkC r m)"
  unfolding checkC_def by (cases r) (simp_all add: framedC_basic)

lemma framedC_bind [frames]:
  assumes "framedC R m" and "\<And>x. framedC R (f x)"
  shows "framedC R (bindC m f)"
  unfolding framedC_def
proof
  fix a
  obtain r a1 where m: "m a = (r, a1)" by force
  have 1: "R (store a) (store a1)" using framedC_D [OF assms(1), of a] m by simp
  show "R (store a) (store (snd (bindC m f a)))"
    by (cases r) (use 1 m R_trans [OF 1 framedC_D [OF assms(2)]] in \<open>simp_all add: bindC_def\<close>)
qed

lemma framedC_known [frames]: "framedC R m \<Longrightarrow> framedC R (known_session sid m)"
  unfolding known_session_def by (intro frames)

end

locale action_frame = plane_frame +
  assumes R_create: "create_session_superseding title tr fp qn chair r mode inputs d = Inr (x, d') \<Longrightarrow> R d d'"
begin

lemma framedC_announce [frames]: "framedC R (announce_opening act sid)"
  unfolding announce_opening_def by (intro frames framed_opening framed_client)

lemma framedC_settle [frames]: "framedC R (settle_opening act sid oc)"
  by (cases oc) (simp_all add: frames framed_superseded)

lemma framedC_open: "framedC R (open_session act)"
  unfolding open_session_def create_for_def by (intro frames framed_call) (rule R_create)

lemma framedC_answer [frames]: "framedC R (batch_answer act oc)"
  by (cases oc) (simp_all add: frames)

lemma framedC_execute: "framedC R (execute_with_close_policy act pol)"
proof (cases act)
  case (PostMessage x)
  then show ?thesis by (auto simp: post_message_def intro!: frames framed_client)
next
  case (AddRoster x)
  then show ?thesis by (auto simp: add_roster_def intro!: frames)
next
  case (CloseSession x)
  then show ?thesis unfolding CloseSession execute_with_close_policy.simps close_session_def by (intro frames)
next
  case (EmitStatus x)
  then show ?thesis by (auto simp: emit_status_def intro!: frames framed_status)
qed (simp add: framedC_open)

end

interpretation act_inv: action_frame inv_step
  by unfold_locales (erule store_step.create_superseding [THEN inv_step_store])

text \<open>No action touches installations, credentials, grants, scopes, the action journal or ownership.\<close>

definition ctl_kept :: "db \<Rightarrow> db \<Rightarrow> bool" where
  "ctl_kept d d' \<longleftrightarrow> ctl d' = ctl d"

lemma ctl_kept_queue: "same_but_queue d d' \<Longrightarrow> ctl_kept d d'"
  by (simp add: ctl_kept_def ctl_queue)

lemma ctl_kept_calls:
  "add_message sid tid ak ai au c rt d = Inr (m, d') \<Longrightarrow> ctl_kept d d'"
  "upsert_thread sid root d = Inr (t, d') \<Longrightarrow> ctl_kept d d'"
  "add_session_bots_if_capacity sid bs cap inputs d = Inr (oc, d') \<Longrightarrow> ctl_kept d d'"
  "replace_session_bot sid b b' d = Inr (x, d') \<Longrightarrow> ctl_kept d d'"
  "advance_state sid fr to d = Inr (x, d') \<Longrightarrow> ctl_kept d d'"
  "close_if_active sid et reason stale d = Inr (x, d') \<Longrightarrow> ctl_kept d d'"
  "close_session_with_result sid fr dec r y g author ids finals rc d = Inr (x, d') \<Longrightarrow> ctl_kept d d'"
  "reopen_session sid fr d = Inr (x, d') \<Longrightarrow> ctl_kept d d'"
  "create_session_superseding title tr fp qn chair ro mode inputs d = Inr (w, d') \<Longrightarrow> ctl_kept d d'"
  by (simp_all add: ctl_kept_def ctl_bots ctl_roster ctl_transitions ctl_closes ctl_create_superseding)

interpretation tables: action_frame ctl_kept
proof
  fix d d' d'' :: db
  show "ctl_kept d d" "ctl_kept d d' \<Longrightarrow> ctl_kept d' d'' \<Longrightarrow> ctl_kept d d''" by (simp_all add: ctl_kept_def)
qed (rule ctl_kept_queue [OF append_or_warn_queue] | erule ctl_kept_calls | erule ctl_kept_queue [OF intent_queue]
    | simp add: ctl_kept_def ctl_pure)+

section \<open>What an opening lands\<close>

lemma land_row:
  assumes "land_session row r inputs oc d = Inr ((s, oc'), d')" and "sess_inv d" and "active row"
  shows "s = row \<and> session (s_id row) d' = Some row"
proof -
  from assms(1) obtain d3 d4 e where ins: "insert_session row d = Inr d3"
    and inp: "insert_opening_inputs (s_id row) (s_created_at row) inputs (add_roster_rows (s_id row) r d3) = Inr d4"
    and aud: "append_audit_event_locked e d4 = Inr d'" and eq: "s = row"
    unfolding land_session_def by blast
  have l: "sess_inv d'" "sessions d' = sessions d @ [row]" using landed [OF assms(2) ins inp aud] by auto
  have "s_id row \<notin> s_id ` set (sessions d)" using l by (simp add: sess_inv_def)
  then have "find (\<lambda>s. s_id s = s_id row) (sessions d) = None"
    unfolding find_None_iff by (metis image_eqI)
  then have "session (s_id row) d' = Some row" by (simp add: session_def l(2) find_append)
  with eq show ?thesis by blast
qed

lemma superseding_row:
  assumes "create_session_superseding title tr fp qn chair r mode inputs d = Inr ((s, oc), d')" and "sess_inv d"
    and "oc \<noteq> OutcomeDeduped"
  shows "session (s_id s) d' = Some s \<and> s = new_session_row (s_id s) title (if inputs = [] then ''open'' else ''deliberating'')
    tr fp qn chair (now_ms d) mode"
proof -
  let ?d1 = "d\<lparr>uuid_next := Suc (uuid_next d)\<rparr>"
  let ?sid = "''ses'' @ ''_'' @ uuid d (uuid_next d)"
  let ?row = "new_session_row ?sid title (if inputs = [] then ''open'' else ''deliberating'') tr fp qn chair (now_ms ?d1) mode"
  have inv1: "sess_inv ?d1" using assms(2) by (simp add: sess_inv_def)
  have "\<exists>d2 oc'. sess_inv d2 \<and> land_session ?row r inputs oc' d2 = Inr ((s, oc), d')"
  proof (cases "Option.bind tr (\<lambda>t. active_session_for_trigger_locked t ?d1)")
    case None
    then have "land_session ?row r inputs OutcomeCreated ?d1 = Inr ((s, oc), d')"
      using assms(1) by (simp add: create_session_superseding_def new_id_def Let_def)
    with inv1 show ?thesis by blast
  next
    case (Some e)
    with assms(1, 3) obtain d2 where d2: "supersede_existing e ?sid (now_ms ?d1) ?d1 = Inr d2"
      "land_session ?row r inputs (OutcomeSuperseded (s_id e)) d2 = Inr ((s, oc), d')"
      unfolding create_session_superseding_def new_id_def Let_def
      by (simp only: prod.case option.case split: if_splits) (auto elim!: bindE_InrE)
    have "e \<in> set (sessions ?d1)" "active e"
      using Some by (auto simp: bind_eq_Some_conv dest!: active_session_SomeD)
    with d2 supersede_existing_Inr [OF inv1 d2(1)] show ?thesis by blast
  qed
  moreover have "active ?row" by (simp add: new_session_row_def active_def)
  ultimately have s: "s = ?row" "session (s_id ?row) d' = Some ?row" using land_row by metis+
  moreover have "s_id ?row = ?sid" "now_ms ?d1 = now_ms d" by (simp_all add: new_session_row_def now_ms_def)
  ultimately show ?thesis by simp
qed

lemma fresh_roster:
  assumes "roster sid d = []" and "distinct bs" and "session_bots d' = ins_roster sid bs (session_bots d)"
  shows "roster sid d' = bs"
proof -
  have "members sid (ins_roster sid bs rows) = members sid rows @ bs"
    if "distinct bs" "set bs \<inter> set (members sid rows) = {}" for bs rows
    using that
  proof (induction bs arbitrary: rows)
    case (Cons b bs)
    have "\<lparr>sb_session_id = sid, sb_bot_id = b\<rparr> \<notin> set rows" using Cons.prems(2) by (force simp: members_def)
    then have i: "ins_roster sid (b # bs) rows = ins_roster sid bs (rows @ [\<lparr>sb_session_id = sid, sb_bot_id = b\<rparr>])"
      by (simp add: ins_roster_def ins_ignore_def)
    show ?case unfolding i using Cons.prems by (subst Cons.IH) (auto simp: members_def)
  qed (simp add: ins_roster_def)
  from this [of bs "session_bots d"] assms show ?thesis by (simp add: roster_def)
qed

text \<open>Delivering to a session whose mode is known touches neither sessions nor rosters.\<close>

definition plan_kept :: "db \<Rightarrow> db \<Rightarrow> bool" where
  "plan_kept d d' \<longleftrightarrow> sessions d' = sessions d \<and> session_bots d' = session_bots d"

lemma plan_message: "add_message sid tid ak ai au c rt d = Inr (m, d') \<Longrightarrow> plan_kept d d'"
  by (drule add_message_shape) (auto simp: plan_kept_def same_but_queue_fields)

interpretation plan: prompt_frame plan_kept
proof
  fix e d
  show "plan_kept d (append_or_warn e d)"
    using append_or_warn_queue [of d e] by (simp add: plan_kept_def same_but_queue_fields)
qed (erule plan_message | simp add: plan_kept_def plain_ops)+

lemma dispatch_known [run]:
  "lookup (s_mode s) = Some coord \<Longrightarrow> bindA (dispatch_coordinator s) k a = k (Some coord) a"
  by (simp add: dispatch_coordinator_def run)

lemma opening_plan:
  assumes "session sid (store a) = Some s" and "lookup (s_mode s) = Some coord"
  shows "plan_kept (store a) (store (snd (deliver_opening_inputs sid a)))"
proof -
  let ?rest = "bindA (readA (roster sid)) (\<lambda>rost.
      bindA (readA (thread_for_session sid)) (\<lambda>thread.
      bindA (readA (messages sid)) (forA (\<lambda>m.
        if m_author_kind m \<noteq> ''client'' \<or> m_author_id m \<noteq> None then retA ()
        else (case m_audience m of
          None \<Rightarrow> retA ()
        | Some target \<Rightarrow>
            bindA (readA (bot_name_of target)) (\<lambda>name.
            seqA (deliverA target sid thread (named_sender ''client'') (text_content (m_content m))
              (if target \<in> set (starters coord rost (s_chair_bot s)) then [name] else []) (m_id m))
            (emitA ''message'' sid (JObj [(''message_id'', JStr (m_id m)), (''author'', JStr ''client''),
              (''audience'', JStr target), (''content'', JStr (m_content m))]))))))))"
  have h: "deliver_opening_inputs sid a = ?rest a"
    using assms by (simp add: deliver_opening_inputs_def run)
  show ?thesis unfolding h
    by (rule framedD) (intro plan.framed_bind plan.framed_seq plan.framed_read plan.framed_for plan.framed_ret plan.framed_deliver plan.framed_emit
        framed_if framed_option)
qed

lemma advance_opened:
  assumes "advance_state sid Open Deliberating d = Inr (x, d')" and "session sid d = Some s" and "s_state s = ''open''"
  shows "session sid d' = Some (s\<lparr>s_state := ''deliberating''\<rparr>) \<and> session_bots d' = session_bots d"
proof -
  let ?f = "\<lambda>s. s\<lparr>s_state := ''deliberating''\<rparr>" and ?P = "\<lambda>s. s_id s = sid \<and> s_state s = ''open''"
  have "sessions d' = upd_where ?P ?f (sessions d)" "session_bots d' = session_bots d"
    using assms(1) unfolding advance_state_def Let_def
    by (auto simp: write_sessions_Inr same_but_queue_fields coalesce_def closing_time_def split: if_splits dest!: state_change_audit_frame)
  moreover have "find (\<lambda>s. s_id s = sid) (upd_where ?P ?f xs) = map_option (\<lambda>s. if ?P s then ?f s else s) (find (\<lambda>s. s_id s = sid) xs)"
    for xs :: "Session list" by (induction xs) (auto simp: upd_where_def)
  moreover have "s_id s = sid" using assms(2) by (auto simp: session_def find_Some_iff)
  ultimately show ?thesis using assms(2, 3) by (simp add: session_def)
qed

lemma post_opens:
  assumes "post_client_message sid c a = (Inr m, a')" and "session sid (store a) = Some s" and "s_state s = ''open''"
    and "lookup (s_mode s) = Some coord"
  shows "session sid (store a') = Some (s\<lparr>s_state := ''deliberating''\<rparr>) \<and> roster sid (store a') = roster sid (store a)"
proof -
  have o: "from_db_str (s_state s) = Open" "\<not> closed_state s" "s_id s = sid"
    using assms(2, 3) by (auto simp: from_db_str_def closed_state_def session_def find_Some_iff)
  let ?rest = "\<lambda>msg. bindA (readA (roster sid)) (\<lambda>rost.
       bindA (readA (thread_for_session sid)) (\<lambda>thread.
         seqA (fan_out_trigger s coord rost thread msg c)
         (seqA (emitA ''message'' sid (JObj [(''message_id'', JStr (m_id msg)), (''author'', JStr ''client''), (''content'', JStr c)]))
         (retA msg))))"
  obtain msg d1 x d2 where add: "add_message sid None ''client'' None None c None (store a) = Inr (msg, d1)"
    and adv: "advance_state sid Open Deliberating d1 = Inr (x, d2)" and r: "?rest msg (a\<lparr>store := d2\<rparr>) = (Inr m, a')"
    using assms(1, 2, 4) o
    by (auto simp: post_client_message_def client_transition_def seqA_def run handler split: sum.splits)
  have "framed plan_kept (?rest msg)"
    unfolding fan_out_trigger_def
    by (intro plan.framed_bind plan.framed_seq plan.framed_read plan.framed_get plan.framed_for plan.framed_ret plan.framed_deliver
        plan.framed_emit framed_prod)
  from framedD [OF this, of "a\<lparr>store := d2\<rparr>"] have "plan_kept d2 (store a')" using r by simp
  moreover have "session sid d1 = Some s" "session_bots d1 = session_bots (store a)"
    using plan_message [OF add] assms(2) by (simp_all add: plan_kept_def session_def)
  ultimately show ?thesis
    using advance_opened [OF adv _ assms(3)] by (simp add: plan_kept_def session_def roster_def)
qed

lemma superseded_plan: "plan_kept (store a) (store (snd (handle_superseded_session old a)))"
proof -
  have "framed plan_kept (modA (purge_session_outbox_after_close old))" "framed plan_kept (modA (fire_close_webhook old v reason))"
    for v reason
    by (rule plan.framed_mod, simp add: plan_kept_def purge_session_outbox_after_close_def on_store_def purge_outbox_for_session_def
        fire_close_webhook_def split: option.split)+
  then have "framed plan_kept (handle_superseded_session old)"
    unfolding handle_superseded_session_def closed_effects_def by (intro plan.framed_seq plan.framed_emit)
  then show ?thesis by (rule framedD)
qed

text \<open>What validation has established.\<close>

lemma or_else_None: "or_else x y = None \<longleftrightarrow> x = None \<and> y = None" "when_some c m = None \<longleftrightarrow> \<not> c"
  by (simp_all add: or_else_def when_some_def split: option.split)

lemma roster_ok: "roster_refusal d seen bs = None \<longleftrightarrow>
    distinct bs \<and> set bs \<inter> set seen = {} \<and> (\<forall>b \<in> set bs. bot_of b d \<noteq> None)"
  by (induction d seen bs rule: roster_refusal.induct) (auto simp: not_None_eq)

definition council_can_close :: "OpenSessionAction \<Rightarrow> db \<Rightarrow> bool" where
  "council_can_close act d \<longleftrightarrow> osa_roster act \<noteq> [] \<and> distinct (osa_roster act)
    \<and> list_all (\<lambda>b. bot_of b d \<noteq> None) (osa_roster act) \<and> lookup (osa_mode act) \<noteq> None
    \<and> 0 \<le> osa_quorum_n act \<and> osa_quorum_n act \<le> int (length (reviewers (osa_roster act) (osa_chair_bot act)))
    \<and> (case osa_chair_bot act of None \<Rightarrow> True | Some chair \<Rightarrow> chair \<in> set (osa_roster act))"

lemma validate_ok: "validate_open_session act d = None \<Longrightarrow> council_can_close act d"
  unfolding validate_open_session_def or_else_None roster_ok council_can_close_def
  by (auto simp: list_all_iff reviewer_capacity_def count_where_def reviewers_def split: option.splits)

text \<open>The row a session has once it is announced.\<close>

definition opened_row :: "OpenSessionAction \<Rightarrow> string \<Rightarrow> Session \<Rightarrow> bool" where
  "opened_row act sid s \<longleftrightarrow> s_id s = sid
    \<and> s_state s = (if opening_inputs act = [] \<and> trim (osa_prompt act) = [] then ''open'' else ''deliberating'')
    \<and> (s_title s, s_mode s, s_trigger_ref s, s_trigger_fingerprint s)
        = (osa_title act, osa_mode act, osa_trigger_ref act, osa_trigger_fingerprint act)
    \<and> s_quorum_n s = osa_quorum_n act \<and> s_chair_bot s = osa_chair_bot act
    \<and> s_closed_at s = None \<and> s_decision s = None \<and> s_result_author_id s = None"

lemma announce_lands:
  assumes "announce_opening act sid a = (Inr (), a')" and "session sid (store a) = Some s"
    and "s = new_session_row sid (osa_title act) (if opening_inputs act = [] then ''open'' else ''deliberating'')
      (osa_trigger_ref act) (osa_trigger_fingerprint act) (osa_quorum_n act) (osa_chair_bot act) t (osa_mode act)"
    and "lookup (osa_mode act) \<noteq> None"
  shows "roster sid (store a') = roster sid (store a) \<and> (\<exists>s'. session sid (store a') = Some s' \<and> opened_row act sid s')"
proof -
  obtain coord where l: "lookup (s_mode s) = Some coord" using assms(3, 4) by (auto simp: new_session_row_def)
  have r: "opened_row act sid (s\<lparr>s_state := if opening_inputs act = [] \<and> trim (osa_prompt act) = [] then ''open'' else ''deliberating''\<rparr>)"
    using assms(3) by (simp add: opened_row_def new_session_row_def)
  have st: "s_state s = (if opening_inputs act = [] then ''open'' else ''deliberating'')"
    using assms(3) by (simp add: new_session_row_def)
  consider "opening_inputs act \<noteq> []" | "opening_inputs act = []" "trim (osa_prompt act) \<noteq> []"
    | "opening_inputs act = []" "trim (osa_prompt act) = []" by blast
  then show ?thesis
  proof cases
    case 1
    then have "deliver_opening_inputs sid a = (Inr (), a')" using assms(1) by (simp add: announce_opening_def liftC_Inr)
    with opening_plan [OF assms(2) l] have "plan_kept (store a) (store a')" by simp
    moreover have "opened_row act sid s" using 1 assms(3) by (simp add: opened_row_def new_session_row_def)
    ultimately show ?thesis using assms(2) by (simp add: plan_kept_def session_def roster_def)
  next
    case 2
    then obtain m where "post_client_message sid (osa_prompt act) a = (Inr m, a')"
      using assms(1) by (auto simp: announce_opening_def interp)
    from post_opens [OF this assms(2) _ l] 2 st r show ?thesis by simp
  next
    case 3
    then have "opened_row act sid s" using assms(3) by (simp add: opened_row_def new_session_row_def)
    with 3 assms(1, 2) show ?thesis by (simp add: announce_opening_def run)
  qed
qed

lemma opening_result:
  assumes "open_session act a = (Inr r, a')" and "sess_inv (store a)"
    and "r = SessionOpened sid False \<or> (\<exists>old. r = Superseded sid old)" and "roster sid (store a) = []"
  shows "council_can_close act (store a) \<and> roster sid (store a') = osa_roster act
    \<and> (\<exists>s. session sid (store a') = Some s \<and> opened_row act sid s)"
  using assms(1)
proof (cases rule: open_session_shape)
  case (created s oc d)
  note c = created(2) [unfolded create_for_def]
  have v: "council_can_close act (store a)" by (rule validate_ok [OF created(1)])
  obtain a1 where a1: "plan_kept d (store a1)" and ann: "announce_opening act sid a1 = (Inr (), a')"
    and sid: "s_id s = sid" and oc: "oc \<noteq> OutcomeDeduped"
  proof (cases oc)
    case OutcomeCreated
    with created(3) assms(3) have "s_id s = sid" "announce_opening act sid (a\<lparr>store := d\<rparr>) = (Inr (), a')"
      by (auto simp: interp)
    then show ?thesis using that [of "a\<lparr>store := d\<rparr>"] OutcomeCreated by (simp add: plan_kept_def)
  next
    case (OutcomeSuperseded old)
    with created(3) assms(3) obtain a1 where "s_id s = sid" "handle_superseded_session old (a\<lparr>store := d\<rparr>) = (Inr (), a1)"
      "announce_opening act sid a1 = (Inr (), a')" by (auto simp: interp)
    then show ?thesis using that [of a1] OutcomeSuperseded superseded_plan [of "a\<lparr>store := d\<rparr>" old] by simp
  qed (use created(3) assms(3) in \<open>auto simp: run\<close>)
  note row = superseding_row [OF c assms(2) oc, unfolded sid]
  have "roster sid d = osa_roster act"
    using superseding_post [OF assms(2) c] oc sid v fresh_roster [OF assms(4)] by (auto simp: council_can_close_def)
  then have "roster sid (store a1) = osa_roster act" "session sid (store a1) = Some s"
    using a1 row by (simp_all add: plan_kept_def session_def roster_def)
  with announce_lands [OF ann _ conjunct2 [OF row]] v show ?thesis by (simp add: council_can_close_def)
qed auto

section \<open>Properties of the interpreter\<close>

text \<open>A plane with a chair and two reviewers, and the opening of a review.\<close>

definition desk_app :: AppState where
  "desk_app = example_app\<lparr>store := fold (\<lambda>(b, r). snd \<circ> seed_bot b b r b b)
    [(''chair'', ''chair''), (''rev1'', ''reviewer''), (''rev2'', ''reviewer'')] empty_db\<rparr>"

definition review_action :: OpenSessionAction where
  "review_action = \<lparr>osa_title = ''council'', osa_trigger_ref = Some ''pr/1'', osa_trigger_fingerprint = Some ''head1'',
    osa_roster = [''chair'', ''rev1'', ''rev2''], osa_quorum_n = 2, osa_chair_bot = Some ''chair'', osa_mode = ''council'',
    osa_prompt = ''review'', osa_recipient_inputs = []\<rparr>"

lemma desk_inv: "db_inv (store desk_app)"
  by code_simp

text \<open>
  C28. A refused action leaves no trace: when the interpreter answers that a request is invalid,
  forbidden or names an unknown session, the whole runtime state, database, wire, north stream and
  webhooks included, is exactly what it was. Failures of the store and a session that is over are
  not refusals.
\<close>

theorem refused_action_is_inert:
  assumes "execute_with_close_policy act pol a = (Inl e, a')" and "refusal e" and "db_inv (store a)"
  shows "a' = a"
  using execute_refused [OF assms(1, 2)] assms(3) by (simp add: db_inv_def)

theorem refused_action_is_inert_witness:
  "snd (execute (OpenSession (review_action\<lparr>osa_quorum_n := 3\<rparr>)) desk_app) = desk_app"
proof -
  let ?m = "''open_session action quorum_n (3) exceeds reviewer count (2)''"
  obtain r a' where e: "execute (OpenSession (review_action\<lparr>osa_quorum_n := 3\<rparr>)) desk_app = (r, a')" by force
  have "fst (execute (OpenSession (review_action\<lparr>osa_quorum_n := 3\<rparr>)) desk_app) = Inl (CInvalid ?m)" by code_simp
  with e have "execute (OpenSession (review_action\<lparr>osa_quorum_n := 3\<rparr>)) desk_app = (Inl (CInvalid ?m), a')" by simp
  from refused_action_is_inert [OF this [unfolded execute_def] _ desk_inv] e show ?thesis by simp
qed

text \<open>
  C27. Every session a controller opens can reach its end: on success the session exists under the
  returned id with the requested mode, quorum, chair and trigger, its roster is exactly the
  requested one, in order, every member is registered, and the quorum does not exceed the
  reviewers; it is deliberating, unless nothing was said to it yet. The database invariant is kept.
\<close>

theorem opened_session_is_ready:
  assumes "open_session act a = (Inr r, a')" and "db_inv (store a)"
    and "r = SessionOpened sid False \<or> (\<exists>old. r = Superseded sid old)" and "roster sid (store a) = []"
  shows "council_can_close act (store a) \<and> roster sid (store a') = osa_roster act
    \<and> (\<exists>s. session sid (store a') = Some s \<and> opened_row act sid s) \<and> db_inv (store a')"
proof -
  have "inv_step (store a) (store (snd (open_session act a)))" by (rule framedC_D [OF act_inv.framedC_open])
  then have "db_inv (store a')" using assms(1, 2) by (simp add: inv_step_def)
  moreover have "sess_inv (store a)" using assms(2) by (simp add: db_inv_def)
  ultimately show ?thesis using opening_result [OF assms(1) _ assms(3, 4)] by blast
qed

theorem opened_session_is_ready_witness:
  "roster ''ses_0'' (store (snd (open_session review_action desk_app))) = [''chair'', ''rev1'', ''rev2'']
    \<and> (\<exists>s. session ''ses_0'' (store (snd (open_session review_action desk_app))) = Some s \<and> s_state s = ''deliberating'')"
proof -
  obtain r a' where e: "open_session review_action desk_app = (r, a')" by force
  have "fst (open_session review_action desk_app) = Inr (SessionOpened ''ses_0'' False)" by code_simp
  with e have o: "open_session review_action desk_app = (Inr (SessionOpened ''ses_0'' False), a')" by simp
  have "roster ''ses_0'' (store desk_app) = []" by code_simp
  note ready = opened_session_is_ready [OF o desk_inv _ this]
  have "trim (osa_prompt review_action) \<noteq> []" "osa_roster review_action = [''chair'', ''rev1'', ''rev2'']" by code_simp+
  with ready e show ?thesis by (auto simp: opened_row_def)
qed

end
