(* ===== verification/Controller_API.thy ===== *)
theory Controller_API
  imports Controller_Actions
begin

text \<open>
  The external controller boundary (\<^verbatim>\<open>src/controller_api.rs\<close>): authentication of action tokens,
  the admission, execution and completion of a controller action, reconciliation after a lost
  answer, and the operator's management of installations. A handler maps a request and a runtime
  state to a response and the state it leaves. Shown here: what an unauthenticated or refused
  request leaves behind, that an action runs at most once and its answer is repeated for ever, and
  that a controller acts on its own sessions only.
\<close>

section \<open>The world around the handlers\<close>

text \<open>
  Versioned peppers are a map in key order. The environment holds the cryptographic functions and
  decoders of third-party crates, and the configuration the process was started with.
\<close>

type_synonym ControllerAuthConfig = "(int \<times> string) list"
type_synonym headers = "string \<Rightarrow> string option"

record api_env =
  event_env :: event_env
  base64_decode :: "string \<Rightarrow> string option"
  decode_envelope :: "string \<Rightarrow> ActionEnvelope option"
  controller_auth :: "ControllerAuthConfig option"
  event_keys :: "ControllerEventKeys option"
  api_key :: "string option"

record Response =
  rs_status :: int
  rs_body :: json
  rs_retry_after :: "int option"

definition MAX_ACTION_BODY_BYTES :: nat where "MAX_ACTION_BODY_BYTES = 1024 * 1024"
definition ACTION_ID_HEADER :: string where "ACTION_ID_HEADER = ''x-oab-action-id''"
definition SCOPE_HEADER :: string where "SCOPE_HEADER = ''x-oab-scope''"
definition TOKEN_ROTATION_OVERLAP_MS :: int where "TOKEN_ROTATION_OVERLAP_MS = 15 * 60 * 1000"

section \<open>Peppers\<close>

fun check_peppers :: "ControllerAuthConfig \<Rightarrow> string + unit" where
  "check_peppers [] = Inr ()"
| "check_peppers ((version, key) # rest) =
    (if version \<le> 0 then Inl ''controller action pepper versions must be positive''
     else if length key < 32 then Inl (''controller action pepper v'' @ int_str version @ '' must be at least 32 bytes'')
     else check_peppers rest)"

definition new_peppers :: "ControllerAuthConfig \<Rightarrow> string + ControllerAuthConfig" where
  "new_peppers ps =
    (if ps = [] then Inl ''controller action peppers must not be empty''
     else bindE (check_peppers ps) (\<lambda>_. Inr ps))"

definition hash_token :: "api_env \<Rightarrow> ControllerAuthConfig \<Rightarrow> int \<Rightarrow> string \<Rightarrow> string + string" where
  "hash_token e auth version token =
    (case map_of auth version of
      None \<Rightarrow> Inl (''unknown controller action pepper v'' @ int_str version)
    | Some pepper \<Rightarrow> Inr (hmac_sha256 (event_env e) pepper token))"

definition first_pepper :: "ControllerAuthConfig \<Rightarrow> string" where
  "first_pepper auth = snd (hd auth)"

definition latest_pepper :: "ControllerAuthConfig \<Rightarrow> int" where
  "latest_pepper auth = fst (last auth)"

definition credential_hashes :: "api_env \<Rightarrow> ControllerAuthConfig \<Rightarrow> string \<Rightarrow> ControllerCredentialHash list" where
  "credential_hashes e auth token =
    map (\<lambda>(version, pepper). \<lparr>ch_pepper_version = version, ch_token_hash = hmac_sha256 (event_env e) pepper token\<rparr>) auth"

section \<open>Responses\<close>

fun error_code_str :: "ErrorCode \<Rightarrow> string" where
  "error_code_str InvalidRequest = ''invalid_request''"
| "error_code_str UnsupportedVersion = ''unsupported_version''"
| "error_code_str Unauthorized = ''unauthorized''"
| "error_code_str Forbidden = ''forbidden''"
| "error_code_str NotFound = ''not_found''"
| "error_code_str Gone = ''gone''"
| "error_code_str Conflict = ''conflict''"
| "error_code_str RateLimited = ''rate_limited''"
| "error_code_str Internal = ''internal''"

text \<open>An optional field is left out when it is absent.\<close>

definition jfield :: "string \<Rightarrow> json option \<Rightarrow> (string \<times> json) list" where
  "jfield name v = (case v of None \<Rightarrow> [] | Some x \<Rightarrow> [(name, x)])"

definition jversion :: "u16 \<Rightarrow> json" where
  "jversion v = JNum (int (unat v))"

definition error_json :: "ErrorEnvelope \<Rightarrow> json" where
  "error_json x = JObj ([(''version'', jversion (ee_version x))] @ jfield ''action_id'' (map_option JStr (ee_action_id x))
    @ [(''error'', JObj [(''code'', JStr (error_code_str (pe_code (ee_error x)))), (''message'', JStr (pe_message (ee_error x))),
        (''retryable'', JBool (pe_retryable (ee_error x)))])])"

fun result_json :: "ControllerActionResult \<Rightarrow> json" where
  "result_json (SessionOpened sid deduped) =
    JObj [(''type'', JStr ''session_opened''), (''data'', JObj [(''session_id'', JStr sid), (''deduped'', JBool deduped)])]"
| "result_json (Superseded sid old) =
    JObj [(''type'', JStr ''superseded''), (''data'', JObj [(''session_id'', JStr sid), (''old_id'', JStr old)])]"
| "result_json (MessagePosted mid) = JObj [(''type'', JStr ''message_posted''), (''data'', JObj [(''message_id'', JStr mid)])]"
| "result_json (RosterAdded sid added already_members) =
    JObj [(''type'', JStr ''roster_added''), (''data'', JObj [(''session_id'', JStr sid), (''added'', jstrs added),
      (''already_members'', jstrs already_members)])]"
| "result_json (SessionClosed sid closed) =
    JObj [(''type'', JStr ''session_closed''), (''data'', JObj [(''session_id'', JStr sid), (''closed'', JBool closed)])]"
| "result_json (StatusEmitted sid status) =
    JObj [(''type'', JStr ''status_emitted''), (''data'', JObj [(''session_id'', JStr sid), (''status_id'', JStr status)])]"

definition result_envelope_json :: "ActionResultEnvelope \<Rightarrow> json" where
  "result_envelope_json x = JObj [(''version'', jversion (are_version x)), (''action_id'', JStr (are_action_id x)),
    (''result'', result_json (are_result x))]"

definition raw_json_response :: "int \<Rightarrow> json \<Rightarrow> int option \<Rightarrow> Response" where
  "raw_json_response status body retry_after = \<lparr>rs_status = status, rs_body = body, rs_retry_after = retry_after\<rparr>"

definition protocol_error_response :: "int \<Rightarrow> string option \<Rightarrow> ErrorCode \<Rightarrow> string \<Rightarrow> bool \<Rightarrow> int option \<Rightarrow> Response" where
  "protocol_error_response status action_id code message retryable retry_after =
    raw_json_response status (error_json \<lparr>ee_version = CURRENT_VERSION, ee_action_id = action_id,
      ee_error = \<lparr>pe_code = code, pe_message = message, pe_retryable = retryable\<rparr>\<rparr>) retry_after"

definition bad_request :: "string option \<Rightarrow> string \<Rightarrow> Response" where
  "bad_request action_id message = protocol_error_response 400 action_id InvalidRequest message False None"

definition unauthorized_response :: Response where
  "unauthorized_response = protocol_error_response 401 None Unauthorized ''invalid controller action credentials'' False None"

definition internal_store_error :: "string option \<Rightarrow> Response" where
  "internal_store_error action_id =
    protocol_error_response 500 action_id Internal ''controller action store unavailable'' True None"

definition not_configured :: "string option \<Rightarrow> Response" where
  "not_configured action_id =
    protocol_error_response 503 action_id Internal ''external controller action API is not configured'' True None"

text \<open>Division of \<^verbatim>\<open>i64\<close> rounds towards zero.\<close>

definition trunc_div :: "int \<Rightarrow> int \<Rightarrow> int" where
  "trunc_div x k = (if x < 0 then - ((- x) div k) else x div k)"

fun denial_response :: "string option \<Rightarrow> ControllerActionDenial \<Rightarrow> int \<Rightarrow> Response" where
  "denial_response action_id CredentialDenied at = unauthorized_response"
| "denial_response action_id GrantDenied at =
    protocol_error_response 403 action_id Forbidden ''controller action is not granted'' False None"
| "denial_response action_id ScopeDenied at =
    protocol_error_response 403 action_id Forbidden ''controller scope is not granted'' False None"
| "denial_response action_id DisabledDenied at =
    protocol_error_response 403 action_id Forbidden
      ''controller installation is disabled; only actions on its in-flight sessions are allowed'' False None"
| "denial_response action_id SessionOwnershipDenied at =
    protocol_error_response 403 action_id Forbidden ''session is not owned by this controller scope'' False None"
| "denial_response action_id TriggerScopeDenied at =
    protocol_error_response 403 action_id Forbidden ''controller trigger is bound to another scope'' False None"
| "denial_response action_id (RateQuota limit reset_at) at =
    protocol_error_response 429 action_id RateLimited
      (''accepted action rate quota exceeded (limit '' @ int_str limit @ '' per minute)'') True
      (Some (max (trunc_div (saturating_add (saturating_sub reset_at at) 999) 1000) 1))"
| "denial_response action_id (ConcurrentSessionQuota limit current) at =
    protocol_error_response 409 action_id Conflict
      (''concurrent session quota exceeded (limit '' @ int_str limit @ '', current '' @ int_str current @ '')'') False None"

fun denial_code :: "ControllerActionDenial \<Rightarrow> string" where
  "denial_code CredentialDenied = ''credential''"
| "denial_code GrantDenied = ''grant''"
| "denial_code ScopeDenied = ''scope''"
| "denial_code SessionOwnershipDenied = ''session_ownership''"
| "denial_code TriggerScopeDenied = ''trigger_scope''"
| "denial_code DisabledDenied = ''disabled''"
| "denial_code (RateQuota limit reset_at) = ''rate_quota''"
| "denial_code (ConcurrentSessionQuota limit current) = ''concurrent_session_quota''"

fun map_controller_error :: "ControllerError \<Rightarrow> int \<times> ErrorCode \<times> string \<times> bool" where
  "map_controller_error (CInvalid message) = (400, InvalidRequest, message, False)"
| "map_controller_error (CForbidden message) = (403, Forbidden, message, False)"
| "map_controller_error (CNotFound message) = (404, NotFound, message, False)"
| "map_controller_error (CGone message) = (410, Gone, message, False)"
| "map_controller_error (CInternal err) = (500, Internal, ''controller action execution failed'', True)"

section \<open>Reading a request\<close>

definition header_text :: "headers \<Rightarrow> string \<Rightarrow> string option" where
  "header_text hs name = hs name"

definition bearer :: "headers \<Rightarrow> string option" where
  "bearer hs = Option.bind (hs ''authorization'') (strip_prefix ''Bearer '')"

fun action_kind :: "ControllerAction \<Rightarrow> string" where
  "action_kind (OpenSession act) = ''open_session''"
| "action_kind (PostMessage act) = ''post_message''"
| "action_kind (AddRoster act) = ''add_roster''"
| "action_kind (CloseSession act) = ''close_session''"
| "action_kind (EmitStatus act) = ''emit_status''"

fun action_session_id :: "ControllerAction \<Rightarrow> string option" where
  "action_session_id (OpenSession act) = None"
| "action_session_id (PostMessage act) = Some (pma_session_id act)"
| "action_session_id (AddRoster act) = Some (ara_session_id act)"
| "action_session_id (CloseSession act) = Some (csa_session_id act)"
| "action_session_id (EmitStatus act) = Some (esa_session_id act)"

fun result_session_id :: "ControllerActionResult \<Rightarrow> string option" where
  "result_session_id (SessionOpened sid deduped) = Some sid"
| "result_session_id (Superseded sid old) = Some sid"
| "result_session_id r = None"

definition controller_trigger_ref :: "api_env \<Rightarrow> string \<Rightarrow> string \<Rightarrow> string \<Rightarrow> string" where
  "controller_trigger_ref e controller_id scope trigger_ref =
    ''controller:'' @ controller_id @ '':''
    @ hex_encode (event_env e) (sha256 (event_env e) (controller_id @ [CHR 0x00] @ scope @ [CHR 0x00] @ trigger_ref))"

text \<open>Exactly one stored credential must verify, with a pepper that is still configured.\<close>

definition valid_shape :: "api_env \<Rightarrow> string \<Rightarrow> bool" where
  "valid_shape e token = (case base64_decode e token of None \<Rightarrow> False | Some bytes \<Rightarrow> length bytes = 32)"

definition verifies :: "api_env \<Rightarrow> ControllerAuthConfig \<Rightarrow> string \<Rightarrow> ControllerActionToken \<Rightarrow> bool" where
  "verifies e auth token c \<longleftrightarrow>
    hmac_sha256 (event_env e) (case map_of auth (cat_pepper_version c) of Some p \<Rightarrow> p | None \<Rightarrow> first_pepper auth) token
      = cat_token_hash c
    \<and> map_of auth (cat_pepper_version c) \<noteq> None \<and> valid_shape e token"

definition authenticate_controller :: "api_env \<Rightarrow> ControllerAuthConfig \<Rightarrow> string \<Rightarrow> db \<Rightarrow> string option" where
  "authenticate_controller e auth token d =
    (let matches = filter (verifies e auth token) (active_controller_action_tokens (now_ms d) d)
     in if length matches = 1 then Some (cat_controller_id (last matches)) else None)"

record Call =
  cl_controller :: string
  cl_auth :: ControllerAuthConfig
  cl_token :: string
  cl_envelope :: ActionEnvelope
  cl_scope :: string

definition cl_action_id :: "Call \<Rightarrow> string" where
  "cl_action_id c = ae_action_id (cl_envelope c)"

text \<open>The checks of a request, in the order the code makes them.\<close>

definition check_ids :: "api_env \<Rightarrow> headers \<Rightarrow> string \<Rightarrow> ControllerAuthConfig \<Rightarrow> string \<Rightarrow> ActionEnvelope \<Rightarrow> Response + Call" where
  "check_ids e hs controller_id auth token envelope =
    (let action_id = ae_action_id envelope in
     if ae_version envelope \<noteq> CURRENT_VERSION
     then Inl (raw_json_response 400 (error_json (unsupported_version (Some action_id) (ae_version envelope))) None)
     else (case header_text hs ACTION_ID_HEADER of
       None \<Rightarrow> Inl (bad_request (Some action_id) ''missing X-OAB-Action-ID header'')
     | Some header_action_id \<Rightarrow>
         if header_action_id \<noteq> action_id
         then Inl (bad_request (Some action_id) ''X-OAB-Action-ID does not match envelope action_id'')
         else if action_id = [] \<or> length action_id > 200
         then Inl (bad_request (Some action_id) ''action_id must contain 1 to 200 bytes'')
         else (case header_text hs SCOPE_HEADER of
           None \<Rightarrow> Inl (bad_request (Some action_id) ''missing X-OAB-Scope header'')
         | Some scope \<Rightarrow>
             if scope = [] \<or> length scope > 512
             then Inl (bad_request (Some action_id) ''scope must contain 1 to 512 bytes'')
             else Inr \<lparr>cl_controller = controller_id, cl_auth = auth, cl_token = token, cl_envelope = envelope,
               cl_scope = scope\<rparr>)))"

definition read_request :: "api_env \<Rightarrow> headers \<Rightarrow> string \<Rightarrow> db \<Rightarrow> Response + Call" where
  "read_request e hs body d =
    (case controller_auth e of
      None \<Rightarrow> Inl (not_configured None)
    | Some auth \<Rightarrow> (case bearer hs of
        None \<Rightarrow> Inl unauthorized_response
      | Some token \<Rightarrow> (case authenticate_controller e auth token d of
          None \<Rightarrow> Inl unauthorized_response
        | Some controller_id \<Rightarrow>
            if length body > MAX_ACTION_BODY_BYTES
            then Inl (protocol_error_response 413 None InvalidRequest ''controller action body exceeds 1 MiB'' False None)
            else (case decode_envelope e body of
              None \<Rightarrow> Inl (bad_request (header_text hs ACTION_ID_HEADER) ''invalid controller action envelope'')
            | Some envelope \<Rightarrow> check_ids e hs controller_id auth token envelope))))"

definition open_intent_of :: "api_env \<Rightarrow> Call \<Rightarrow> Response + ControllerOpenIntent option" where
  "open_intent_of e c =
    (case ae_action (cl_envelope c) of
      OpenSession act \<Rightarrow> (case osa_trigger_ref act of
        None \<Rightarrow> Inl (bad_request (Some (cl_action_id c)) ''external open_session requires trigger_ref'')
      | Some trigger_ref \<Rightarrow> Inr (Some \<lparr>oi_trigger_ref = trigger_ref, oi_trigger_fingerprint = osa_trigger_fingerprint act,
          oi_session_trigger_ref = controller_trigger_ref e (cl_controller c) (cl_scope c) trigger_ref\<rparr>))
    | _ \<Rightarrow> Inr None)"

definition request_hash :: "api_env \<Rightarrow> Call \<Rightarrow> string \<Rightarrow> string" where
  "request_hash e c body = sha256 (event_env e) (cl_scope c @ [CHR 0x00] @ body)"

section \<open>The journal of an action\<close>

definition action_audit_event ::
  "db \<Rightarrow> Call \<Rightarrow> string option \<Rightarrow> string \<Rightarrow> AuditOutcome \<Rightarrow> json \<Rightarrow> AuditError option \<Rightarrow> AuditEvent" where
  "action_audit_event d c session_id evkind oc detail error =
    (let event_key = evkind @ '':'' @ cl_action_id c in
     \<lparr>av_version = AUDIT_EVENT_VERSION,
      av_event_id = ''aud:'' @ AUDIT_SERVICE @ '':'' @ event_key,
      av_event_key = event_key,
      av_occurred_at = now_ms d,
      av_recorded_at = now_ms d,
      av_service = AUDIT_SERVICE,
      av_kind = evkind,
      av_outcome = oc,
      av_caused_by = None,
      av_correlation = correlation_default\<lparr>ac_controller_id := Some (cl_controller c), ac_action_id := Some (cl_action_id c),
        ac_scope := Some (cl_scope c), ac_session_id := session_id\<rparr>,
      av_actor = Some \<lparr>aa_kind = ''controller'', aa_id = Some (cl_controller c), aa_display = None, aa_association = None\<rparr>,
      av_target = None,
      av_detail = JObj [(''action_kind'', JStr (action_kind (ae_action (cl_envelope c)))), (''action_id'', JStr (cl_action_id c)),
        (''detail'', detail)],
      av_error = error\<rparr>)"

definition append_action_audit ::
  "Call \<Rightarrow> string option \<Rightarrow> string \<Rightarrow> AuditOutcome \<Rightarrow> json \<Rightarrow> AuditError option \<Rightarrow> db \<Rightarrow> AuditEventRecord res" where
  "append_action_audit c session_id evkind oc detail error d =
    append_audit_event (action_audit_event d c session_id evkind oc detail error) d"

text \<open>Appends whose failure is dropped.\<close>

definition note_action ::
  "Call \<Rightarrow> string option \<Rightarrow> string \<Rightarrow> AuditOutcome \<Rightarrow> json \<Rightarrow> AuditError option \<Rightarrow> AppState \<Rightarrow> AppState" where
  "note_action c session_id evkind oc detail error =
    on_store (\<lambda>d. append_or_warn (action_audit_event d c session_id evkind oc detail error) d)"

section \<open>Admission\<close>

definition subject :: "Call \<Rightarrow> string option" where
  "subject c = action_session_id (ae_action (cl_envelope c))"

definition replay_status :: "int \<Rightarrow> int" where
  "replay_status st = (if 100 \<le> st \<and> st < 1000 then st else 500)"

definition journal_unavailable :: "Call \<Rightarrow> Response" where
  "journal_unavailable c =
    protocol_error_response 503 (Some (cl_action_id c)) Internal ''controller action journal unavailable'' True None"

definition conflict :: "Call \<Rightarrow> string \<Rightarrow> bool \<Rightarrow> Response" where
  "conflict c message retryable = protocol_error_response 409 (Some (cl_action_id c)) Conflict message retryable None"

fun decision_name :: "ControllerOpenDecision \<Rightarrow> string" where
  "decision_name CreateDecision = ''create''"
| "decision_name (Deduplicate b) = ''deduplicate''"
| "decision_name (Supersede b) = ''supersede''"

fun answer_start :: "Call \<Rightarrow> ControllerActionStart \<Rightarrow> AppState \<Rightarrow> (Response + ControllerOpenDecision option) \<times> AppState" where
  "answer_start c (Replay r) a =
    (Inl (raw_json_response (replay_status (rp_http_status r)) (rp_response_json r) None),
     note_action c (subject c) ''action.replayed'' AIgnored (JObj [(''http_status'', JNum (rp_http_status r))]) None a)"
| "answer_start c InProgress a =
    (Inl (conflict c ''controller action is already in progress'' True),
     note_action c (subject c) ''action.replayed'' APending (JObj [(''state'', JStr ''processing'')]) None a)"
| "answer_start c OutcomeUnknown a =
    (Inl (conflict c ''previous action execution outcome is unknown; reconcile before using a new action_id'' False),
     note_action c (subject c) ''action.outcome_unknown'' AOutcomeUnknown (JObj [(''state'', JStr ''indeterminate'')]) None a)"
| "answer_start c RequestMismatch a =
    (Inl (conflict c ''action_id was already used with a different request'' False),
     note_action c (subject c) ''action.denied'' ADenied (JObj [(''reason'', JStr ''request_mismatch'')]) None a)"
| "answer_start c (Denied denial) a =
    (Inl (denial_response (Some (cl_action_id c)) denial (now_ms (store a))),
     note_action c (subject c) ''action.denied'' ADenied (JObj [(''reason'', JStr (denial_code denial))]) None a)"
| "answer_start c (Started dec) a =
    (case append_action_audit c (subject c) ''action.accepted'' AAccepted
        (JObj [(''open_decision'', jopt (map_option decision_name dec))]) None (store a) of
      Inl _ \<Rightarrow> (Inl (journal_unavailable c), a)
    | Inr (_, d) \<Rightarrow> (Inr dec, a\<lparr>store := d\<rparr>))"

definition begin_request ::
  "api_env \<Rightarrow> Call \<Rightarrow> string \<Rightarrow> ControllerOpenIntent option \<Rightarrow> db \<Rightarrow> ControllerActionStart res" where
  "begin_request e c body intent d =
    begin_controller_action (cl_controller c) (credential_hashes e (cl_auth c) (cl_token c)) (cl_action_id c)
      (request_hash e c body) (action_kind (ae_action (cl_envelope c))) (cl_scope c) (subject c) intent (now_ms d) d"

definition note_received :: "api_env \<Rightarrow> Call \<Rightarrow> string \<Rightarrow> db \<Rightarrow> AuditEventRecord res" where
  "note_received e c body d =
    append_action_audit c (subject c) ''action.received'' APending
      (JObj [(''request_sha256'', JStr (hex_encode (event_env e) (request_hash e c body)))]) None d"

definition admit_request ::
  "api_env \<Rightarrow> Call \<Rightarrow> string \<Rightarrow> ControllerOpenIntent option \<Rightarrow> AppState \<Rightarrow> (Response + ControllerOpenDecision option) \<times> AppState" where
  "admit_request e c body intent a =
    (case note_received e c body (store a) of
      Inl _ \<Rightarrow> (Inl (journal_unavailable c), a)
    | Inr (_, d) \<Rightarrow>
        (case begin_request e c body intent d of
          Inl _ \<Rightarrow> (Inl (internal_store_error (Some (cl_action_id c))), a\<lparr>store := d\<rparr>)
        | Inr (started, d') \<Rightarrow> answer_start c started (a\<lparr>store := d'\<rparr>)))"

section \<open>Execution and completion\<close>

fun execute_interpreted_action :: "ControllerAction \<Rightarrow> ControllerActionResult cop" where
  "execute_interpreted_action (CloseSession act) = execute_with_close_policy (CloseSession act) Allow"
| "execute_interpreted_action act = execute act"

text \<open>An opening runs under the kernel's own trigger reference.\<close>

fun scoped_action :: "ControllerAction \<Rightarrow> ControllerOpenIntent option \<Rightarrow> ControllerAction" where
  "scoped_action (OpenSession act) (Some intent) = OpenSession (act\<lparr>osa_trigger_ref := Some (oi_session_trigger_ref intent)\<rparr>)"
| "scoped_action act intent = act"

definition result_body :: "Call \<Rightarrow> ControllerActionResult \<Rightarrow> json" where
  "result_body c r = result_envelope_json \<lparr>are_version = CURRENT_VERSION, are_action_id = cl_action_id c, are_result = r\<rparr>"

definition binding_of :: "Call \<Rightarrow> ControllerOpenIntent option \<Rightarrow> ControllerActionResult \<Rightarrow> ControllerSessionBinding option" where
  "binding_of c intent r =
    Option.bind intent (\<lambda>i. map_option (\<lambda>sid. \<lparr>bd_controller_id = cl_controller c, bd_scope = cl_scope c,
      bd_trigger_ref = oi_trigger_ref i, bd_trigger_fingerprint = oi_trigger_fingerprint i, bd_session_id = sid\<rparr>)
      (result_session_id r))"

definition error_body :: "Call \<Rightarrow> ControllerError \<Rightarrow> int \<times> json" where
  "error_body c err = (case map_controller_error err of (status, code, message, retryable) \<Rightarrow>
    (status, error_json \<lparr>ee_version = CURRENT_VERSION, ee_action_id = Some (cl_action_id c),
      ee_error = \<lparr>pe_code = code, pe_message = message, pe_retryable = retryable\<rparr>\<rparr>))"

definition run_admitted ::
  "Call \<Rightarrow> ControllerOpenIntent option \<Rightarrow> ControllerOpenDecision option \<Rightarrow> AppState
    \<Rightarrow> (int \<times> json \<times> ControllerSessionBinding option) \<times> AppState" where
  "run_admitted c intent dec a =
    (case dec of
      Some (Deduplicate existing) \<Rightarrow> ((200, result_body c (SessionOpened (bd_session_id existing) True), None), a)
    | _ \<Rightarrow> (case execute_interpreted_action (scoped_action (ae_action (cl_envelope c)) intent) a of
        (Inr r, a') \<Rightarrow> ((200, result_body c r, binding_of c intent r), a')
      | (Inl err, a') \<Rightarrow> (case error_body c err of (status, body) \<Rightarrow> ((status, body, None), a'))))"

definition completion_note :: "Call \<Rightarrow> int \<Rightarrow> ControllerSessionBinding option \<Rightarrow> AppState \<Rightarrow> AppState" where
  "completion_note c status binding =
    (let sid = (case map_option bd_session_id binding of Some s \<Rightarrow> Some s | None \<Rightarrow> subject c);
         detail = JObj [(''http_status'', JNum status)]
     in if 200 \<le> status \<and> status < 300 then note_action c sid ''action.completed'' ASucceeded detail None
        else note_action c sid ''action.failed'' AFailed detail
          (Some \<lparr>aerr_class = ''controller_action_failed'', aerr_retryable = (500 \<le> status \<and> status < 600 \<or> status = 429),
            aerr_message = None, aerr_status = Some status\<rparr>))"

definition finish_request :: "Call \<Rightarrow> int \<times> json \<times> ControllerSessionBinding option \<Rightarrow> AppState \<Rightarrow> Response \<times> AppState" where
  "finish_request c outcome_of a =
    (case outcome_of of (status, body, binding) \<Rightarrow>
      (case finish_controller_action (cl_controller c) (cl_action_id c) status body binding (now_ms (store a)) (store a) of
        Inl _ \<Rightarrow> (protocol_error_response 500 (Some (cl_action_id c)) Internal ''controller action result persistence failed'' True None, a)
      | Inr (_, d) \<Rightarrow> (raw_json_response status body None, completion_note c status binding (a\<lparr>store := d\<rparr>))))"

definition execute_action_request :: "api_env \<Rightarrow> headers \<Rightarrow> string \<Rightarrow> AppState \<Rightarrow> Response \<times> AppState" where
  "execute_action_request e hs body a =
    (case read_request e hs body (store a) of
      Inl r \<Rightarrow> (r, a)
    | Inr c \<Rightarrow> (case open_intent_of e c of
        Inl r \<Rightarrow> (r, a)
      | Inr intent \<Rightarrow> (case admit_request e c body intent a of
          (Inl r, a1) \<Rightarrow> (r, a1)
        | (Inr dec, a1) \<Rightarrow> (case run_admitted c intent dec a1 of (res, a2) \<Rightarrow> finish_request c res a2))))"

text \<open>The body of the transport, absent when it could not be read.\<close>

definition execute_action :: "api_env \<Rightarrow> headers \<Rightarrow> string option \<Rightarrow> AppState \<Rightarrow> Response \<times> AppState" where
  "execute_action e hs body a =
    (case body of
      None \<Rightarrow> (bad_request (header_text hs ACTION_ID_HEADER) ''controller action body could not be read'', a)
    | Some bytes \<Rightarrow>
        if length bytes > MAX_ACTION_BODY_BYTES
        then (protocol_error_response 413 (header_text hs ACTION_ID_HEADER) InvalidRequest
            ''controller action body exceeds 1 MiB'' False None, a)
        else execute_action_request e hs bytes a)"

section \<open>Reconciliation\<close>

datatype ControllerActionExecutionState = ExecProcessing | ExecCompleted | ExecOutcomeUnknown

record ControllerSessionResult =
  csr_author_id :: string
  csr_message_ids :: "string list"
  csr_text :: string

record ControllerSessionReconciliation =
  rec_session_id :: string
  rec_session_state :: string
  rec_trigger_ref :: "string option"
  rec_trigger_fingerprint :: "string option"
  rec_closed_at :: "int option"
  rec_decision :: "string option"
  rec_result :: "ControllerSessionResult option"

record ControllerActionReconciliation =
  rec_version :: u16
  rec_action_id :: string
  rec_action_kind :: string
  rec_scope :: string
  rec_state :: ControllerActionExecutionState
  rec_http_status :: "int option"
  rec_response :: "json option"
  rec_session :: "ControllerSessionReconciliation option"

fun jas_strs :: "json list \<Rightarrow> string list option" where
  "jas_strs [] = Some []"
| "jas_strs (JStr s # js) = map_option ((#) s) (jas_strs js)"
| "jas_strs (_ # js) = None"

definition session_result_ids :: "Session \<Rightarrow> (string \<times> string list) option" where
  "session_result_ids s =
    Option.bind (s_result_author_id s) (\<lambda>author.
    Option.bind (s_result_message_ids s) (\<lambda>ids. case ids of
      JArr js \<Rightarrow> map_option (Pair author) (jas_strs js)
    | _ \<Rightarrow> None))"

definition joined_session_result :: "db \<Rightarrow> Session \<Rightarrow> ControllerSessionResult option" where
  "joined_session_result d s =
    map_option (\<lambda>(author, ids).
      let by_id = map_of (rev (map (\<lambda>m. (m_id m, m_content m)) (messages (s_id s) d)))
      in \<lparr>csr_author_id = author, csr_message_ids = ids, csr_text = join [CHR 0x0A] (List.map_filter by_id ids)\<rparr>)
      (session_result_ids s)"

definition execution_state :: "ControllerActionReconciliationRecord \<Rightarrow> int \<Rightarrow> ControllerActionExecutionState option" where
  "execution_state r at =
    (if rr_state r = ''completed'' then Some ExecCompleted
     else if rr_state r = ''indeterminate'' then Some ExecOutcomeUnknown
     else if rr_state r = ''processing'' then
       (if saturating_sub at (rr_received_at r) > CONTROLLER_ACTION_LEASE_MS then Some ExecOutcomeUnknown else Some ExecProcessing)
     else None)"

text \<open>The session an action is known to be about, else the one its admitted opening may have created.\<close>

definition response_session_id :: "json \<Rightarrow> string option" where
  "response_session_id body = jas_str (jget (jget (jget body ''result'') ''data'') ''session_id'')"

definition reconciled_session :: "ControllerActionReconciliationRecord \<Rightarrow> db \<Rightarrow> Session option" where
  "reconciled_session r d =
    (let known = (case rr_session_id r of Some sid \<Rightarrow> Some sid | None \<Rightarrow> Option.bind (rr_response_json r) response_session_id)
     in (case Option.bind known (\<lambda>sid. session sid d) of
          Some s \<Rightarrow> Some s
        | None \<Rightarrow>
            if rr_action_kind r = ''open_session''
            then Option.bind (rr_session_trigger_ref r) (\<lambda>t. session_for_trigger_intent t (rr_trigger_fingerprint r) (rr_received_at r) d)
            else None))"

definition session_projection :: "db \<Rightarrow> ControllerActionReconciliationRecord \<Rightarrow> Session \<Rightarrow> ControllerSessionReconciliation" where
  "session_projection d r s =
    \<lparr>rec_session_id = s_id s, rec_session_state = s_state s, rec_trigger_ref = rr_trigger_ref r,
     rec_trigger_fingerprint = (case rr_trigger_fingerprint r of Some f \<Rightarrow> Some f | None \<Rightarrow> s_trigger_fingerprint s),
     rec_closed_at = s_closed_at s, rec_decision = s_decision s, rec_result = joined_session_result d s\<rparr>"

definition reconcile_record :: "string \<Rightarrow> ControllerActionReconciliationRecord \<Rightarrow> db \<Rightarrow> Response + ControllerActionReconciliation" where
  "reconcile_record action_id r d =
    (case execution_state r (now_ms d) of
      None \<Rightarrow> Inl (protocol_error_response 500 (Some action_id) Internal ''stored controller action state is invalid'' False None)
    | Some st \<Rightarrow>
        if (case rr_http_status r of None \<Rightarrow> False | Some n \<Rightarrow> n < 0 \<or> n > 65535)
        then Inl (protocol_error_response 500 (Some action_id) Internal ''stored controller action status is invalid'' False None)
        else Inr \<lparr>rec_version = CURRENT_VERSION, rec_action_id = rr_action_id r, rec_action_kind = rr_action_kind r, rec_scope = rr_scope r, rec_state = st,
          rec_http_status = rr_http_status r, rec_response = rr_response_json r,
          rec_session = map_option (session_projection d r) (reconciled_session r d)\<rparr>)"

definition reconcile_lookup :: "string \<Rightarrow> headers \<Rightarrow> string \<Rightarrow> db \<Rightarrow> Response + ControllerActionReconciliation" where
  "reconcile_lookup controller_id hs action_id d =
    (if action_id = [] \<or> length action_id > 200 then Inl (bad_request (Some action_id) ''action_id must contain 1 to 200 bytes'')
     else (case header_text hs SCOPE_HEADER of
       None \<Rightarrow> Inl (bad_request (Some action_id) ''missing X-OAB-Scope header'')
     | Some scope \<Rightarrow>
         if scope = [] \<or> length scope > 512 then Inl (bad_request (Some action_id) ''scope must contain 1 to 512 bytes'')
         else (case controller_action_for_reconciliation controller_id action_id scope d of
           None \<Rightarrow> Inl (protocol_error_response 404 (Some action_id) NotFound ''controller action not found in this scope'' False None)
         | Some r \<Rightarrow> reconcile_record action_id r d)))"

definition reconcile_action :: "api_env \<Rightarrow> headers \<Rightarrow> string \<Rightarrow> db \<Rightarrow> Response + ControllerActionReconciliation" where
  "reconcile_action e hs action_id d =
    (case controller_auth e of
      None \<Rightarrow> Inl (not_configured (Some action_id))
    | Some auth \<Rightarrow> (case bearer hs of
        None \<Rightarrow> Inl unauthorized_response
      | Some token \<Rightarrow> (case authenticate_controller e auth token d of
          None \<Rightarrow> Inl unauthorized_response
        | Some controller_id \<Rightarrow> reconcile_lookup controller_id hs action_id d)))"

section \<open>Managing installations\<close>

definition admin_error :: "int \<Rightarrow> string \<Rightarrow> Response" where
  "admin_error status message = raw_json_response status (JObj [(''error'', JStr message)]) None"

definition admin_store_error :: Response where
  "admin_store_error = admin_error 500 ''controller installation store unavailable''"

datatype OperatorAuthError = OperatorUnavailable | OperatorUnauthorized

fun operator_error_response :: "OperatorAuthError \<Rightarrow> Response" where
  "operator_error_response OperatorUnavailable = admin_error 503 ''operator API key is not configured''"
| "operator_error_response OperatorUnauthorized = admin_error 401 ''unauthorized''"

definition check_operator_auth :: "api_env \<Rightarrow> headers \<Rightarrow> OperatorAuthError + unit" where
  "check_operator_auth e hs =
    (case api_key e of
      None \<Rightarrow> Inl OperatorUnavailable
    | Some expected \<Rightarrow> (case bearer hs of
        None \<Rightarrow> Inl OperatorUnauthorized
      | Some provided \<Rightarrow>
          let tag = hmac_sha256 (event_env e) ''openab-control-plane/operator-auth/v1''
          in if tag provided = tag expected then Inr () else Inl OperatorUnauthorized))"

definition as_operator :: "api_env \<Rightarrow> headers \<Rightarrow> (AppState \<Rightarrow> Response \<times> AppState) \<Rightarrow> AppState \<Rightarrow> Response \<times> AppState" where
  "as_operator e hs m a = (case check_operator_auth e hs of Inl err \<Rightarrow> (operator_error_response err, a) | Inr _ \<Rightarrow> m a)"

record CreateControllerInstallation =
  cri_id :: string
  cri_actions :: "string list"
  cri_scopes :: "string list"
  cri_max_concurrent_sessions :: int
  cri_max_actions_per_minute :: int

record SetControllerState =
  scs_enabled :: "bool option"
  scs_max_concurrent_sessions :: "int option"
  scs_max_actions_per_minute :: "int option"
  scs_actions :: "string list option"
  scs_scopes :: "string list option"

definition normalized_unique :: "string list \<Rightarrow> string list" where
  "normalized_unique values = sort (remdups (filter (\<lambda>v. v \<noteq> []) (map trim values)))"

definition allowed_actions :: "string list" where
  "allowed_actions = [''open_session'', ''post_message'', ''add_roster'', ''close_session'', ''emit_status'']"

definition validate_actions :: "string list \<Rightarrow> string + string list" where
  "validate_actions values =
    (let actions = normalized_unique values in
     if actions = [] \<or> list_ex (\<lambda>x. x \<notin> set allowed_actions) actions
     then Inl ''actions must contain only supported v1 action names'' else Inr actions)"

definition validate_scopes :: "string list \<Rightarrow> string + string list" where
  "validate_scopes values =
    (let scopes = normalized_unique values in
     if scopes = [] \<or> list_ex (\<lambda>x. CHR ''*'' \<in> set x \<or> length x > 512) scopes
     then Inl ''scopes must be explicit non-wildcard values up to 512 bytes'' else Inr scopes)"

definition id_char :: "char \<Rightarrow> bool" where
  "id_char c \<longleftrightarrow> (let n = (of_char c :: nat) in 48 \<le> n \<and> n \<le> 57 \<or> 65 \<le> n \<and> n \<le> 90 \<or> 97 \<le> n \<and> n \<le> 122)
    \<or> c \<in> {CHR ''-'', CHR ''_'', CHR ''.''}"

definition validate_installation_request :: "CreateControllerInstallation \<Rightarrow> string + (string list \<times> string list)" where
  "validate_installation_request rq =
    (if cri_id rq = [] \<or> length (cri_id rq) > 128 \<or> \<not> list_all id_char (cri_id rq)
     then Inl (''controller id must use 1 to 128 ASCII letters, digits, '' @ quoted ''.'' @ '', '' @ quoted ''_'' @ '' or '' @ quoted ''-'')
     else if cri_max_concurrent_sessions rq \<le> 0 \<or> cri_max_actions_per_minute rq \<le> 0 then Inl ''controller quotas must be positive''
     else bindE (validate_actions (cri_actions rq)) (\<lambda>actions.
          bindE (validate_scopes (cri_scopes rq)) (\<lambda>scopes. Inr (actions, scopes))))"

text \<open>A new secret from 32 random bytes; the database gets its keyed hash only.\<close>

definition issued_token_json :: "string \<Rightarrow> string \<Rightarrow> string \<Rightarrow> int \<Rightarrow> int option \<Rightarrow> json" where
  "issued_token_json controller_id token_id token version overlap =
    JObj ([(''controller_id'', JStr controller_id), (''token_id'', JStr token_id), (''action_token'', JStr token),
      (''pepper_version'', JNum version)] @ jfield ''overlap_until'' (map_option JNum overlap))"

definition generate_controller_token ::
  "api_env \<Rightarrow> ControllerAuthConfig \<Rightarrow> string \<Rightarrow> string \<Rightarrow> int option \<Rightarrow> int \<Rightarrow> db
    \<Rightarrow> (string + (json \<times> NewControllerActionToken)) \<times> db" where
  "generate_controller_token e auth bytes controller_id overlap not_before d =
    (let token = base64_url (event_env e) bytes; (token_id, d1) = new_id ''ctok'' d; version = latest_pepper auth
     in (bindE (hash_token e auth version token) (\<lambda>h.
           Inr (issued_token_json controller_id token_id token version overlap,
             \<lparr>nt_id = token_id, nt_token_hash = h, nt_pepper_version = version, nt_not_before = not_before\<rparr>)), d1))"

definition with_auth :: "api_env \<Rightarrow> (ControllerAuthConfig \<Rightarrow> AppState \<Rightarrow> Response \<times> AppState) \<Rightarrow> AppState \<Rightarrow> Response \<times> AppState" where
  "with_auth e m a = (case controller_auth e of
      None \<Rightarrow> (admin_error 503 ''controller action auth is not configured'', a) | Some auth \<Rightarrow> m auth a)"

text \<open>How a store call that may fail, or may find nothing, is answered.\<close>

definition answer_call :: "(db \<Rightarrow> bool res) \<Rightarrow> json \<Rightarrow> Response \<Rightarrow> AppState \<Rightarrow> Response \<times> AppState" where
  "answer_call f created missing a =
    (case f (store a) of
      Inl _ \<Rightarrow> (admin_store_error, a)
    | Inr (ok, d) \<Rightarrow> (if ok then raw_json_response 201 created None else missing, a\<lparr>store := d\<rparr>))"

definition create_installation ::
  "api_env \<Rightarrow> headers \<Rightarrow> string \<Rightarrow> CreateControllerInstallation \<Rightarrow> AppState \<Rightarrow> Response \<times> AppState" where
  "create_installation e hs bytes rq =
    as_operator e hs (with_auth e (\<lambda>auth a.
      case validate_installation_request rq of
        Inl message \<Rightarrow> (admin_error 400 message, a)
      | Inr (actions, scopes) \<Rightarrow>
          (case generate_controller_token e auth bytes (cri_id rq) None (now_ms (store a)) (store a) of
            (Inl _, d) \<Rightarrow> (admin_store_error, a\<lparr>store := d\<rparr>)
          | (Inr (issued, token), d) \<Rightarrow>
              answer_call (provision_controller_installation (cri_id rq) (cri_max_concurrent_sessions rq)
                (cri_max_actions_per_minute rq) actions scopes token) issued
                (admin_error 409 ''controller installation already exists'') (a\<lparr>store := d\<rparr>))))"

definition rotate_installation_token :: "api_env \<Rightarrow> headers \<Rightarrow> string \<Rightarrow> string \<Rightarrow> AppState \<Rightarrow> Response \<times> AppState" where
  "rotate_installation_token e hs bytes controller_id =
    as_operator e hs (with_auth e (\<lambda>auth a.
      let at = now_ms (store a); overlap = saturating_add at TOKEN_ROTATION_OVERLAP_MS in
      (case generate_controller_token e auth bytes controller_id (Some overlap) at (store a) of
        (Inl _, d) \<Rightarrow> (admin_store_error, a\<lparr>store := d\<rparr>)
      | (Inr (issued, token), d) \<Rightarrow>
          answer_call (rotate_controller_action_token controller_id token overlap) issued
            (admin_error 404 ''unknown controller installation'') (a\<lparr>store := d\<rparr>))))"

definition revoke_installation_token :: "api_env \<Rightarrow> headers \<Rightarrow> string \<Rightarrow> string \<Rightarrow> AppState \<Rightarrow> Response \<times> AppState" where
  "revoke_installation_token e hs controller_id token_id =
    as_operator e hs (\<lambda>a. case revoke_controller_action_token controller_id token_id (now_ms (store a)) (store a) of
      (ok, d) \<Rightarrow> (if ok then raw_json_response 200 (JObj [(''revoked'', JBool True)]) None
                  else admin_error 404 ''unknown active controller token'', a\<lparr>store := d\<rparr>))"

fun transpose_opt :: "('a \<Rightarrow> 'e + 'b) \<Rightarrow> 'a option \<Rightarrow> 'e + 'b option" where
  "transpose_opt f None = Inr None"
| "transpose_opt f (Some x) = bindE (f x) (\<lambda>y. Inr (Some y))"

definition patch_refusal :: "SetControllerState \<Rightarrow> string option" where
  "patch_refusal rq =
    or_else (when_some (scs_enabled rq = None \<and> scs_max_concurrent_sessions rq = None \<and> scs_max_actions_per_minute rq = None
        \<and> scs_actions rq = None \<and> scs_scopes rq = None) ''empty patch: nothing to change'')
      (when_some ((case scs_max_concurrent_sessions rq of None \<Rightarrow> False | Some n \<Rightarrow> n \<le> 0)
        \<or> (case scs_max_actions_per_minute rq of None \<Rightarrow> False | Some n \<Rightarrow> n \<le> 0)) ''controller quotas must be positive'')"

definition checked_patch :: "SetControllerState \<Rightarrow> string + (string list option \<times> string list option)" where
  "checked_patch rq =
    (case patch_refusal rq of
      Some m \<Rightarrow> Inl m
    | None \<Rightarrow> bindE (transpose_opt validate_actions (scs_actions rq)) (\<lambda>actions.
        bindE (transpose_opt validate_scopes (scs_scopes rq)) (\<lambda>scopes. Inr (actions, scopes))))"

definition set_installation_state :: "api_env \<Rightarrow> headers \<Rightarrow> string \<Rightarrow> SetControllerState \<Rightarrow> AppState \<Rightarrow> Response \<times> AppState" where
  "set_installation_state e hs controller_id rq =
    as_operator e hs (\<lambda>a. case checked_patch rq of
      Inl message \<Rightarrow> (admin_error 400 message, a)
    | Inr (actions, scopes) \<Rightarrow>
        (case patch_controller_installation controller_id (scs_enabled rq) (scs_max_concurrent_sessions rq)
            (scs_max_actions_per_minute rq) actions scopes (store a) of
          Inl _ \<Rightarrow> (admin_store_error, a)
        | Inr (None, d) \<Rightarrow> (admin_error 404 ''unknown controller installation'', a\<lparr>store := d\<rparr>)
        | Inr (Some cfg, d) \<Rightarrow>
            (raw_json_response 200 (JObj [(''controller_id'', JStr controller_id), (''enabled'', JBool (cfg_enabled cfg)),
              (''max_concurrent_sessions'', JNum (cfg_max_concurrent_sessions cfg)),
              (''max_actions_per_minute'', JNum (cfg_max_actions_per_minute cfg)), (''actions'', jstrs (cfg_actions cfg)),
              (''scopes'', jstrs (cfg_scopes cfg))]) None, a\<lparr>store := d\<rparr>)))"

definition allowed_events :: "string list" where
  "allowed_events = [''session.opened'', ''session.progress'', ''session.intent'', ''session.terminal'', ''session.timeout'',
    ''session.superseded'', ''action.failed'']"

definition configure_installation_events ::
  "api_env \<Rightarrow> headers \<Rightarrow> string \<Rightarrow> string \<Rightarrow> string list \<Rightarrow> AppState \<Rightarrow> Response \<times> AppState" where
  "configure_installation_events e hs controller_id endpoint events =
    as_operator e hs (\<lambda>a. case event_keys e of
      None \<Rightarrow> (admin_error 503 ''controller event signing keys are not configured'', a)
    | Some keys \<Rightarrow> (case validate_https_endpoint (event_env e) endpoint of
        Inl message \<Rightarrow> (admin_error 400 message, a)
      | Inr _ \<Rightarrow>
          let names = normalized_unique events; version = latest_version keys in
          if names = [] \<or> list_ex (\<lambda>x. x \<notin> set allowed_events) names
          then (admin_error 400 ''events must contain only supported provider-neutral v1 event names'', a)
          else (case issued_secret (event_env e) keys version controller_id of
            Inl _ \<Rightarrow> (admin_store_error, a)
          | Inr secret \<Rightarrow> (case configure_controller_events controller_id endpoint version names (now_ms (store a)) (store a) of
              (ok, d) \<Rightarrow>
                (if ok then raw_json_response 200 (JObj [(''controller_id'', JStr controller_id), (''endpoint'', JStr endpoint),
                    (''events'', jstrs names), (''key_version'', JNum version), (''event_signing_secret'', JStr secret)]) None
                 else admin_error 404 ''unknown controller installation'', a\<lparr>store := d\<rparr>)))))"

definition event_audit_json :: "EventAuditRow \<Rightarrow> json" where
  "event_audit_json r = JObj [(''id'', JNum (ea_id r)), (''controller_id'', JStr (ea_controller_id r)),
    (''event_id'', JStr (ea_event_id r)), (''kind'', JStr (ea_kind r)), (''detail'', ea_detail r), (''created_at'', JNum (ea_created_at r))]"

definition installation_event_audit :: "api_env \<Rightarrow> headers \<Rightarrow> string \<Rightarrow> AppState \<Rightarrow> Response \<times> AppState" where
  "installation_event_audit e hs controller_id =
    as_operator e hs (\<lambda>a. (raw_json_response 200 (JArr (map event_audit_json (controller_event_audit_of controller_id (store a)))) None, a))"

end
