(* ===== verification/Controller_Boundary.thy ===== *)
theory Controller_Boundary
  imports Controller_API
begin

text \<open>
  Properties of the external controller boundary, over runs of the whole service: the plane's own
  steps, controller requests, operator requests and the store operations of the event dispatcher,
  in any order.
\<close>

section \<open>What a request can leave behind\<close>

definition journal_only :: "db \<Rightarrow> db \<Rightarrow> bool" where
  "journal_only d d' \<longleftrightarrow> d' = d\<lparr>audit_events := audit_events d', audit_seq := audit_seq d'\<rparr>"

lemma journal_onlyI: "d' = d\<lparr>audit_events := es, audit_seq := n\<rparr> \<Longrightarrow> journal_only d d'"
  by (simp add: journal_only_def)

lemma journal_only_refl [simp]: "journal_only d d"
  by (simp add: journal_only_def)

lemma journal_only_fields:
  assumes "journal_only d d'"
  shows "ctl d' = ctl d" "acts d' = acts d" "controller_action_idempotency d' = controller_action_idempotency d"
    "sessions d' = sessions d" "now_ms d' = now_ms d" "same_but_queue d d'"
proof -
  obtain es n where e: "d' = d\<lparr>audit_events := es, audit_seq := n\<rparr>" using assms unfolding journal_only_def by blast
  show q: "same_but_queue d d'" unfolding e by (simp add: same_but_queue_def)
  show "ctl d' = ctl d" by (rule ctl_queue [OF q])
  then show "acts d' = acts d" by (rule ctl_acts)
  show "controller_action_idempotency d' = controller_action_idempotency d" "sessions d' = sessions d" "now_ms d' = now_ms d"
    using q by (simp_all add: same_but_queue_fields now_ms_def)
qed

lemma journal_only_append: "append_audit_event e d = Inr (x, d') \<Longrightarrow> journal_only d d'"
  by (auto simp: append_audit_event_def append_audit_event_locked_def Let_def
      split: sum.splits if_splits option.splits intro!: journal_onlyI)

lemma journal_only_warn: "journal_only d (append_or_warn e d)"
  by (auto simp: append_or_warn_def split: sum.splits dest: journal_only_append)

text \<open>A request that ran nothing: the journal, and possibly the mark that an abandoned action's outcome is unknown.\<close>

definition quiet :: "AppState \<Rightarrow> AppState \<Rightarrow> bool" where
  "quiet a a' \<longleftrightarrow> (\<exists>es n rows. a' = a\<lparr>store := (store a)\<lparr>audit_events := es, audit_seq := n,
     controller_action_idempotency := rows\<rparr>\<rparr>)"

lemma own_rows: "d\<lparr>audit_events := es, audit_seq := n, controller_action_idempotency := controller_action_idempotency d\<rparr>
    = d\<lparr>audit_events := es, audit_seq := n\<rparr>"
  by (cases d) simp

lemma rows_first: "d\<lparr>audit_events := es, audit_seq := n, controller_action_idempotency := rows, audit_events := es', audit_seq := n'\<rparr>
    = d\<lparr>audit_events := es', audit_seq := n', controller_action_idempotency := rows\<rparr>"
  by (cases d) simp

lemma quiet_journal: "journal_only (store a) d \<Longrightarrow> quiet a (a\<lparr>store := d\<rparr>)"
  unfolding journal_only_def quiet_def by (metis own_rows)

lemma quiet_refl [simp]: "quiet a a"
  using quiet_journal [of a "store a"] by simp

section \<open>The shapes of an admission\<close>

lemma answer_not_started:
  assumes "\<And>dec. started \<noteq> Started dec"
  shows "\<exists>r d. answer_start c started a = (Inl r, a\<lparr>store := d\<rparr>) \<and> journal_only (store a) d"
proof -
  have "\<exists>d. note_action c (subject c) k oc dt er a = a\<lparr>store := d\<rparr> \<and> journal_only (store a) d" for k oc dt er
    using journal_only_warn by (auto simp: note_action_def on_store_def)
  then show ?thesis using assms by (cases started) (simp_all, blast+)
qed

lemma received_journal: "note_received e c body d = Inr (x, d') \<Longrightarrow> journal_only d d'"
  by (simp add: note_received_def append_action_audit_def journal_only_append)

lemma admit_shape:
  assumes "admit_request e c body intent a = (r, a1)"
  obtains (no_journal) err where "note_received e c body (store a) = Inl err" "r = Inl (journal_unavailable c)" "a1 = a"
    | (failed) x d err where "note_received e c body (store a) = Inr (x, d)" "begin_request e c body intent d = Inl err"
        "r = Inl (internal_store_error (Some (cl_action_id c)))" "a1 = a\<lparr>store := d\<rparr>"
    | (turned_down) x d started d' d2 where "note_received e c body (store a) = Inr (x, d)" "begin_request e c body intent d = Inr (started, d')"
        "\<And>dec. started \<noteq> Started dec" "answer_start c started (a\<lparr>store := d'\<rparr>) = (r, a1)"
        "a1 = a\<lparr>store := d2\<rparr>" "journal_only d' d2" "\<exists>rs. r = Inl rs"
    | (unjournaled) x d dec d' where "note_received e c body (store a) = Inr (x, d)" "begin_request e c body intent d = Inr (Started dec, d')"
        "r = Inl (journal_unavailable c)" "a1 = a\<lparr>store := d'\<rparr>"
    | (started) x d dec d' d2 where "note_received e c body (store a) = Inr (x, d)" "begin_request e c body intent d = Inr (Started dec, d')"
        "r = Inr dec" "a1 = a\<lparr>store := d2\<rparr>" "journal_only d' d2"
proof (cases "note_received e c body (store a)")
  case (Inl x)
  with assms have "r = Inl (journal_unavailable c)" "a1 = a" by (simp_all add: admit_request_def)
  with Inl show thesis by (rule no_journal)
next
  case (Inr p)
  obtain x d where p: "p = (x, d)" by force
  note j = Inr [unfolded p]
  show thesis
  proof (cases "begin_request e c body intent d")
    case (Inl err)
    with assms Inr p have "r = Inl (internal_store_error (Some (cl_action_id c)))" "a1 = a\<lparr>store := d\<rparr>"
      by (simp_all add: admit_request_def)
    with j Inl show thesis by (rule failed)
  next
    case b: (Inr q)
    obtain st d' where q: "q = (st, d')" by force
    have ans: "answer_start c st (a\<lparr>store := d'\<rparr>) = (r, a1)" using assms Inr p b q by (simp add: admit_request_def)
    show thesis
    proof (cases "\<exists>dec. st = Started dec")
      case False
      then obtain rs d2 where "answer_start c st (a\<lparr>store := d'\<rparr>) = (Inl rs, a\<lparr>store := d2\<rparr>)" "journal_only d' d2"
        using answer_not_started [of st c "a\<lparr>store := d'\<rparr>"] by auto
      with False show thesis using turned_down [OF j b [unfolded q] _ ans] ans by auto
    next
      case True
      then obtain dec where dec: "st = Started dec" ..
      note bs = b [unfolded q dec]
      show thesis
      proof (cases "append_action_audit c (subject c) ''action.accepted'' AAccepted
            (JObj [(''open_decision'', jopt (map_option decision_name dec))]) None d'")
        case (Inl y)
        with ans dec have "r = Inl (journal_unavailable c)" "a1 = a\<lparr>store := d'\<rparr>" by simp_all
        then show thesis by (rule unjournaled [OF j bs])
      next
        case (Inr z)
        obtain y d2 where z: "z = (y, d2)" by force
        have "r = Inr dec" "a1 = a\<lparr>store := d2\<rparr>" using ans dec Inr z by simp_all
        moreover have "journal_only d' d2" using Inr z by (auto simp: append_action_audit_def dest: journal_only_append)
        ultimately show thesis by (rule started [OF j bs])
      qed
    qed
  qed
qed

section \<open>Requests that run nothing\<close>

lemma quiet_marked:
  assumes "journal_only (store a) d" and "d' = d \<or> d' = upd_action cid aid f d" and "journal_only d' d2"
  shows "quiet a (a\<lparr>store := d2\<rparr>)"
proof -
  obtain es n where d: "d = (store a)\<lparr>audit_events := es, audit_seq := n\<rparr>" using assms(1) unfolding journal_only_def by blast
  obtain es' n' where d2: "d2 = d'\<lparr>audit_events := es', audit_seq := n'\<rparr>" using assms(3) unfolding journal_only_def by blast
  from assms(2) show ?thesis
  proof
    assume "d' = d"
    then have "journal_only (store a) d2" by (intro journal_onlyI [where es = es' and n = n']) (simp add: d2 d)
    then show ?thesis by (rule quiet_journal)
  next
    assume "d' = upd_action cid aid f d"
    then show ?thesis unfolding quiet_def d2 d upd_action_def by (simp only: rows_first) blast
  qed
qed

definition admits :: "api_env \<Rightarrow> headers \<Rightarrow> string \<Rightarrow> AppState \<Rightarrow> (string \<times> string) option" where
  "admits e hs body a =
    (case read_request e hs body (store a) of
      Inl _ \<Rightarrow> None
    | Inr c \<Rightarrow> (case open_intent_of e c of
        Inl _ \<Rightarrow> None
      | Inr intent \<Rightarrow>
          (case note_received e c body (store a) of
            Inl _ \<Rightarrow> None
          | Inr (_, d) \<Rightarrow>
              (case begin_request e c body intent d of
                Inr (Started dec, _) \<Rightarrow> Some (cl_controller c, cl_action_id c)
              | _ \<Rightarrow> None))))"

lemma begin_marked:
  assumes "begin_request e c body intent d = Inr (started, d')" and "\<And>dec. started \<noteq> Started dec"
  shows "d' = d \<or> (\<exists>f. d' = upd_action (cl_controller c) (cl_action_id c) f d)"
  using begin_other_tables [OF assms(1) [unfolded begin_request_def] assms(2)] by blast

text \<open>The five ends of a request: refused unread, turned down, or admitted, run and finished.\<close>

lemma request_shape:
  assumes "execute_action_request e hs body a = (r, a')"
  obtains (unread) "admits e hs body a = None" "a' = a"
    "(\<exists>rs. read_request e hs body (store a) = Inl rs) \<or> (\<exists>c rs. read_request e hs body (store a) = Inr c \<and> open_intent_of e c = Inl rs)"
    | (answered) c intent where "read_request e hs body (store a) = Inr c" "open_intent_of e c = Inr intent"
        "admit_request e c body intent a = (Inl r, a')" "admits e hs body a = None" "quiet a a'"
    | (unjournaled) c intent d dec d' where "read_request e hs body (store a) = Inr c" "open_intent_of e c = Inr intent"
        "admits e hs body a = Some (cl_controller c, cl_action_id c)" "journal_only (store a) d"
        "begin_request e c body intent d = Inr (Started dec, d')" "a' = a\<lparr>store := d'\<rparr>" "r = journal_unavailable c"
    | (run) c intent d dec d' d2 res a2 where "read_request e hs body (store a) = Inr c" "open_intent_of e c = Inr intent"
        "admits e hs body a = Some (cl_controller c, cl_action_id c)" "journal_only (store a) d"
        "begin_request e c body intent d = Inr (Started dec, d')" "journal_only d' d2"
        "run_admitted c intent dec (a\<lparr>store := d2\<rparr>) = (res, a2)" "finish_request c res a2 = (r, a')"
proof (cases "read_request e hs body (store a)")
  case (Inl rs)
  with assms show thesis by (intro unread) (simp_all add: execute_action_request_def admits_def)
next
  case rd: (Inr c)
  show thesis
  proof (cases "open_intent_of e c")
    case (Inl rs)
    with assms rd show thesis by (intro unread) (simp_all add: execute_action_request_def admits_def)
  next
    case oi: (Inr intent)
    obtain r0 a1 where ad: "admit_request e c body intent a = (r0, a1)" by force
    note ex = assms [unfolded execute_action_request_def rd oi sum.case ad prod.case]
    note adm = admits_def [of e hs body a, unfolded rd oi sum.case]
    from ad show thesis
    proof (cases rule: admit_shape)
      case (no_journal err)
      with ex rd oi ad adm show thesis by (intro answered [of c intent]) simp_all
    next
      case (failed x d err)
      have "quiet a a1" unfolding failed(4) by (rule quiet_journal [OF received_journal [OF failed(1)]])
      with failed(1-3) ex rd oi ad adm show thesis by (intro answered [of c intent]) auto
    next
      case (turned_down x d started d' d2)
      have "quiet a a1"
        using begin_marked [OF turned_down(2, 3)] quiet_marked [OF received_journal [OF turned_down(1)] _ turned_down(6)]
        by (auto simp: turned_down(5))
      moreover have "admits e hs body a = None"
        using turned_down(1, 2, 3) by (cases started) (auto simp: adm)
      ultimately show thesis using ex rd oi ad turned_down(7) by (intro answered [of c intent]) auto
    next
      case (unjournaled x d dec d')
      with ex rd oi adm show thesis
        by (intro that(3) [of c intent d dec d']) (simp_all add: received_journal [OF unjournaled(1)])
    next
      case (started x d dec d' d2)
      obtain res a2 where ra: "run_admitted c intent dec (a\<lparr>store := d2\<rparr>) = (res, a2)" by (rule prod.exhaust)
      with started ex rd oi adm show thesis
        by (intro that(4) [of c intent d dec d' d2 res a2]) (simp_all add: received_journal [OF started(1)])
    qed
  qed
qed

section \<open>What a request does to the controller tables\<close>

lemma note_ctl: "ctl (store (note_action c sid k oc dt er a)) = ctl (store a)"
  using journal_only_fields(1) [OF journal_only_warn] by (simp add: note_action_def on_store_def)

lemma interpreted: "\<exists>pol. execute_interpreted_action act = execute_with_close_policy act pol"
  by (cases act) (auto simp: execute_def)

lemma run_ctl: "run_admitted c intent dec a = (res, a') \<Longrightarrow> ctl (store a') = ctl (store a)"
proof -
  have "ctl (store (snd (execute_interpreted_action act a))) = ctl (store a)" for act
    using interpreted [of act] framedC_D [OF tables.framedC_execute, of a act] by (auto simp: ctl_kept_def)
  then show "run_admitted c intent dec a = (res, a') \<Longrightarrow> ctl (store a') = ctl (store a)"
    unfolding run_admitted_def
    by (auto split: option.splits ControllerOpenDecision.splits prod.splits sum.splits) (metis snd_conv)+
qed

lemma finish_shape:
  assumes "finish_request c (status, body, binding) a = (r, a')"
  obtains (lost) "a' = a" "rs_status r = 500"
    | (kept) x d where "finish_controller_action (cl_controller c) (cl_action_id c) status body binding (now_ms (store a)) (store a) = Inr (x, d)"
        "ctl (store a') = ctl d" "r = raw_json_response status body None"
proof (cases "finish_controller_action (cl_controller c) (cl_action_id c) status body binding (now_ms (store a)) (store a)")
  case (Inl x)
  with assms show thesis
    by (intro lost) (auto simp: finish_request_def protocol_error_response_def raw_json_response_def)
next
  case (Inr p)
  obtain x d where p: "p = (x, d)" by (cases p)
  have "a' = completion_note c status binding (a\<lparr>store := d\<rparr>)" and r: "r = raw_json_response status body None"
    using assms Inr p by (simp_all add: finish_request_def)
  then have "ctl (store a') = ctl d" by (simp add: completion_note_def Let_def note_ctl)
  with Inr p r show thesis by (intro kept) simp_all
qed

text \<open>The action log grows by exactly the admitted key; completed rows and the invariant stay.\<close>

lemma log_ctl: "ctl d' = ctl d \<Longrightarrow> action_log d' = action_log d"
  by (rule action_log_acts [OF ctl_acts])

lemma quiet_log:
  assumes "read_request e hs body (store a) = Inr c" "admit_request e c body intent a = (Inl r, a')" "quiet a a'"
    and "admits e hs body a = None" and "open_intent_of e c = Inr intent"
  shows "action_log (store a') = action_log (store a) \<and> (ctl_inv (store a) \<longrightarrow> ctl_inv (store a'))
    \<and> (\<forall>row \<in> set (controller_action_idempotency (store a)). a_state row = ''completed'' \<longrightarrow>
        row \<in> set (controller_action_idempotency (store a')))"
  using assms(2)
proof (cases rule: admit_shape)
  case (failed x d err)
  note j = journal_only_fields [OF received_journal [OF failed(1)]]
  show ?thesis using failed(4) log_ctl [OF j(1)] ctl_inv_ctl [OF j(1)] j(3) by simp
next
  case (turned_down x d started d' d2)
  note j = journal_only_fields [OF received_journal [OF turned_down(1)]] and j2 = journal_only_fields [OF turned_down(6)]
  note b = turned_down(2) [unfolded begin_request_def]
  have "action_log d' = action_log d" using begin_log [OF b] turned_down(3) by (cases started) auto
  moreover have "ctl_inv d \<Longrightarrow> ctl_inv d'" by (rule begin_inv [OF b])
  moreover have "row \<in> set (controller_action_idempotency d')"
    if "row \<in> set (controller_action_idempotency d)" "a_state row = ''completed''" for row
    using ctl_step_completed [OF ctl_step.act [OF b] that] .
  ultimately show ?thesis
    using turned_down(5) log_ctl [OF j(1)] log_ctl [OF j2(1)] ctl_inv_ctl [OF j(1)] ctl_inv_ctl [OF j2(1)] j(3) j2(3) by simp
next
  case (unjournaled x d dec d')
  with assms(1, 4, 5) show ?thesis by (simp add: admits_def)
qed simp_all

definition keeps_completed :: "db \<Rightarrow> db \<Rightarrow> bool" where
  "keeps_completed d d' \<longleftrightarrow> (ctl_inv d \<longrightarrow> ctl_inv d')
    \<and> (\<forall>row \<in> set (controller_action_idempotency d). a_state row = ''completed'' \<longrightarrow>
        row \<in> set (controller_action_idempotency d'))"

lemma keeps_completed_trans: "keeps_completed d d' \<Longrightarrow> keeps_completed d' d'' \<Longrightarrow> keeps_completed d d''"
  by (auto simp: keeps_completed_def)

lemma keeps_completed_ctl: "ctl d' = ctl d \<Longrightarrow> keeps_completed d d'"
  using ctl_inv_ctl [of d' d] by (simp add: keeps_completed_def ctl_def)

lemma keeps_completed_step: "ctl_step d l d' \<Longrightarrow> keeps_completed d d'"
  using ctl_step_inv ctl_step_completed by (auto simp: keeps_completed_def)

lemma started_effect:
  assumes "journal_only (store a) d" and "begin_request e c body intent d = Inr (Started dec, d')"
  shows "(cl_controller c, cl_action_id c) \<notin> action_log (store a)
    \<and> action_log d' = insert (cl_controller c, cl_action_id c) (action_log (store a)) \<and> keeps_completed (store a) d'"
proof -
  note j = journal_only_fields(1) [OF assms(1)] and b = assms(2) [unfolded begin_request_def]
  show ?thesis
    using begin_log [OF b] log_ctl [OF j]
      keeps_completed_trans [OF keeps_completed_ctl [OF j] keeps_completed_step [OF ctl_step.act [OF b]]] by simp
qed

lemma finish_effect:
  assumes "finish_request c res a = (r, a')"
  shows "action_log (store a') = action_log (store a) \<and> keeps_completed (store a) (store a')"
proof -
  obtain status body binding where res: "res = (status, body, binding)" by (cases res)
  from assms [unfolded res] show ?thesis
  proof (cases rule: finish_shape)
    case lost
    then show ?thesis by (simp add: keeps_completed_def)
  next
    case (kept x d)
    have "keeps_completed (store a) (store a')"
      by (rule keeps_completed_trans [OF keeps_completed_step [OF ctl_step.finish [OF kept(1)]] keeps_completed_ctl [OF kept(2)]])
    with finish_log [OF kept(1)] log_ctl [OF kept(2)] show ?thesis by simp
  qed
qed

lemma request_effect:
  assumes "execute_action_request e hs body a = (r, a')"
  shows "action_log (store a') = action_log (store a) \<union> set_option (admits e hs body a)
    \<and> set_option (admits e hs body a) \<inter> action_log (store a) = {} \<and> keeps_completed (store a) (store a')"
  using assms
proof (cases rule: request_shape)
  case unread
  then show ?thesis by (simp add: keeps_completed_def)
next
  case (answered c intent)
  from quiet_log [OF answered(1, 3, 5, 4, 2)] answered(4) show ?thesis by (simp add: keeps_completed_def)
next
  case (unjournaled c intent d dec d')
  from started_effect [OF unjournaled(4, 5)] unjournaled(3, 6) show ?thesis by simp
next
  case (run c intent d dec d' d2 res a2)
  note s = started_effect [OF run(4, 5)] and j = journal_only_fields(1) [OF run(6)]
  have c2: "ctl (store a2) = ctl d'" using run_ctl [OF run(7)] j by simp
  note f = finish_effect [OF run(8)]
  have "keeps_completed (store a) (store a')"
    using s f keeps_completed_ctl [OF c2] by (blast intro: keeps_completed_trans)
  with s f log_ctl [OF c2] run(3) show ?thesis by simp
qed

section \<open>Runs of the service\<close>

text \<open>An operator's request ends where it started, up to fresh identifiers, or after one store operation.\<close>

definition operator_effect :: "AppState \<Rightarrow> AppState \<Rightarrow> bool" where
  "operator_effect a a' \<longleftrightarrow> (\<exists>d1 d2. ctl d1 = ctl (store a) \<and> (d2 = d1 \<or> ctl_step d1 None d2) \<and> a' = a\<lparr>store := d2\<rparr>)"

lemma operator_same: "operator_effect a a"
  unfolding operator_effect_def by (rule exI [of _ "store a"], rule exI [of _ "store a"]) simp

lemma operator_fresh: "ctl d = ctl (store a) \<Longrightarrow> operator_effect a (a\<lparr>store := d\<rparr>)"
  unfolding operator_effect_def by blast

lemma operator_step: "ctl d = ctl (store a) \<Longrightarrow> ctl_step d None d' \<Longrightarrow> operator_effect a (a\<lparr>store := d'\<rparr>)"
  unfolding operator_effect_def by blast

lemma operator_call:
  assumes "\<And>x d'. f d = Inr (x, d') \<Longrightarrow> ctl_step d None d'" and "ctl d = ctl (store a)"
  shows "operator_effect a (snd (answer_call f j m (a\<lparr>store := d\<rparr>)))"
  using assms by (auto simp: answer_call_def operator_fresh operator_step split: sum.split)

lemma as_operator_effect:
  "(\<And>a. operator_effect a (snd (m a))) \<Longrightarrow> operator_effect a (snd (as_operator e hs m a))"
  by (simp add: as_operator_def operator_same split: sum.split)

lemma with_auth_effect:
  "(\<And>auth. operator_effect a (snd (m auth a))) \<Longrightarrow> operator_effect a (snd (with_auth e m a))"
  by (simp add: with_auth_def operator_same split: option.split)

lemma token_ctl: "generate_controller_token e auth bytes cid ov nb d = (res, d') \<Longrightarrow> ctl d' = ctl d"
  by (auto simp: generate_controller_token_def new_id_def Let_def)

lemma operator_steps:
  "revoke_controller_action_token cid tid at d = (x, d') \<Longrightarrow> ctl_step d None d'"
  "configure_controller_events cid ep kv evs at d = (y, d') \<Longrightarrow> ctl_step d None d'"
  by (metis ctl_step.revoke snd_conv, metis ctl_step.configure snd_conv)

lemma operator_requests:
  "operator_effect a (snd (create_installation e hs bytes rq a))"
  "operator_effect a (snd (rotate_installation_token e hs bytes cid a))"
  "operator_effect a (snd (revoke_installation_token e hs cid tid a))"
  "operator_effect a (snd (set_installation_state e hs cid patch a))"
  "operator_effect a (snd (configure_installation_events e hs cid ep evs a))"
proof -
  show "operator_effect a (snd (create_installation e hs bytes rq a))"
    unfolding create_installation_def
    by (intro as_operator_effect with_auth_effect)
      (auto split: sum.split prod.split intro!: operator_same operator_fresh operator_call ctl_step.provision dest!: token_ctl)
  show "operator_effect a (snd (rotate_installation_token e hs bytes cid a))"
    unfolding rotate_installation_token_def Let_def
    by (intro as_operator_effect with_auth_effect)
      (auto split: sum.split prod.split intro!: operator_same operator_fresh operator_call ctl_step.rotate dest!: token_ctl)
  show "operator_effect a (snd (revoke_installation_token e hs cid tid a))"
    unfolding revoke_installation_token_def
    by (intro as_operator_effect) (auto split: prod.split intro!: operator_step [OF refl] operator_steps(1))
  show "operator_effect a (snd (set_installation_state e hs cid patch a))"
    unfolding set_installation_state_def
    by (intro as_operator_effect)
      (auto split: sum.split prod.split option.split intro!: operator_same operator_step [OF refl] ctl_step.patch)
  show "operator_effect a (snd (configure_installation_events e hs cid ep evs a))"
    unfolding configure_installation_events_def Let_def
    by (intro as_operator_effect)
      (auto split: sum.split prod.split option.split intro!: operator_same operator_step [OF refl] operator_steps(2))
qed

text \<open>
  One step of the service: of the plane, of a controller request, of an operator request, or of a
  store operation outside any request, such as those of the event dispatcher. The label is the
  action the step admitted.
\<close>

inductive service_step :: "api_env \<Rightarrow> AppState \<Rightarrow> (string \<times> string) option \<Rightarrow> AppState \<Rightarrow> bool" for e where
  plane: "plane_step a a' \<Longrightarrow> service_step e a None a'"
| request: "service_step e a (admits e hs body a) (snd (execute_action_request e hs body a))"
| store_op: "ctl_step (store a) None d \<Longrightarrow> service_step e a None (a\<lparr>store := d\<rparr>)"
| create: "service_step e a None (snd (create_installation e hs bytes rq a))"
| rotate: "service_step e a None (snd (rotate_installation_token e hs bytes cid a))"
| revoke: "service_step e a None (snd (revoke_installation_token e hs cid tid a))"
| patch: "service_step e a None (snd (set_installation_state e hs cid state a))"
| events: "service_step e a None (snd (configure_installation_events e hs cid ep evs a))"

lemma operator_log:
  assumes "operator_effect a a'"
  shows "action_log (store a') = action_log (store a) \<and> keeps_completed (store a) (store a')"
proof -
  obtain d1 d2 where d: "ctl d1 = ctl (store a)" "d2 = d1 \<or> ctl_step d1 None d2" "a' = a\<lparr>store := d2\<rparr>"
    using assms unfolding operator_effect_def by blast
  have "action_log d2 = action_log d1 \<and> keeps_completed d1 d2"
    using d(2) ctl_step_log [of d1 None d2] keeps_completed_step by (auto simp: keeps_completed_def)
  with d log_ctl [OF d(1)] keeps_completed_ctl [OF d(1)] show ?thesis by (auto intro: keeps_completed_trans)
qed

lemma service_effect:
  assumes "service_step e a l a'"
  shows "action_log (store a') = action_log (store a) \<union> set_option l \<and> set_option l \<inter> action_log (store a) = {}
    \<and> keeps_completed (store a) (store a')"
  using assms
proof cases
  case plane
  have c: "ctl (store a') = ctl (store a)"
    using tables.plane_run_R [OF r_into_rtranclp [where r = plane_step, OF plane(2)]] by (simp add: ctl_kept_def)
  show ?thesis using plane(1) log_ctl [OF c] keeps_completed_ctl [OF c] by simp
next
  case (request hs body)
  obtain r a1 where x: "execute_action_request e hs body a = (r, a1)" by force
  from request_effect [OF x] request x show ?thesis by simp
next
  case (store_op d)
  then show ?thesis using ctl_step_log [of "store a" None d] keeps_completed_step by simp
qed (use operator_log operator_requests in \<open>simp_all add: operator_log\<close>)

interpretation requests: admission_log "service_step e" "\<lambda>a. action_log (store a)" for e
proof
  fix s s' :: AppState and l k
  show "service_step e s (Some k) s' \<Longrightarrow> k \<notin> action_log (store s)" using service_effect by fastforce
  show "service_step e s l s' \<Longrightarrow> action_log (store s') = action_log (store s) \<union> set_option l" using service_effect by blast
qed

lemma service_run_completed:
  assumes "requests.run e a ks a'" and "ctl_inv (store a)"
    and "row \<in> set (controller_action_idempotency (store a))" "a_state row = ''completed''"
  shows "ctl_inv (store a') \<and> row \<in> set (controller_action_idempotency (store a'))"
  using requests.run_induct_state [OF assms(1), of "\<lambda>a. ctl_inv (store a) \<and> row \<in> set (controller_action_idempotency (store a))"]
    assms service_effect by (auto simp: keeps_completed_def)

section \<open>Repeated requests\<close>

lemma repeated_quiet:
  assumes "read_request e hs body (store a) = Inr c" and "(cl_controller c, cl_action_id c) \<in> action_log (store a)"
  shows "admits e hs body a = None \<and> quiet a (snd (execute_action_request e hs body a))"
proof -
  obtain r a' where x: "execute_action_request e hs body a = (r, a')" by force
  have n: "admits e hs body a \<noteq> Some (cl_controller c, cl_action_id c)" using request_effect [OF x] assms(2) by auto
  from x show ?thesis by (cases rule: request_shape) (use n assms(1) x in auto)
qed

lemma begin_known:
  assumes "begin_controller_action cid creds aid rh k scope sid oi at d = Inr (started, d')"
    and "find_action cid aid d = Some row" and "a_state row = ''completed''" and "a_request_hash row = rh"
    and "a_http_status row = Some st" and "a_response_json row = Some resp"
  shows "started = Replay \<lparr>rp_request_hash = rh, rp_http_status = st, rp_response_json = resp\<rparr>
    \<or> started \<in> Denied ` {CredentialDenied, DisabledDenied, GrantDenied, ScopeDenied, SessionOwnershipDenied}"
  using assms unfolding begin_controller_action_def answer_known_action_def
  by (auto split: option.splits if_splits)

lemma begin_known_total:
  assumes "find_action cid aid d = Some row" and "a_state row = ''completed''" and "a_request_hash row = rh"
    and "a_http_status row = Some st" and "a_response_json row = Some resp"
  shows "\<exists>p. begin_controller_action cid creds aid rh k scope sid oi at d = Inr p"
  using assms unfolding begin_controller_action_def answer_known_action_def
  by (auto split: option.splits)

text \<open>What the first run of an action records.\<close>

lemma run_status: "run_admitted c intent dec a = ((st, resp, b), a') \<Longrightarrow> 100 \<le> st \<and> st < 1000"
proof -
  have "100 \<le> fst (map_controller_error err) \<and> fst (map_controller_error err) < 1000" for err by (cases err) simp_all
  then have "100 \<le> fst (error_body c err) \<and> fst (error_body c err) < 1000" for err
    by (simp add: error_body_def split_beta)
  then show "run_admitted c intent dec a = ((st, resp, b), a') \<Longrightarrow> 100 \<le> st \<and> st < 1000"
    unfolding run_admitted_def
    by (auto split: option.splits ControllerOpenDecision.splits prod.splits sum.splits) (metis fst_conv)+
qed

lemma started_row:
  assumes "begin_request e c body intent d = Inr (Started dec, d')"
  shows "\<exists>row. controller_action_idempotency d' = controller_action_idempotency d @ [row]
    \<and> action_key row = (cl_controller c, cl_action_id c) \<and> a_request_hash row = request_hash e c body \<and> a_state row = ''processing''"
  using begin_started_tables(1) [OF assms [unfolded begin_request_def]]
  by (auto simp: admitted_row_def action_key_def)

lemma first_run_records:
  assumes "execute_action_request e hs body a = (r, a')" and "ctl_inv (store a)"
    and "read_request e hs body (store a) = Inr c"
    and "find_action (cl_controller c) (cl_action_id c) (store a') = Some row" and "a_state row = ''completed''"
    and "(cl_controller c, cl_action_id c) \<notin> action_log (store a)"
  shows "\<exists>intent st resp. open_intent_of e c = Inr intent \<and> r = raw_json_response st resp None \<and> 100 \<le> st \<and> st < 1000
    \<and> a_http_status row = Some st \<and> a_response_json row = Some resp \<and> a_request_hash row = request_hash e c body"
proof -
  have inv: "ctl_inv (store a')" using request_effect [OF assms(1)] assms(2) by (simp add: keeps_completed_def)
  then have dist: "distinct (map action_key (controller_action_idempotency (store a')))" by (simp add: ctl_inv_def act_inv_def)
  have row: "row \<in> set (controller_action_idempotency (store a'))" "action_key row = (cl_controller c, cl_action_id c)"
    using find_action_SomeD [OF assms(4)] by simp_all
  then have logged: "(cl_controller c, cl_action_id c) \<in> action_log (store a')" unfolding action_log_def by (metis image_eqI)
  have uniq: "row' = row" if "row' \<in> set (controller_action_idempotency (store a'))" "action_key row' = action_key row" for row'
    using dist row(1) that by (metis distinct_map inj_onD)
  from assms(1) show ?thesis
  proof (cases rule: request_shape)
    case unread
    with logged assms(6) show ?thesis by simp
  next
    case (answered c1 intent)
    with logged assms(6) request_effect [OF assms(1)] show ?thesis by simp
  next
    case (unjournaled c1 intent d dec d')
    have [simp]: "c1 = c" using unjournaled(1) assms(3) by simp
    obtain rw where rw: "controller_action_idempotency d' = controller_action_idempotency d @ [rw]"
      "action_key rw = action_key row" "a_state rw = ''processing''"
      using started_row [OF unjournaled(5)] row(2) by auto
    have "rw \<in> set (controller_action_idempotency (store a'))" using rw(1) unjournaled(6) by simp
    then have "rw = row" using rw(2) by (rule uniq)
    with rw(3) assms(5) show ?thesis by simp
  next
    case (run c1 intent d dec d' d2 res a2)
    have [simp]: "c1 = c" using run(1) assms(3) by simp
    obtain rw where rw: "controller_action_idempotency d' = controller_action_idempotency d @ [rw]"
      "action_key rw = action_key row" "a_request_hash rw = request_hash e c body" "a_state rw = ''processing''"
      using started_row [OF run(5)] row(2) by auto
    have t2: "rw \<in> set (controller_action_idempotency (store a2))"
      using rw(1) run_ctl [OF run(7)] journal_only_fields(3) [OF run(6)] by (simp add: ctl_def)
    obtain st resp b where res: "res = (st, resp, b)" by (cases res)
    from run(8) [unfolded res] show ?thesis
    proof (cases rule: finish_shape)
      case lost
      with t2 uniq [of rw] rw assms(5) show ?thesis by simp
    next
      case (kept x df)
      let ?f = "complete_row st resp (now_ms (store a2)) (map_option bd_session_id b)"
      have "?f rw \<in> set (controller_action_idempotency df)"
        using t2 rw row(2) finish_actions(1) [OF kept(1)] by (auto simp: set_upd_where processing_def image_iff)
      then have "?f rw \<in> set (controller_action_idempotency (store a'))" using kept(2) by (simp add: ctl_def)
      moreover have "action_key (?f rw) = action_key row" using rw(2) by (simp add: complete_row_def action_key_def)
      ultimately have "?f rw = row" by (rule uniq)
      then have "a_http_status row = Some st" "a_response_json row = Some resp" "a_request_hash row = request_hash e c body"
        using rw(3) by (auto simp: complete_row_def)
      with run(2) kept(3) run_status [OF run(7) [unfolded res]] show ?thesis by auto
    qed
  qed
qed

section \<open>Who may act\<close>

text \<open>The authority a request needs: one live credential, the grant, the scope, and the session if it names one.\<close>

definition authorized :: "api_env \<Rightarrow> headers \<Rightarrow> Call \<Rightarrow> db \<Rightarrow> bool" where
  "authorized e hs c d \<longleftrightarrow> controller_auth e = Some (cl_auth c) \<and> bearer hs = Some (cl_token c)
    \<and> map cat_controller_id (filter (verifies e (cl_auth c) (cl_token c)) (active_controller_action_tokens (now_ms d) d)) = [cl_controller c]
    \<and> credential_matches (cl_controller c) (credential_hashes e (cl_auth c) (cl_token c)) (now_ms d) d = 1
    \<and> action_granted (cl_controller c) (action_kind (ae_action (cl_envelope c))) d
    \<and> scope_enabled (cl_controller c) (cl_scope c) d
    \<and> (case find (\<lambda>r. c_id r = cl_controller c) (controllers d) of
          None \<Rightarrow> False | Some r \<Rightarrow> c_enabled r \<or> subject c \<noteq> None)
    \<and> (case subject c of None \<Rightarrow> True | Some sid \<Rightarrow> owns_session (cl_controller c) (cl_scope c) sid d)"

lemma read_requestD:
  assumes "read_request e hs body d = Inr c"
  shows "controller_auth e = Some (cl_auth c) \<and> bearer hs = Some (cl_token c)
    \<and> map cat_controller_id (filter (verifies e (cl_auth c) (cl_token c)) (active_controller_action_tokens (now_ms d) d)) = [cl_controller c]"
proof -
  have one: "map cat_controller_id xs = [cid]" if "length xs = 1" "cat_controller_id (last xs) = cid" for xs :: "ControllerActionToken list" and cid
    using that by (cases xs) auto
  obtain auth token cid envl where x: "controller_auth e = Some auth" "bearer hs = Some token"
    "authenticate_controller e auth token d = Some cid" "check_ids e hs cid auth token envl = Inr c"
    using assms by (auto simp: read_request_def split: option.splits if_splits)
  have "cl_auth c = auth \<and> cl_token c = token \<and> cl_controller c = cid"
    using x(4) by (auto simp: check_ids_def Let_def split: option.splits if_splits)
  with x(1-3) show ?thesis by (auto simp: authenticate_controller_def Let_def one split: if_splits)
qed

lemma authority_journal:
  assumes "journal_only d0 d"
  shows "action_granted x y d = action_granted x y d0" "scope_enabled x y d = scope_enabled x y d0"
    "owns_session x y z d = owns_session x y z d0" "controllers d = controllers d0" "now_ms d = now_ms d0"
    "credential_matches x cr at d = credential_matches x cr at d0"
  using same_but_queue_fields [OF journal_only_fields(6) [OF assms]]
  by (simp_all add: action_granted_def scope_enabled_def owns_session_def credential_matches_def now_ms_def)

lemma started_authorized:
  assumes "read_request e hs body (store a) = Inr c" and "journal_only (store a) d"
    and "begin_request e c body intent d = Inr (Started dec, d')"
  shows "authorized e hs c (store a)"
proof -
  note same = authority_journal [OF assms(2)]
  obtain r where r: "find (\<lambda>c'. c_id c' = cl_controller c) (controllers d) = Some r" "c_enabled r \<or> subject c \<noteq> None"
    and rest: "credential_matches (cl_controller c) (credential_hashes e (cl_auth c) (cl_token c)) (now_ms d) d = 1"
      "action_granted (cl_controller c) (action_kind (ae_action (cl_envelope c))) d" "scope_enabled (cl_controller c) (cl_scope c) d"
      "\<forall>s. subject c = Some s \<longrightarrow> owns_session (cl_controller c) (cl_scope c) s d"
    using begin_StartedD [OF assms(3) [unfolded begin_request_def]] by blast
  from r rest read_requestD [OF assms(1)] show ?thesis by (simp add: authorized_def same split: option.split)
qed

lemma known_authorized:
  assumes "authorized e hs c d0" and "journal_only d0 d" and "begin_request e c body intent d = Inr (started, d')"
    and "find_action (cl_controller c) (cl_action_id c) d = Some row"
  shows "\<forall>dn. started \<noteq> Denied dn"
  using assms(1, 3, 4) unfolding authorized_def begin_request_def begin_controller_action_def authority_journal [OF assms(2)] answer_known_action_def
  by (auto split: option.splits if_splits)

lemma replay_authorized:
  assumes "read_request e hs body (store a) = Inr c" and "open_intent_of e c = Inr intent"
    and "find_action (cl_controller c) (cl_action_id c) (store a) = Some row" and "a_state row = ''completed''"
    and "a_request_hash row = request_hash e c body" and "a_http_status row = Some st" and "a_response_json row = Some resp"
    and "100 \<le> st" "st < 1000" and "execute_action_request e hs body a = (r, a')" and "authorized e hs c (store a)"
  shows "r = raw_json_response st resp None \<or> r = journal_unavailable c"
proof -
  obtain r0 a1 where ad: "admit_request e c body intent a = (r0, a1)" by force
  have same: "find_action (cl_controller c) (cl_action_id c) d = Some row" if "note_received e c body (store a) = Inr (x, d)" for x d
    using assms(3) journal_only_fields(3) [OF received_journal [OF that]] by (simp add: find_action_def)
  note known = assms(4-7)
  have "\<exists>rs. r0 = Inl rs \<and> (rs = raw_json_response st resp None \<or> rs = journal_unavailable c)"
    using ad
  proof (cases rule: admit_shape)
    case (failed x d err)
    from failed(2) begin_known_total [OF same [OF failed(1)] known] show ?thesis
      unfolding begin_request_def by (metis sum.distinct(1))
  next
    case (turned_down x d started d' d2)
    note b = begin_known [OF turned_down(2) [unfolded begin_request_def] same [OF turned_down(1)] known]
    have "\<forall>dn. started \<noteq> Denied dn"
      by (rule known_authorized [OF assms(11) received_journal [OF turned_down(1)] turned_down(2) same [OF turned_down(1)]])
    with b turned_down(4) assms(8, 9) show ?thesis by (auto simp: replay_status_def)
  next
    case (started x d dec d' d2)
    from begin_known [OF started(2) [unfolded begin_request_def] same [OF started(1)] known] show ?thesis by auto
  qed simp_all
  with assms(1, 2, 10) ad show ?thesis by (auto simp: execute_action_request_def)
qed

section \<open>The shape of answers\<close>

text \<open>A protocol answer: a result envelope under 200, or an error envelope under an error status.\<close>

definition protocol_answer :: "int \<Rightarrow> json \<Rightarrow> bool" where
  "protocol_answer status body \<longleftrightarrow>
    status = 200 \<and> (\<exists>aid r. body = result_envelope_json \<lparr>are_version = CURRENT_VERSION, are_action_id = aid, are_result = r\<rparr>)
    \<or> status \<in> {400, 401, 403, 404, 409, 410, 413, 429, 500, 503} \<and> (\<exists>x. body = error_json x \<and> ee_version x = CURRENT_VERSION)"

definition answers_ok :: "db \<Rightarrow> bool" where
  "answers_ok d \<longleftrightarrow> (\<forall>row \<in> set (controller_action_idempotency d). a_state row = ''completed'' \<longrightarrow>
    (\<exists>st body. a_http_status row = Some st \<and> a_response_json row = Some body \<and> protocol_answer st body))"

lemma error_answer:
  "status \<in> {400, 401, 403, 404, 409, 410, 413, 429, 500, 503} \<Longrightarrow>
    protocol_answer (rs_status (protocol_error_response status aid code m rt ra)) (rs_body (protocol_error_response status aid code m rt ra))"
  by (force simp: protocol_answer_def protocol_error_response_def raw_json_response_def)

lemmas answer_shapes = bad_request_def unauthorized_response_def internal_store_error_def not_configured_def journal_unavailable_def conflict_def

lemma denial_answer: "protocol_answer (rs_status (denial_response aid dn at)) (rs_body (denial_response aid dn at))"
  by (cases dn) (simp_all add: answer_shapes error_answer)

lemma version_answer: "protocol_answer 400 (error_json (unsupported_version aid v))"
  by (force simp: protocol_answer_def unsupported_version_def)

lemma read_answer: "read_request e hs body d = Inl r \<Longrightarrow> protocol_answer (rs_status r) (rs_body r)"
  by (auto simp: read_request_def check_ids_def Let_def answer_shapes error_answer raw_json_response_def version_answer
      split: option.splits if_splits)

lemma intent_answer: "open_intent_of e c = Inl r \<Longrightarrow> protocol_answer (rs_status r) (rs_body r)"
  by (auto simp: open_intent_of_def answer_shapes error_answer split: ControllerAction.splits option.splits)

lemma run_answer: "run_admitted c intent dec a = ((st, body, b), a') \<Longrightarrow> protocol_answer st body"
proof -
  have "protocol_answer 200 (result_body c r)" for r unfolding protocol_answer_def result_body_def by blast
  moreover have "protocol_answer (fst (error_body c err)) (snd (error_body c err))" for err
    by (cases err) (auto simp: error_body_def protocol_answer_def)
  ultimately show "run_admitted c intent dec a = ((st, body, b), a') \<Longrightarrow> protocol_answer st body"
    unfolding run_admitted_def
    by (auto split: option.splits ControllerOpenDecision.splits prod.splits sum.splits) (metis fst_conv snd_conv)+
qed

lemma begin_replayD:
  assumes "begin_controller_action cid creds aid rh k scope sid oi at d = Inr (Replay rp, d')"
  shows "\<exists>row \<in> set (controller_action_idempotency d). a_state row = ''completed''
    \<and> a_http_status row = Some (rp_http_status rp) \<and> a_response_json row = Some (rp_response_json rp)"
proof -
  have "admit_action c aid rh k scope sid oi at d \<noteq> (Replay rp, d')" for c
    unfolding admit_action_def by (auto split: if_splits sum.splits)
  then obtain row where f: "find_action cid aid d = Some row" and k: "answer_known_action row rh at d = Inr (Replay rp, d')"
    using assms unfolding begin_controller_action_def by (auto split: option.splits if_splits)
  from k have "a_state row = ''completed'' \<and> a_http_status row = Some (rp_http_status rp) \<and> a_response_json row = Some (rp_response_json rp)"
    unfolding answer_known_action_def by (auto split: option.splits if_splits)
  with find_action_SomeD [OF f] show ?thesis by blast
qed

lemma answers_ok_rows: "controller_action_idempotency d' = controller_action_idempotency d \<Longrightarrow> answers_ok d' = answers_ok d"
  by (simp add: answers_ok_def)

lemma begin_answers:
  assumes "begin_request e c body intent d = Inr (started, d')" and "answers_ok d"
  shows "answers_ok d'"
proof (cases "\<exists>dec. started = Started dec")
  case True
  then obtain dec where "started = Started dec" ..
  from started_row [OF assms(1) [unfolded this]] assms(2) show ?thesis by (auto simp: answers_ok_def)
next
  case False
  with begin_other_tables [OF assms(1) [unfolded begin_request_def]] assms(2) show ?thesis
    by (auto simp: answers_ok_def upd_action_def set_upd_where split: if_splits)
qed

lemma admit_answer:
  assumes "admit_request e c body intent a = (r, a1)" and "answers_ok (store a)"
  shows "answers_ok (store a1) \<and> (\<forall>rs. r = Inl rs \<longrightarrow> protocol_answer (rs_status rs) (rs_body rs))"
  using assms(1)
proof (cases rule: admit_shape)
  case (no_journal err)
  with assms(2) show ?thesis by (simp add: answer_shapes error_answer)
next
  case (failed x d err)
  with assms(2) answers_ok_rows [OF journal_only_fields(3) [OF received_journal [OF failed(1)]]] show ?thesis
    by (simp add: answer_shapes error_answer)
next
  case (turned_down x d started d' d2)
  have d: "answers_ok d" using answers_ok_rows [OF journal_only_fields(3) [OF received_journal [OF turned_down(1)]]] assms(2) by simp
  have "answers_ok d2"
    using answers_ok_rows [OF journal_only_fields(3) [OF turned_down(6)]] begin_answers [OF turned_down(2) d] by simp
  moreover have "protocol_answer (rs_status rs) (rs_body rs)" if rs: "r = Inl rs" for rs
  proof (cases started)
    case (Replay rp)
    obtain row st bd where "row \<in> set (controller_action_idempotency d)" "rp_http_status rp = st" "rp_response_json rp = bd"
      "protocol_answer st bd"
      using begin_replayD [OF turned_down(2) [unfolded begin_request_def Replay]] d unfolding answers_ok_def by fastforce
    moreover from this(4) have "100 \<le> st" "st < 1000" by (auto simp: protocol_answer_def)
    ultimately show ?thesis using turned_down(4) Replay rs by (auto simp: replay_status_def raw_json_response_def)
  next
    case (Denied dn)
    with turned_down(4) rs denial_answer show ?thesis by auto
  qed (use turned_down(3, 4) rs in \<open>auto simp: answer_shapes error_answer\<close>)
  ultimately show ?thesis using turned_down(5) by simp
next
  case (unjournaled x d dec d')
  have "answers_ok d" using answers_ok_rows [OF journal_only_fields(3) [OF received_journal [OF unjournaled(1)]]] assms(2) by simp
  with begin_answers [OF unjournaled(2)] unjournaled(3, 4) show ?thesis by (simp add: answer_shapes error_answer)
next
  case (started x d dec d' d2)
  have "answers_ok d" using answers_ok_rows [OF journal_only_fields(3) [OF received_journal [OF started(1)]]] assms(2) by simp
  with begin_answers [OF started(2)] answers_ok_rows [OF journal_only_fields(3) [OF started(5)]] started(3, 4) show ?thesis by simp
qed

lemma finish_answer:
  assumes "finish_request c (st, body, b) a = (r, a')" and "answers_ok (store a)" and "protocol_answer st body"
  shows "answers_ok (store a') \<and> protocol_answer (rs_status r) (rs_body r)"
proof (cases "finish_controller_action (cl_controller c) (cl_action_id c) st body b (now_ms (store a)) (store a)")
  case (Inl x)
  with assms show ?thesis by (auto simp: finish_request_def error_answer)
next
  case (Inr p)
  obtain x d where p: "p = (x, d)" by (cases p)
  have k: "a' = completion_note c st b (a\<lparr>store := d\<rparr>)" and r: "r = raw_json_response st body None"
    using assms(1) Inr p by (simp_all add: finish_request_def)
  have "ctl (store a') = ctl d" by (simp add: k completion_note_def Let_def note_ctl)
  then have "controller_action_idempotency (store a') = controller_action_idempotency d" by (simp add: ctl_def)
  moreover have "answers_ok d"
    using assms(2, 3) finish_actions(1) [OF Inr [unfolded p]] by (auto simp: answers_ok_def set_upd_where complete_row_def)
  ultimately show ?thesis using answers_ok_rows [of "store a'" d] r assms(3) by (simp add: raw_json_response_def)
qed

section \<open>Properties of the boundary\<close>

text \<open>
  C7. Every answer of the action endpoint is a protocol answer: a result envelope of the current
  version under status 200, or an error envelope of the current version under one of the ten
  documented error statuses. This holds for first answers and for replayed ones, since the stored
  answers of completed actions keep the same shape.
\<close>

theorem answers_are_protocol:
  assumes "execute_action_request e hs body a = (r, a')" and "answers_ok (store a)"
  shows "protocol_answer (rs_status r) (rs_body r) \<and> answers_ok (store a')"
proof (cases "read_request e hs body (store a)")
  case (Inl rs)
  with assms read_answer [OF Inl] show ?thesis by (simp add: execute_action_request_def)
next
  case rd: (Inr c)
  show ?thesis
  proof (cases "open_intent_of e c")
    case (Inl rs)
    with assms rd intent_answer [OF Inl] show ?thesis by (simp add: execute_action_request_def)
  next
    case oi: (Inr intent)
    obtain r0 a1 where ad: "admit_request e c body intent a = (r0, a1)" by force
    note ex = assms(1) [unfolded execute_action_request_def rd oi sum.case ad prod.case] and ok = admit_answer [OF ad assms(2)]
    show ?thesis
    proof (cases r0)
      case (Inl rs)
      with ex ok show ?thesis by auto
    next
      case (Inr dec)
      obtain st bd b a2 where ra: "run_admitted c intent dec a1 = ((st, bd, b), a2)" by (metis prod.exhaust)
      have "controller_action_idempotency (store a2) = controller_action_idempotency (store a1)"
        using run_ctl [OF ra] by (simp add: ctl_def)
      with ok have "answers_ok (store a2)" using answers_ok_rows by blast
      moreover have "finish_request c (st, bd, b) a2 = (r, a')" using ex Inr ra by simp
      ultimately show ?thesis using finish_answer run_answer [OF ra] by blast
    qed
  qed
qed

text \<open>For evaluation, the limit on bodies as a comparison of integers.\<close>

lemma body_limit [code_unfold]: "MAX_ACTION_BODY_BYTES < n \<longleftrightarrow> 1048576 < int n"
  by (auto simp: MAX_ACTION_BODY_BYTES_def)

text \<open>An installation as an operator creates it, and one request of its controller.\<close>

definition quiet_action :: OpenSessionAction where
  "quiet_action = review_action\<lparr>osa_roster := [''rev1''], osa_quorum_n := 1, osa_chair_bot := None, osa_mode := ''solo'', osa_prompt := []\<rparr>"

definition desk_env :: api_env where
  "desk_env = \<lparr>event_env = \<lparr>hmac_sha256 = (@), sha256 = id, hex_encode = id, base64_url = id, json_text = (\<lambda>_. []),
      parse_url = (\<lambda>_. None)\<rparr>, base64_decode = (\<lambda>_. Some (replicate 32 (CHR ''t''))),
    decode_envelope = (\<lambda>b. if b = ''open'' then Some \<lparr>ae_version = CURRENT_VERSION, ae_action_id = ''a1'',
      ae_action = OpenSession quiet_action\<rparr> else None),
    controller_auth = Some [(1, ''k'')], event_keys = None, api_key = Some ''key''\<rparr>"

definition desk_headers :: headers where
  "desk_headers n = (if n = ''authorization'' then Some ''Bearer t''
    else if n = ACTION_ID_HEADER then Some ''a1'' else if n = SCOPE_HEADER then Some ''repo'' else None)"

definition bound_app :: AppState where
  "bound_app = snd (create_installation desk_env (\<lambda>n. if n = ''authorization'' then Some ''Bearer key'' else None)
    ''t'' \<lparr>cri_id = ''ctl'', cri_actions = [''open_session''], cri_scopes = [''repo''],
      cri_max_concurrent_sessions = 5, cri_max_actions_per_minute = 10\<rparr> desk_app)"

definition desk_call :: Call where
  "desk_call = \<lparr>cl_controller = ''ctl'', cl_auth = [(1, ''k'')], cl_token = ''t'',
    cl_envelope = \<lparr>ae_version = CURRENT_VERSION, ae_action_id = ''a1'', ae_action = OpenSession quiet_action\<rparr>, cl_scope = ''repo''\<rparr>"

definition served_app :: AppState where
  "served_app = snd (execute_action_request desk_env desk_headers ''open'' bound_app)"

lemma desk_start:
  "read_request desk_env desk_headers ''open'' (store bound_app) = Inr desk_call"
  "action_log (store bound_app) = {}" "ctl_inv (store bound_app)" "answers_ok (store bound_app)"
proof -
  show "read_request desk_env desk_headers ''open'' (store bound_app) = Inr desk_call" by code_simp
  show "action_log (store bound_app) = {}" by code_simp
  show "ctl_inv (store bound_app)" by code_simp
  have "controller_action_idempotency (store bound_app) = []" by code_simp
  then show "answers_ok (store bound_app)" by (simp add: answers_ok_def)
qed

definition served :: "Response \<times> AppState \<Rightarrow> bool" where
  "served p \<longleftrightarrow> rs_status (fst p) = 200 \<and> map_option a_state (find_action ''ctl'' ''a1'' (store (snd p))) = Some ''completed''
    \<and> read_request desk_env desk_headers ''open'' (store (snd p)) = Inr desk_call
    \<and> authorized desk_env desk_headers desk_call (store (snd p)) \<and> length (sessions (store (snd p))) = 1"

lemma desk_serves: "served (execute_action_request desk_env desk_headers ''open'' bound_app)"
  by code_simp

lemma desk_fresh: "sessions (store bound_app) = []"
  by code_simp

text \<open>
  C4. A controller action runs at most once, over every run of the service: of its plane, its
  controllers, its operators and its background store operations in any order. No action key is
  admitted twice, none that was known at the start is admitted, and every later request under a
  known key is answered from the journal of actions without running anything.
\<close>

theorem action_runs_at_most_once:
  assumes "requests.run e a ks a'"
  shows "distinct ks \<and> set ks \<inter> action_log (store a) = {} \<and> action_log (store a') = action_log (store a) \<union> set ks
    \<and> (\<forall>hs body c. read_request e hs body (store a') = Inr c \<longrightarrow> (cl_controller c, cl_action_id c) \<in> action_log (store a') \<longrightarrow>
        admits e hs body a' = None \<and> quiet a' (snd (execute_action_request e hs body a')))"
  using requests.run_admits_once [OF assms] requests.run_logged [OF assms] repeated_quiet by blast

theorem action_runs_at_most_once_witness:
  "\<exists>a ks. action_log (store a) = {(''ctl'', ''a1'')} \<and> ks = [(''ctl'', ''a1'')] \<and> requests.run desk_env bound_app ks a
    \<and> admits desk_env desk_headers ''open'' a = None"
proof -
  obtain r a where x: "execute_action_request desk_env desk_headers ''open'' bound_app = (r, a)" by force
  note sv = desk_serves [unfolded served_def x fst_conv snd_conv]
  then have "find_action ''ctl'' ''a1'' (store a) \<noteq> None" by auto
  then have l: "(''ctl'', ''a1'') \<in> action_log (store a)" using find_action_None [of "''ctl''" "''a1''" "store a"] by (auto simp: action_log_def)
  have "set_option (admits desk_env desk_headers ''open'' bound_app) = action_log (store a)"
    using request_effect [OF x] desk_start(2) by simp
  with l have ad: "admits desk_env desk_headers ''open'' bound_app = Some (''ctl'', ''a1'')" by auto
  have run: "requests.run desk_env bound_app [(''ctl'', ''a1'')] a"
    using requests.run.admit [OF service_step.request [of desk_env bound_app desk_headers "''open''", unfolded ad] requests.run.stop] x by simp
  note once = action_runs_at_most_once [OF run]
  have k: "(cl_controller desk_call, cl_action_id desk_call) = (''ctl'', ''a1'')" by (simp add: desk_call_def cl_action_id_def)
  from once sv k l have "admits desk_env desk_headers ''open'' a = None" by metis
  moreover have "action_log (store a) = {(''ctl'', ''a1'')}" using once desk_start(2) by simp
  ultimately show ?thesis using run by blast
qed

text \<open>
  C5. A retry gets the first answer: when the first run of an action was recorded as completed, then
  after any further run of the service a request for the same action, of the same controller and
  scope and with the same body, is answered with exactly the response of the first run, as long as
  the controller is still authorized and the audit journal accepts the receipt; and whatever the
  answer, nothing is run again.
\<close>

theorem retry_repeats_the_answer:
  assumes "execute_action_request e hs body a = (r, a1)" and "ctl_inv (store a)"
    and "read_request e hs body (store a) = Inr c" and "(cl_controller c, cl_action_id c) \<notin> action_log (store a)"
    and "find_action (cl_controller c) (cl_action_id c) (store a1) = Some row" and "a_state row = ''completed''"
    and "requests.run e a1 ks a2" and "read_request e hs' body (store a2) = Inr c'"
    and "cl_controller c' = cl_controller c" and "cl_scope c' = cl_scope c" and "authorized e hs' c' (store a2)"
    and "execute_action_request e hs' body a2 = (r', a3)"
  shows "(r' = r \<or> r' = journal_unavailable c') \<and> quiet a2 a3"
proof -
  have env: "decode_envelope e body = Some (cl_envelope x)" if "read_request e h body d = Inr x" for x h d
    using that by (auto simp: read_request_def check_ids_def Let_def split: option.splits if_splits)
  have same: "cl_envelope c' = cl_envelope c" using env [OF assms(3)] env [OF assms(8)] by simp
  then have aid: "cl_action_id c' = cl_action_id c" by (simp add: cl_action_id_def)
  obtain intent st resp where f: "open_intent_of e c = Inr intent" "r = raw_json_response st resp None" "100 \<le> st" "st < 1000"
    "a_http_status row = Some st" "a_response_json row = Some resp" "a_request_hash row = request_hash e c body"
    using first_run_records [OF assms(1, 2, 3, 5, 6, 4)] by blast
  have "ctl_inv (store a1)" using request_effect [OF assms(1)] assms(2) by (simp add: keeps_completed_def)
  moreover have row: "row \<in> set (controller_action_idempotency (store a1))" "action_key row = (cl_controller c, cl_action_id c)"
    using find_action_SomeD [OF assms(5)] by simp_all
  ultimately have k: "ctl_inv (store a2)" "row \<in> set (controller_action_idempotency (store a2))"
    using service_run_completed [OF assms(7)] assms(6) by blast+
  have known: "find_action (cl_controller c') (cl_action_id c') (store a2) = Some row"
    using find_action_unique [OF _ k(2)] k(1) row(2) assms(9) aid by (simp add: ctl_inv_def action_key_def)
  have "open_intent_of e c' = Inr intent" "request_hash e c' body = request_hash e c body"
    using f(1) unfolding open_intent_of_def request_hash_def same assms(9, 10) aid by simp_all
  with replay_authorized [OF assms(8) _ known assms(6) _ f(5, 6, 3, 4) assms(12, 11)] f(2, 7)
  have "r' = r \<or> r' = journal_unavailable c'" by simp
  moreover have "(cl_controller c', cl_action_id c') \<in> action_log (store a2)"
    using k(2) row(2) assms(9) aid unfolding action_log_def by (metis image_eqI)
  then have "quiet a2 a3" using repeated_quiet [OF assms(8)] assms(12) by simp
  ultimately show ?thesis by simp
qed

theorem retry_repeats_the_answer_witness:
  "\<exists>r a1. execute_action_request desk_env desk_headers ''open'' bound_app = (r, a1) \<and> rs_status r = 200
    \<and> fst (execute_action_request desk_env desk_headers ''open'' a1) \<in> {r, journal_unavailable desk_call}
    \<and> sessions (store (snd (execute_action_request desk_env desk_headers ''open'' a1))) = sessions (store a1)"
proof -
  obtain r a1 where x: "execute_action_request desk_env desk_headers ''open'' bound_app = (r, a1)" by force
  obtain r2 a2 where y: "execute_action_request desk_env desk_headers ''open'' a1 = (r2, a2)" by force
  note sv = desk_serves [unfolded served_def x fst_conv snd_conv]
  obtain row where row: "find_action ''ctl'' ''a1'' (store a1) = Some row" "a_state row = ''completed''" using sv by auto
  have [simp]: "cl_controller desk_call = ''ctl''" "cl_action_id desk_call = ''a1''" by (simp_all add: desk_call_def cl_action_id_def)
  have "(r2 = r \<or> r2 = journal_unavailable desk_call) \<and> quiet a1 a2"
    using retry_repeats_the_answer [OF x desk_start(3, 1) _ _ row(2) requests.run.stop [of desk_env a1] _ _ _ _ y, of desk_call]
      sv row(1) desk_start(2) by simp
  moreover from this have "sessions (store a2) = sessions (store a1)" by (auto simp: quiet_def)
  ultimately show ?thesis using x y sv by auto
qed

theorem answers_are_protocol_witness:
  "\<exists>r a'. execute_action_request desk_env desk_headers ''open'' bound_app = (r, a') \<and> rs_status r = 200
    \<and> protocol_answer (rs_status r) (rs_body r)"
proof -
  obtain r a1 where x: "execute_action_request desk_env desk_headers ''open'' bound_app = (r, a1)" by force
  with answers_are_protocol [OF x desk_start(4)] desk_serves show ?thesis by (auto simp: served_def)
qed

text \<open>
  C6. Only authorized requests have effects: when a request to the action endpoint leaves more
  than journal entries and marks on recorded actions, then exactly one live credential verified
  against its bearer token, its controller holds the grant for this kind of action and an enabled
  binding of the named scope, is enabled or acts on a session it has already opened, owns the
  session the action names in that scope, and had not used the action id before.
\<close>

theorem effects_are_authorized:
  assumes "execute_action_request e hs body a = (r, a')" and "\<not> quiet a a'"
  shows "\<exists>c. read_request e hs body (store a) = Inr c \<and> authorized e hs c (store a)
    \<and> (cl_controller c, cl_action_id c) \<notin> action_log (store a)"
  using assms(1)
proof (cases rule: request_shape)
  case (unjournaled c intent d dec d')
  with started_authorized [OF unjournaled(1, 4, 5)] request_effect [OF assms(1)] show ?thesis by auto
next
  case (run c intent d dec d' d2 res a2)
  with started_authorized [OF run(1, 4, 5)] request_effect [OF assms(1)] show ?thesis by auto
qed (use assms(2) in simp_all)

theorem effects_are_authorized_witness:
  "authorized desk_env desk_headers desk_call (store bound_app)
    \<and> \<not> quiet bound_app (snd (execute_action_request desk_env desk_headers ''open'' bound_app))"
proof -
  obtain r a1 where x: "execute_action_request desk_env desk_headers ''open'' bound_app = (r, a1)" by force
  have "sessions (store a1) \<noteq> sessions (store bound_app)" using desk_serves desk_fresh x by (auto simp: served_def)
  then have q: "\<not> quiet bound_app a1" by (auto simp: quiet_def)
  from effects_are_authorized [OF x q] desk_start(1) q x show ?thesis by auto
qed

lemma recorded_append:
  assumes "append_audit_event e d = Inr (x, d')"
  shows "find (\<lambda>r. av_service (aer_event r) = av_service e \<and> av_event_key (aer_event r) = av_event_key e) (audit_events d') = Some x"
    and "audit_recorded e d \<Longrightarrow> d' = d"
    and "\<not> audit_recorded e d \<Longrightarrow> x = \<lparr>aer_seq = audit_seq d + 1, aer_event = e\<rparr>"
proof -
  obtain d1 where l: "append_audit_event_locked e d = Inr d1" using assms by (auto simp: append_audit_event_def split: sum.splits)
  with assms show f: "find (\<lambda>r. av_service (aer_event r) = av_service e \<and> av_event_key (aer_event r) = av_event_key e) (audit_events d') = Some x"
    by (auto simp: append_audit_event_def split: option.splits)
  have d1: "d1 = d'" using assms l by (auto simp: append_audit_event_def split: option.splits)
  show "audit_recorded e d \<Longrightarrow> d' = d" using l d1 by (auto simp: append_audit_event_locked_def split: sum.splits)
  assume n: "\<not> audit_recorded e d"
  with l d1 have "audit_events d' = audit_events d @ [\<lparr>aer_seq = audit_seq d + 1, aer_event = e\<rparr>]"
    by (auto simp: append_audit_event_locked_def split: sum.splits)
  moreover have "find (\<lambda>r. av_service (aer_event r) = av_service e \<and> av_event_key (aer_event r) = av_event_key e) (audit_events d) = None"
    using n by (auto simp: audit_recorded_def find_None_iff list_ex_iff)
  ultimately show "x = \<lparr>aer_seq = audit_seq d + 1, aer_event = e\<rparr>" using f by (simp add: find_append)
qed

text \<open>
  The journal key of an action entry names its kind and its action id, not its controller: when
  two controllers use the same action id, the entry of the second is dropped, and the append
  reports the entry of the first as if it were its own.
\<close>

theorem shared_action_id_unjournaled:
  assumes "append_action_audit c sid k oc dt er d = Inr (x, d1)" and "\<not> audit_recorded (action_audit_event d c sid k oc dt er) d"
    and "cl_action_id c' = cl_action_id c" and "append_action_audit c' sid' k oc' dt' er' d1 = Inr (x', d2)"
  shows "d2 = d1 \<and> x' = x \<and> ac_controller_id (av_correlation (aer_event x')) = Some (cl_controller c)"
proof -
  let ?e = "action_audit_event d c sid k oc dt er" and ?e' = "action_audit_event d1 c' sid' k oc' dt' er'"
  note a1 = recorded_append [OF assms(1) [unfolded append_action_audit_def]]
    and a2 = recorded_append [OF assms(4) [unfolded append_action_audit_def]]
  have key: "av_service ?e' = av_service ?e" "av_event_key ?e' = av_event_key ?e"
    using assms(3) by (simp_all add: action_audit_event_def Let_def)
  have "audit_recorded ?e' d1" using find_SomeD [OF a1(1)] key by (auto simp: audit_recorded_def list_ex_iff)
  then have d: "d2 = d1" by (rule a2(2))
  then have "x' = x" using a1(1) a2(1) key by simp
  with d a1(3) [OF assms(2)] show ?thesis by (simp add: action_audit_event_def Let_def)
qed

theorem shared_action_id_unjournaled_witness:
  "\<exists>x d1. append_action_audit desk_call None ''action.received'' APending JNull None empty_db = Inr (x, d1)
    \<and> append_action_audit (desk_call\<lparr>cl_controller := ''other''\<rparr>) None ''action.received'' APending JNull None d1 = Inr (x, d1)"
proof -
  have "\<not> isl (append_action_audit desk_call None ''action.received'' APending JNull None empty_db)" by code_simp
  then obtain p where p: "append_action_audit desk_call None ''action.received'' APending JNull None empty_db = Inr p"
    by (cases "append_action_audit desk_call None ''action.received'' APending JNull None empty_db") auto
  obtain x d1 where x: "p = (x, d1)" by (cases p)
  have "\<not> (case append_action_audit desk_call None ''action.received'' APending JNull None empty_db of Inl _ \<Rightarrow> True | Inr q \<Rightarrow>
      isl (append_action_audit (desk_call\<lparr>cl_controller := ''other''\<rparr>) None ''action.received'' APending JNull None (snd q)))" by code_simp
  then obtain q where q: "append_action_audit (desk_call\<lparr>cl_controller := ''other''\<rparr>) None ''action.received'' APending JNull None d1 = Inr q"
    using p x by (cases "append_action_audit (desk_call\<lparr>cl_controller := ''other''\<rparr>) None ''action.received'' APending JNull None d1") auto
  obtain x' d2 where y: "q = (x', d2)" by (cases q)
  have "d2 = d1 \<and> x' = x"
    using shared_action_id_unjournaled [OF p [unfolded x] _ _ q [unfolded y]]
    by (simp add: audit_recorded_def empty_db_def cl_action_id_def desk_call_def)
  with p q x y show ?thesis by auto
qed

end
