(* ===== verification/PR_Planner.thy ===== *)
theory PR_Planner
  imports Controller_API
begin

text \<open>
  The planner of the pull request controller (\<^verbatim>\<open>crates/github-pr-controller/src/planner.rs\<close>): reading
  GitHub events into review triggers, questions and commands on findings, and turning a trigger into
  the session it asks the control plane for. The comparison of two planners (\<^verbatim>\<open>shadow.rs\<close>) follows.
  Shown here: a planned session passes the validation of the control plane, the review angles are all
  assigned and read back from the prompt as they were assigned, a command on a finding never opens a
  session, and the comparison reports exactly the differences that matter.
\<close>

section \<open>Reading JSON and text\<close>

fun jas_bool :: "json \<Rightarrow> bool option" where
  "jas_bool (JBool b) = Some b"
| "jas_bool _ = None"

fun jas_u64 :: "json \<Rightarrow> int option" where
  "jas_u64 (JNum n) = (if 0 \<le> n \<and> n < 2 ^ 64 then Some n else None)"
| "jas_u64 _ = None"

fun jas_array :: "json \<Rightarrow> json list option" where
  "jas_array (JArr js) = Some js"
| "jas_array _ = None"

definition jpath :: "json \<Rightarrow> string list \<Rightarrow> json" where
  "jpath = foldl jget"

text \<open>\<^verbatim>\<open>str::replace\<close>, \<^verbatim>\<open>split_once\<close> on a text, and ASCII case folding.\<close>

definition replace_str :: "string \<Rightarrow> string \<Rightarrow> string \<Rightarrow> string" where
  "replace_str pat by s = join by (split_str pat s)"

definition split_once_str :: "string \<Rightarrow> string \<Rightarrow> (string \<times> string) option" where
  "split_once_str pat s = map_option (\<lambda>i. (take i s, drop (i + length pat) s)) (find_str pat s)"

definition eq_ignore_ascii_case :: "string \<Rightarrow> string \<Rightarrow> bool" where
  "eq_ignore_ascii_case a b \<longleftrightarrow> to_ascii_lowercase a = to_ascii_lowercase b"

definition to_ascii_uppercase :: "string \<Rightarrow> string" where
  "to_ascii_uppercase = map (\<lambda>c. let n = (of_char c :: nat) in if 97 \<le> n \<and> n \<le> 122 then char_of (n - 32) else c)"

text \<open>A slice up to a byte index, where that is a character boundary.\<close>

definition get_to :: "nat \<Rightarrow> string \<Rightarrow> string option" where
  "get_to n s = (if is_char_boundary s n then Some (take n s) else None)"

definition starts_ws :: "string \<Rightarrow> bool" where
  "starts_ws s \<longleftrightarrow> skip_ws s \<noteq> None"

text \<open>Whether a text starts with an alphanumeric character; beyond ASCII that is the Unicode table.\<close>

definition ascii_alnum :: "char \<Rightarrow> bool" where
  "ascii_alnum c \<longleftrightarrow> (let n = (of_char c :: nat) in 48 \<le> n \<and> n \<le> 57 \<or> 65 \<le> n \<and> n \<le> 90 \<or> 97 \<le> n \<and> n \<le> 122)"

fun starts_alnum :: "(string \<Rightarrow> bool) \<Rightarrow> string \<Rightarrow> bool" where
  "starts_alnum unicode [] = False"
| "starts_alnum unicode (c # s) = (if (of_char c :: nat) < 128 then ascii_alnum c else unicode (c # s))"

fun trim_start_matches :: "nat \<Rightarrow> string \<Rightarrow> string \<Rightarrow> string" where
  "trim_start_matches 0 pat s = s"
| "trim_start_matches (Suc n) pat s = (case strip_prefix pat s of None \<Rightarrow> s | Some t \<Rightarrow> trim_start_matches n pat t)"

text \<open>\<^verbatim>\<open>splitn(2, char::is_whitespace)\<close>: up to the first white space character, and what follows it.\<close>

fun split_at_ws :: "string \<Rightarrow> string \<times> string option" where
  "split_at_ws s = (case skip_ws s of
      Some t \<Rightarrow> ([], Some t)
    | None \<Rightarrow> (case s of [] \<Rightarrow> ([], None) | c # s' \<Rightarrow> (case split_at_ws s' of (w, rest) \<Rightarrow> (c # w, rest))))"

section \<open>Triggers and plans\<close>

definition REVIEW_OPT_IN_LABEL :: string where "REVIEW_OPT_IN_LABEL = ''oab-review''"
definition DEFAULT_PRESET :: string where "DEFAULT_PRESET = ''lite''"
definition REREVIEW_CONTEXT_START :: string where "REREVIEW_CONTEXT_START = ''===== RE-REVIEW CONTEXT =====''"
definition REREVIEW_CONTEXT_END :: string where "REREVIEW_CONTEXT_END = ''===== END RE-REVIEW CONTEXT =====''"

text \<open>The prompt templates compiled into the binary are data, kept as a parameter.\<close>

record Templates =
  review_trigger_template :: string
  chair_task_template :: string
  reviewer_task_template :: string
  ask_trigger_template :: string

record Trigger =
  tg_repository :: string
  tg_pr_number :: int
  tg_reason :: string
  tg_trigger_fingerprint :: "string option"
  tg_preset :: "string option"
  tg_question :: "string option"
  tg_comment_id :: "int option"
  tg_review_notes :: "string option"
  tg_review_from_scratch :: bool
  tg_author_trusted :: bool
  tg_author_login :: "string option"

record FindingCommand =
  fc_repository :: string
  fc_pr_number :: int
  fc_verb :: string
  fc_stable_id :: string
  fc_reason :: "string option"
  fc_comment_id :: int
  fc_author_trusted :: bool
  fc_author_login :: "string option"

record ProposedWrite =
  pw_target :: string
  pw_operation :: string

record DedupeProjection =
  dp_object_key :: string
  dp_fingerprint :: "string option"
  dp_same_active_fingerprint :: string
  dp_different_active_fingerprint :: string

record TerminalProjection =
  tp_result_identity :: string
  tp_verdict_source :: string
  tp_findings_source :: "string option"

record SessionPlan =
  sp_source_delivery_id :: string
  sp_repository :: string
  sp_pr_number :: int
  sp_reason :: string
  sp_preset :: "string option"
  sp_title :: string
  sp_trigger_ref :: string
  sp_trigger_fingerprint :: "string option"
  sp_roster :: "string list"
  sp_quorum_n :: int
  sp_chair_bot :: string
  sp_mode :: string
  sp_prompt :: string
  sp_recipient_inputs :: "(string \<times> string) list"
  sp_dedupe :: DedupeProjection
  sp_terminal_projection :: TerminalProjection
  sp_proposed_writes :: "ProposedWrite list"

record ParitySnapshot =
  ps_repository :: string
  ps_pr_number :: int
  ps_reason :: string
  ps_preset :: "string option"
  ps_open_session :: OpenSessionAction
  ps_dedupe :: DedupeProjection
  ps_terminal_projection :: TerminalProjection
  ps_proposed_writes :: "ProposedWrite list"

record MentionReview =
  mr_notes :: string
  mr_from_scratch :: bool

definition head_sha :: "SessionPlan \<Rightarrow> string option" where
  "head_sha p = Option.bind (sp_trigger_fingerprint p) (strip_prefix ''sha:'')"

definition open_session_action :: "SessionPlan \<Rightarrow> OpenSessionAction" where
  "open_session_action p = \<lparr>osa_title = sp_title p, osa_trigger_ref = Some (sp_trigger_ref p),
    osa_trigger_fingerprint = sp_trigger_fingerprint p, osa_roster = sp_roster p, osa_quorum_n = sp_quorum_n p,
    osa_chair_bot = Some (sp_chair_bot p), osa_mode = sp_mode p, osa_prompt = sp_prompt p,
    osa_recipient_inputs = sp_recipient_inputs p\<rparr>"

definition parity_snapshot :: "SessionPlan \<Rightarrow> ParitySnapshot" where
  "parity_snapshot p = \<lparr>ps_repository = sp_repository p, ps_pr_number = sp_pr_number p, ps_reason = sp_reason p,
    ps_preset = sp_preset p, ps_open_session = open_session_action p, ps_dedupe = sp_dedupe p,
    ps_terminal_projection = sp_terminal_projection p, ps_proposed_writes = sp_proposed_writes p\<rparr>"

section \<open>Reading comments\<close>

definition can_command :: "string \<Rightarrow> bool" where
  "can_command association \<longleftrightarrow> association \<in> set [''OWNER'', ''MEMBER'', ''COLLABORATOR'']"

definition has_label :: "json \<Rightarrow> string \<Rightarrow> bool" where
  "has_label labels expected = (case jas_array labels of
      None \<Rightarrow> False | Some ls \<Rightarrow> list_ex (\<lambda>l. jas_str (jget l ''name'') = Some expected) ls)"

definition preset_from_labels :: "json \<Rightarrow> string option" where
  "preset_from_labels labels = Option.bind (jas_array labels) (find_map (\<lambda>l.
    Option.bind (jas_str (jget l ''name'')) (\<lambda>name.
    Option.bind (strip_prefix ''review:'' name) (\<lambda>rest. if trim rest \<noteq> [] then Some (trim rest) else None))))"

definition starts_with_command :: "string \<Rightarrow> string \<Rightarrow> bool" where
  "starts_with_command comment command =
    (case strip_prefix command comment of None \<Rightarrow> False | Some rest \<Rightarrow> rest = [] \<or> starts_ws rest)"

definition mention_tail :: "(string \<Rightarrow> bool) \<Rightarrow> string \<Rightarrow> string \<Rightarrow> string option" where
  "mention_tail unicode rest handle =
    (case get_to (length handle) rest of
      None \<Rightarrow> None
    | Some name \<Rightarrow>
        let tail = drop (length handle) rest in
        if \<not> eq_ignore_ascii_case name handle then None
        else if starts_alnum unicode tail \<or> starts_with ''-'' tail then None
        else Some (trim_start (trim_start_matches (length tail) ''[bot]'' tail)))"

definition leading_mention :: "(string \<Rightarrow> bool) \<Rightarrow> string \<Rightarrow> string list \<Rightarrow> string option" where
  "leading_mention unicode comment handles =
    Option.bind (strip_prefix ''@'' comment) (\<lambda>rest. find_map (mention_tail unicode rest) handles)"

definition strip_ci_word :: "string \<Rightarrow> string \<Rightarrow> string option" where
  "strip_ci_word text word =
    (case get_to (length word) text of
      None \<Rightarrow> None
    | Some prefix \<Rightarrow>
        let rest = drop (length word) text in
        if \<not> eq_ignore_ascii_case prefix word then None
        else if rest = [] \<or> starts_ws rest then Some (trim_start rest) else None)"

definition parse_mention_review :: "(string \<Rightarrow> bool) \<Rightarrow> string \<Rightarrow> string list \<Rightarrow> MentionReview option" where
  "parse_mention_review unicode comment handles =
    Option.bind (leading_mention unicode comment handles) (\<lambda>rest.
      case strip_ci_word rest ''full'' of
        Some rest' \<Rightarrow> map_option (\<lambda>notes. \<lparr>mr_notes = notes, mr_from_scratch = True\<rparr>) (strip_ci_word rest' ''review'')
      | None \<Rightarrow> map_option (\<lambda>notes. \<lparr>mr_notes = notes, mr_from_scratch = False\<rparr>) (strip_ci_word rest ''review''))"

definition finding_id :: "string \<Rightarrow> bool" where
  "finding_id fid \<longleftrightarrow> length fid \<ge> 2 \<and> starts_with ''F'' fid \<and> list_all is_digit (tl fid)"

definition parse_verb :: "(string \<Rightarrow> bool) \<Rightarrow> string \<Rightarrow> string list \<Rightarrow> (string \<times> string \<times> string option) option" where
  "parse_verb unicode comment handles =
    Option.bind (leading_mention unicode comment handles) (\<lambda>rest.
    Option.bind (find_map (\<lambda>verb. map_option (Pair verb) (strip_ci_word rest verb)) [''dismiss'', ''waive'', ''reopen'']) (\<lambda>(verb, rest').
      case split_at_ws rest' of (word, after) \<Rightarrow>
        let fid = to_ascii_uppercase (trim word) in
        if \<not> finding_id fid then None
        else Some (verb, fid, Option.bind (map_option trim after) (\<lambda>r. if r \<noteq> [] then Some r else None))))"

definition parse_ask :: "(string \<Rightarrow> bool) \<Rightarrow> string \<Rightarrow> string list \<Rightarrow> string option" where
  "parse_ask unicode comment handles =
    (if starts_with_command comment ''/ask'' then Some (trim (drop 4 comment))
     else Option.bind (leading_mention unicode comment handles) (\<lambda>rest.
       if list_ex (\<lambda>word. strip_ci_word rest word \<noteq> None) [''review'', ''full'', ''dismiss'', ''waive'', ''reopen''] then None
       else if trim rest \<noteq> [] then Some (trim rest) else None))"

section \<open>Reading events\<close>

definition or_empty :: "string option \<Rightarrow> string" where
  "or_empty x = (case x of None \<Rightarrow> [] | Some s \<Rightarrow> s)"

definition parse_pull_request :: "json \<Rightarrow> Trigger option" where
  "parse_pull_request body =
    Option.bind (jas_str (jget body ''action'')) (\<lambda>action.
    if action \<notin> set [''opened'', ''reopened'', ''ready_for_review'', ''synchronize''] then None
    else let pr = jget body ''pull_request''; labels = jget pr ''labels'' in
      if action \<noteq> ''ready_for_review'' \<and> jas_bool (jget pr ''draft'') = Some True then None
      else Option.bind (jas_str (jpath body [''repository'', ''full_name''])) (\<lambda>repository.
        Option.bind (jas_u64 (jget pr ''number'')) (\<lambda>number.
        Some \<lparr>tg_repository = repository, tg_pr_number = number, tg_reason = ''auto'',
          tg_trigger_fingerprint = map_option (\<lambda>sha. ''sha:'' @ sha) (jas_str (jpath pr [''head'', ''sha''])),
          tg_preset = preset_from_labels labels, tg_question = None, tg_comment_id = None, tg_review_notes = None,
          tg_review_from_scratch = False,
          tg_author_trusted = (can_command (or_empty (jas_str (jget pr ''author_association''))) \<or> has_label labels REVIEW_OPT_IN_LABEL),
          tg_author_login = jas_str (jpath pr [''user'', ''login''])\<rparr>)))"

text \<open>What both readers of comments require of the event.\<close>

definition comment_on_pr :: "json \<Rightarrow> bool" where
  "comment_on_pr body \<longleftrightarrow> jas_str (jget body ''action'') = Some ''created''
    \<and> jas_str (jpath body [''issue'', ''pull_request'', ''url'']) \<noteq> None
    \<and> jas_str (jpath body [''comment'', ''user'', ''type'']) \<noteq> Some ''Bot''"

definition comment_text :: "json \<Rightarrow> string" where
  "comment_text body = trim (or_empty (jas_str (jpath body [''comment'', ''body''])))"

definition comment_trusted :: "json \<Rightarrow> bool" where
  "comment_trusted body = can_command (or_empty (jas_str (jpath body [''comment'', ''author_association''])))"

text \<open>The reason, question, notes and from-scratch flag a comment asks for.\<close>

definition read_comment :: "(string \<Rightarrow> bool) \<Rightarrow> string \<Rightarrow> string list \<Rightarrow> (string \<times> string option \<times> string option \<times> bool) option" where
  "read_comment unicode trimmed handles =
    (if starts_with_command trimmed ''/review'' then Some (''/review'', None, None, False)
     else (case parse_mention_review unicode trimmed handles of
        Some review \<Rightarrow> Some (''/review'', None, Some (mr_notes review), mr_from_scratch review)
      | None \<Rightarrow> map_option (\<lambda>question. (''ask'', Some question, None, False)) (parse_ask unicode trimmed handles)))"

definition parse_issue_comment :: "(string \<Rightarrow> bool) \<Rightarrow> json \<Rightarrow> string list \<Rightarrow> Trigger option" where
  "parse_issue_comment unicode body handles =
    (if \<not> comment_on_pr body then None
     else Option.bind (read_comment unicode (comment_text body) handles) (\<lambda>(reason, question, notes, from_scratch).
       Option.bind (jas_u64 (jpath body [''comment'', ''id''])) (\<lambda>comment_id.
       Option.bind (jas_str (jpath body [''repository'', ''full_name''])) (\<lambda>repository.
       Option.bind (jas_u64 (jpath body [''issue'', ''number''])) (\<lambda>number.
       Some \<lparr>tg_repository = repository, tg_pr_number = number, tg_reason = reason,
         tg_trigger_fingerprint = Some (''cmd:'' @ int_str comment_id),
         tg_preset = preset_from_labels (jpath body [''issue'', ''labels'']), tg_question = question,
         tg_comment_id = Some comment_id, tg_review_notes = notes, tg_review_from_scratch = from_scratch,
         tg_author_trusted = comment_trusted body, tg_author_login = jas_str (jpath body [''comment'', ''user'', ''login''])\<rparr>)))))"

definition parse_trigger :: "(string \<Rightarrow> bool) \<Rightarrow> string \<Rightarrow> json \<Rightarrow> string list \<Rightarrow> Trigger option" where
  "parse_trigger unicode event body handles =
    (if event = ''pull_request'' then parse_pull_request body
     else if event = ''issue_comment'' then parse_issue_comment unicode body handles
     else None)"

definition parse_finding_command :: "(string \<Rightarrow> bool) \<Rightarrow> string \<Rightarrow> json \<Rightarrow> string list \<Rightarrow> FindingCommand option" where
  "parse_finding_command unicode event body handles =
    (if event \<noteq> ''issue_comment'' \<or> \<not> comment_on_pr body then None
     else Option.bind (parse_verb unicode (comment_text body) handles) (\<lambda>(verb, stable_id, reason).
       Option.bind (jas_str (jpath body [''repository'', ''full_name''])) (\<lambda>repository.
       Option.bind (jas_u64 (jpath body [''issue'', ''number''])) (\<lambda>number.
       Option.bind (jas_u64 (jpath body [''comment'', ''id''])) (\<lambda>comment_id.
       Some \<lparr>fc_repository = repository, fc_pr_number = number, fc_verb = verb, fc_stable_id = stable_id, fc_reason = reason,
         fc_comment_id = comment_id, fc_author_trusted = comment_trusted body,
         fc_author_login = jas_str (jpath body [''comment'', ''user'', ''login''])\<rparr>)))))"

section \<open>Angles and prompts\<close>

definition preset_angles :: "string \<Rightarrow> string list option" where
  "preset_angles preset =
    (if preset = ''lite'' then Some [''correctness'']
     else if preset = ''quick'' then Some [''correctness'', ''security'', ''integration'']
     else if preset = ''standard'' then Some [''correctness'', ''architecture'', ''security'', ''testing'', ''docs'']
     else if preset = ''full'' then Some [''correctness'', ''architecture'', ''security'', ''testing'', ''docs'', ''performance'', ''spec'']
     else None)"

definition pick_preset :: "string option \<Rightarrow> string option \<Rightarrow> string" where
  "pick_preset label_preset configured_preset =
    (case find (\<lambda>preset. preset_angles preset \<noteq> None) (List.map_filter id [label_preset, configured_preset]) of
      Some preset \<Rightarrow> preset | None \<Rightarrow> DEFAULT_PRESET)"

text \<open>The separator is an arrow (U+2192) between spaces.\<close>

definition ARROW :: string where
  "ARROW = [CHR '' '', CHR 0xE2, CHR 0x86, CHR 0x92, CHR '' '']"

definition deal :: "nat \<Rightarrow> string list \<Rightarrow> string list list" where
  "deal n angles = fold (\<lambda>(i, angle) assigned. assigned[i mod n := assigned ! (i mod n) @ [angle]])
    (enumerate 0 angles) (replicate n [])"

definition participating :: "string list \<Rightarrow> string list \<Rightarrow> string list" where
  "participating rs angles = (if length angles \<le> length rs then take (length angles) rs else rs)"

definition assignment_line :: "string \<times> string list \<Rightarrow> string" where
  "assignment_line = (\<lambda>(reviewer, angles). ''- '' @ reviewer @ ARROW @ join '', '' angles)"

definition assign_angles :: "string list \<Rightarrow> string list \<Rightarrow> string list \<times> int \<times> string" where
  "assign_angles bots_of angles =
    (case bots_of of
      [] \<Rightarrow> ([], 0, [])
    | chair # rs \<Rightarrow>
        if rs = [] then ([chair], 0, [])
        else let ps = participating rs angles;
                 lines = map assignment_line (zip ps (deal (length ps) angles));
                 effective = chair # ps
             in (effective, max (int (length effective) - 1) 0,
                 ''Review focus assignment:'' @ [CHR 0x0A] @ join [CHR 0x0A] lines))"

definition angle_for :: "string \<Rightarrow> string \<Rightarrow> string option" where
  "angle_for assignment reviewer = find_map (\<lambda>line.
    Option.bind (strip_prefix ''- '' (trim line)) (\<lambda>rest.
    Option.bind (split_once_str ARROW rest) (\<lambda>(bot, angle).
    if trim bot = reviewer then Some (trim angle) else None))) (str_lines assignment)"

definition rereview_context_block :: "Trigger \<Rightarrow> string" where
  "rereview_context_block t =
    (if tg_review_notes t = None \<and> \<not> tg_review_from_scratch t then []
     else [CHR 0x0A, CHR 0x0A] @ REREVIEW_CONTEXT_START @ [CHR 0x0A]
       @ (if tg_review_from_scratch t then ''Mode: full review from scratch'' @ [CHR 0x0A] else [])
       @ (case tg_review_notes t of
            None \<Rightarrow> []
          | Some notes \<Rightarrow> ''Author fix notes:'' @ [CHR 0x0A] @ notes @ (if ends_with [CHR 0x0A] notes then [] else [CHR 0x0A]))
       @ REREVIEW_CONTEXT_END)"

definition render_review_prompt :: "Templates \<Rightarrow> Trigger \<Rightarrow> string \<Rightarrow> string" where
  "render_review_prompt tm t assignment =
    replace_str ''{{ANGLE_ASSIGNMENT}}'' assignment (replace_str ''{{TITLE}}'' []
      (replace_str ''{{NUM}}'' (int_str (tg_pr_number t)) (replace_str ''{{REPO}}'' (tg_repository t) (review_trigger_template tm))))
    @ rereview_context_block t"

definition render_ask_prompt :: "Templates \<Rightarrow> Trigger \<Rightarrow> string" where
  "render_ask_prompt tm t =
    replace_str ''{{QUESTION}}'' (or_empty (tg_question t))
      (replace_str ''{{NUM}}'' (int_str (tg_pr_number t)) (replace_str ''{{REPO}}'' (tg_repository t) (ask_trigger_template tm)))"

definition mention_text :: "string option \<Rightarrow> string" where
  "mention_text bot_mention = (case bot_mention of
      Some handle \<Rightarrow> ''@'' @ dropWhile (\<lambda>c. c = CHR ''@'') handle | None \<Rightarrow> ''@zeabur-council'')"

definition chair_task :: "Templates \<Rightarrow> Trigger \<Rightarrow> int \<Rightarrow> string option \<Rightarrow> string" where
  "chair_task tm t round bot_mention =
    replace_str ''{{REREVIEW_CONTEXT}}'' (rereview_context_block t)
      (replace_str ''{{BOT_MENTION}}'' (mention_text bot_mention)
      (replace_str ''{{ROUND}}'' (int_str round)
      (replace_str ''{{NUM}}'' (int_str (tg_pr_number t)) (replace_str ''{{REPO}}'' (tg_repository t) (chair_task_template tm)))))"

definition reviewer_task :: "Templates \<Rightarrow> Trigger \<Rightarrow> string \<Rightarrow> string \<Rightarrow> string" where
  "reviewer_task tm t assignment reviewer =
    replace_str ''{{DIFF_NOTE}}'' (rereview_context_block t)
      (replace_str ''{{ANGLE}}'' (case angle_for assignment reviewer of Some a \<Rightarrow> a | None \<Rightarrow> ''correctness'')
      (replace_str ''{{NUM}}'' (int_str (tg_pr_number t)) (replace_str ''{{REPO}}'' (tg_repository t) (reviewer_task_template tm))))"

text \<open>A map in key order, as the code's ordered map iterates.\<close>

fun put_key :: "string \<Rightarrow> string \<Rightarrow> (string \<times> string) list \<Rightarrow> (string \<times> string) list" where
  "put_key k v [] = [(k, v)]"
| "put_key k v ((k', v') # m) = (if k = k' then (k, v) # m else if k < k' then (k, v) # (k', v') # m else (k', v') # put_key k v m)"

definition role_tasks :: "Templates \<Rightarrow> Trigger \<Rightarrow> string list \<Rightarrow> string \<Rightarrow> int \<Rightarrow> string option \<Rightarrow> (string \<times> string) list" where
  "role_tasks tm t bots_of assignment round bot_mention =
    (case bots_of of
      [] \<Rightarrow> []
    | chair # rs \<Rightarrow> fold (\<lambda>reviewer. put_key reviewer (reviewer_task tm t assignment reviewer)) rs
        [(chair, chair_task tm t round bot_mention)])"

section \<open>Plans\<close>

definition proposed_writes :: "bool \<Rightarrow> string \<Rightarrow> ProposedWrite list" where
  "proposed_writes is_ask review_mode =
    (if is_ask then [\<lparr>pw_target = ''github_pull_request'', pw_operation = ''create_followup_comment''\<rparr>]
     else [\<lparr>pw_target = ''github_pull_request'', pw_operation = ''create_then_update_round_comment''\<rparr>,
           \<lparr>pw_target = ''github_commit'', pw_operation = ''set_openab_council_status''\<rparr>]
       @ (if review_mode \<noteq> ''status''
          then [\<lparr>pw_target = ''github_pull_request_review'', pw_operation =
            (if review_mode = ''enforce'' then ''submit_approve_or_request_changes'' else ''submit_approve_on_approve'')\<rparr>]
          else []))"

definition plan_trigger_ref :: "Trigger \<Rightarrow> string" where
  "plan_trigger_ref t =
    (if tg_reason t = ''ask''
     then ''github:ask/'' @ tg_repository t @ ''#'' @ int_str (tg_pr_number t)
       @ (case tg_comment_id t of Some comment_id \<Rightarrow> ''@'' @ int_str comment_id | None \<Rightarrow> [])
     else ''github:pr/'' @ tg_repository t @ ''#'' @ int_str (tg_pr_number t))"

text \<open>Roster, quorum, prompt, preset and the task of each participant.\<close>

definition plan_council ::
  "Templates \<Rightarrow> Trigger \<Rightarrow> string list \<Rightarrow> string option \<Rightarrow> int \<Rightarrow> string option
    \<Rightarrow> string list \<times> int \<times> string \<times> string option \<times> (string \<times> string) list" where
  "plan_council tm t configured_roster configured_preset round bot_mention =
    (if tg_reason t = ''ask'' then (take 1 configured_roster, 0, render_ask_prompt tm t, None, [])
     else let preset = pick_preset (tg_preset t) configured_preset in
       (case assign_angles configured_roster (case preset_angles preset of Some as \<Rightarrow> as | None \<Rightarrow> []) of
         (rost, quorum, assignment) \<Rightarrow>
           (rost, quorum, render_review_prompt tm t assignment, Some preset,
            if length rost > 1 then role_tasks tm t rost assignment round bot_mention else [])))"

definition build_plan_for_round ::
  "Templates \<Rightarrow> string \<Rightarrow> Trigger \<Rightarrow> string list \<Rightarrow> string option \<Rightarrow> string \<Rightarrow> int \<Rightarrow> string option \<Rightarrow> SessionPlan" where
  "build_plan_for_round tm delivery_id t configured_roster configured_preset review_mode round bot_mention =
    (let is_ask = (tg_reason t = ''ask''); trigger_ref = plan_trigger_ref t;
         fingerprint = (if is_ask then Some trigger_ref else tg_trigger_fingerprint t)
     in case plan_council tm t configured_roster configured_preset round bot_mention of
       (rost, quorum_n, prompt, preset, inputs) \<Rightarrow>
         \<lparr>sp_source_delivery_id = delivery_id, sp_repository = tg_repository t, sp_pr_number = tg_pr_number t,
          sp_reason = tg_reason t, sp_preset = preset, sp_title = (if is_ask then ''ask'' else ''council''),
          sp_trigger_ref = trigger_ref, sp_trigger_fingerprint = fingerprint, sp_roster = rost, sp_quorum_n = quorum_n,
          sp_chair_bot = (case rost of [] \<Rightarrow> ''chair'' | c # _ \<Rightarrow> c),
          sp_mode = (if is_ask \<or> length rost \<le> 1 then ''solo'' else ''council''), sp_prompt = prompt,
          sp_recipient_inputs = inputs,
          sp_dedupe = \<lparr>dp_object_key = trigger_ref, dp_fingerprint = fingerprint, dp_same_active_fingerprint = ''dedupe'',
            dp_different_active_fingerprint = (if is_ask then ''distinct_comment_key'' else ''supersede'')\<rparr>,
          sp_terminal_projection = \<lparr>tp_result_identity = trigger_ref, tp_verdict_source = ''terminal_final_message'',
            tp_findings_source = (if is_ask then None else Some ''openab_findings_block'')\<rparr>,
          sp_proposed_writes = proposed_writes is_ask review_mode\<rparr>)"

definition build_plan :: "Templates \<Rightarrow> string \<Rightarrow> Trigger \<Rightarrow> string list \<Rightarrow> string option \<Rightarrow> string \<Rightarrow> SessionPlan" where
  "build_plan tm delivery_id t configured_roster configured_preset review_mode =
    build_plan_for_round tm delivery_id t configured_roster configured_preset review_mode 1 None"

section \<open>Commands and triggers\<close>

lemma strip_ci_wordD:
  assumes "strip_ci_word text word = Some rest" and "to_ascii_lowercase word = word"
  shows "to_ascii_lowercase (take (length word) text) = word"
  using assms by (auto simp: strip_ci_word_def get_to_def eq_ignore_ascii_case_def Let_def split: option.splits if_splits)

text \<open>The command words differ within their first three letters.\<close>

lemma strip_ci_prefix:
  assumes "strip_ci_word text w = Some r" and "w \<in> {''dismiss'', ''waive'', ''reopen'', ''review'', ''full''}"
  shows "take 3 w = to_ascii_lowercase (take 3 text)"
proof -
  have "to_ascii_lowercase w = w" "3 \<le> length w" using assms(2) by (auto simp: to_ascii_lowercase_def ascii_lower_def)
  then show ?thesis
    using strip_ci_wordD [OF assms(1), THEN arg_cong [where f = "take 3"]]
    by (simp add: to_ascii_lowercase_def take_map min_def)
qed

lemma strip_ci_word_unique:
  assumes "strip_ci_word text w = Some r" and "strip_ci_word text w' = Some r'"
    and "w \<in> {''dismiss'', ''waive'', ''reopen''}" and "w' \<in> {''review'', ''full''}"
  shows False
proof -
  have "take 3 w = take 3 w'" using strip_ci_prefix [OF assms(1)] strip_ci_prefix [OF assms(2)] assms(3, 4) by auto
  moreover have "take 3 w \<in> {''dis'', ''wai'', ''reo''}" using assms(3) by auto
  moreover have "take 3 w' \<in> {''rev'', ''ful''}" using assms(4) by auto
  ultimately show ?thesis by auto
qed

lemma parse_verbD:
  assumes "parse_verb u comment handles = Some (verb, fid, reason)"
  shows "\<exists>rest r. leading_mention u comment handles = Some rest \<and> strip_ci_word rest verb = Some r
    \<and> verb \<in> {''dismiss'', ''waive'', ''reopen''} \<and> finding_id fid"
  using assms unfolding parse_verb_def
  by (auto simp: Let_def split: Option.bind_splits option.splits if_splits prod.splits)

lemma mention_no_command:
  assumes "leading_mention u comment handles = Some rest" and "command \<noteq> []" and "hd command \<noteq> CHR ''@''"
  shows "\<not> starts_with_command comment command"
  using assms by (cases command; cases comment)
    (auto simp: leading_mention_def starts_with_command_def strip_prefix_def split: Option.bind_splits if_splits)

lemma verb_word_no_trigger:
  assumes m: "leading_mention u comment handles = Some rest" and w: "strip_ci_word rest verb = Some r"
    and v: "verb \<in> {''dismiss'', ''waive'', ''reopen''}"
  shows "read_comment u comment handles = None"
proof -
  have other: "strip_ci_word rest word = None" if "word \<in> {''review'', ''full''}" for word
    using strip_ci_word_unique [OF w _ v that] by (cases "strip_ci_word rest word") blast+
  have "parse_mention_review u comment handles = None" by (simp add: parse_mention_review_def m other)
  moreover have "parse_ask u comment handles = None"
    using mention_no_command [OF m, of "''/ask''"] v w by (auto simp: parse_ask_def m)
  ultimately show ?thesis using mention_no_command [OF m, of "''/review''"] by (simp add: read_comment_def)
qed

lemma verb_is_no_trigger: "parse_verb u comment handles = Some (verb, fid, reason) \<Longrightarrow> read_comment u comment handles = None"
  using parse_verbD verb_word_no_trigger by blast

text \<open>A command whose finding id is mistyped is read by nobody: it is no command, no review request and no question.\<close>

lemma mistyped_command_is_silent:
  assumes "leading_mention u (comment_text body) handles = Some rest" and "strip_ci_word rest verb = Some r"
    and "verb \<in> {''dismiss'', ''waive'', ''reopen''}" and "parse_verb u (comment_text body) handles = None"
  shows "parse_finding_command u ''issue_comment'' body handles = None \<and> parse_trigger u ''issue_comment'' body handles = None"
  using verb_word_no_trigger [OF assms(1-3)] assms(4)
  by (simp add: parse_finding_command_def parse_trigger_def parse_issue_comment_def)

section \<open>Rendering\<close>

lemma replace_head:
  assumes "pat \<noteq> []" and "c \<noteq> hd pat"
  shows "\<exists>u. replace_str pat by (c # s) = c # u"
proof -
  have "\<not> starts_with pat (c # s)" using assms by (cases pat) auto
  then have "find_str pat (c # s) = map_option Suc (find_str pat s)" by (simp del: starts_with.simps)
  then show ?thesis
    by (cases "find_str pat s") (simp_all add: replace_str_def split_str.simps [of pat "c # s"] assms(1) join_def)
qed

text \<open>A template whose first character is neither white space nor a placeholder renders to a non-blank text.\<close>

definition solid :: "string \<Rightarrow> bool" where
  "solid s \<longleftrightarrow> s \<noteq> [] \<and> plain (hd s) \<and> hd s \<noteq> CHR ''{''"

lemma solid_replace: "solid s \<Longrightarrow> pat \<noteq> [] \<Longrightarrow> hd pat = CHR ''{'' \<Longrightarrow> solid (replace_str pat by s)"
  using replace_head [of pat "hd s" "by" "tl s"] by (cases s) (auto simp: solid_def)

lemma skip_ws_rev_keeps:
  assumes "plain c" and "skip_ws_rev (s @ [c]) = Some t"
  shows "\<exists>u. t = u @ [c] \<and> skip_ws_rev s = Some u"
  using assms
  by (cases s; cases "tl s"; cases "tl (tl s)")
    (auto simp: plain_def ws2_def ws3_def split: if_splits list.splits)

lemma trim_rev_plain: "plain c \<Longrightarrow> trim_rev (s @ [c]) \<noteq> []"
proof (induction s rule: length_induct)
  case (1 s)
  show ?case
  proof (cases "skip_ws_rev (s @ [c])")
    case None
    then show ?thesis by (simp add: trim_rev.simps [of "s @ [c]"] del: skip_ws_rev.simps)
  next
    case (Some t)
    then obtain u where u: "t = u @ [c]" "skip_ws_rev s = Some u" using skip_ws_rev_keeps [OF 1(2)] by blast
    with 1 skip_ws_rev_shorter [OF u(2)] have "trim_rev t \<noteq> []" by blast
    with Some show ?thesis by (simp add: trim_rev.simps [of "s @ [c]"] del: skip_ws_rev.simps)
  qed
qed

lemma solid_trim: "solid s \<Longrightarrow> trim s \<noteq> []"
proof -
  assume a: "solid s"
  then obtain c u where s: "s = c # u" and c: "plain c" by (cases s) (auto simp: solid_def)
  have "trim_start s = s" unfolding s by (rule trim_start_id) (rule skip_ws_plain [OF c])
  moreover have "trim_rev (rev s) \<noteq> []" unfolding s using trim_rev_plain [OF c, of "rev u"] by simp
  ultimately show ?thesis by (simp add: trim_def trim_end_def)
qed

lemma solid_tasks:
  "solid (chair_task_template tm) \<Longrightarrow> solid (chair_task tm t round m)"
  "solid (reviewer_task_template tm) \<Longrightarrow> solid (reviewer_task tm t as r)"
  unfolding chair_task_def reviewer_task_def by (simp_all add: solid_replace)

lemma map_of_put_key: "map_of (put_key k v m) = (map_of m)(k \<mapsto> v)"
  by (induction k v m rule: put_key.induct) auto

lemma set_put_key: "set (put_key k v m) \<subseteq> insert (k, v) (set m)"
  by (induction k v m rule: put_key.induct) auto

lemma put_keys:
  "set (fold (\<lambda>r. put_key r (f r)) rs m) \<subseteq> (\<lambda>r. (r, f r)) ` set rs \<union> set m"
  "dom (map_of (fold (\<lambda>r. put_key r (f r)) rs m)) = set rs \<union> dom (map_of m)"
proof (induction rs arbitrary: m)
  case (Cons r rs)
  { case 1 show ?case using Cons(1) [of "put_key r (f r) m"] set_put_key [of r "f r" m] by auto }
  { case 2 show ?case using Cons(2) [of "put_key r (f r) m"] by (auto simp: map_of_put_key) }
qed auto

section \<open>Plans the control plane accepts\<close>

lemma recipient_ok:
  "(\<forall>(k, v) \<in> set m. k \<in> set bs \<and> trim v \<noteq> []) \<Longrightarrow> recipient_refusal x y bs m = None"
  by (induction x y bs m rule: recipient_refusal.induct) auto

lemma participating_sub: "set (participating rs as) \<subseteq> set rs" "distinct rs \<Longrightarrow> distinct (participating rs as)"
  by (auto simp: participating_def dest: in_set_takeD)

lemma tasks_ok:
  assumes "solid (chair_task_template tm)" and "solid (reviewer_task_template tm)"
  shows "(\<forall>(k, v) \<in> set (role_tasks tm t rost as n m). k \<in> set rost \<and> trim v \<noteq> [])
    \<and> dom (map_of (role_tasks tm t rost as n m)) = set rost"
proof (cases rost)
  case (Cons c rs)
  have "trim (chair_task tm t n m) \<noteq> []" "trim (reviewer_task tm t as r) \<noteq> []" for r
    using solid_trim [OF solid_tasks(1) [OF assms(1)]] solid_trim [OF solid_tasks(2) [OF assms(2)]] by blast+
  then have "k \<in> set rost \<and> trim v \<noteq> []" if "(k, v) \<in> set (role_tasks tm t rost as n m)" for k v
    using subsetD [OF put_keys(1) that [unfolded role_tasks_def Cons list.case]] by (auto simp: Cons)
  moreover have "dom (map_of (role_tasks tm t rost as n m)) = set rost" by (simp add: role_tasks_def Cons put_keys(2))
  ultimately show ?thesis by blast
qed (simp add: role_tasks_def)

text \<open>The council of a plan: a chair and reviewers of the configured roster, each with a task.\<close>

lemma plan_council_ok:
  assumes "plan_council tm t (chair # rs) preset n m = (rost, quorum, prompt, p, inputs)"
    and "solid (chair_task_template tm)" and "solid (reviewer_task_template tm)"
  shows "\<exists>ps. rost = chair # ps \<and> set ps \<subseteq> set rs \<and> (distinct rs \<longrightarrow> distinct ps) \<and> 0 \<le> quorum \<and> quorum \<le> int (length ps)
    \<and> (\<forall>(k, v) \<in> set inputs. k \<in> set rost \<and> trim v \<noteq> []) \<and> (inputs \<noteq> [] \<longrightarrow> dom (map_of inputs) = set rost)"
proof (cases "tg_reason t = ''ask''")
  case True
  with assms(1) show ?thesis by (auto simp: plan_council_def)
next
  case False
  let ?as = "case preset_angles (pick_preset (tg_preset t) preset) of Some as \<Rightarrow> as | None \<Rightarrow> []"
  obtain ro q asg where a: "assign_angles (chair # rs) ?as = (ro, q, asg)" by (metis prod.exhaust)
  have r: "rost = ro" "quorum = q" "inputs = (if length ro > 1 then role_tasks tm t ro asg n m else [])"
    using assms(1) [unfolded plan_council_def Let_def a] False by auto
  have "\<exists>ps. ro = chair # ps \<and> set ps \<subseteq> set rs \<and> (distinct rs \<longrightarrow> distinct ps) \<and> 0 \<le> q \<and> q \<le> int (length ps)"
    using a participating_sub by (auto simp: assign_angles_def Let_def split: if_splits)
  with r tasks_ok [OF assms(2, 3), of t ro asg n m] show ?thesis by auto
qed

text \<open>
  C10. Every session the controller plans is one the control plane opens: for any trigger, preset and
  review mode, the planned action passes the validation of the action interpreter exactly when the
  configured roster is not empty, provided its bots are registered and named once and the task
  templates are not blank. So the quorum is within reach, the chair is a member, the mode is known,
  and every participant has a task.
\<close>

theorem planned_session_is_accepted:
  assumes "distinct configured" and "\<forall>b \<in> set configured. bot_of b d \<noteq> None"
    and "solid (chair_task_template tm)" and "solid (reviewer_task_template tm)"
  shows "validate_open_session (open_session_action (build_plan_for_round tm delivery t configured preset mode n m)) d = None
    \<longleftrightarrow> configured \<noteq> []"
proof (cases configured)
  case Nil
  then show ?thesis
    by (simp add: validate_open_session_def or_else_None open_session_action_def build_plan_for_round_def plan_council_def
        assign_angles_def Let_def split: prod.split)
next
  case (Cons chair rs)
  obtain rost q pr p inputs where c: "plan_council tm t configured preset n m = (rost, q, pr, p, inputs)"
    by (metis prod.exhaust)
  obtain ps where ps: "rost = chair # ps" "set ps \<subseteq> set rs" "distinct ps" "0 \<le> q" "q \<le> int (length ps)"
    and inp: "\<forall>(k, v) \<in> set inputs. k \<in> set rost \<and> trim v \<noteq> []" "inputs \<noteq> [] \<Longrightarrow> dom (map_of inputs) = set rost"
    using plan_council_ok [OF c [unfolded Cons] assms(3, 4)] assms(1) Cons by auto
  have "chair \<notin> set ps" using ps(2) assms(1) Cons by auto
  then have cap: "filter (\<lambda>b. b \<noteq> chair) rost = ps" using ps(1) by (auto simp: filter_id_conv)
  have "roster_refusal d [] rost = None" using assms(2) ps(1-3) Cons \<open>chair \<notin> set ps\<close> by (auto simp: roster_ok)
  moreover have "lookup ''council'' \<noteq> None" "lookup ''solo'' \<noteq> None" by (simp_all add: lookup_def)
  moreover have "recipient_refusal ''open_session'' ''non-roster'' rost inputs = None" by (rule recipient_ok [OF inp(1)])
  moreover have "map_of inputs b \<noteq> None" if "inputs \<noteq> []" "b \<in> set rost" for b using inp(2) [OF that(1)] that(2) by blast
  moreover let ?act = "open_session_action (build_plan_for_round tm delivery t configured preset mode n m)"
  have "osa_roster ?act = rost" "osa_quorum_n ?act = q" "osa_chair_bot ?act = Some chair" "osa_recipient_inputs ?act = inputs"
    "osa_mode ?act \<in> {''solo'', ''council''}"
    using ps(1) by (simp_all add: open_session_action_def build_plan_for_round_def c Let_def)
  ultimately have "validate_open_session ?act d = None"
    using ps cap by (auto simp: validate_open_session_def or_else_None reviewer_capacity_def count_where_def list_ex_iff)
  with Cons show ?thesis by simp
qed

section \<open>The focus assignment\<close>

lemma deal_snoc:
  "deal n (as @ [a]) = (deal n as)[length as mod n := deal n as ! (length as mod n) @ [a]]"
  by (simp add: deal_def enumerate_append_eq)

lemma length_deal [simp]: "length (deal n as) = n"
  by (induction as rule: rev_induct) (simp_all add: deal_snoc, simp add: deal_def)

lemma mset_concat_update:
  "i < length xss \<Longrightarrow> mset (concat (xss[i := xss ! i @ [a]])) = add_mset a (mset (concat xss))"
  by (induction xss arbitrary: i) (auto split: nat.split)

lemma deal_all: "0 < n \<Longrightarrow> mset (concat (deal n as)) = mset as"
proof (induction as rule: rev_induct)
  case Nil
  then show ?case by (simp add: deal_def)
next
  case (snoc a as)
  then show ?case by (simp add: deal_snoc mset_concat_update)
qed

lemma deal_nonempty: "i < n \<Longrightarrow> i < length as \<Longrightarrow> deal n as ! i \<noteq> []"
proof (induction as rule: rev_induct)
  case (snoc a as)
  then show ?case by (cases "i = length as") (auto simp: deal_snoc nth_list_update)
qed simp

text \<open>Printable ASCII without spaces: what bot identifiers look like.\<close>

definition ascii_word :: "string \<Rightarrow> bool" where
  "ascii_word w \<longleftrightarrow> w \<noteq> [] \<and> list_all (\<lambda>c. 32 < (of_char c :: nat) \<and> (of_char c :: nat) < 127) w"

lemma ascii_char:
  "32 < (of_char c :: nat) \<Longrightarrow> (of_char c :: nat) < 127 \<Longrightarrow> plain c \<and> \<not> is_continuation c \<and> c \<noteq> CHR 0x0A \<and> c \<noteq> CHR '' '' \<and> c \<noteq> CHR 0x0D"
  by (auto simp: plain_def ws1_def is_continuation_def)

lemma ascii_wordD:
  assumes "ascii_word w"
  shows "w \<noteq> []" "plain (hd w)" "plain (last w)" "\<not> is_continuation (last w)" "CHR 0x0A \<notin> set w" "CHR '' '' \<notin> set w" "last w \<noteq> CHR 0x0D"
proof -
  have c: "plain c \<and> \<not> is_continuation c \<and> c \<noteq> CHR 0x0A \<and> c \<noteq> CHR '' '' \<and> c \<noteq> CHR 0x0D" if "c \<in> set w" for c
    using assms that ascii_char [of c] by (simp add: ascii_word_def list_all_iff)
  show w: "w \<noteq> []" using assms by (simp add: ascii_word_def)
  show "plain (hd w)" "plain (last w)" "\<not> is_continuation (last w)" "last w \<noteq> CHR 0x0D"
    using c [OF hd_in_set [OF w]] c [OF last_in_set [OF w]] by simp_all
  show "CHR 0x0A \<notin> set w" "CHR '' '' \<notin> set w" using c by blast+
qed

lemma trim_word: "ascii_word w \<Longrightarrow> trim w = w"
  using trim_plain ascii_wordD by blast

lemma join_words:
  assumes "as \<noteq> []" and "\<forall>a \<in> set as. ascii_word a"
  shows "join '', '' as \<noteq> []" "plain (hd (join '', '' as))" "plain (last (join '', '' as))" "\<not> is_continuation (last (join '', '' as))"
    "CHR 0x0A \<notin> set (join '', '' as)" "last (join '', '' as) \<noteq> CHR 0x0D"
proof -
  obtain a bs where as: "as = a # bs" using assms(1) by (cases as) auto
  have hd: "hd (join '', '' as) = hd a" using assms(2) ascii_wordD(1) [of a] by (simp add: as join_def)
  have last: "\<exists>b \<in> set as. last (join '', '' as) = last b"
    using assms(2) ascii_wordD(1) by (cases bs rule: rev_cases) (auto simp: as join_def)
  show "join '', '' as \<noteq> []" using assms(2) ascii_wordD(1) [of a] by (simp add: as join_def)
  show "plain (hd (join '', '' as))" using assms(2) ascii_wordD(2) [of a] hd by (simp add: as)
  show "plain (last (join '', '' as))" "\<not> is_continuation (last (join '', '' as))" "last (join '', '' as) \<noteq> CHR 0x0D"
    using last assms(2) ascii_wordD by fastforce+
  show "CHR 0x0A \<notin> set (join '', '' as)" using assms(2) ascii_wordD(5) by (auto simp: as join_def)
qed

text \<open>One line of the assignment reads back as it was written.\<close>

lemma read_line:
  assumes "ascii_word r" and "as \<noteq> []" and "\<forall>a \<in> set as. ascii_word a"
  shows "Option.bind (strip_prefix ''- '' (trim (assignment_line (r, as)))) (\<lambda>rest.
    Option.bind (split_once_str ARROW rest) (\<lambda>(bot, angle). if trim bot = x then Some (trim angle) else None))
    = (if r = x then Some (join '', '' as) else None)"
proof -
  let ?j = "join '', '' as" and ?l = "assignment_line (r, as)"
  note j = join_words [OF assms(2, 3)]
  have l: "?l = ''- '' @ r @ ARROW @ ?j" by (simp add: assignment_line_def)
  have "trim ?l = ?l" by (rule trim_plain) (use j in \<open>simp_all add: l plain_def ws1_def\<close>)
  moreover have "strip_prefix ''- '' ?l = Some (r @ ARROW @ ?j)" by (simp add: l strip_prefix_def)
  moreover have "filter (\<lambda>x. x = CHR '' '') r = []" using ascii_wordD(6) [OF assms(1)] by (auto simp: filter_empty_conv)
  then have "\<not> contains_str ARROW (r @ butlast ARROW)"
    using contains_str_count [of ARROW "r @ butlast ARROW" "CHR '' ''"] by (auto simp: ARROW_def)
  then have "find_str ARROW (r @ ARROW @ ?j) = Some (length r)" by (intro find_str_first) (simp add: ARROW_def)
  then have "split_once_str ARROW (r @ ARROW @ ?j) = Some (r, ?j)" by (simp add: split_once_str_def)
  moreover have "trim ?j = ?j" by (rule trim_plain) (use j in simp_all)
  ultimately show ?thesis using trim_word [OF assms(1)] by simp
qed

lemma lines_joined:
  assumes "\<forall>l \<in> set ls. l \<noteq> [] \<and> CHR 0x0A \<notin> set l \<and> last l \<noteq> CHR 0x0D"
  shows "str_lines (join [CHR 0x0A] ls) = ls"
  using assms
proof (induction ls rule: induct_list012)
  case (3 l m ls)
  have "join [CHR 0x0A] (l # m # ls) = l @ CHR 0x0A # join [CHR 0x0A] (m # ls)" by (simp add: join_def)
  with 3 show ?case by (simp add: str_lines_append strip_cr_def)
qed (simp_all add: join_def str_lines_one)

lemma find_map_assoc:
  assumes "\<And>p. p \<in> set ps \<Longrightarrow> f (l p) = (if fst p = x then Some (g (snd p)) else None)"
  shows "find_map f (map l ps) = map_option g (map_of ps x)"
  using assms by (induction ps) auto

lemma angle_for_assignment:
  assumes "\<forall>(r, as) \<in> set ps. ascii_word r \<and> as \<noteq> [] \<and> (\<forall>a \<in> set as. ascii_word a)"
  shows "angle_for (''Review focus assignment:'' @ [CHR 0x0A] @ join [CHR 0x0A] (map assignment_line ps)) x
    = map_option (join '', '') (map_of ps x)"
proof -
  let ?h = "''Review focus assignment:''"
  have line: "l \<noteq> [] \<and> CHR 0x0A \<notin> set l \<and> last l \<noteq> CHR 0x0D" if l: "l \<in> set (map assignment_line ps)" for l
  proof -
    obtain r as where p: "(r, as) \<in> set ps" "l = assignment_line (r, as)" using l by auto
    then have w: "ascii_word r" "as \<noteq> []" "\<forall>a \<in> set as. ascii_word a" using assms by auto
    from p(2) join_words [OF w(2, 3)] ascii_wordD(5) [OF w(1)] show ?thesis by (auto simp: assignment_line_def ARROW_def)
  qed
  have "str_lines (?h @ [CHR 0x0A] @ join [CHR 0x0A] (map assignment_line ps)) = ?h # map assignment_line ps"
    using lines_joined [of "map assignment_line ps"] line by (simp add: str_lines_append [of ?h, simplified] strip_cr_def)
  moreover have "strip_prefix ''- '' (trim ?h) = None" by code_simp
  moreover note find_map_assoc [of ps _ assignment_line x "join '', ''"]
  ultimately show ?thesis
    unfolding angle_for_def using read_line assms by (subst find_map_assoc [of ps _ assignment_line x "join '', ''", symmetric]) auto
qed

lemma preset_words: "preset_angles preset = Some as \<Longrightarrow> as \<noteq> [] \<and> (\<forall>a \<in> set as. ascii_word a)"
  by (auto simp: preset_angles_def ascii_word_def split: if_splits)

text \<open>
  C25. The focus of every reviewer is what the plan assigned: for each preset, every angle is dealt to
  exactly one participating reviewer, every participating reviewer gets at least one, the quorum is
  the number of participating reviewers, and the focus read back from the text of the assignment for
  the task of a reviewer is exactly the list dealt to that reviewer.
\<close>

theorem focus_reads_back:
  assumes "preset_angles preset = Some as" and "rs \<noteq> []" and "distinct rs" and "\<forall>r \<in> set rs. ascii_word r"
    and "assign_angles (chair # rs) as = (rost, q, asg)"
  shows "\<exists>ps dealt. rost = chair # ps \<and> q = int (length ps) \<and> set ps \<subseteq> set rs \<and> length dealt = length ps
    \<and> mset (concat dealt) = mset as
    \<and> (\<forall>i < length ps. dealt ! i \<noteq> [] \<and> angle_for asg (ps ! i) = Some (join '', '' (dealt ! i)))"
proof -
  let ?ps = "participating rs as" and ?d = "deal (length (participating rs as)) as"
  note w = preset_words [OF assms(1)]
  have n: "0 < length ?ps" "length ?ps \<le> length as" using assms(2) w by (auto simp: participating_def)
  have asg: "rost = chair # ?ps" "q = int (length ?ps)"
    "asg = ''Review focus assignment:'' @ [CHR 0x0A] @ join [CHR 0x0A] (map assignment_line (zip ?ps ?d))"
    using assms(2, 5) by (auto simp: assign_angles_def Let_def)
  have all: "mset (concat ?d) = mset as" by (rule deal_all [OF n(1)])
  then have sub: "set (concat ?d) = set as" by (metis set_mset_mset)
  have ne: "?d ! i \<noteq> []" if "i < length ?ps" for i using deal_nonempty [OF that] that n(2) by simp
  have pair: "ascii_word r \<and> bs \<noteq> [] \<and> (\<forall>a \<in> set bs. ascii_word a)" if z: "(r, bs) \<in> set (zip ?ps ?d)" for r bs
  proof -
    obtain i where i: "i < length ?ps" "r = ?ps ! i" "bs = ?d ! i" using z by (auto simp: set_zip)
    have "r \<in> set rs" using participating_sub(1) [of rs as] nth_mem [OF i(1)] i(2) by auto
    have "bs \<in> set ?d" using nth_mem [of i ?d] i(1, 3) by simp
    then have "set bs \<subseteq> set (concat ?d)" by auto
    then have "\<forall>a \<in> set bs. ascii_word a" using w sub by auto
    moreover have "bs \<noteq> []" using ne [OF i(1)] i(3) by simp
    ultimately show ?thesis using assms(4) \<open>r \<in> set rs\<close> by simp
  qed
  then have pairs: "\<forall>(r, bs) \<in> set (zip ?ps ?d). ascii_word r \<and> bs \<noteq> [] \<and> (\<forall>a \<in> set bs. ascii_word a)" by blast
  have "angle_for asg (?ps ! i) = Some (join '', '' (?d ! i))" if "i < length ?ps" for i
    unfolding asg(3) angle_for_assignment [OF pairs]
    using map_of_zip_nth [of ?ps ?d i] participating_sub(2) [OF assms(3)] that by simp
  with asg all ne participating_sub(1) [of rs as] show ?thesis by (intro exI [of _ ?ps] exI [of _ ?d]) simp
qed

theorem focus_reads_back_witness:
  "\<exists>asg. assign_angles [''chair'', ''b1'', ''b2''] [''correctness'', ''security'', ''integration''] = ([''chair'', ''b1'', ''b2''], 2, asg)
    \<and> angle_for asg ''b1'' = Some ''correctness, integration''"
proof -
  obtain rost q asg where a: "assign_angles [''chair'', ''b1'', ''b2''] [''correctness'', ''security'', ''integration''] = (rost, q, asg)"
    by (metis prod.exhaust)
  have "preset_angles ''quick'' = Some [''correctness'', ''security'', ''integration'']" by (simp add: preset_angles_def)
  from focus_reads_back [OF this _ _ _ a] obtain ps where ps: "rost = ''chair'' # ps" "q = int (length ps)" by (auto simp: ascii_word_def)
  have "fst (assign_angles [''chair'', ''b1'', ''b2''] [''correctness'', ''security'', ''integration'']) = [''chair'', ''b1'', ''b2'']"
    "angle_for (snd (snd (assign_angles [''chair'', ''b1'', ''b2''] [''correctness'', ''security'', ''integration'']))) ''b1''
      = Some ''correctness, integration''" by code_simp+
  with a ps show ?thesis by simp
qed

text \<open>
  C26. A command on a finding never opens a session: an event that is read as a command to dismiss,
  waive or reopen a finding is not read as a review request or a question, whichever of the two
  readers looks at it first. The finding id it names is an F followed by digits.
\<close>

theorem command_is_no_trigger:
  assumes "parse_finding_command u event body handles = Some cmd"
  shows "parse_trigger u event body handles = None \<and> finding_id (fc_stable_id cmd)
    \<and> fc_verb cmd \<in> {''dismiss'', ''waive'', ''reopen''}"
proof -
  obtain verb fid reason where v: "event = ''issue_comment''" "parse_verb u (comment_text body) handles = Some (verb, fid, reason)"
    and c: "fc_stable_id cmd = fid" "fc_verb cmd = verb"
    using assms by (auto simp: parse_finding_command_def split: if_splits Option.bind_splits)
  have "parse_trigger u event body handles = None"
    using verb_is_no_trigger [OF v(2)] v(1) by (simp add: parse_trigger_def parse_issue_comment_def)
  with parse_verbD [OF v(2)] c show ?thesis by blast
qed

definition dismiss_event :: json where
  "dismiss_event = JObj [(''action'', JStr ''created''), (''issue'', JObj [(''pull_request'', JObj [(''url'', JStr ''u'')]), (''number'', JNum 7)]),
    (''repository'', JObj [(''full_name'', JStr ''o/r'')]),
    (''comment'', JObj [(''id'', JNum 1), (''body'', JStr ''@bot Dismiss f2 not a defect'')])]"

theorem command_is_no_trigger_witness:
  "parse_trigger (\<lambda>_. False) ''issue_comment'' dismiss_event [''bot''] = None
    \<and> parse_finding_command (\<lambda>_. False) ''issue_comment'' dismiss_event [''bot''] \<noteq> None"
proof -
  have "map_option fc_stable_id (parse_finding_command (\<lambda>_. False) ''issue_comment'' dismiss_event [''bot'']) = Some ''F2''" by code_simp
  then obtain cmd where "parse_finding_command (\<lambda>_. False) ''issue_comment'' dismiss_event [''bot''] = Some cmd" by auto
  with command_is_no_trigger [OF this] show ?thesis by simp
qed

section \<open>Comparing two planners\<close>

text \<open>
  The outcome of the planner inside the control plane and of this one, as JSON values: objects list
  their members in key order, as the code's maps iterate.
\<close>

datatype ParityOutcome = Planned ParitySnapshot | Ignored string
datatype MismatchClass = IdentityOrOwnership | Presentation

record ShadowMismatch =
  sm_path :: string
  sm_class :: MismatchClass
  sm_expected :: json
  sm_actual :: json

record ShadowReport =
  sh_comparison_id :: string
  sh_exact_match :: bool
  sh_promotion_blocked :: bool
  sh_identity_or_ownership_mismatches :: nat
  sh_presentation_mismatches :: nat
  sh_mismatches :: "ShadowMismatch list"
  sh_controller :: "ParityOutcome option"

definition PROMPT_PATH :: string where "PROMPT_PATH = ''$.snapshot.open_session.prompt''"

definition classify :: "string \<Rightarrow> MismatchClass" where
  "classify path = (if path = PROMPT_PATH then Presentation else IdentityOrOwnership)"

definition obj_keys :: "(string \<times> json) list \<Rightarrow> (string \<times> json) list \<Rightarrow> string list" where
  "obj_keys e a = sort (remdups (map fst e @ map fst a))"

definition member :: "(string \<times> json) list \<Rightarrow> string \<Rightarrow> json" where
  "member kvs k = (case map_of kvs k of None \<Rightarrow> JNull | Some v \<Rightarrow> v)"

lemma member_size: "k \<in> fst ` set kvs \<Longrightarrow> size (member kvs k) < size (JObj kvs)"
proof -
  assume "k \<in> fst ` set kvs"
  then obtain v where v: "map_of kvs k = Some v" by (metis map_of_eq_None_iff not_None_eq)
  have "(k, v) \<in> set kvs" by (rule map_of_SomeD [OF v])
  then have "size_prod (\<lambda>_. 0) size (k, v) \<le> size_list (size_prod (\<lambda>_. 0) size) kvs" by (rule size_list_estimation') simp
  with v show ?thesis by (simp add: member_def)
qed

lemma member_absent: "k \<notin> fst ` set kvs \<Longrightarrow> member kvs k = JNull"
  by (simp add: member_def map_of_eq_None_iff [THEN iffD2])

text \<open>A key of either object: its two members are together smaller than the objects.\<close>

lemma members_size:
  assumes "k \<in> set (obj_keys e a)"
  shows "size (member e k) + size (member a k) < size (JObj e) + size (JObj a)"
proof -
  have le: "size (member kvs k) \<le> size (JObj kvs)" for kvs
    using member_size [of k kvs] member_absent [of k kvs] by (cases "k \<in> fst ` set kvs") auto
  from assms consider "k \<in> fst ` set e" | "k \<in> fst ` set a" by (auto simp: obj_keys_def)
  then show ?thesis
  proof cases
    case 1
    with member_size [of k e] le [of a] show ?thesis by (intro add_less_le_mono) simp_all
  next
    case 2
    with member_size [of k a] le [of e] show ?thesis by (intro add_le_less_mono) simp_all
  qed
qed

function compare_value :: "string \<Rightarrow> json \<Rightarrow> json \<Rightarrow> ShadowMismatch list" where
  "compare_value path expected actual =
    (case (expected, actual) of
      (JObj e, JObj a) \<Rightarrow> concat (map (\<lambda>k. compare_value (path @ ''.'' @ k) (member e k) (member a k)) (obj_keys e a))
    | _ \<Rightarrow> if expected = actual then []
        else [\<lparr>sm_path = path, sm_class = classify path, sm_expected = expected, sm_actual = actual\<rparr>])"
  by pat_completeness auto
termination
  by (relation "measure (\<lambda>(p, e, a). size e + size a)") (use members_size in \<open>auto simp del: json.size\<close>)

declare compare_value.simps [simp del]

definition dedupe_json :: "DedupeProjection \<Rightarrow> json" where
  "dedupe_json x = JObj [(''different_active_fingerprint'', JStr (dp_different_active_fingerprint x)),
    (''fingerprint'', jopt (dp_fingerprint x)), (''object_key'', JStr (dp_object_key x)),
    (''same_active_fingerprint'', JStr (dp_same_active_fingerprint x))]"

definition terminal_json :: "TerminalProjection \<Rightarrow> json" where
  "terminal_json x = JObj [(''findings_source'', jopt (tp_findings_source x)), (''result_identity'', JStr (tp_result_identity x)),
    (''verdict_source'', JStr (tp_verdict_source x))]"

definition write_json :: "ProposedWrite \<Rightarrow> json" where
  "write_json x = JObj [(''operation'', JStr (pw_operation x)), (''target'', JStr (pw_target x))]"

definition open_members :: "OpenSessionAction \<Rightarrow> (string \<times> json) list" where
  "open_members x = (jfield ''chair_bot'' (map_option JStr (osa_chair_bot x)) @ [(''mode'', JStr (osa_mode x))]
    @ jfield ''prompt'' (if osa_prompt x = [] then None else Some (JStr (osa_prompt x)))
    @ [(''quorum_n'', JNum (osa_quorum_n x))]
    @ jfield ''recipient_inputs'' (if osa_recipient_inputs x = [] then None
        else Some (JObj (map (\<lambda>(k, v). (k, JStr v)) (osa_recipient_inputs x))))
    @ [(''roster'', jstrs (osa_roster x)), (''title'', JStr (osa_title x))]
    @ jfield ''trigger_fingerprint'' (map_option JStr (osa_trigger_fingerprint x))
    @ jfield ''trigger_ref'' (map_option JStr (osa_trigger_ref x)))"

definition open_session_json :: "OpenSessionAction \<Rightarrow> json" where
  "open_session_json x = JObj (open_members x)"

definition snapshot_json :: "ParitySnapshot \<Rightarrow> json" where
  "snapshot_json x = JObj [(''dedupe'', dedupe_json (ps_dedupe x)), (''open_session'', open_session_json (ps_open_session x)),
    (''pr_number'', JNum (ps_pr_number x)), (''preset'', jopt (ps_preset x)),
    (''proposed_writes'', JArr (map write_json (ps_proposed_writes x))), (''reason'', JStr (ps_reason x)),
    (''repository'', JStr (ps_repository x)), (''terminal_projection'', terminal_json (ps_terminal_projection x))]"

fun outcome_json :: "ParityOutcome option \<Rightarrow> json" where
  "outcome_json None = JNull"
| "outcome_json (Some (Planned x)) = JObj [(''outcome'', JStr ''planned''), (''snapshot'', snapshot_json x)]"
| "outcome_json (Some (Ignored r)) = JObj [(''outcome'', JStr ''ignored''), (''reason'', JStr r)]"

definition shadow_compare :: "string \<Rightarrow> ParityOutcome option \<Rightarrow> ParityOutcome option \<Rightarrow> ShadowReport" where
  "shadow_compare comparison_id embedded controller =
    (let mismatches = compare_value ''$'' (outcome_json embedded) (outcome_json controller);
         identity = length (filter (\<lambda>m. sm_class m = IdentityOrOwnership) mismatches)
     in \<lparr>sh_comparison_id = comparison_id, sh_exact_match = (mismatches = []), sh_promotion_blocked = (identity > 0),
        sh_identity_or_ownership_mismatches = identity, sh_presentation_mismatches = length mismatches - identity,
        sh_mismatches = mismatches, sh_controller = controller\<rparr>)"

text \<open>Whether two values differ at most at an allowed path.\<close>

definition agree :: "(string \<Rightarrow> bool) \<Rightarrow> string \<Rightarrow> json \<Rightarrow> json \<Rightarrow> bool" where
  "agree allowed path x y \<longleftrightarrow> (\<forall>m \<in> set (compare_value path x y). allowed (sm_path m))"

lemma mismatch_class: "m \<in> set (compare_value path x y) \<Longrightarrow> sm_class m = classify (sm_path m)"
proof (induction path x y rule: compare_value.induct)
  case (1 path x y)
  then show ?case by (auto simp: compare_value.simps [of path x y] split: json.splits if_splits)
qed

lemma agree_leaf:
  "(\<And>e a. \<not> (x = JObj e \<and> y = JObj a)) \<Longrightarrow> agree ok path x y \<longleftrightarrow> x = y \<or> ok path"
  by (auto simp: agree_def compare_value.simps [of path x y] split: json.splits)

lemma agree_object:
  "agree ok path (JObj e) (JObj a) \<longleftrightarrow> (\<forall>k \<in> set (obj_keys e a). agree ok (path @ ''.'' @ k) (member e k) (member a k))"
  by (auto simp: agree_def compare_value.simps [of path "JObj e"])

lemma agree_null: "agree ok path JNull JNull"
  by (simp add: agree_leaf)

lemma agree_keys:
  assumes "fst ` set e \<union> fst ` set a \<subseteq> set ks"
  shows "agree ok path (JObj e) (JObj a) \<longleftrightarrow> (\<forall>k \<in> set ks. agree ok (path @ ''.'' @ k) (member e k) (member a k))"
proof -
  have "member e k = JNull" "member a k = JNull" if "k \<notin> set (obj_keys e a)" for k
    using that member_absent by (auto simp: obj_keys_def)
  moreover have "set (obj_keys e a) \<subseteq> set ks" using assms by (auto simp: obj_keys_def)
  ultimately show ?thesis unfolding agree_object using agree_null by (metis subsetD)
qed

lemma agree_str [simp]: "agree ok path (JStr x) (JStr y) \<longleftrightarrow> x = y \<or> ok path"
  by (simp add: agree_leaf)

lemma agree_num [simp]: "agree ok path (JNum x) (JNum y) \<longleftrightarrow> x = y \<or> ok path"
  by (simp add: agree_leaf)

lemma agree_arr [simp]: "agree ok path (JArr x) (JArr y) \<longleftrightarrow> x = y \<or> ok path"
  by (simp add: agree_leaf)

lemma agree_opt [simp]: "agree ok path (jopt x) (jopt y) \<longleftrightarrow> x = y \<or> ok path"
  by (subst agree_leaf) (auto simp: jopt_def split: option.splits)

lemma agree_dedupe:
  assumes "\<And>k. \<not> ok (path @ CHR ''.'' # k)"
  shows "agree ok path (dedupe_json x) (dedupe_json y) \<longleftrightarrow> x = y"
proof -
  have "agree ok path (dedupe_json x) (dedupe_json y) \<longleftrightarrow> dp_different_active_fingerprint x = dp_different_active_fingerprint y
    \<and> dp_fingerprint x = dp_fingerprint y \<and> dp_object_key x = dp_object_key y \<and> dp_same_active_fingerprint x = dp_same_active_fingerprint y"
    unfolding dedupe_json_def
    by (subst agree_keys [where ks = "[''different_active_fingerprint'', ''fingerprint'', ''object_key'', ''same_active_fingerprint'']"])
      (simp_all add: member_def assms)
  then show ?thesis by (cases x; cases y) auto
qed

lemma agree_terminal:
  assumes "\<And>k. \<not> ok (path @ CHR ''.'' # k)"
  shows "agree ok path (terminal_json x) (terminal_json y) \<longleftrightarrow> x = y"
proof -
  have "agree ok path (terminal_json x) (terminal_json y) \<longleftrightarrow> tp_findings_source x = tp_findings_source y
    \<and> tp_result_identity x = tp_result_identity y \<and> tp_verdict_source x = tp_verdict_source y"
    unfolding terminal_json_def
    by (subst agree_keys [where ks = "[''findings_source'', ''result_identity'', ''verdict_source'']"]) (simp_all add: member_def assms)
  then show ?thesis by (cases x; cases y) auto
qed

definition ordered_map :: "(string \<times> string) list \<Rightarrow> bool" where
  "ordered_map m \<longleftrightarrow> sorted (map fst m) \<and> distinct (map fst m)"

lemma ordered_map_eq:
  assumes "ordered_map m" "ordered_map m'" and "map_of m = map_of m'"
  shows "m = m'"
proof -
  have "set (map fst m) = set (map fst m')" using assms(3) dom_map_of_conv_image_fst by (metis image_set)
  then have keys: "map fst m = map fst m'" using assms(1, 2) by (intro sorted_distinct_set_unique) (auto simp: ordered_map_def)
  have "map (\<lambda>k. (k, the (map_of m k))) (map fst m) = m" if "ordered_map m" for m
    using that unfolding map_map comp_def by (intro map_idI) (auto simp: ordered_map_def)
  with assms keys show ?thesis by metis
qed

lemma agree_inputs:
  assumes "\<And>k. \<not> ok (path @ CHR ''.'' # k)" and "\<not> ok path" and "ordered_map m" "ordered_map m'"
  shows "agree ok path (if m = [] then JNull else JObj (map (\<lambda>(k, v). (k, JStr v)) m))
      (if m' = [] then JNull else JObj (map (\<lambda>(k, v). (k, JStr v)) m')) \<longleftrightarrow> m = m'"
proof (cases "m = [] \<or> m' = []")
  case True
  with assms(2) show ?thesis by (auto simp: agree_leaf)
next
  case False
  have mem: "member (map (\<lambda>(k, v). (k, JStr v)) xs) k = jopt (map_of xs k)" for xs k
    by (simp add: member_def map_of_map jopt_def split: option.split)
  let ?e = "map (\<lambda>(k, v). (k, JStr v)) m" and ?a = "map (\<lambda>(k, v). (k, JStr v)) m'"
  have "agree ok path (JObj ?e) (JObj ?a) \<longleftrightarrow> (\<forall>k \<in> set (obj_keys ?e ?a). map_of m k = map_of m' k)"
    by (simp add: agree_object mem assms(1))
  also have "\<dots> \<longleftrightarrow> map_of m = map_of m'"
  proof
    assume l: "\<forall>k \<in> set (obj_keys ?e ?a). map_of m k = map_of m' k"
    show "map_of m = map_of m'"
    proof
      fix k
      show "map_of m k = map_of m' k"
      proof (cases "k \<in> fst ` set m \<union> fst ` set m'")
        case True
        then have "k \<in> set (obj_keys ?e ?a)" by (force simp: obj_keys_def)
        with l show ?thesis by blast
      next
        case False
        then show ?thesis by (simp add: map_of_eq_None_iff [THEN iffD2])
      qed
    qed
  qed simp
  also have "\<dots> \<longleftrightarrow> m = m'" using ordered_map_eq [OF assms(3, 4)] by auto
  finally show ?thesis using False by simp
qed

lemma member_append: "member (xs @ ys) k = (if k \<in> fst ` set xs then member xs k else member ys k)"
  by (auto simp: member_def map_add_def map_of_eq_None_iff split: option.splits) (metis map_of_SomeD fst_conv imageI option.distinct(1))+

lemma member_field: "member (jfield n v) k = (if n = k then case v of None \<Rightarrow> JNull | Some x \<Rightarrow> x else JNull)"
  by (simp add: member_def jfield_def split: option.split)

lemma field_keys: "k \<in> fst ` set (jfield n v) \<longleftrightarrow> v \<noteq> None \<and> k = n"
  by (cases v) (auto simp: jfield_def)

lemma member_Cons: "member ((n, v) # kvs) k = (if n = k then v else member kvs k)" "member [] k = JNull"
  by (simp_all add: member_def)

lemma jopt_map: "jopt v = (case map_option JStr v of None \<Rightarrow> JNull | Some x \<Rightarrow> x)"
  by (simp add: jopt_def split: option.split)

lemma open_member:
  "member (open_members x) ''chair_bot'' = jopt (osa_chair_bot x)"
  "member (open_members x) ''mode'' = JStr (osa_mode x)"
  "member (open_members x) ''prompt'' = (if osa_prompt x = [] then JNull else JStr (osa_prompt x))"
  "member (open_members x) ''quorum_n'' = JNum (osa_quorum_n x)"
  "member (open_members x) ''recipient_inputs'' = (if osa_recipient_inputs x = [] then JNull
     else JObj (map (\<lambda>(k, v). (k, JStr v)) (osa_recipient_inputs x)))"
  "member (open_members x) ''roster'' = jstrs (osa_roster x)"
  "member (open_members x) ''title'' = JStr (osa_title x)"
  "member (open_members x) ''trigger_fingerprint'' = jopt (osa_trigger_fingerprint x)"
  "member (open_members x) ''trigger_ref'' = jopt (osa_trigger_ref x)"
  by (simp_all only: open_members_def member_append field_keys member_field member_Cons jopt_map list.set image_insert image_empty
      insert_iff empty_iff fst_conv if_split option.distinct append_Cons append_Nil)
    (simp_all split: option.split)

lemma open_member_keys:
  "fst ` set (open_members x) \<subseteq> set [''chair_bot'', ''mode'', ''prompt'', ''quorum_n'', ''recipient_inputs'', ''roster'', ''title'',
    ''trigger_fingerprint'', ''trigger_ref'']"
proof -
  have "k = n" if "(k, w) \<in> set (jfield n v)" for k w n v using that by (cases v) (auto simp: jfield_def)
  then show ?thesis unfolding open_members_def by fastforce
qed

lemma jstrs_eq: "jstrs xs = jstrs ys \<longleftrightarrow> xs = ys"
proof
  show "jstrs xs = jstrs ys \<Longrightarrow> xs = ys"
    by (simp add: jstrs_def) (metis json.inject(3) map_injective injI)
qed simp

lemma agree_strs: "agree ok path (jstrs xs) (jstrs ys) \<longleftrightarrow> xs = ys \<or> ok path"
  by (subst agree_leaf) (auto simp: jstrs_eq, simp add: jstrs_def)

text \<open>Only the path of the prompt is allowed to differ, and only below an open session.\<close>

lemma agree_open_session:
  assumes "ordered_map (osa_recipient_inputs x)" "ordered_map (osa_recipient_inputs y)"
    and "\<And>k. k \<noteq> ''prompt'' \<Longrightarrow> \<not> ok (path @ CHR ''.'' # k)"
  shows "agree ok path (open_session_json x) (open_session_json y)
    \<longleftrightarrow> (if ok (path @ ''.prompt'') then x\<lparr>osa_prompt := []\<rparr> = y\<lparr>osa_prompt := []\<rparr> else x = y)"
proof -
  have no: "\<not> ok (path @ CHR ''.'' # k @ CHR ''.'' # k')" for k k'
  proof -
    have "k @ CHR ''.'' # k' \<noteq> ''prompt''" by (auto simp: append_eq_Cons_conv)
    with assms(3) [of "k @ CHR ''.'' # k'"] show ?thesis by simp
  qed
  have inp: "agree ok (path @ ''.recipient_inputs'') (member (open_members x) ''recipient_inputs'') (member (open_members y) ''recipient_inputs'')
      \<longleftrightarrow> osa_recipient_inputs x = osa_recipient_inputs y"
    unfolding open_member by (rule agree_inputs [OF _ _ assms(1, 2)])
      (use no [of "''recipient_inputs''"] assms(3) [of "''recipient_inputs''"] in simp_all)
  have prm: "agree ok (path @ ''.prompt'') (member (open_members x) ''prompt'') (member (open_members y) ''prompt'')
      \<longleftrightarrow> osa_prompt x = osa_prompt y \<or> ok (path @ ''.prompt'')"
    unfolding open_member by (subst agree_leaf) auto
  have "agree ok path (open_session_json x) (open_session_json y) \<longleftrightarrow> osa_chair_bot x = osa_chair_bot y \<and> osa_mode x = osa_mode y
    \<and> (osa_prompt x = osa_prompt y \<or> ok (path @ ''.prompt'')) \<and> osa_quorum_n x = osa_quorum_n y
    \<and> osa_recipient_inputs x = osa_recipient_inputs y \<and> osa_roster x = osa_roster y \<and> osa_title x = osa_title y
    \<and> osa_trigger_fingerprint x = osa_trigger_fingerprint y \<and> osa_trigger_ref x = osa_trigger_ref y"
    unfolding open_session_json_def
    by (subst agree_keys [OF Un_least [OF open_member_keys open_member_keys]])
      (simp add: inp [simplified] prm [simplified] open_member(1, 2, 4, 6-9) assms(3) agree_strs)
  then show ?thesis by (cases x; cases y) auto
qed

lemma agree_writes: "map write_json xs = map write_json ys \<longleftrightarrow> xs = ys"
proof
  have "inj write_json"
  proof (rule injI)
    fix x y :: ProposedWrite
    show "write_json x = write_json y \<Longrightarrow> x = y" by (cases x; cases y) (simp add: write_json_def)
  qed
  then show "map write_json xs = map write_json ys \<Longrightarrow> xs = ys" by (metis map_injective)
qed simp

definition only_prompt :: "string \<Rightarrow> bool" where
  "only_prompt path \<longleftrightarrow> path = PROMPT_PATH"

definition forget_prompt :: "ParitySnapshot \<Rightarrow> ParitySnapshot" where
  "forget_prompt x = x\<lparr>ps_open_session := (ps_open_session x)\<lparr>osa_prompt := []\<rparr>\<rparr>"

lemma agree_snapshot:
  assumes "ordered_map (osa_recipient_inputs (ps_open_session x))" "ordered_map (osa_recipient_inputs (ps_open_session y))"
    and "ok = only_prompt \<or> ok = (\<lambda>_. False)"
  shows "agree ok ''$.snapshot'' (snapshot_json x) (snapshot_json y)
    \<longleftrightarrow> (if ok = only_prompt then forget_prompt x = forget_prompt y else x = y)"
proof -
  have no: "\<not> ok (''$.snapshot.'' @ k)" if "\<And>k'. k \<noteq> ''open_session.prompt'' @ k'" for k
    using assms(3) that [of "[]"] by (auto simp: only_prompt_def PROMPT_PATH_def)
  have ok: "ok ''$.snapshot.open_session.prompt'' \<longleftrightarrow> ok = only_prompt"
    using assms(3) by (auto simp: only_prompt_def PROMPT_PATH_def fun_eq_iff)
  have os: "agree ok ''$.snapshot.open_session'' (open_session_json (ps_open_session x)) (open_session_json (ps_open_session y)) \<longleftrightarrow>
      (if ok = only_prompt then (ps_open_session x)\<lparr>osa_prompt := []\<rparr> = (ps_open_session y)\<lparr>osa_prompt := []\<rparr>
       else ps_open_session x = ps_open_session y)"
  proof -
    have "\<not> ok (''$.snapshot.open_session'' @ CHR ''.'' # k)" if "k \<noteq> ''prompt''" for k
      using assms(3) that by (auto simp: only_prompt_def PROMPT_PATH_def)
    from agree_open_session [OF assms(1, 2), of ok "''$.snapshot.open_session''"] this ok show ?thesis by simp
  qed
  have "agree ok ''$.snapshot'' (snapshot_json x) (snapshot_json y) \<longleftrightarrow> ps_dedupe x = ps_dedupe y
    \<and> agree ok ''$.snapshot.open_session'' (open_session_json (ps_open_session x)) (open_session_json (ps_open_session y))
    \<and> ps_pr_number x = ps_pr_number y \<and> ps_preset x = ps_preset y \<and> ps_proposed_writes x = ps_proposed_writes y
    \<and> ps_reason x = ps_reason y \<and> ps_repository x = ps_repository y \<and> ps_terminal_projection x = ps_terminal_projection y"
    unfolding snapshot_json_def
    by (subst agree_keys [where ks = "[''dedupe'', ''open_session'', ''pr_number'', ''preset'', ''proposed_writes'', ''reason'',
        ''repository'', ''terminal_projection'']"])
      (simp_all add: member_def no [simplified] agree_writes agree_dedupe agree_terminal)
  then show ?thesis unfolding os forget_prompt_def by (cases x; cases y) auto
qed

fun snapshot_of :: "ParityOutcome option \<Rightarrow> ParitySnapshot option" where
  "snapshot_of (Some (Planned x)) = Some x"
| "snapshot_of _ = None"

definition ordered_outcome :: "ParityOutcome option \<Rightarrow> bool" where
  "ordered_outcome o1 = (case snapshot_of o1 of None \<Rightarrow> True | Some x \<Rightarrow> ordered_map (osa_recipient_inputs (ps_open_session x)))"

definition forget :: "ParityOutcome option \<Rightarrow> ParityOutcome option" where
  "forget o1 = (case snapshot_of o1 of None \<Rightarrow> o1 | Some x \<Rightarrow> Some (Planned (forget_prompt x)))"

lemma agree_outcome:
  assumes "ordered_outcome x" "ordered_outcome y" and "ok = only_prompt \<or> ok = (\<lambda>_. False)"
  shows "agree ok ''$'' (outcome_json x) (outcome_json y) \<longleftrightarrow> (if ok = only_prompt then forget x = forget y else x = y)"
proof -
  have no: "\<not> ok ''$''" "\<not> ok ''$.outcome''" "\<not> ok ''$.reason''" using assms(3) by (auto simp: only_prompt_def PROMPT_PATH_def)
  have diff: "only_prompt \<noteq> (\<lambda>_. False)" by (auto simp: only_prompt_def fun_eq_iff)
  have kinds: "agree ok ''$'' (JObj [(''outcome'', JStr s), p]) (JObj [(''outcome'', JStr s'), p']) \<Longrightarrow> s = s'" for s s' p p'
  proof -
    assume a: "agree ok ''$'' (JObj [(''outcome'', JStr s), p]) (JObj [(''outcome'', JStr s'), p'])"
    have "''outcome'' \<in> set (obj_keys [(''outcome'', JStr s), p] [(''outcome'', JStr s'), p'])" unfolding obj_keys_def set_sort set_remdups by simp
    with a [unfolded agree_object] no(2) show "s = s'" by (fastforce simp: member_Cons)
  qed
  note snap = agree_snapshot [OF _ _ assms(3)]
  show ?thesis
  proof (cases x rule: outcome_json.cases; cases y rule: outcome_json.cases)
    fix a b
    assume xy: "x = Some (Planned a)" "y = Some (Planned b)"
    have "agree ok ''$'' (outcome_json x) (outcome_json y) \<longleftrightarrow> agree ok ''$.snapshot'' (snapshot_json a) (snapshot_json b)"
      unfolding xy outcome_json.simps by (subst agree_keys [where ks = "[''outcome'', ''snapshot'']"]) (simp_all add: member_Cons)
    with snap [of a b] assms(1, 2) xy show ?thesis by (simp add: ordered_outcome_def forget_def)
  next
    fix r s
    assume xy: "x = Some (Ignored r)" "y = Some (Ignored s)"
    have "agree ok ''$'' (outcome_json x) (outcome_json y) \<longleftrightarrow> r = s"
      unfolding xy outcome_json.simps using no(3) by (subst agree_keys [where ks = "[''outcome'', ''reason'']"]) (simp_all add: member_Cons)
    with xy show ?thesis by (simp add: forget_def)
  next
    fix a s
    assume xy: "x = Some (Planned a)" "y = Some (Ignored s)"
    then show ?thesis using kinds [of "''planned''" _ "''ignored''"] by (auto simp: forget_def)
  next
    fix r b
    assume xy: "x = Some (Ignored r)" "y = Some (Planned b)"
    then show ?thesis using kinds [of "''ignored''" _ "''planned''"] by (auto simp: forget_def)
  qed (use no(1) in \<open>auto simp: agree_leaf forget_def\<close>)
qed

text \<open>
  The shadow comparison decides promotion on everything but wording: two planners match exactly
  if and only if their outcomes are equal, and promotion is blocked if and only if the outcomes differ
  in anything besides the text of the shared prompt. Outcomes carry their recipient inputs as maps in
  key order.
\<close>

theorem shadow_blocks_on_difference:
  assumes "ordered_outcome embedded" and "ordered_outcome controller"
  shows "(sh_exact_match (shadow_compare cid embedded controller) \<longleftrightarrow> embedded = controller)
    \<and> (sh_promotion_blocked (shadow_compare cid embedded controller) \<longleftrightarrow> forget embedded \<noteq> forget controller)"
proof -
  let ?ms = "compare_value ''$'' (outcome_json embedded) (outcome_json controller)"
  have "?ms = [] \<longleftrightarrow> agree (\<lambda>_. False) ''$'' (outcome_json embedded) (outcome_json controller)"
    by (cases ?ms) (auto simp: agree_def)
  moreover have "filter (\<lambda>m. sm_class m = IdentityOrOwnership) ?ms = [] \<longleftrightarrow> agree only_prompt ''$'' (outcome_json embedded) (outcome_json controller)"
    using mismatch_class [of _ "''$''"] by (auto simp: agree_def filter_empty_conv classify_def only_prompt_def)
  moreover have "(\<lambda>_. False) \<noteq> only_prompt" by (auto simp: only_prompt_def fun_eq_iff)
  ultimately show ?thesis
    using agree_outcome [OF assms, of only_prompt] agree_outcome [OF assms, of "\<lambda>_. False"]
    by (simp add: shadow_compare_def Let_def)
qed

theorem shadow_blocks_on_difference_witness:
  "sh_promotion_blocked (shadow_compare ''c'' (Some (Ignored ''draft'')) None)
    \<and> \<not> sh_exact_match (shadow_compare ''c'' (Some (Ignored ''draft'')) None)"
  using shadow_blocks_on_difference [of "Some (Ignored ''draft'')" None "''c''"] by (simp add: ordered_outcome_def forget_def)

definition desk_templates :: Templates where
  "desk_templates = \<lparr>review_trigger_template = ''PR {{REPO}}'', chair_task_template = ''Task: chair {{REPO}}'',
    reviewer_task_template = ''Task: review {{ANGLE}}'', ask_trigger_template = ''PR {{QUESTION}}''\<rparr>"

definition desk_trigger :: Trigger where
  "desk_trigger = \<lparr>tg_repository = ''o/r'', tg_pr_number = 7, tg_reason = ''auto'', tg_trigger_fingerprint = Some ''sha:1'', tg_preset = None,
    tg_question = None, tg_comment_id = None, tg_review_notes = None, tg_review_from_scratch = False, tg_author_trusted = True,
    tg_author_login = None\<rparr>"

theorem planned_session_is_accepted_witness:
  "validate_open_session (open_session_action (build_plan_for_round desk_templates ''d'' desk_trigger [''chair'', ''rev1'', ''rev2'']
    (Some ''quick'') ''enforce'' 1 None)) (store desk_app) = None"
proof -
  have "bot_of ''chair'' (store desk_app) \<noteq> None" "bot_of ''rev1'' (store desk_app) \<noteq> None" "bot_of ''rev2'' (store desk_app) \<noteq> None"
    by code_simp+
  moreover have "solid (chair_task_template desk_templates)" "solid (reviewer_task_template desk_templates)" by code_simp+
  ultimately show ?thesis by (subst planned_session_is_accepted) simp_all
qed

end
