(* ===== verification/PR_Closing.thy ===== *)
theory PR_Closing
  imports PR_Planner
begin

text \<open>
  What the pull request controller writes to GitHub: the comment, commit status and formal review of
  a closed session (\<^verbatim>\<open>crates/github-pr-controller/src/closing.rs\<close>), and the writes that follow an
  author's judgement on a finding (\<^verbatim>\<open>deciding.rs\<close>). Both are pure: they turn a parsed chair text or
  the ledger of findings into a list of writes for the outbox. Shown here: authority is only exercised
  on a commit the review is proven to be about, the posted comment carries no machine parts, a
  judgement can unblock and never block, and text quoted into a prompt cannot break its frame.
\<close>

section \<open>Symbols outside ASCII\<close>

definition WARNING :: string where "WARNING = [CHR 0xE2, CHR 0x9A, CHR 0xA0, CHR 0xEF, CHR 0xB8, CHR 0x8F]"
definition DASH :: string where "DASH = [CHR '' '', CHR 0xE2, CHR 0x80, CHR 0x94, CHR '' '']"
definition RED :: string where "RED = [CHR 0xF0, CHR 0x9F, CHR 0x94, CHR 0xB4]"
definition YELLOW :: string where "YELLOW = [CHR 0xF0, CHR 0x9F, CHR 0x9F, CHR 0xA1]"
definition GREEN :: string where "GREEN = [CHR 0xF0, CHR 0x9F, CHR 0x9F, CHR 0xA2]"
definition WHITE :: string where "WHITE = [CHR 0xE2, CHR 0x9A, CHR 0xAA]"
definition DOT :: string where "DOT = [CHR '' '', CHR 0xC2, CHR 0xB7, CHR '' '']"
definition CHECK :: string where "CHECK = [CHR 0xE2, CHR 0x9C, CHR 0x85]"
definition ELLIPSIS :: string where "ELLIPSIS = [CHR 0xE2, CHR 0x80, CHR 0xA6]"
definition NL :: string where "NL = [CHR 0x0A]"
definition TICK :: string where "TICK = [CHR 0x60]"

section \<open>Closing a round\<close>

definition STATUS_CONTEXT :: string where "STATUS_CONTEXT = ''openab/council''"
definition KIND_COMMENT :: string where "KIND_COMMENT = ''comment''"
definition KIND_STATUS :: string where "KIND_STATUS = ''status''"
definition KIND_REVIEW :: string where "KIND_REVIEW = ''review''"
definition KIND_COMMENT_OPEN :: string where "KIND_COMMENT_OPEN = ''comment_open''"
definition KIND_COMMENT_ABANDON :: string where "KIND_COMMENT_ABANDON = ''comment_abandon''"

record SessionTarget =
  st_repo :: string
  st_pr_number :: int
  st_head_sha :: "string option"
  st_reason :: "string option"
  st_required_valid_reviewers :: "int option"

record ReviewFinding =
  rf_stable_id :: string
  rf_severity :: string
  rf_status :: string
  rf_title :: string
  rf_path :: "string option"
  rf_line :: "int option"
  rf_raised_by :: "string option"
  rf_angle :: "string option"

definition canonical_commit_id :: "string \<Rightarrow> string option" where
  "canonical_commit_id v = (if length v = 40 \<and> list_all is_ascii_hexdigit v then Some (to_ascii_lowercase v) else None)"

definition round_marker :: "string \<Rightarrow> string" where
  "round_marker session_id = ''<!-- openab-round:'' @ session_id @ '' -->''"

definition open_marker :: "string \<Rightarrow> string" where
  "open_marker session_id = ''<!-- openab-round-open:'' @ session_id @ '' -->''"

record ClosingPlan =
  cp_decision :: string
  cp_red :: int
  cp_yellow :: int
  cp_green :: int
  cp_head_sha :: "string option"
  cp_verified_commit_id :: "string option"
  cp_integrity_disposition :: string
  cp_findings :: "ReviewFinding list"
  cp_fired_waivers :: "string list"
  cp_writes :: "(string \<times> json) list"

definition comment_write :: "SessionTarget \<Rightarrow> int option \<Rightarrow> string \<Rightarrow> string \<times> json" where
  "comment_write target comment_id body = (KIND_COMMENT, JObj [(''repo'', JStr (st_repo target)),
    (''pr_number'', JNum (st_pr_number target)), (''comment_id'', jopt_num comment_id), (''body'', JStr body)])"

definition status_write :: "SessionTarget \<Rightarrow> string \<Rightarrow> string \<Rightarrow> string \<Rightarrow> string \<times> json" where
  "status_write target sha state description = (KIND_STATUS, JObj [(''repo'', JStr (st_repo target)), (''sha'', JStr sha),
    (''commit_id'', JStr sha), (''state'', JStr state), (''context'', JStr STATUS_CONTEXT), (''description'', JStr description)])"

definition plan_insufficient_reviewers :: "SessionTarget \<Rightarrow> string \<Rightarrow> int option \<Rightarrow> int option \<Rightarrow> ClosingPlan" where
  "plan_insufficient_reviewers target session_id required valid =
    (let counts = (case (valid, required) of
           (Some v, Some r) \<Rightarrow> '' ('' @ int_str v @ ''/'' @ int_str r @ '' valid reviewers)''
         | _ \<Rightarrow> '' (reviewer evidence missing)'')
     in \<lparr>cp_decision = ''unknown'', cp_red = 0, cp_yellow = 0, cp_green = 0, cp_head_sha = st_head_sha target,
         cp_verified_commit_id = None, cp_integrity_disposition = ''insufficient_valid_reviewers'', cp_findings = [], cp_fired_waivers = [],
         cp_writes = comment_write target None (WARNING @ '' The council failed closed'' @ counts
             @ ''; no approval or change-request review was submitted. Re-run after reviewer readiness is restored.'' @ NL @ NL
             @ round_marker session_id)
           # (case Option.bind (st_head_sha target) canonical_commit_id of
               None \<Rightarrow> [] | Some sha \<Rightarrow> [status_write target sha ''error'' ''council error - insufficient valid reviewers''])\<rparr>)"

record IntegrityDecision =
  id_disposition :: string
  id_target_commit_id :: "string option"
  id_verified_commit_id :: "string option"
  id_reviewed_sha :: "string option"

definition classify_integrity :: "SessionTarget \<Rightarrow> ParsedResult \<Rightarrow> IntegrityDecision" where
  "classify_integrity target parsed =
    (case st_head_sha target of
      None \<Rightarrow> \<lparr>id_disposition = ''missing_target'', id_target_commit_id = None, id_verified_commit_id = None, id_reviewed_sha = st_head_sha target\<rparr>
    | Some raw \<Rightarrow>
        if raw = [] then \<lparr>id_disposition = ''missing_target'', id_target_commit_id = None, id_verified_commit_id = None, id_reviewed_sha = st_head_sha target\<rparr>
        else (case canonical_commit_id raw of
          None \<Rightarrow> \<lparr>id_disposition = ''invalid_target'', id_target_commit_id = None, id_verified_commit_id = None, id_reviewed_sha = st_head_sha target\<rparr>
        | Some tgt \<Rightarrow>
            (case Option.bind (pr_findings parsed) fb_head_sha of
              None \<Rightarrow> \<lparr>id_disposition = ''missing_reviewed_sha'', id_target_commit_id = Some tgt, id_verified_commit_id = None, id_reviewed_sha = None\<rparr>
            | Some reviewed_raw \<Rightarrow>
                if reviewed_raw = [] then \<lparr>id_disposition = ''missing_reviewed_sha'', id_target_commit_id = Some tgt,
                  id_verified_commit_id = None, id_reviewed_sha = Some reviewed_raw\<rparr>
                else (case canonical_commit_id reviewed_raw of
                  None \<Rightarrow> \<lparr>id_disposition = ''invalid_reviewed_sha'', id_target_commit_id = Some tgt, id_verified_commit_id = None,
                    id_reviewed_sha = Some reviewed_raw\<rparr>
                | Some reviewed \<Rightarrow>
                    if reviewed \<noteq> tgt then \<lparr>id_disposition = ''reviewed_sha_mismatch'', id_target_commit_id = Some tgt,
                      id_verified_commit_id = None, id_reviewed_sha = Some reviewed_raw\<rparr>
                    else \<lparr>id_disposition = ''verified'', id_target_commit_id = Some reviewed, id_verified_commit_id = Some reviewed,
                      id_reviewed_sha = Some reviewed\<rparr>))))"

definition trailer_counts :: "VerdictTrailer option \<Rightarrow> int \<times> int \<times> int" where
  "trailer_counts trailer = (case trailer of
      None \<Rightarrow> (0, 0, 0) | Some t \<Rightarrow> (unwrap_or 0 (vt_red t), unwrap_or 0 (vt_yellow t), unwrap_or 0 (vt_green t)))"

definition trailer_decision :: "VerdictTrailer option \<Rightarrow> string" where
  "trailer_decision trailer = (case trailer of None \<Rightarrow> ''unknown'' | Some t \<Rightarrow> vt_decision t)"

definition plan_sha_integrity_failure ::
  "SessionTarget \<Rightarrow> VerdictTrailer option \<Rightarrow> int option \<Rightarrow> string \<Rightarrow> IntegrityDecision \<Rightarrow> ClosingPlan" where
  "plan_sha_integrity_failure target trailer comment_id session_id integrity =
    (case trailer_counts trailer of (red, yellow, green) \<Rightarrow>
      \<lparr>cp_decision = ''sha_integrity_failed'', cp_red = red, cp_yellow = yellow, cp_green = green, cp_head_sha = id_reviewed_sha integrity,
       cp_verified_commit_id = id_verified_commit_id integrity, cp_integrity_disposition = id_disposition integrity,
       cp_findings = [], cp_fired_waivers = [],
       cp_writes = comment_write target comment_id (WARNING @ '' Review SHA integrity failed ('' @ id_disposition integrity @ '') for ''
           @ TICK @ trailer_decision trailer @ TICK
           @ ''. Approval or change-request review was withheld; no findings or waiver effects were recorded. Re-run the council for this pull request.''
           @ NL @ NL @ round_marker session_id)
         # (case id_target_commit_id integrity of
             None \<Rightarrow> []
           | Some sha \<Rightarrow> [status_write target sha ''error'' (''council error - SHA integrity failed ('' @ id_disposition integrity @ '')'')])\<rparr>)"

section \<open>What the comment says\<close>

definition status_state :: "VerdictTrailer option \<Rightarrow> string" where
  "status_state trailer = (case trailer of
      None \<Rightarrow> ''error''
    | Some t \<Rightarrow> if blocking t \<or> vt_decision t = ''request_changes'' then ''failure'' else ''success'')"

definition status_description :: "VerdictTrailer option \<Rightarrow> string" where
  "status_description trailer = (case trailer of
      None \<Rightarrow> ''council closed without a parseable verdict''
    | Some t \<Rightarrow> vt_decision t @ DOT @ ''red '' @ int_str (unwrap_or 0 (vt_red t)) @ DOT @ ''yellow '' @ int_str (unwrap_or 0 (vt_yellow t))
        @ DOT @ ''green '' @ int_str (unwrap_or 0 (vt_green t)))"

definition counts_text :: "VerdictTrailer \<Rightarrow> string" where
  "counts_text t = RED @ int_str (unwrap_or 0 (vt_red t)) @ '' '' @ YELLOW @ int_str (unwrap_or 0 (vt_yellow t)) @ '' ''
    @ GREEN @ int_str (unwrap_or 0 (vt_green t))"

definition review_body :: "VerdictTrailer \<Rightarrow> string option \<Rightarrow> string" where
  "review_body t reviewed_sha = ''Council '' @ vt_decision t @ DASH @ counts_text t @ ''.''
    @ (case reviewed_sha of None \<Rightarrow> [] | Some sha \<Rightarrow> '' Reviewed at '' @ sha @ ''.'') @ '' Details in the review comment.''"

definition is_machine_noise_line :: "string \<Rightarrow> bool" where
  "is_machine_noise_line line = (let t = trim line in
    starts_with (CHECK @ '' '' @ TICK) t
    \<or> starts_with [CHR 0xE2, CHR 0x9A, CHR 0xA0] t
      \<and> (contains_str ''-32603'' (to_ascii_lowercase t) \<or> contains_str ''internal error'' (to_ascii_lowercase t)))"

definition fence_line :: "string \<Rightarrow> bool" where
  "fence_line line = starts_with FENCE (trim line)"

definition is_table :: "string list \<Rightarrow> bool" where
  "is_table block \<longleftrightarrow> list_ex (\<lambda>l. starts_with ''|'' (trim_start l)) block
    \<and> list_all (\<lambda>l. trim l = [] \<or> starts_with ''|'' (trim_start l)) block"

fun unfence_tables :: "string list \<Rightarrow> string list" where
  "unfence_tables [] = []"
| "unfence_tables (l # ls) =
    (if fence_line l \<and> list_ex fence_line ls \<and> is_table (takeWhile (\<lambda>x. \<not> fence_line x) ls)
     then takeWhile (\<lambda>x. \<not> fence_line x) ls @ unfence_tables (drop (Suc (length (takeWhile (\<lambda>x. \<not> fence_line x) ls))) ls)
     else l # unfence_tables ls)"

definition cut_at_verdict :: "string list \<Rightarrow> string list" where
  "cut_at_verdict = takeWhile (\<lambda>line. \<not> contains_str VERDICT_OPEN line)"

definition drop_tail_marks :: "string list \<Rightarrow> string list" where
  "drop_tail_marks lines = rev (dropWhile (\<lambda>line. trim line = [] \<or> trim line = ''[done]'') (rev lines))"

definition answer_body :: "ParsedResult \<Rightarrow> string" where
  "answer_body parsed =
    (let lines = filter (\<lambda>l. \<not> is_machine_noise_line l) (drop_tail_marks (cut_at_verdict (str_lines (trim_end (pr_source parsed)))));
         body = trim (join NL (unfence_tables lines))
     in if body = [] then ''This follow-up produced no answer.'' else body)"

definition REPORT_START :: string where "REPORT_START = ''<!-- openab-council -->''"

definition NO_VERDICT_NOTICE :: string where
  "NO_VERDICT_NOTICE = WARNING @ '' The council closed without a parseable verdict. No formal review was submitted.''"

definition findings_block :: "string \<Rightarrow> string option" where
  "findings_block text = Option.bind (find_str FINDINGS_OPEN text) (\<lambda>start.
    map_option (\<lambda>rel. take (rel + 3) (drop start text)) (find_str ''-->'' (drop start text)))"

definition degraded_body :: "VerdictTrailer \<Rightarrow> string option \<Rightarrow> string" where
  "degraded_body t findings = WARNING @ '' The council reached **'' @ vt_decision t @ ''**'' @ DASH @ counts_text t @ DASH
    @ ''but its written report could not be recovered (the synthesis turn failed mid-write). The verdict and findings stand; comment ''
    @ TICK @ ''@opencodezebra review'' @ TICK @ '' to re-run the council for a full report.''
    @ (case findings of None \<Rightarrow> [] | Some block \<Rightarrow> NL @ NL @ block)"

definition comment_body :: "ParsedResult \<Rightarrow> VerdictTrailer option \<Rightarrow> string" where
  "comment_body parsed trailer =
    (let text = trim_end (pr_source parsed) in
     case rfind_str REPORT_START text of
       None \<Rightarrow> (case trailer of None \<Rightarrow> NO_VERDICT_NOTICE | Some t \<Rightarrow> degraded_body t (findings_block text))
     | Some at \<Rightarrow>
         if trailer = None then drop at text @ NL @ NL @ ''---'' @ NL @ NO_VERDICT_NOTICE
         else trim_end (join NL (unfence_tables (drop_tail_marks (cut_at_verdict (str_lines (drop at text)))))))"

section \<open>The plan of a close\<close>

definition finding_of :: "Finding \<Rightarrow> ReviewFinding" where
  "finding_of f = \<lparr>rf_stable_id = f_id f, rf_severity = f_severity f, rf_status = f_status f, rf_title = f_title f, rf_path = f_path f,
    rf_line = f_line f, rf_raised_by = f_raised_by f, rf_angle = f_angle f\<rparr>"

definition block_findings :: "ParsedResult \<Rightarrow> Finding list" where
  "block_findings parsed = (case pr_findings parsed of None \<Rightarrow> [] | Some block \<Rightarrow> fb_findings block)"

definition plan_ask :: "SessionTarget \<Rightarrow> ParsedResult \<Rightarrow> int option \<Rightarrow> string \<Rightarrow> ClosingPlan" where
  "plan_ask target parsed comment_id session_id =
    \<lparr>cp_decision = ''ask'', cp_red = 0, cp_yellow = 0, cp_green = 0, cp_head_sha = st_head_sha target, cp_verified_commit_id = None,
     cp_integrity_disposition = ''ask'', cp_findings = [], cp_fired_waivers = [],
     cp_writes = [comment_write target comment_id (answer_body parsed @ NL @ NL @ round_marker session_id)]\<rparr>"

definition review_write :: "SessionTarget \<Rightarrow> VerdictTrailer \<Rightarrow> IntegrityDecision \<Rightarrow> string \<Rightarrow> string \<times> json" where
  "review_write target t integrity marker = (KIND_REVIEW, JObj [(''repo'', JStr (st_repo target)), (''pr_number'', JNum (st_pr_number target)),
    (''event'', JStr (if blocking t \<or> vt_decision t = ''request_changes'' then ''REQUEST_CHANGES'' else ''APPROVE'')),
    (''commit_id'', jopt (id_verified_commit_id integrity)),
    (''body'', JStr (review_body t (id_reviewed_sha integrity) @ NL @ NL @ marker))])"

text \<open>A verified decision carries a commit id, so its absence, a panic in the code, never reaches a review.\<close>

definition plan_round :: "SessionTarget \<Rightarrow> ParsedResult \<Rightarrow> int option \<Rightarrow> string \<Rightarrow> IntegrityDecision \<Rightarrow> ClosingPlan" where
  "plan_round target parsed comment_id session_id integrity =
    (let trailer = pr_trailer parsed in
     case trailer_counts trailer of (red, yellow, green) \<Rightarrow>
       \<lparr>cp_decision = trailer_decision trailer, cp_red = red, cp_yellow = yellow, cp_green = green, cp_head_sha = id_reviewed_sha integrity,
        cp_verified_commit_id = id_verified_commit_id integrity, cp_integrity_disposition = id_disposition integrity,
        cp_findings = map finding_of (block_findings parsed),
        cp_fired_waivers = List.map_filter f_waiver_id (filter (\<lambda>f. f_status f = ''waived'') (block_findings parsed)),
        cp_writes = comment_write target comment_id (comment_body parsed trailer @ NL @ NL @ round_marker session_id)
          # (case id_target_commit_id integrity of
              None \<Rightarrow> [] | Some sha \<Rightarrow> [status_write target sha (status_state trailer) (status_description trailer)])
          @ (case trailer of None \<Rightarrow> [] | Some t \<Rightarrow> [review_write target t integrity (round_marker session_id)])\<rparr>)"

definition unparseable :: "SessionTarget \<Rightarrow> ParsedResult \<Rightarrow> IntegrityDecision" where
  "unparseable target parsed = \<lparr>id_disposition = ''unparseable'', id_target_commit_id = Option.bind (st_head_sha target) canonical_commit_id,
    id_verified_commit_id = None,
    id_reviewed_sha = (case Option.bind (pr_findings parsed) fb_head_sha of Some s \<Rightarrow> Some s | None \<Rightarrow> st_head_sha target)\<rparr>"

definition plan_close :: "SessionTarget \<Rightarrow> ParsedResult \<Rightarrow> int option \<Rightarrow> string \<Rightarrow> bool \<Rightarrow> ClosingPlan" where
  "plan_close target parsed comment_id session_id is_ask =
    (if is_ask then plan_ask target parsed comment_id session_id
     else let integrity = (if pr_trailer parsed \<noteq> None then classify_integrity target parsed else unparseable target parsed)
          in if pr_trailer parsed \<noteq> None \<and> id_disposition integrity \<noteq> ''verified''
             then plan_sha_integrity_failure target (pr_trailer parsed) comment_id session_id integrity
             else plan_round target parsed comment_id session_id integrity)"

section \<open>Judgements of an author\<close>

record ReviewFindingRow =
  fr_id :: int
  fr_session_id :: string
  fr_repo :: "string option"
  fr_pr_number :: "int option"
  fr_stable_id :: string
  fr_severity :: string
  fr_status :: string
  fr_title :: string
  fr_path :: "string option"
  fr_line :: "int option"
  fr_raised_by :: "string option"
  fr_angle :: "string option"
  fr_head_sha :: "string option"
  fr_created_at :: int
  fr_decided_by :: "string option"
  fr_decided_reason :: "string option"
  fr_decided_at :: "int option"
  fr_waiver_id :: "string option"

record ReviewWaiver =
  rw_id :: string
  rw_repo :: string
  rw_path_class :: "string option"
  rw_text :: string
  rw_origin_pr :: "string option"
  rw_created_by :: string
  rw_created_at :: int
  rw_expires_at :: int
  rw_revoked_at :: "int option"
  rw_fired_count :: int
  rw_last_fired_at :: "int option"
  rw_source :: string
  rw_renewal_count :: int

definition KIND_DECISION_STATUS :: string where "KIND_DECISION_STATUS = ''decision_status''"
definition KIND_DECISION_REVIEW :: string where "KIND_DECISION_REVIEW = ''decision_review''"
definition KIND_DECISION_COMMENT :: string where "KIND_DECISION_COMMENT = ''decision_comment''"

definition decision_kind :: "string \<Rightarrow> int \<Rightarrow> string" where
  "decision_kind base comment_id = base @ '':'' @ int_str comment_id"

definition decision_marker :: "string \<Rightarrow> string \<Rightarrow> string" where
  "decision_marker session_id comment_id = ''<!-- openab-decision:'' @ session_id @ '':'' @ comment_id @ '' -->''"

definition WAIVE_DEFAULT_EXPIRY_SECS :: int where "WAIVE_DEFAULT_EXPIRY_SECS = 90 * 86400"
definition WAIVE_RED_EXPIRY_SECS :: int where "WAIVE_RED_EXPIRY_SECS = 30 * 86400"

definition waive_expiry_secs :: "string \<Rightarrow> int" where
  "waive_expiry_secs severity = (if severity = ''yellow'' \<or> severity = ''green'' then WAIVE_DEFAULT_EXPIRY_SECS else WAIVE_RED_EXPIRY_SECS)"

record DecisionOutcome =
  do_red :: int
  do_yellow :: int
  do_decision :: string
  do_unblocked :: bool
  do_approval_authorized :: bool
  do_writes :: "(string \<times> json) list"

definition live_findings :: "ReviewFindingRow list \<Rightarrow> string \<Rightarrow> ReviewFindingRow list" where
  "live_findings rows sha = filter (\<lambda>r. fr_status r = ''open'') (filter (\<lambda>r. fr_head_sha r = Some sha) rows)"

text \<open>The loop over the live rows.\<close>

definition open_counts :: "ReviewFindingRow list \<Rightarrow> string \<Rightarrow> int \<times> int" where
  "open_counts rows sha = foldl (\<lambda>(red, yellow) r.
    if fr_severity r = ''red'' then (red + 1, yellow) else if fr_severity r = ''yellow'' then (red, yellow + 1) else (red, yellow))
    (0, 0) (live_findings rows sha)"

definition decision_comment_write :: "string \<Rightarrow> int \<Rightarrow> int \<Rightarrow> int \<times> string \<Rightarrow> string \<times> json" where
  "decision_comment_write repo pr_number deciding = (\<lambda>(comment_id, body). (decision_kind KIND_DECISION_COMMENT deciding,
    JObj [(''repo'', JStr repo), (''pr_number'', JNum pr_number), (''comment_id'', JNum comment_id), (''body'', JStr body)]))"

definition plan_decision ::
  "string \<Rightarrow> int \<Rightarrow> string \<Rightarrow> ReviewFindingRow list \<Rightarrow> bool \<Rightarrow> bool \<Rightarrow> (int \<times> string) option \<Rightarrow> string \<Rightarrow> int \<Rightarrow> DecisionOutcome" where
  "plan_decision repo pr_number sha rows was_blocking approval_authorized verdict_comment session_id deciding =
    (case open_counts rows sha of (red, yellow) \<Rightarrow>
      let blocks = (red > 0 \<or> yellow > 0); decision = (if blocks then ''request_changes'' else ''approve'');
          unblocked = (was_blocking \<and> \<not> blocks)
      in \<lparr>do_red = red, do_yellow = yellow, do_decision = decision, do_unblocked = unblocked, do_approval_authorized = approval_authorized,
          do_writes = (case verdict_comment of None \<Rightarrow> [] | Some c \<Rightarrow> [decision_comment_write repo pr_number deciding c])
            @ (if unblocked \<and> approval_authorized
               then [(decision_kind KIND_DECISION_STATUS deciding, JObj [(''repo'', JStr repo), (''sha'', JStr sha), (''commit_id'', JStr sha),
                        (''state'', JStr ''success''), (''context'', JStr STATUS_CONTEXT),
                        (''description'', JStr (''Council '' @ decision @ '' - red '' @ int_str red @ '' yellow '' @ int_str yellow))]),
                     (decision_kind KIND_DECISION_REVIEW deciding, JObj [(''repo'', JStr repo), (''pr_number'', JNum pr_number),
                        (''event'', JStr ''APPROVE''), (''commit_id'', JStr sha),
                        (''body'', JStr (''Recomputed after the author's judgement on this round's findings: no blocking findings remain on ''
                          @ TICK @ sha @ TICK @ ''.'' @ NL @ NL @ decision_marker session_id (int_str deciding)))])]
               else [])\<rparr>)"

definition fault :: "string \<Rightarrow> string" where
  "fault detail = detail @ NL @ NL @ ''This is a controller fault, not yours'' @ DASH
    @ ''the command was understood and nothing was changed. Trying again is safe.''"

definition usage_hint :: "string \<Rightarrow> string" where
  "usage_hint bot_handle = NL @ NL @ ''---'' @ NL @ ''Usage: '' @ TICK @ ''@'' @ bot_handle @ '' dismiss F<n> <why it is not a defect>'' @ TICK @ DOT
    @ TICK @ ''@'' @ bot_handle @ '' waive F<n> <why we accept this defect>'' @ TICK @ DOT
    @ TICK @ ''@'' @ bot_handle @ '' reopen F<n>'' @ TICK @ DOT @ TICK @ ''@'' @ bot_handle @ '' review <notes>'' @ TICK @ '' to re-run the council''
    @ DOT @ TICK @ ''@'' @ bot_handle @ '' <question>'' @ TICK @ '' to ask.''"

definition finding_place :: "ReviewFindingRow \<Rightarrow> string" where
  "finding_place row = (case fr_path row of
      None \<Rightarrow> []
    | Some path \<Rightarrow> '' '' @ TICK @ path @ (case fr_line row of Some line \<Rightarrow> '':'' @ int_str line | None \<Rightarrow> []) @ TICK)"

definition verb_past :: "string \<Rightarrow> string" where
  "verb_past verb = (if verb = ''dismiss'' then ''dismissed'' else if verb = ''waive'' then ''waived'' else ''reopened'')"

definition waiver_note :: "ReviewFindingRow \<Rightarrow> ReviewWaiver \<Rightarrow> string" where
  "waiver_note row w = NL @ ''This acceptance is **repo-wide, not just this pull request**: waiver '' @ TICK @ rw_id w @ TICK @ '' covers ''
    @ TICK @ rw_repo w @ TICK @ '' and future rounds will see the finding as waived, not re-block on it. It expires in ''
    @ int_str (max (rw_expires_at w - rw_created_at w) 0 div 86400) @ ''d'' @ DASH
    @ ''after that the finding returns at full severity on the next touch. An acceptance that keeps needing renewal belongs in the repo's Review Boundaries instead.''
    @ NL
    @ (if fr_severity row = ''red''
       then NL @ RED @ '' findings get this shorter horizon on purpose (ADR 038): an accepted security defect stays conspicuous, and comes back for re-examination sooner.'' @ NL
       else [])"

definition verdict_note :: "string \<Rightarrow> DecisionOutcome \<Rightarrow> string" where
  "verdict_note bot_handle oc =
    (if do_unblocked oc \<and> do_approval_authorized oc
     then NL @ ''Verdict recomputed: '' @ TICK @ ''request_changes'' @ TICK @ ARROW @ ''**'' @ TICK @ ''approve'' @ TICK
       @ ''**. Updated the verdict comment, the commit status, and submitted a new APPROVE review that supersedes the earlier REQUEST_CHANGES.'' @ NL
     else if do_unblocked oc
     then NL @ ''Verdict recomputed to '' @ TICK @ ''approve'' @ TICK @ '', but approval was withheld because this round has no verified commit proof for the current head. No commit status or APPROVE review was submitted; re-run ''
       @ TICK @ ''@'' @ bot_handle @ '' review'' @ TICK @ '' for this revision.'' @ NL
     else if do_red oc > 0 \<or> do_yellow oc > 0
     then NL @ ''Still blocked: '' @ RED @ int_str (do_red oc) @ '' '' @ YELLOW @ int_str (do_yellow oc)
       @ '' remain open, so the verdict stays '' @ TICK @ ''request_changes'' @ TICK @ ''.'' @ NL
     else [])"

definition reply_body :: "string \<Rightarrow> ReviewFindingRow \<Rightarrow> int \<times> int \<Rightarrow> DecisionOutcome \<Rightarrow> string \<Rightarrow> string \<Rightarrow> ReviewWaiver option \<Rightarrow> string" where
  "reply_body verb row before oc actor bot_handle waiver =
    ''**'' @ fr_stable_id row @ '' '' @ verb_past verb @ ''**'' @ DASH @ fr_title row @ finding_place row @ NL
    @ (case fr_decided_reason row of None \<Rightarrow> [] | Some reason \<Rightarrow> NL @ ''@'' @ actor @ '': '' @ [CHR 0x22] @ reason @ [CHR 0x22] @ NL)
    @ (case waiver of None \<Rightarrow> [] | Some w \<Rightarrow> waiver_note row w)
    @ NL @ ''Open findings on '' @ TICK @ (case fr_head_sha row of Some sha \<Rightarrow> sha | None \<Rightarrow> ''?'') @ TICK @ '': ''
    @ RED @ int_str (fst before) @ '' '' @ YELLOW @ int_str (snd before) @ ARROW @ RED @ int_str (do_red oc) @ '' '' @ YELLOW @ int_str (do_yellow oc) @ NL
    @ verdict_note bot_handle oc
    @ (if verb = ''dismiss'' then NL @ ''Wrong call? '' @ TICK @ ''@'' @ bot_handle @ '' reopen '' @ fr_stable_id row @ TICK @ '' puts it back.'' @ NL
       else if verb = ''waive'' then NL @ ''Wrong call? '' @ TICK @ ''@'' @ bot_handle @ '' reopen '' @ fr_stable_id row @ TICK
         @ '' reopens the finding and revokes the waiver.'' @ NL
       else [])"

section \<open>Text quoted into prompts and comments\<close>

text \<open>Control characters become spaces: the ASCII ones, and U+0080 to U+009F, two bytes in UTF-8.\<close>

fun flatten_control :: "string \<Rightarrow> string" where
  "flatten_control (a # b # s) =
    (if a = CHR 0xC2 \<and> 128 \<le> (of_char b :: nat) \<and> (of_char b :: nat) < 160 then CHR '' '' # flatten_control s
     else (if (of_char a :: nat) < 32 \<or> (of_char a :: nat) = 127 then CHR '' '' else a) # flatten_control (b # s))"
| "flatten_control [a] = [if (of_char a :: nat) < 32 \<or> (of_char a :: nat) = 127 then CHR '' '' else a]"
| "flatten_control [] = []"

text \<open>The first characters of a text: a character goes on through its continuation bytes.\<close>

fun take_chars :: "nat \<Rightarrow> string \<Rightarrow> string" where
  "take_chars n [] = []"
| "take_chars n (c # s) =
    (if is_continuation c then c # take_chars n s else (case n of 0 \<Rightarrow> [] | Suc m \<Rightarrow> c # take_chars m s))"

definition FRAME :: string where "FRAME = ''=====''"

definition bound :: "string \<Rightarrow> nat \<Rightarrow> string" where
  "bound raw limit =
    (let flat = replace_str FRAME ''-'' (join '' '' (split_whitespace (flatten_control raw)))
     in if chars_count flat \<le> limit then flat else take_chars limit flat @ ELLIPSIS)"

definition dismissed_line :: "ReviewFindingRow \<Rightarrow> string" where
  "dismissed_line row = ''- '' @ fr_stable_id row @ '' '' @ [CHR 0x22] @ bound (fr_title row) 80 @ [CHR 0x22]
    @ (case fr_path row of None \<Rightarrow> [] | Some path \<Rightarrow> '' ['' @ bound path 120 @ '']'') @ DASH @ ''dismissed by @''
    @ (case fr_decided_by row of Some who \<Rightarrow> who | None \<Rightarrow> ''?'') @ '': '' @ [CHR 0x22] @ bound (or_empty (fr_decided_reason row)) 300
    @ [CHR 0x22] @ NL"

definition dismissed_block :: "ReviewFindingRow list \<Rightarrow> string option" where
  "dismissed_block rows =
    (let decided = filter (\<lambda>r. fr_decided_by r \<noteq> None) (filter (\<lambda>r. fr_status r = ''dismissed'') rows)
     in if decided = [] then None
        else Some (NL @ NL @ ''===== AUTHOR-DISMISSED FINDINGS (ADR 038) ====='' @ NL
          @ ''On an earlier round of this pull request the author judged these findings not to be defects. This is the author's claim, not a settled fact: weigh the argument. If it does not hold, raise the finding again and say why it does not hold. A dismissal informs you; it does not bind you.''
          @ NL @ concat (map dismissed_line decided) @ ''===== END AUTHOR-DISMISSED FINDINGS ====='' @ NL))"

definition WAIVED_SECTION_START :: string where "WAIVED_SECTION_START = ''<!-- openab-waived-start -->''"
definition WAIVED_SECTION_END :: string where "WAIVED_SECTION_END = ''<!-- openab-waived-end -->''"

definition waived_line :: "(string \<times> int) list \<Rightarrow> int \<Rightarrow> ReviewFindingRow \<Rightarrow> string" where
  "waived_line expiries at row = ''- '' @ fr_stable_id row @ '' ''
    @ (if fr_severity row = ''red'' then RED else if fr_severity row = ''yellow'' then YELLOW else WHITE) @ '' '' @ bound (fr_title row) 80
    @ (case fr_path row of
        None \<Rightarrow> []
      | Some path \<Rightarrow> '' '' @ TICK @ bound path 120 @ (case fr_line row of Some line \<Rightarrow> '':'' @ int_str line | None \<Rightarrow> []) @ TICK)
    @ DASH @ ''waived by @'' @ (case fr_decided_by row of Some who \<Rightarrow> who | None \<Rightarrow> ''?'')
    @ (case Option.bind (fr_waiver_id row) (map_of expiries) of
        None \<Rightarrow> [] | Some expires_at \<Rightarrow> '', expires in '' @ int_str (max (expires_at - at) 0 div 86400) @ ''d'') @ NL"

definition waived_section :: "ReviewFindingRow list \<Rightarrow> string \<Rightarrow> (string \<times> int) list \<Rightarrow> int \<Rightarrow> string option" where
  "waived_section rows sha expiries at =
    (let waived = filter (\<lambda>r. fr_decided_by r \<noteq> None) (filter (\<lambda>r. fr_status r = ''waived'') (filter (\<lambda>r. fr_head_sha r = Some sha) rows))
     in if waived = [] then None
        else Some (WAIVED_SECTION_START @ NL @ ''---'' @ NL @ ''**Waived**'' @ DASH
          @ ''accepted defects (ADR 038). Repo-scoped and expiring; not blocking, not forgotten.'' @ NL
          @ concat (map (waived_line expiries at) waived) @ WAIVED_SECTION_END))"

definition upsert_waived_section :: "string \<Rightarrow> string \<Rightarrow> string" where
  "upsert_waived_section body sect =
    (case (find_str WAIVED_SECTION_START body, rfind_str WAIVED_SECTION_END body) of
      (Some start, Some stop) \<Rightarrow>
        if start < stop then take start body @ sect @ drop (stop + length WAIVED_SECTION_END) body
        else trim_end body @ NL @ NL @ sect
    | _ \<Rightarrow> trim_end body @ NL @ NL @ sect)"

section \<open>Authority\<close>

lemmas kinds = KIND_COMMENT_def KIND_STATUS_def KIND_REVIEW_def

lemma canonical_length: "canonical_commit_id v = Some c \<Longrightarrow> length c = 40"
  by (auto simp: canonical_commit_id_def split: if_splits)

lemma verifiedD:
  assumes "id_disposition (classify_integrity target parsed) = ''verified''"
  shows "\<exists>c. Option.bind (st_head_sha target) canonical_commit_id = Some c
    \<and> Option.bind (Option.bind (pr_findings parsed) fb_head_sha) canonical_commit_id = Some c
    \<and> id_target_commit_id (classify_integrity target parsed) = Some c \<and> id_verified_commit_id (classify_integrity target parsed) = Some c"
  using assms unfolding classify_integrity_def by (auto split: option.splits if_splits Option.bind_splits)

lemma no_authority:
  "(k, w) \<in> set (cp_writes (plan_sha_integrity_failure target trailer cid sid integ)) \<Longrightarrow> k \<noteq> KIND_REVIEW \<and> jget w ''state'' \<noteq> JStr ''success''"
  "(k, w) \<in> set (cp_writes (plan_insufficient_reviewers target sid required valid)) \<Longrightarrow> k \<noteq> KIND_REVIEW \<and> jget w ''state'' \<noteq> JStr ''success''"
  "(k, w) \<in> set (cp_writes (plan_ask target parsed cid sid)) \<Longrightarrow> k \<noteq> KIND_REVIEW \<and> jget w ''state'' \<noteq> JStr ''success''"
  by (auto simp: plan_sha_integrity_failure_def plan_insufficient_reviewers_def plan_ask_def comment_write_def status_write_def kinds Let_def
      split: prod.splits option.splits)

lemma close_authority:
  assumes "(k, w) \<in> set (cp_writes (plan_close target parsed cid sid ask))" and "k = KIND_REVIEW \<or> jget w ''state'' = JStr ''success''"
  shows "\<not> ask \<and> (\<exists>t c. pr_trailer parsed = Some t \<and> length c = 40 \<and> Option.bind (st_head_sha target) canonical_commit_id = Some c
    \<and> Option.bind (Option.bind (pr_findings parsed) fb_head_sha) canonical_commit_id = Some c
    \<and> cp_verified_commit_id (plan_close target parsed cid sid ask) = Some c
    \<and> cp_integrity_disposition (plan_close target parsed cid sid ask) = ''verified'' \<and> jget w ''commit_id'' = JStr c
    \<and> (jget w ''event'' = JStr ''APPROVE'' \<or> jget w ''state'' = JStr ''success'' \<longleftrightarrow> \<not> blocking t \<and> vt_decision t \<noteq> ''request_changes''))"
proof (cases "ask \<or> pr_trailer parsed = None \<or> id_disposition (classify_integrity target parsed) \<noteq> ''verified''")
  case True
  have "\<not> (k = KIND_REVIEW \<or> jget w ''state'' = JStr ''success'')"
  proof (cases "ask \<or> pr_trailer parsed \<noteq> None")
    case t: True
    with True assms(1) no_authority show ?thesis by (auto simp: plan_close_def Let_def split: if_splits)
  next
    case False
    with assms(1) show ?thesis
      by (auto simp: plan_close_def plan_round_def Let_def comment_write_def status_write_def status_state_def kinds split: prod.splits option.splits)
  qed
  with assms(2) show ?thesis by blast
next
  case False
  then obtain t where t: "pr_trailer parsed = Some t" "\<not> ask" by auto
  let ?i = "classify_integrity target parsed"
  obtain c where c: "Option.bind (st_head_sha target) canonical_commit_id = Some c"
    "Option.bind (Option.bind (pr_findings parsed) fb_head_sha) canonical_commit_id = Some c"
    "id_target_commit_id ?i = Some c" "id_verified_commit_id ?i = Some c" using verifiedD False by blast
  obtain raw where "canonical_commit_id raw = Some c" using c(1) by (cases "st_head_sha target") auto
  then have len: "length c = 40" by (rule canonical_length)
  have p: "cp_verified_commit_id (plan_close target parsed cid sid ask) = Some c \<and> cp_integrity_disposition (plan_close target parsed cid sid ask) = ''verified''"
    "cp_writes (plan_close target parsed cid sid ask) = [comment_write target cid (comment_body parsed (Some t) @ NL @ NL @ round_marker sid),
      status_write target c (status_state (Some t)) (status_description (Some t)), review_write target t ?i (round_marker sid)]"
    using False t c by (auto simp: plan_close_def plan_round_def Let_def split: prod.split)
  have "jget w ''commit_id'' = JStr c \<and> (jget w ''event'' = JStr ''APPROVE'' \<or> jget w ''state'' = JStr ''success''
      \<longleftrightarrow> \<not> blocking t \<and> vt_decision t \<noteq> ''request_changes'')"
    using assms unfolding p(2)
    by (auto simp: comment_write_def status_write_def review_write_def status_state_def kinds c(4) jopt_def)
  with t c(1, 2) len p(1) show ?thesis by blast
qed

text \<open>
  C8. Authority is exercised only on a proven commit: whenever closing a session submits a formal
  review or a successful commit status, the chair's text carried a verdict, the commit the council
  says it read and the commit the controller opened the session for are the same complete commit id,
  the write names that commit, and it approves exactly when the verdict is not a change request and
  has no red or yellow findings. Questions, unparseable texts and unproven commits get neither.
\<close>

theorem authority_needs_proof:
  assumes "(k, w) \<in> set (cp_writes (plan_close target parsed cid sid ask))" and "k = KIND_REVIEW \<or> jget w ''state'' = JStr ''success''"
  shows "\<not> ask \<and> (\<exists>t c. pr_trailer parsed = Some t \<and> length c = 40 \<and> Option.bind (st_head_sha target) canonical_commit_id = Some c
    \<and> Option.bind (Option.bind (pr_findings parsed) fb_head_sha) canonical_commit_id = Some c
    \<and> cp_verified_commit_id (plan_close target parsed cid sid ask) = Some c \<and> jget w ''commit_id'' = JStr c
    \<and> (jget w ''event'' = JStr ''APPROVE'' \<or> jget w ''state'' = JStr ''success'' \<longleftrightarrow> \<not> blocking t \<and> vt_decision t \<noteq> ''request_changes''))"
  using close_authority [OF assms] by blast

definition marked :: "string \<Rightarrow> json \<Rightarrow> bool" where
  "marked marker w = (case jget w ''body'' of JStr body \<Rightarrow> ends_with marker body | _ \<Rightarrow> False)"

definition visible_once :: "string \<Rightarrow> ClosingPlan \<Rightarrow> bool" where
  "visible_once sid plan \<longleftrightarrow> distinct (map fst (cp_writes plan)) \<and> set (map fst (cp_writes plan)) \<subseteq> {KIND_COMMENT, KIND_STATUS, KIND_REVIEW}
    \<and> cp_writes plan \<noteq> [] \<and> fst (hd (cp_writes plan)) = KIND_COMMENT \<and> marked (round_marker sid) (snd (hd (cp_writes plan)))"

lemma ends_app: "ends_with m y \<Longrightarrow> ends_with m (x @ y)" "ends_with m m"
  unfolding ends_with_iff by (metis append_assoc) (metis append_Nil)

lemma write_kinds [simp]:
  "fst (comment_write target cid body) = KIND_COMMENT" "fst (status_write target a b c) = KIND_STATUS" "fst (review_write target t i m) = KIND_REVIEW"
  "KIND_COMMENT \<noteq> KIND_STATUS" "KIND_COMMENT \<noteq> KIND_REVIEW" "KIND_STATUS \<noteq> KIND_REVIEW"
  "marked m (snd (comment_write target cid body)) = ends_with m body"
  by (simp_all add: comment_write_def status_write_def review_write_def marked_def) (simp_all add: kinds)

lemma visible_close:
  assumes "cp_writes plan = comment_write target cid body # rest"
    and "map fst rest \<in> {[], [KIND_STATUS], [KIND_REVIEW], [KIND_STATUS, KIND_REVIEW]}" and "ends_with (round_marker sid) body"
  shows "visible_once sid plan"
proof -
  have "distinct (KIND_COMMENT # map fst rest)" "set (map fst rest) \<subseteq> {KIND_COMMENT, KIND_STATUS, KIND_REVIEW}"
    using assms(2) by (elim insertE emptyE; simp)+
  with assms(1, 3) show ?thesis by (simp add: visible_once_def)
qed

lemma visible_plans:
  "visible_once sid (plan_insufficient_reviewers target sid required valid)"
  "visible_once sid (plan_sha_integrity_failure target trailer cid sid integ)"
  "visible_once sid (plan_ask target parsed cid sid)"
  "visible_once sid (plan_round target parsed cid sid integ)"
proof -
  show "visible_once sid (plan_insufficient_reviewers target sid required valid)"
    unfolding plan_insufficient_reviewers_def Let_def
    by (rule visible_close, unfold ClosingPlan.select_convs, rule refl, simp split: option.split, intro ends_app)
  obtain r y g where c: "trailer_counts trailer = (r, y, g)" by (metis prod.exhaust)
  show "visible_once sid (plan_sha_integrity_failure target trailer cid sid integ)"
    unfolding plan_sha_integrity_failure_def c prod.case
    by (rule visible_close, unfold ClosingPlan.select_convs, rule refl, simp split: option.split, intro ends_app)
  show "visible_once sid (plan_ask target parsed cid sid)"
    unfolding plan_ask_def by (rule visible_close, unfold ClosingPlan.select_convs, rule refl, simp, intro ends_app)
  obtain r y g where c: "trailer_counts (pr_trailer parsed) = (r, y, g)" by (metis prod.exhaust)
  show "visible_once sid (plan_round target parsed cid sid integ)"
    unfolding plan_round_def Let_def c prod.case
    by (rule visible_close, unfold ClosingPlan.select_convs, rule refl, simp split: option.split, intro ends_app)
qed

text \<open>
  C11. Every close is visible once: closing a session, also one that lacks reviewers, queues exactly one
  comment, first in order, whose text ends with the marker a retry recognises it by, and at most one
  status and one review, so the unique outbox key of session and kind never swallows a write.
\<close>

theorem close_is_visible_once:
  "visible_once sid (plan_close target parsed cid sid ask) \<and> visible_once sid (plan_insufficient_reviewers target sid required valid)"
  by (simp add: plan_close_def Let_def visible_plans)

section \<open>Posted texts\<close>

lemma contains_join:
  assumes "p \<noteq> []" and "c \<notin> set p"
  shows "contains_str p (join [c] ls) \<longleftrightarrow> (\<exists>l \<in> set ls. contains_str p l)"
proof (induction ls rule: induct_list012)
  case 1
  with assms(1) show ?case by (simp add: join_def)
next
  case (2 l)
  show ?case by (simp add: join_def)
next
  case (3 l m ls)
  have "join [c] (l # m # ls) = l @ c # join [c] (m # ls)" by (simp add: join_def)
  with 3 contains_str_sep [OF assms(2, 1)] show ?case by simp
qed

lemma contains_part: "contains_str p y \<Longrightarrow> contains_str p (x @ y @ z)"
  unfolding contains_str_iff by (metis append_assoc)

lemma contains_trim: "contains_str p (trim_end s) \<Longrightarrow> contains_str p s" "contains_str p (trim s) \<Longrightarrow> contains_str p s"
proof -
  obtain w where w: "s = trim_end s @ w" using trim_end_prefix by blast
  obtain a b where ab: "s = a @ trim s @ b" using trim_infix by blast
  show "contains_str p (trim_end s) \<Longrightarrow> contains_str p s" using contains_part [of p "trim_end s" "[]" w] w by simp
  show "contains_str p (trim s) \<Longrightarrow> contains_str p s" using contains_part [of p "trim s" a b] ab by simp
qed

lemma unfence_sub: "set (unfence_tables ls) \<subseteq> set ls"
  by (induction ls rule: unfence_tables.induct) (auto dest: in_set_dropD set_takeWhileD)

lemma no_verdict_left:
  "l \<in> set (unfence_tables (drop_tail_marks (cut_at_verdict ls))) \<Longrightarrow> \<not> contains_str VERDICT_OPEN l"
  "l \<in> set (unfence_tables (filter P (drop_tail_marks (cut_at_verdict ls)))) \<Longrightarrow> \<not> contains_str VERDICT_OPEN l"
proof -
  have "set (drop_tail_marks (cut_at_verdict ls)) \<subseteq> set (cut_at_verdict ls)"
    unfolding drop_tail_marks_def by (auto dest: set_dropWhileD)
  moreover have "l \<in> set (cut_at_verdict ls) \<Longrightarrow> \<not> contains_str VERDICT_OPEN l" for l
    unfolding cut_at_verdict_def by (auto dest: set_takeWhileD)
  ultimately show "l \<in> set (unfence_tables (drop_tail_marks (cut_at_verdict ls))) \<Longrightarrow> \<not> contains_str VERDICT_OPEN l"
    "l \<in> set (unfence_tables (filter P (drop_tail_marks (cut_at_verdict ls)))) \<Longrightarrow> \<not> contains_str VERDICT_OPEN l"
    using unfence_sub by fastforce+
qed


definition report_text :: ParsedResult where
  "report_text = \<lparr>pr_trailer = None, pr_findings = None,
    pr_source = join NL [''noise [[verdict:approve]]'', REPORT_START, ''all good'', ''[[verdict:approve r=0 y=0 g=1]]'', ''[done]'']\<rparr>"


section \<open>Decisions\<close>

lemma open_counts_eq:
  "open_counts rows sha = (int (length (filter (\<lambda>r. fr_severity r = ''red'') (live_findings rows sha))),
    int (length (filter (\<lambda>r. fr_severity r = ''yellow'') (live_findings rows sha))))"
proof -
  have "foldl (\<lambda>(red, yellow) r. if fr_severity r = ''red'' then (red + 1, yellow) else if fr_severity r = ''yellow'' then (red, yellow + 1)
      else (red, yellow)) (a, b) rs = (a + int (length (filter (\<lambda>r. fr_severity r = ''red'') rs)), b + int (length (filter (\<lambda>r. fr_severity r = ''yellow'') rs)))"
    for a b :: int and rs :: "ReviewFindingRow list"
    by (induction rs arbitrary: a b) auto
  then show ?thesis by (simp add: open_counts_def)
qed

definition blocker :: "string \<Rightarrow> ReviewFindingRow \<Rightarrow> bool" where
  "blocker sha r \<longleftrightarrow> fr_head_sha r = Some sha \<and> fr_status r = ''open'' \<and> fr_severity r \<in> {''red'', ''yellow''}"

lemma decision_kinds [simp]:
  "decision_kind KIND_DECISION_STATUS n \<noteq> decision_kind KIND_DECISION_REVIEW m"
  "decision_kind KIND_DECISION_COMMENT n \<noteq> decision_kind KIND_DECISION_REVIEW m"
  "decision_kind KIND_DECISION_COMMENT n \<noteq> decision_kind KIND_DECISION_STATUS m"
  "decision_kind KIND_DECISION_REVIEW n \<noteq> decision_kind KIND_DECISION_COMMENT m"
  "decision_kind KIND_DECISION_STATUS n \<noteq> decision_kind KIND_DECISION_COMMENT m"
  "decision_kind KIND_DECISION_REVIEW n \<noteq> decision_kind KIND_DECISION_STATUS m"
  by (simp_all add: decision_kind_def KIND_DECISION_STATUS_def KIND_DECISION_REVIEW_def KIND_DECISION_COMMENT_def)


definition desk_finding :: ReviewFindingRow where
  "desk_finding = \<lparr>fr_id = 1, fr_session_id = ''ses'', fr_repo = None, fr_pr_number = None, fr_stable_id = ''F1'', fr_severity = ''red'',
    fr_status = ''dismissed'', fr_title = ''t'', fr_path = None, fr_line = None, fr_raised_by = None, fr_angle = None, fr_head_sha = Some ''h'',
    fr_created_at = 0, fr_decided_by = Some ''author'', fr_decided_reason = Some ''no'', fr_decided_at = None, fr_waiver_id = None\<rparr>"


definition desk_target :: SessionTarget where
  "desk_target = \<lparr>st_repo = ''o/r'', st_pr_number = 1, st_head_sha = Some (replicate 40 (CHR ''A'')), st_reason = None, st_required_valid_reviewers = None\<rparr>"

definition desk_parsed :: ParsedResult where
  "desk_parsed = \<lparr>pr_trailer = Some \<lparr>vt_decision = ''approve'', vt_red = Some 0, vt_yellow = Some 0, vt_green = Some 1\<rparr>,
    pr_findings = Some \<lparr>fb_head_sha = Some (replicate 40 (CHR ''a'')), fb_findings = []\<rparr>, pr_source = []\<rparr>"

theorem authority_needs_proof_witness:
  "\<exists>w. (KIND_REVIEW, w) \<in> set (cp_writes (plan_close desk_target desk_parsed None ''ses'' False))
    \<and> (\<exists>c. jget w ''commit_id'' = JStr c \<and> canonical_commit_id (replicate 40 (CHR ''A'')) = Some c)"
proof -
  have "list_ex (\<lambda>(k, w). k = KIND_REVIEW) (cp_writes (plan_close desk_target desk_parsed None ''ses'' False))" by code_simp
  then obtain w where w: "(KIND_REVIEW, w) \<in> set (cp_writes (plan_close desk_target desk_parsed None ''ses'' False))" by (auto simp: list_ex_iff)
  from authority_needs_proof [OF this] w show ?thesis by (auto simp: desk_target_def)
qed

section \<open>Quoting within a frame\<close>

lemma find_first: "find_str p s = Some i \<Longrightarrow> p \<noteq> [] \<Longrightarrow> \<not> contains_str p (take i s)"
proof (induction p s arbitrary: i rule: find_str.induct)
  case (2 p c s)
  show ?case
  proof (cases "starts_with p (c # s)")
    case True
    with 2 show ?thesis by (simp del: starts_with.simps)
  next
    case False
    then obtain j where j: "i = Suc j" "find_str p s = Some j" using "2.prems"(1) by (auto simp del: starts_with.simps)
    have "\<not> starts_with p (c # take j s)" using False unfolding starts_with_iff by (metis append_Cons append_assoc append_take_drop_id)
    with 2 False j show ?thesis by (simp del: starts_with.simps)
  qed
qed simp

lemma split_pieces: "p \<noteq> [] \<Longrightarrow> piece \<in> set (split_str p s) \<Longrightarrow> \<not> contains_str p piece"
proof (induction p s rule: split_str.induct)
  case (1 p s)
  show ?case
  proof (cases "find_str p s")
    case None
    with 1 show ?thesis by (simp add: split_str.simps [of p s] find_str_None)
  next
    case (Some i)
    with 1 find_first [OF Some] show ?thesis by (auto simp: split_str.simps [of p s])
  qed
qed

lemma set_split: "piece \<in> set (split_str p s) \<Longrightarrow> set piece \<subseteq> set s"
proof (induction p s rule: split_str.induct)
  case (1 p s)
  then show ?case by (auto simp: split_str.simps [of p s] split: if_splits option.splits dest: in_set_takeD in_set_dropD)
qed

lemma set_join: "set (join sep ls) \<subseteq> set sep \<union> \<Union> (set ` set ls)"
  by (auto simp: join_def split: list.splits)

lemma replace_frame: "\<not> contains_str FRAME (replace_str FRAME ''-'' s)"
proof -
  have f: "FRAME \<noteq> []" "CHR ''-'' \<notin> set FRAME" by (simp_all add: FRAME_def)
  show ?thesis unfolding replace_str_def contains_join [OF f] using split_pieces [OF f(1)] by blast
qed

lemma flatten_no_newline: "CHR 0x0A \<notin> set (flatten_control s)"
  by (induction s rule: flatten_control.induct) auto

lemma take_chars_prefix: "\<exists>r. s = take_chars n s @ r"
  by (induction n s rule: take_chars.induct) (auto split: nat.splits)

lemma take_chars_count: "chars_count (take_chars n s) \<le> n"
  by (induction n s rule: take_chars.induct) (auto simp: chars_count_def split: nat.splits)

lemma set_skip_ws: "skip_ws s = Some t \<Longrightarrow> set t \<subseteq> set s"
  by (cases s) (auto split: list.splits if_splits)

lemma set_ws: "w \<in> set (split_ws_acc acc s) \<Longrightarrow> set w \<subseteq> set acc \<union> set s"
proof (induction acc s rule: split_ws_acc.induct)
  case (1 acc s)
  show ?case
  proof (cases "skip_ws s")
    case None
    show ?thesis
    proof (cases s)
      case Nil
      with "1.prems" show ?thesis by (auto simp: split_ws_acc.simps [of acc "[]"] split: if_splits)
    next
      case (Cons c t)
      with 1 None have "set w \<subseteq> set (c # acc) \<union> set t" by (simp add: split_ws_acc.simps [of acc "c # t"] del: skip_ws.simps)
      with Cons show ?thesis by auto
    qed
  next
    case (Some t)
    with 1 have "w = rev acc \<or> set w \<subseteq> set t" by (auto simp: split_ws_acc.simps [of acc s] split: if_splits)
    with set_skip_ws [OF Some] show ?thesis by auto
  qed
qed

lemma ellipsis_after: "contains_str FRAME (s @ ELLIPSIS) \<longleftrightarrow> contains_str FRAME s"
proof -
  have f: "FRAME \<noteq> []" "CHR 0xE2 \<notin> set FRAME" by (simp_all add: FRAME_def)
  have "\<not> contains_str FRAME [CHR 0x80, CHR 0xA6]" by code_simp
  with contains_str_sep [OF f(2, 1), of s "[CHR 0x80, CHR 0xA6]"] show ?thesis by (simp add: ELLIPSIS_def)
qed

text \<open>
  Quoted text stays inside its frame: whatever a finding's title, path or an author's reason
  contains, the excerpt set into a prompt or a comment holds no frame delimiter and no line break, so
  it cannot end the quoted section early, and has at most the given number of characters and an
  ellipsis.
\<close>

theorem quoted_text_stays_in_frame:
  "\<not> contains_str FRAME (bound raw n) \<and> CHR 0x0A \<notin> set (bound raw n) \<and> chars_count (bound raw n) \<le> n + 1"
proof -
  let ?words = "split_whitespace (flatten_control raw)"
  let ?flat = "replace_str FRAME ''-'' (join '' '' ?words)"
  have w: "CHR 0x0A \<notin> set (join '' '' ?words)"
    using set_join [of "'' ''" ?words] set_ws [of _ "[]" "flatten_control raw"] flatten_no_newline [of raw]
    unfolding split_whitespace_def by auto
  have nl: "CHR 0x0A \<notin> set ?flat"
    using set_join [of "''-''" "split_str FRAME (join '' '' ?words)"] set_split [of _ FRAME "join '' '' ?words"] w
    unfolding replace_str_def by auto
  obtain r where r: "?flat = take_chars n ?flat @ r" using take_chars_prefix by blast
  have cut: "\<not> contains_str FRAME (take_chars n ?flat)" "CHR 0x0A \<notin> set (take_chars n ?flat)"
    using contains_part [of FRAME "take_chars n ?flat" "[]" r] replace_frame nl r by (metis append_Nil, metis Un_iff set_append)
  have "CHR 0x0A \<notin> set ELLIPSIS" "chars_count (x @ ELLIPSIS) = chars_count x + 1" for x
    by (simp_all add: ELLIPSIS_def chars_count_def is_continuation_def)
  with cut nl replace_frame take_chars_count [of n ?flat] show ?thesis
    by (simp add: bound_def Let_def ellipsis_after)
qed

section \<open>The waived section\<close>

lemma rfind_last: "rfind_str p s = Some i \<Longrightarrow> p \<noteq> [] \<Longrightarrow> \<not> contains_str p (drop (Suc i) s)"
proof (induction p s arbitrary: i rule: rfind_str.induct)
  case (2 p c s)
  then show ?case by (auto split: option.splits if_splits simp: rfind_str_None)
qed simp

lemma rfind_str_last:
  assumes "p \<noteq> []" and "\<not> contains_str p (tl p @ b)"
  shows "rfind_str p (a @ p @ b) = Some (length a)"
proof (induction a)
  case Nil
  obtain c q where p: "p = c # q" using assms(1) by (cases p) auto
  with assms(2) have "rfind_str p (q @ b) = None" by (simp add: rfind_str_None)
  moreover have "starts_with p (c # q @ b)" using p starts_with_append [of p b] by simp
  ultimately show ?case using p by (simp del: starts_with.simps)
qed simp

lemma find_same_prefix:
  assumes "find_str p (a @ p @ b) = Some (length a)" and "p \<noteq> []"
  shows "find_str p (a @ p @ b') = Some (length a)"
  using assms(1)
proof (induction a)
  case Nil
  then show ?case using assms(2) by (cases p) auto
next
  case (Cons x a)
  then have no: "\<not> starts_with p (x # a @ p @ b)" and rec: "find_str p (a @ p @ b) = Some (length a)"
    by (auto split: if_splits simp del: starts_with.simps)
  have "\<not> starts_with p (x # a @ p @ b')"
  proof
    assume "starts_with p (x # a @ p @ b')"
    then obtain t where "x # a @ p @ b' = p @ t" by (auto simp: starts_with_iff)
    then have "take (length p) ((x # a @ p) @ b') = p" by simp
    then have "take (length p) (x # a @ p) = p" by (subst (asm) take_append) simp
    then have "starts_with p ((x # a @ p) @ b)" unfolding starts_with_iff by (metis append_assoc append_take_drop_id)
    with no show False by simp
  qed
  with Cons.IH [OF rec] show ?case by (simp del: starts_with.simps)
qed

lemma upsert_replaces:
  assumes "find_str WAIVED_SECTION_START (a @ WAIVED_SECTION_START @ x) = Some (length a)"
    and "\<not> contains_str WAIVED_SECTION_END (tl WAIVED_SECTION_END @ b)"
  shows "upsert_waived_section (a @ (WAIVED_SECTION_START @ mid @ WAIVED_SECTION_END) @ b) sect = a @ sect @ b"
proof -
  have ne: "WAIVED_SECTION_START \<noteq> []" "WAIVED_SECTION_END \<noteq> []" by (simp_all add: WAIVED_SECTION_START_def WAIVED_SECTION_END_def)
  let ?text = "a @ (WAIVED_SECTION_START @ mid @ WAIVED_SECTION_END) @ b"
  have "find_str WAIVED_SECTION_START ?text = Some (length a)"
    using find_same_prefix [OF assms(1) ne(1), of "mid @ WAIVED_SECTION_END @ b"] by simp
  moreover have "rfind_str WAIVED_SECTION_END ?text = Some (length a + length WAIVED_SECTION_START + length mid)"
    using rfind_str_last [OF ne(2) assms(2), of "a @ WAIVED_SECTION_START @ mid"] by simp
  ultimately show ?thesis using ne by (simp add: upsert_waived_section_def)
qed

lemma waived_section_shape:
  "waived_section rows sha expiries at = Some s \<Longrightarrow> \<exists>mid. s = WAIVED_SECTION_START @ mid @ WAIVED_SECTION_END"
  unfolding waived_section_def Let_def by (auto split: if_splits simp del: concat.simps)

text \<open>
  Rewriting the list of waived findings is stable: once a section of waived findings was put into a
  comment, putting in another one replaces it wholesale, giving what would have resulted without the
  first, as long as the comment had no start delimiter or its first start delimiter preceded its last
  end delimiter. In particular writing the same section again changes nothing.
\<close>

theorem waived_section_idempotent:
  assumes "waived_section rows sha expiries at = Some s"
    and "contains_str WAIVED_SECTION_START body \<longrightarrow>
      (\<exists>i j. find_str WAIVED_SECTION_START body = Some i \<and> rfind_str WAIVED_SECTION_END body = Some j \<and> i < j)"
  shows "upsert_waived_section (upsert_waived_section body s) s' = upsert_waived_section body s'"
proof -
  obtain mid where s: "s = WAIVED_SECTION_START @ mid @ WAIVED_SECTION_END" using waived_section_shape assms(1) by blast
  have ne: "WAIVED_SECTION_START \<noteq> []" "WAIVED_SECTION_END \<noteq> []" by (simp_all add: WAIVED_SECTION_START_def WAIVED_SECTION_END_def)
  show ?thesis
  proof (cases "contains_str WAIVED_SECTION_START body")
    case True
    then obtain i j where ij: "find_str WAIVED_SECTION_START body = Some i" "rfind_str WAIVED_SECTION_END body = Some j" "i < j"
      using assms(2) by blast
    obtain x where x: "drop i body = WAIVED_SECTION_START @ x" using find_strD [OF ij(1)] by (auto simp: starts_with_iff)
    obtain y where y: "drop j body = WAIVED_SECTION_END @ y" using rfind_strD [OF ij(2)] by (auto simp: starts_with_iff)
    have y': "drop (j + length WAIVED_SECTION_END) body = y" using y by (metis append_eq_conv_conj drop_drop add.commute)
    have "drop (Suc j) body = tl WAIVED_SECTION_END @ y" using y ne(2) by (metis drop_Suc tl_append2 tl_drop)
    then have b: "\<not> contains_str WAIVED_SECTION_END (tl WAIVED_SECTION_END @ y)" using rfind_last [OF ij(2) ne(2)] by simp
    have "i \<le> length body" using find_strD [OF ij(1)] by simp
    then have f: "find_str WAIVED_SECTION_START (take i body @ WAIVED_SECTION_START @ x) = Some (length (take i body))"
      using ij(1) x by (simp flip: x)
    have u: "upsert_waived_section body t = take i body @ t @ y" for t using ij y' by (simp add: upsert_waived_section_def)
    show ?thesis using upsert_replaces [OF f b, of mid s'] unfolding u s by simp
  next
    case False
    have u: "upsert_waived_section body t = (trim_end body @ NL @ NL) @ t" for t
      using False by (auto simp: upsert_waived_section_def find_str_None [symmetric])
    have c: "CHR 0x0A \<notin> set WAIVED_SECTION_START" by (simp add: WAIVED_SECTION_START_def)
    have "\<not> contains_str WAIVED_SECTION_START (butlast WAIVED_SECTION_START)" "\<not> contains_str WAIVED_SECTION_START []" by code_simp+
    then have "\<not> contains_str WAIVED_SECTION_START ((trim_end body @ NL @ NL) @ butlast WAIVED_SECTION_START)"
      using contains_str_sep [OF c ne(1), of "trim_end body" "CHR 0x0A # butlast WAIVED_SECTION_START"]
        contains_str_sep [OF c ne(1), of "[]" "butlast WAIVED_SECTION_START"] False contains_trim(1)
      by (auto simp: NL_def)
    from find_str_first [OF ne(1) this, of "[]"]
    have f: "find_str WAIVED_SECTION_START ((trim_end body @ NL @ NL) @ WAIVED_SECTION_START @ []) = Some (length (trim_end body @ NL @ NL))" .
    have b: "\<not> contains_str WAIVED_SECTION_END (tl WAIVED_SECTION_END @ [])" by code_simp
    show ?thesis using upsert_replaces [OF f b, of mid s'] unfolding u s by simp
  qed
qed

text \<open>The hypothesis on the delimiters is needed: after a stray start delimiter the second call loses text.\<close>

lemma stray_start_loses_text:
  "(let s = WAIVED_SECTION_START @ WAIVED_SECTION_END; body = WAIVED_SECTION_START @ ''text''
    in upsert_waived_section (upsert_waived_section body s) s = s \<and> upsert_waived_section body s \<noteq> s)"
  by code_simp

definition waived_finding :: ReviewFindingRow where
  "waived_finding = desk_finding\<lparr>fr_status := ''waived''\<rparr>"

theorem waived_section_idempotent_witness:
  "\<exists>s. waived_section [waived_finding] ''h'' [] 0 = Some s
    \<and> upsert_waived_section (upsert_waived_section ''report'' s) s = upsert_waived_section ''report'' s"
proof -
  obtain s where s: "waived_section [waived_finding] ''h'' [] 0 = Some s"
    by (simp add: waived_section_def waived_finding_def desk_finding_def)
  have "\<not> contains_str WAIVED_SECTION_START ''report''" by code_simp
  with waived_section_idempotent [OF s, of "''report''" s] s show ?thesis by simp
qed

end
