(* ===== verification/PR_GitHub.thy ===== *)
theory PR_GitHub
  imports PR_Closing "HOL-Library.Signed_Division"
begin

text \<open>
  The pull request controller's hands on GitHub (\<^verbatim>\<open>crates/github-pr-controller/src/github.rs\<close>). GitHub
  itself is an arbitrary service: its reply to a request is a parameter, a function of the whole history
  of requests, so it may change its mind between two calls. The client's effect is the list of requests
  it built; a request that was never sent for lack of a token is listed too.
\<close>

section \<open>The service\<close>

datatype Method = GET | POST | PATCH

record Request =
  rq_method :: Method
  rq_path :: string
  rq_body :: "json option"

text \<open>
  \<open>NoToken\<close>: no installation token could be had; \<open>SendFailed\<close>: the request failed in transport;
  otherwise the status code and the text of the reply.
\<close>

datatype HttpReply = NoToken string | SendFailed | Reply nat string

text \<open>The reply function, the JSON reader, the display of a status and the quoted display of a text.\<close>

record github_world =
  gh_reply :: "Request list \<Rightarrow> Request \<Rightarrow> HttpReply"
  gh_parse :: "string \<Rightarrow> json option"
  gh_status :: "nat \<Rightarrow> string"
  gh_debug :: "string \<Rightarrow> string"

record GitHubClient =
  gc_repository :: "string option"
  gc_app_numeric_id :: "int option"
  gc_expected_login :: "string option"

type_synonym 'a gh = "Request list \<Rightarrow> (string + 'a) \<times> Request list"

definition retG :: "'a \<Rightarrow> 'a gh" where
  "retG a log = (Inr a, log)"

definition failG :: "string \<Rightarrow> 'a gh" where
  "failG e log = (Inl e, log)"

definition liftG :: "string + 'a \<Rightarrow> 'a gh" where
  "liftG r log = (r, log)"

definition bindG :: "'a gh \<Rightarrow> ('a \<Rightarrow> 'b gh) \<Rightarrow> 'b gh" where
  "bindG m f log = (case m log of (Inl e, log') \<Rightarrow> (Inl e, log') | (Inr a, log') \<Rightarrow> f a log')"

definition someG :: "string \<Rightarrow> 'a option \<Rightarrow> 'a gh" where
  "someG e x = (case x of None \<Rightarrow> failG e | Some a \<Rightarrow> retG a)"

text \<open>An error that the caller answers itself.\<close>

definition tryG :: "'a gh \<Rightarrow> (string + 'a) gh" where
  "tryG m log = (case m log of (r, log') \<Rightarrow> (Inr r, log'))"

section \<open>Events, states and small readers\<close>

datatype ReviewEvent = Approve | RequestChanges

fun review_event_str :: "ReviewEvent \<Rightarrow> string" where
  "review_event_str Approve = ''APPROVE''"
| "review_event_str RequestChanges = ''REQUEST_CHANGES''"

fun expected_state :: "ReviewEvent \<Rightarrow> string" where
  "expected_state Approve = ''APPROVED''"
| "expected_state RequestChanges = ''CHANGES_REQUESTED''"

datatype StatusState = StatusSuccess | StatusFailure | StatusError

fun status_state_str :: "StatusState \<Rightarrow> string" where
  "status_state_str StatusSuccess = ''success''"
| "status_state_str StatusFailure = ''failure''"
| "status_state_str StatusError = ''error''"

record ReviewReceipt =
  rp_id :: int
  rp_state :: string
  rp_commit_id :: string

definition RECONCILE_MAX_PAGES :: nat where "RECONCILE_MAX_PAGES = 10"

fun jas_i64 :: "json \<Rightarrow> int option" where
  "jas_i64 (JNum n) = (if i64_range n then Some n else None)"
| "jas_i64 _ = None"

definition truncate_at :: "string \<Rightarrow> nat \<Rightarrow> string" where
  "truncate_at val limit =
    (if length val \<le> limit then val
     else take (case find (is_char_boundary val) (rev [0..<limit + 1]) of None \<Rightarrow> 0 | Some i \<Rightarrow> i) val @ ELLIPSIS)"

section \<open>Requests\<close>

definition well_formed_repo :: "string \<Rightarrow> bool" where
  "well_formed_repo repo = (case split_str ''/'' repo of [owner, name] \<Rightarrow> owner \<noteq> [] \<and> name \<noteq> [] | _ \<Rightarrow> False)"

definition check_repository :: "github_world \<Rightarrow> GitHubClient \<Rightarrow> string \<Rightarrow> string + unit" where
  "check_repository g c repo =
    (case gc_repository c of
      Some owned \<Rightarrow>
        if repo \<noteq> owned then Inl (''refusing to write to '' @ repo @ '': this controller owns '' @ owned) else Inr ()
    | None \<Rightarrow>
        if \<not> well_formed_repo repo then Inl (''refusing to write to malformed repository '' @ gh_debug g repo) else Inr ())"

definition request_of :: "Method \<Rightarrow> string \<Rightarrow> json option \<Rightarrow> Request" where
  "request_of meth path body = \<lparr>rq_method = meth, rq_path = path, rq_body = body\<rparr>"

definition send_request :: "github_world \<Rightarrow> Method \<Rightarrow> string \<Rightarrow> json option \<Rightarrow> json gh" where
  "send_request g meth path body log =
    (let rq = request_of meth path body in
     (case gh_reply g log rq of
       NoToken e \<Rightarrow> Inl e
     | SendFailed \<Rightarrow> Inl ''github request failed''
     | Reply status text \<Rightarrow>
         if \<not> (200 \<le> status \<and> status < 300) then Inl (''github '' @ path @ '' returned '' @ gh_status g status @ '': '' @ truncate_at text 300)
         else Inr (case gh_parse g text of None \<Rightarrow> JNull | Some j \<Rightarrow> j),
      log @ [rq]))"

definition issue_path :: "string \<Rightarrow> int \<Rightarrow> string" where
  "issue_path repo issue = ''repos/'' @ repo @ ''/issues/'' @ int_str issue @ ''/comments''"

definition comment_path :: "string \<Rightarrow> int \<Rightarrow> string" where
  "comment_path repo comment_id = ''repos/'' @ repo @ ''/issues/comments/'' @ int_str comment_id"

definition reviews_path :: "string \<Rightarrow> int \<Rightarrow> string" where
  "reviews_path repo pr_number = ''repos/'' @ repo @ ''/pulls/'' @ int_str pr_number @ ''/reviews''"

definition create_comment :: "github_world \<Rightarrow> GitHubClient \<Rightarrow> string \<Rightarrow> int \<Rightarrow> string \<Rightarrow> int gh" where
  "create_comment g c repo issue body = bindG (liftG (check_repository g c repo)) (\<lambda>_.
    bindG (send_request g POST (issue_path repo issue) (Some (JObj [(''body'', JStr body)]))) (\<lambda>response.
    someG ''comment response carried no id'' (jas_i64 (jget response ''id''))))"

definition issue_comment_body :: "github_world \<Rightarrow> GitHubClient \<Rightarrow> string \<Rightarrow> int \<Rightarrow> string gh" where
  "issue_comment_body g c repo comment_id = bindG (liftG (check_repository g c repo)) (\<lambda>_.
    bindG (send_request g GET (comment_path repo comment_id) None) (\<lambda>response.
    someG ''comment response carried no body'' (jas_str (jget response ''body''))))"

definition update_comment :: "github_world \<Rightarrow> GitHubClient \<Rightarrow> string \<Rightarrow> int \<Rightarrow> string \<Rightarrow> unit gh" where
  "update_comment g c repo comment_id body = bindG (liftG (check_repository g c repo)) (\<lambda>_.
    bindG (send_request g PATCH (comment_path repo comment_id) (Some (JObj [(''body'', JStr body)]))) (\<lambda>_. retG ()))"

definition set_status :: "github_world \<Rightarrow> GitHubClient \<Rightarrow> string \<Rightarrow> string \<Rightarrow> StatusState \<Rightarrow> string \<Rightarrow> string \<Rightarrow> unit gh" where
  "set_status g c repo sha st ctx description = bindG (liftG (check_repository g c repo)) (\<lambda>_.
    bindG (send_request g POST (''repos/'' @ repo @ ''/statuses/'' @ sha) (Some (JObj [(''state'', JStr (status_state_str st)),
      (''context'', JStr ctx), (''description'', JStr (truncate_at description 140))]))) (\<lambda>_. retG ()))"

definition accept_review :: "github_world \<Rightarrow> ReviewEvent \<Rightarrow> string \<Rightarrow> json \<Rightarrow> string + ReviewReceipt" where
  "accept_review g event commit_id response =
    (let st = (case jas_str (jget response ''state'') of None \<Rightarrow> [] | Some s \<Rightarrow> s) in
     if st \<noteq> expected_state event then Inl (''github_review_response_mismatch: review submitted as '' @ gh_debug g st
       @ '', expected '' @ gh_debug g (expected_state event))
     else case Option.bind (jas_str (jget response ''commit_id'')) canonical_commit_id of
       None \<Rightarrow> Inl ''github_review_response_mismatch: review response carried no valid commit_id''
     | Some returned \<Rightarrow>
         if returned \<noteq> commit_id then Inl (''github_review_response_mismatch: review returned commit_id '' @ gh_debug g returned
           @ '', expected '' @ gh_debug g commit_id)
         else case jas_i64 (jget response ''id'') of
           None \<Rightarrow> Inl ''github_review_response_mismatch: review response carried no id''
         | Some i \<Rightarrow> Inr \<lparr>rp_id = i, rp_state = st, rp_commit_id = returned\<rparr>)"

definition submit_review :: "github_world \<Rightarrow> GitHubClient \<Rightarrow> string \<Rightarrow> int \<Rightarrow> ReviewEvent \<Rightarrow> string \<Rightarrow> string \<Rightarrow> ReviewReceipt gh" where
  "submit_review g c repo pr_number event commit_id body = bindG (liftG (check_repository g c repo)) (\<lambda>_.
    bindG (someG ''review commit_id is not a full ASCII hex object id'' (canonical_commit_id commit_id)) (\<lambda>commit_id.
    bindG (send_request g POST (reviews_path repo pr_number) (Some (JObj [(''event'', JStr (review_event_str event)),
      (''body'', JStr body), (''commit_id'', JStr commit_id)]))) (\<lambda>response.
    liftG (accept_review g event commit_id response))))"

definition pull_head_sha :: "github_world \<Rightarrow> GitHubClient \<Rightarrow> string \<Rightarrow> int \<Rightarrow> string gh" where
  "pull_head_sha g c repo pr_number = bindG (liftG (check_repository g c repo)) (\<lambda>_.
    bindG (send_request g GET (''repos/'' @ repo @ ''/pulls/'' @ int_str pr_number) None) (\<lambda>pr.
    someG ''pull request response carried no head sha'' (jas_str (jpath pr [''head'', ''sha'']))))"

definition num_or_zero :: "json \<Rightarrow> int" where
  "num_or_zero j = (case jas_i64 j of None \<Rightarrow> 0 | Some n \<Rightarrow> n)"

definition MINUS :: string where "MINUS = [CHR 0xE2, CHR 0x88, CHR 0x92]"

definition baseline_text :: "json \<Rightarrow> string \<Rightarrow> string" where
  "baseline_text pr checks =
    (let head = or_empty (jas_str (jpath pr [''head'', ''sha'']))
     in ''Baseline:'' @ NL @ ''- Scope: '' @ int_str (num_or_zero (jget pr ''changed_files'')) @ '' files changed (+''
        @ int_str (num_or_zero (jget pr ''additions'')) @ ''/'' @ MINUS @ int_str (num_or_zero (jget pr ''deletions'')) @ '')'' @ NL
        @ ''- CI/checks: '' @ checks @ '' at '' @ TICK @ take (min (length head) 7) head @ TICK)"

definition pull_baseline :: "github_world \<Rightarrow> GitHubClient \<Rightarrow> string \<Rightarrow> int \<Rightarrow> string gh" where
  "pull_baseline g c repo pr_number = bindG (liftG (check_repository g c repo)) (\<lambda>_.
    bindG (send_request g GET (''repos/'' @ repo @ ''/pulls/'' @ int_str pr_number) None) (\<lambda>pr.
    bindG (tryG (send_request g GET (''repos/'' @ repo @ ''/commits/'' @ or_empty (jas_str (jpath pr [''head'', ''sha''])) @ ''/status'') None)) (\<lambda>r.
    retG (baseline_text pr (case r of
        Inl _ \<Rightarrow> ''unavailable''
      | Inr status \<Rightarrow> (case jas_str (jget status ''state'') of None \<Rightarrow> ''unknown'' | Some s \<Rightarrow> s)
          @ '' ('' @ int_str (num_or_zero (jget status ''total_count'')) @ '' contexts)'')))))"

text \<open>Two probes read the status code themselves.\<close>

definition probe :: "github_world \<Rightarrow> string \<Rightarrow> (nat \<times> string) gh" where
  "probe g path log = (let rq = request_of GET path None in
    (case gh_reply g log rq of NoToken e \<Rightarrow> Inl e | SendFailed \<Rightarrow> Inl ''github request failed'' | Reply status text \<Rightarrow> Inr (status, text),
     log @ [rq]))"

definition is_org_member :: "github_world \<Rightarrow> string \<Rightarrow> string \<Rightarrow> bool gh" where
  "is_org_member g org login = bindG (probe g (''orgs/'' @ org @ ''/members/'' @ login)) (\<lambda>(status, _).
    if status = 204 then retG True else if status \<in> {302, 404} then retG False
    else failG (''github orgs/'' @ org @ ''/members/'' @ login @ '' returned '' @ nat_str status))"

definition app_slug :: "github_world \<Rightarrow> string gh" where
  "app_slug g = bindG (probe g ''app'') (\<lambda>(status, text).
    if \<not> (200 \<le> status \<and> status < 300) then failG (''github /app returned '' @ gh_status g status)
    else bindG (someG ''bad /app json'' (gh_parse g text)) (\<lambda>body. someG ''github /app carried no slug'' (jas_str (jget body ''slug''))))"

definition can_write_repo :: "github_world \<Rightarrow> GitHubClient \<Rightarrow> string \<Rightarrow> string \<Rightarrow> bool gh" where
  "can_write_repo g c repo login = bindG (liftG (check_repository g c repo)) (\<lambda>_.
    bindG (probe g (''repos/'' @ repo @ ''/collaborators/'' @ login @ ''/permission'')) (\<lambda>(status, text).
    if status = 200 then bindG (someG ''bad permission json'' (gh_parse g text)) (\<lambda>body.
      retG (jas_str (jget body ''permission'') \<in> {Some ''admin'', Some ''maintain'', Some ''write''}))
    else if status \<in> {403, 404} then retG False
    else failG (''github repos/'' @ repo @ ''/collaborators/'' @ login @ ''/permission returned '' @ nat_str status)))"

section \<open>Reconciliation\<close>

definition is_ours :: "GitHubClient \<Rightarrow> json \<Rightarrow> bool" where
  "is_ours c entry \<longleftrightarrow>
    (case gc_expected_login c of None \<Rightarrow> False | Some login \<Rightarrow> jas_str (jpath entry [''user'', ''login'']) = Some login)
    \<or> (case gc_app_numeric_id c of None \<Rightarrow> False | Some app \<Rightarrow> jas_i64 (jpath entry [''performed_via_github_app'', ''id'']) = Some app)"

definition carries :: "string \<Rightarrow> json \<Rightarrow> bool" where
  "carries marker entry = (case jas_str (jget entry ''body'') of None \<Rightarrow> False | Some body \<Rightarrow> contains_str marker body)"

definition scan_for_our_marker :: "GitHubClient \<Rightarrow> json \<Rightarrow> string \<Rightarrow> int option" where
  "scan_for_our_marker c entries marker = Option.bind (jas_array entries) (find_map (\<lambda>entry.
    if \<not> carries marker entry \<or> \<not> is_ours c entry then None else jas_i64 (jget entry ''id'')))"

definition conflict_text :: "string \<Rightarrow> string" where
  "conflict_text what = ''github_review_reconciliation_conflict: owned marked review '' @ what"

fun scan_reviews :: "github_world \<Rightarrow> GitHubClient \<Rightarrow> string \<Rightarrow> ReviewEvent \<Rightarrow> string \<Rightarrow> json list \<Rightarrow> string + ReviewReceipt option" where
  "scan_reviews g c marker event expected [] = Inr None"
| "scan_reviews g c marker event expected (entry # rest) =
    (if \<not> carries marker entry \<or> \<not> is_ours c entry then scan_reviews g c marker event expected rest
     else case jas_i64 (jget entry ''id'') of
       None \<Rightarrow> Inl (conflict_text ''carried no id'')
     | Some i \<Rightarrow> (case jas_str (jget entry ''state'') of
         None \<Rightarrow> Inl (conflict_text ''carried no state'')
       | Some st \<Rightarrow> (case Option.bind (jas_str (jget entry ''commit_id'')) canonical_commit_id of
           None \<Rightarrow> Inl (conflict_text ''carried no valid commit_id'')
         | Some commit_id \<Rightarrow>
             if st \<noteq> expected_state event \<or> commit_id \<noteq> expected
             then Inl (conflict_text (''identity was state '' @ gh_debug g st @ '', commit_id '' @ gh_debug g commit_id @ ''; expected state ''
               @ gh_debug g (expected_state event) @ '', commit_id '' @ gh_debug g expected))
             else Inr (Some \<lparr>rp_id = i, rp_state = st, rp_commit_id = commit_id\<rparr>))))"

definition scan_for_our_review :: "github_world \<Rightarrow> GitHubClient \<Rightarrow> json \<Rightarrow> string \<Rightarrow> ReviewEvent \<Rightarrow> string \<Rightarrow> string + ReviewReceipt option" where
  "scan_for_our_review g c entries marker event expected =
    (case jas_array entries of None \<Rightarrow> Inr None | Some es \<Rightarrow> scan_reviews g c marker event expected es)"

definition entries_count :: "json \<Rightarrow> nat" where
  "entries_count entries = (case jas_array entries of None \<Rightarrow> 0 | Some es \<Rightarrow> length es)"

definition page_path :: "string \<Rightarrow> nat \<Rightarrow> string" where
  "page_path path page = path @ ''?per_page=100&page='' @ nat_str page"

text \<open>The loop over the pages, shared by both listings: stop at a match or at a page that is not full.\<close>

fun scan_pages :: "github_world \<Rightarrow> string \<Rightarrow> (json \<Rightarrow> string + 'a option) \<Rightarrow> nat list \<Rightarrow> 'a option gh" where
  "scan_pages g path scan [] = failG (''reconcile scanned '' @ nat_str RECONCILE_MAX_PAGES @ '' pages of '' @ path @ '' without exhausting it'')"
| "scan_pages g path scan (page # pages) = bindG (send_request g GET (page_path path page) None) (\<lambda>entries.
    bindG (liftG (scan entries)) (\<lambda>found.
    case found of
      Some a \<Rightarrow> retG (Some a)
    | None \<Rightarrow> if entries_count entries < 100 then retG None else scan_pages g path scan pages))"

definition find_marked :: "github_world \<Rightarrow> GitHubClient \<Rightarrow> string \<Rightarrow> string \<Rightarrow> int option gh" where
  "find_marked g c path marker = scan_pages g path (\<lambda>entries. Inr (scan_for_our_marker c entries marker)) [1..<RECONCILE_MAX_PAGES + 1]"

definition find_marked_comment :: "github_world \<Rightarrow> GitHubClient \<Rightarrow> string \<Rightarrow> int \<Rightarrow> string \<Rightarrow> int option gh" where
  "find_marked_comment g c repo issue marker = bindG (liftG (check_repository g c repo)) (\<lambda>_. find_marked g c (issue_path repo issue) marker)"

definition find_marked_review :: "github_world \<Rightarrow> GitHubClient \<Rightarrow> string \<Rightarrow> int \<Rightarrow> string \<Rightarrow> ReviewEvent \<Rightarrow> string \<Rightarrow> ReviewReceipt option gh" where
  "find_marked_review g c repo pr_number marker event expected_commit_id = bindG (liftG (check_repository g c repo)) (\<lambda>_.
    bindG (someG ''review reconciliation commit_id is not a full ASCII hex object id'' (canonical_commit_id expected_commit_id)) (\<lambda>expected.
    scan_pages g (reviews_path repo pr_number) (\<lambda>entries. scan_for_our_review g c entries marker event expected) [1..<RECONCILE_MAX_PAGES + 1]))"

section \<open>The expiry of a token\<close>

text \<open>Days from 1970-01-01 to a date of the proleptic Gregorian calendar; Rust's integer division truncates.\<close>

definition days_from_civil :: "int \<Rightarrow> int \<Rightarrow> int \<Rightarrow> int" where
  "days_from_civil y m d =
    (let y = (if m \<le> 2 then y - 1 else y);
         era = (if y \<ge> 0 then y else y - 399) sdiv 400;
         yoe = y - era * 400;
         doy = (153 * (if m > 2 then m - 3 else m + 9) + 2) sdiv 5 + d - 1;
         doe = yoe * 365 + yoe sdiv 4 - yoe sdiv 100 + doy
     in era * 146097 + doe - 719468)"

text \<open>
  The reader of the expiry; the seconds of the time are a decimal fraction read by the standard library,
  a parameter that yields the number of whole seconds. The sums are those of the code as long as they stay
  within 64 bits, which four-digit years do.
\<close>

fun trim_Z_rev :: "string \<Rightarrow> string" where
  "trim_Z_rev [] = []"
| "trim_Z_rev (c # s) = (if c = CHR ''Z'' then trim_Z_rev s else c # s)"

definition parse_rfc3339_secs :: "(string \<Rightarrow> int option) \<Rightarrow> string \<Rightarrow> int option" where
  "parse_rfc3339_secs parse_secs val =
    (case split_once (CHR ''T'') val of
      None \<Rightarrow> None
    | Some (date, rest) \<Rightarrow>
        (case (split_str ''-'' date, split_str '':'' (rev (trim_Z_rev (rev rest)))) of
          (y # m # d # _, hh # mm # ss # _) \<Rightarrow>
            (case (parse_i64 y, parse_i64 m, parse_i64 d, parse_i64 hh, parse_i64 mm, parse_secs ss) of
              (Some y, Some m, Some d, Some hh, Some mm, Some ss) \<Rightarrow>
                let secs = days_from_civil y m d * 86400 + hh * 3600 + mm * 60 + ss
                in if secs \<ge> 0 then Some secs else None
            | _ \<Rightarrow> None)
        | _ \<Rightarrow> None))"

section \<open>What an operation requests\<close>

named_theorems requests_rules "requests an operation makes"

definition requests :: "(Request \<Rightarrow> bool) \<Rightarrow> 'a gh \<Rightarrow> bool" where
  "requests R m \<longleftrightarrow> (\<forall>log. \<exists>new. snd (m log) = log @ new \<and> (\<forall>rq \<in> set new. R rq))"

lemma requests_ret [requests_rules]: "requests R (retG a)" "requests R (failG e)" "requests R (liftG x)"
  by (simp_all add: requests_def retG_def failG_def liftG_def)

lemma requests_some [requests_rules]: "requests R (someG e x)"
  by (cases x) (simp_all add: someG_def requests_ret)

lemma requests_bind [requests_rules]:
  assumes m: "requests R m" and f: "\<And>a. requests R (f a)"
  shows "requests R (bindG m f)"
  unfolding requests_def
proof
  fix log
  obtain r log1 where e: "m log = (r, log1)" by force
  with m obtain n1 where n1: "log1 = log @ n1" "\<forall>rq \<in> set n1. R rq" unfolding requests_def by (metis snd_conv)
  show "\<exists>new. snd (bindG m f log) = log @ new \<and> (\<forall>rq \<in> set new. R rq)"
  proof (cases r)
    case (Inl x)
    with e n1 show ?thesis by (simp add: bindG_def)
  next
    case (Inr a)
    from f [of a] obtain n2 where n2: "snd (f a log1) = log1 @ n2" "\<forall>rq \<in> set n2. R rq" unfolding requests_def by blast
    have "snd (bindG m f log) = log @ (n1 @ n2)" using e Inr n1 n2 by (simp add: bindG_def)
    moreover have "\<forall>rq \<in> set (n1 @ n2). R rq" using n1 n2 by auto
    ultimately show ?thesis by blast
  qed
qed

lemma requests_try [requests_rules]: "requests R m \<Longrightarrow> requests R (tryG m)"
  unfolding requests_def tryG_def by (metis (mono_tags, lifting) case_prod_beta' snd_conv)

lemma requests_send: "R (request_of meth path body) \<Longrightarrow> requests R (send_request g meth path body)"
  by (auto simp: requests_def send_request_def Let_def)

lemma requests_probe: "R (request_of GET path None) \<Longrightarrow> requests R (probe g path)"
  by (auto simp: requests_def probe_def Let_def)

lemma requests_pages: "(\<And>p. R (request_of GET (page_path path p) None)) \<Longrightarrow> requests R (scan_pages g path scan pages)"
  by (induction pages) (auto intro!: requests_ret requests_bind requests_send split: option.splits)

text \<open>An operation behind the check of its repository makes no request unless the check passes.\<close>

lemma requests_checked:
  assumes "check_repository g c repo = Inr () \<Longrightarrow> requests R (f ())"
  shows "requests R (bindG (liftG (check_repository g c repo)) f)"
proof (cases "check_repository g c repo")
  case (Inl e)
  then show ?thesis by (simp add: requests_def bindG_def liftG_def)
next
  case (Inr u)
  with assms have "requests R (f u)" by simp
  with Inr show ?thesis by (simp add: requests_def bindG_def liftG_def)
qed

section \<open>The operations on a repository\<close>

datatype RepoOp =
    CreateComment (op_repo: string) int string
  | ReadComment (op_repo: string) int
  | UpdateComment (op_repo: string) int string
  | SetStatus (op_repo: string) string StatusState string string
  | SubmitReview (op_repo: string) int ReviewEvent string string
  | PullHead (op_repo: string) int
  | PullBaseline (op_repo: string) int
  | CanWrite (op_repo: string) string
  | FindComment (op_repo: string) int string
  | FindReview (op_repo: string) int string ReviewEvent string

definition voidG :: "'a gh \<Rightarrow> unit gh" where
  "voidG m = bindG m (\<lambda>_. retG ())"

fun repo_op :: "github_world \<Rightarrow> GitHubClient \<Rightarrow> RepoOp \<Rightarrow> unit gh" where
  "repo_op g c (CreateComment repo n body) = voidG (create_comment g c repo n body)"
| "repo_op g c (ReadComment repo i) = voidG (issue_comment_body g c repo i)"
| "repo_op g c (UpdateComment repo i body) = voidG (update_comment g c repo i body)"
| "repo_op g c (SetStatus repo sha st ctx desc) = voidG (set_status g c repo sha st ctx desc)"
| "repo_op g c (SubmitReview repo n ev commit body) = voidG (submit_review g c repo n ev commit body)"
| "repo_op g c (PullHead repo n) = voidG (pull_head_sha g c repo n)"
| "repo_op g c (PullBaseline repo n) = voidG (pull_baseline g c repo n)"
| "repo_op g c (CanWrite repo login) = voidG (can_write_repo g c repo login)"
| "repo_op g c (FindComment repo n marker) = voidG (find_marked_comment g c repo n marker)"
| "repo_op g c (FindReview repo n marker ev commit) = voidG (find_marked_review g c repo n marker ev commit)"

definition in_repository :: "GitHubClient \<Rightarrow> string \<Rightarrow> Request \<Rightarrow> bool" where
  "in_repository c repo rq \<longleftrightarrow> starts_with (''repos/'' @ repo @ ''/'') (rq_path rq)
    \<and> (case gc_repository c of Some owned \<Rightarrow> repo = owned | None \<Rightarrow> well_formed_repo repo)"

lemma starts_after: "starts_with p (p @ t)" "starts_with q t \<Longrightarrow> starts_with (p @ q) (p @ t)"
  by (auto simp: starts_with_iff)

lemma repo_op_requests: "requests (in_repository c (op_repo op)) (repo_op g c op)"
proof -
  have ok: "check_repository g c repo = Inr () \<Longrightarrow> rq_path rq = ''repos/'' @ repo @ ''/'' @ t \<Longrightarrow> in_repository c repo rq" for repo rq t
    by (auto simp: in_repository_def check_repository_def starts_with_iff split: option.splits if_splits)
  have p: "in_repository c repo (request_of meth (''repos/'' @ repo @ CHR ''/'' # t) body)" if "check_repository g c repo = Inr ()" for repo meth t body
    using ok [OF that, of "request_of meth (''repos/'' @ repo @ CHR ''/'' # t) body" t] by (simp add: request_of_def)
  show ?thesis
    by (cases op) (auto simp: voidG_def create_comment_def issue_comment_body_def update_comment_def set_status_def submit_review_def
        pull_head_sha_def pull_baseline_def can_write_repo_def find_marked_comment_def find_marked_review_def find_marked_def
        issue_path_def comment_path_def reviews_path_def page_path_def
      intro!: requests_rules requests_checked requests_send requests_probe requests_pages p [simplified append.simps] split: prod.splits option.splits sum.splits if_splits)
qed

text \<open>
  C19. Every request an operation on a repository makes is for a path inside that repository, and there is
  none at all unless the repository is the one the client is pinned to (or, for a client that is not
  pinned, a well-formed \<^verbatim>\<open>owner/name\<close>).
\<close>

theorem canary_touches_one_repository:
  "\<exists>new. snd (repo_op g c op log) = log @ new \<and> (\<forall>rq \<in> set new. starts_with (''repos/'' @ op_repo op @ ''/'') (rq_path rq)
    \<and> (case gc_repository c of Some owned \<Rightarrow> op_repo op = owned | None \<Rightarrow> well_formed_repo (op_repo op)))"
  using repo_op_requests [of c op g] unfolding requests_def in_repository_def by blast

section \<open>A receipt is proof\<close>

lemma bindG_InrE:
  assumes "bindG m f log = (Inr b, log')"
  obtains a log1 where "m log = (Inr a, log1)" "f a log1 = (Inr b, log')"
  using assms by (cases "m log"; cases "fst (m log)") (auto simp: bindG_def)

lemma someG_Inr [simp]: "someG e x log = (Inr a, log') \<longleftrightarrow> x = Some a \<and> log' = log"
  by (cases x) (auto simp: someG_def retG_def failG_def)

lemma liftG_Inr [simp]: "liftG r log = (Inr a, log') \<longleftrightarrow> r = Inr a \<and> log' = log"
  by (auto simp: liftG_def)

lemma retG_Inr [simp]: "retG a log = (Inr b, log') \<longleftrightarrow> b = a \<and> log' = log"
  by (auto simp: retG_def)

lemma failG_Inr [simp]: "failG e log \<noteq> (Inr b, log')"
  by (simp add: failG_def)

text \<open>What the service answered to a request: the value \<open>send_request\<close> reads out of a successful reply.\<close>

definition answered :: "github_world \<Rightarrow> Request list \<Rightarrow> Request \<Rightarrow> json \<Rightarrow> bool" where
  "answered g log rq j \<longleftrightarrow> (\<exists>status text. gh_reply g log rq = Reply status text \<and> 200 \<le> status \<and> status < 300
    \<and> j = (case gh_parse g text of None \<Rightarrow> JNull | Some j \<Rightarrow> j))"

lemma send_request_Inr: "send_request g meth path body log = (Inr j, log') \<longleftrightarrow>
    log' = log @ [request_of meth path body] \<and> answered g log (request_of meth path body) j"
  by (auto simp: send_request_def answered_def Let_def split: HttpReply.splits)

lemma accept_reviewD:
  assumes "accept_review g event commit response = Inr rp"
  shows "jas_str (jget response ''state'') = Some (expected_state event)"
    "Option.bind (jas_str (jget response ''commit_id'')) canonical_commit_id = Some commit"
    "jas_i64 (jget response ''id'') = Some (rp_id rp)" "rp_state rp = expected_state event" "rp_commit_id rp = commit"
  using assms by (auto simp: accept_review_def Let_def split: option.splits if_splits; cases event; simp)+


section \<open>The search for our own comment is exhaustive\<close>

definition our_entry :: "GitHubClient \<Rightarrow> string \<Rightarrow> json \<Rightarrow> int \<Rightarrow> bool" where
  "our_entry c marker entry i \<longleftrightarrow> carries marker entry \<and> is_ours c entry \<and> jas_i64 (jget entry ''id'') = Some i"

lemma find_map_Some: "find_map f xs = Some y \<Longrightarrow> \<exists>x \<in> set xs. f x = Some y"
  by (induction xs) (auto split: option.splits)

lemma find_map_None: "find_map f xs = None \<longleftrightarrow> (\<forall>x \<in> set xs. f x = None)"
  by (induction xs) (auto split: option.splits)

lemma scan_marker_Some: "scan_for_our_marker c entries marker = Some i \<Longrightarrow> \<exists>es entry. jas_array entries = Some es \<and> entry \<in> set es \<and> our_entry c marker entry i"
  unfolding scan_for_our_marker_def by (auto simp: bind_eq_Some_conv our_entry_def dest!: find_map_Some split: if_splits)

lemma scan_marker_None: "scan_for_our_marker c entries marker = None \<longleftrightarrow> (\<forall>es. jas_array entries = Some es \<longrightarrow> (\<forall>entry \<in> set es. \<forall>i. \<not> our_entry c marker entry i))"
  unfolding scan_for_our_marker_def by (cases "jas_array entries") (auto simp: find_map_None our_entry_def)

text \<open>The pages read so far, with what the service answered for each.\<close>

fun read_pages :: "github_world \<Rightarrow> string \<Rightarrow> Request list \<Rightarrow> nat list \<Rightarrow> json list \<Rightarrow> bool" where
  "read_pages g path log [] [] = True"
| "read_pages g path log (p # ps) (j # js) = (let rq = request_of GET (page_path path p) None in
    answered g log rq j \<and> read_pages g path (log @ [rq]) ps js)"
| "read_pages g path log _ _ = False"

lemma scan_pages_None:
  assumes "scan_pages g path scan pages log = (Inr None, log')"
  shows "\<exists>js. js \<noteq> [] \<and> length js \<le> length pages \<and> read_pages g path log (take (length js) pages) js
    \<and> (\<forall>j \<in> set js. scan j = Inr None) \<and> (\<forall>j \<in> set (butlast js). 100 \<le> entries_count j) \<and> entries_count (last js) < 100"
  using assms
proof (induction pages arbitrary: log)
  case Nil
  then show ?case by simp
next
  case (Cons p pages)
  let ?rq = "request_of GET (page_path path p) None"
  from Cons.prems obtain j where a: "answered g log ?rq j" and s: "scan j = Inr None"
    and r: "(if entries_count j < 100 then retG None else scan_pages g path scan pages) (log @ [?rq]) = (Inr None, log')"
    by (auto elim!: bindG_InrE simp: send_request_Inr split: option.splits if_splits)
  show ?case
  proof (cases "entries_count j < 100")
    case True
    then show ?thesis using a s by (intro exI [of _ "[j]"]) (simp add: Let_def)
  next
    case False
    with r have "scan_pages g path scan pages (log @ [?rq]) = (Inr None, log')" by simp
    from Cons.IH [OF this] obtain js where "js \<noteq> []" "length js \<le> length pages" "read_pages g path (log @ [?rq]) (take (length js) pages) js"
      "\<forall>j \<in> set js. scan j = Inr None" "\<forall>j \<in> set (butlast js). 100 \<le> entries_count j" "entries_count (last js) < 100" by blast
    with a s False show ?thesis by (intro exI [of _ "j # js"]) (simp add: Let_def)
  qed
qed

lemma scan_pages_length: "\<exists>n \<le> length pages. length (snd (scan_pages g path scan pages log)) = length log + n"
proof (induction pages arbitrary: log)
  case Nil
  then show ?case by (simp add: failG_def)
next
  case (Cons p pages)
  obtain r where r: "send_request g GET (page_path path p) None log = (r, log @ [request_of GET (page_path path p) None])"
    by (simp add: send_request_def Let_def)
  from Cons [of "log @ [request_of GET (page_path path p) None]"] show ?case
    by (cases r) (auto simp: bindG_def r liftG_def retG_def split: sum.splits option.splits intro: exI [of _ 1] exI [of _ "Suc n" for n])
qed

text \<open>
  C20. The search for our own marked comment reads at most ten pages. It reports that there is none only
  after reading consecutive pages from the first up to one that is not full, with no entry of ours that
  carries the marker on any of them; so a full listing is never cut short silently.
\<close>

theorem reconcile_is_exhaustive:
  "(\<exists>n \<le> 10. length (snd (find_marked g c path marker log)) = length log + n)
    \<and> (find_marked g c path marker log = (Inr None, log') \<longrightarrow> (\<exists>js. js \<noteq> [] \<and> length js \<le> 10 \<and> read_pages g path log [1..<length js + 1] js
        \<and> (\<forall>j \<in> set js. \<forall>es. jas_array j = Some es \<longrightarrow> (\<forall>entry \<in> set es. \<forall>i. \<not> our_entry c marker entry i))
        \<and> (\<forall>j \<in> set (butlast js). 100 \<le> entries_count j) \<and> entries_count (last js) < 100))"
proof (intro conjI impI)
  show "\<exists>n \<le> 10. length (snd (find_marked g c path marker log)) = length log + n"
    using scan_pages_length [where pages = "[1..<RECONCILE_MAX_PAGES + 1]"] by (simp add: find_marked_def RECONCILE_MAX_PAGES_def)
next
  assume "find_marked g c path marker log = (Inr None, log')"
  from scan_pages_None [OF this [unfolded find_marked_def]] obtain js where js: "js \<noteq> []" "length js \<le> 10"
    "read_pages g path log (take (length js) [1..<11]) js" "\<forall>j \<in> set js. scan_for_our_marker c j marker = None"
    "\<forall>j \<in> set (butlast js). 100 \<le> entries_count j" "entries_count (last js) < 100" by (auto simp: RECONCILE_MAX_PAGES_def)
  have "take (length js) [1..<11] = [1..<length js + 1]" using js(2) by (simp add: take_upt)
  with js show "\<exists>js. js \<noteq> [] \<and> length js \<le> 10 \<and> read_pages g path log [1..<length js + 1] js
        \<and> (\<forall>j \<in> set js. \<forall>es. jas_array j = Some es \<longrightarrow> (\<forall>entry \<in> set es. \<forall>i. \<not> our_entry c marker entry i))
        \<and> (\<forall>j \<in> set (butlast js). 100 \<le> entries_count j) \<and> entries_count (last js) < 100"
    unfolding scan_marker_None by (intro exI [of _ js]) auto
qed

section \<open>Days\<close>

definition leap :: "int \<Rightarrow> bool" where
  "leap y \<longleftrightarrow> (y mod 4 = 0 \<and> y mod 100 \<noteq> 0) \<or> y mod 400 = 0"

definition month_days :: "int \<Rightarrow> int \<Rightarrow> int" where
  "month_days y m = (if m = 2 then (if leap y then 29 else 28) else if m \<in> {4, 6, 9, 11} then 30 else 31)"

definition next_date :: "int \<times> int \<times> int \<Rightarrow> int \<times> int \<times> int" where
  "next_date = (\<lambda>(y, m, d). if d < month_days y m then (y, m, d + 1) else if m < 12 then (y, m + 1, 1) else (y + 1, 1, 1))"

lemma sdiv_nonneg: "0 \<le> a \<Longrightarrow> 0 < b \<Longrightarrow> a sdiv b = a div (b::int)"
  by (auto simp: signed_divide_int_def sgn_if)

lemma trunc_era: "(if y \<ge> 0 then y else y - 399) sdiv 400 = y div (400::int)"
proof (cases "0 \<le> y")
  case True
  then show ?thesis by (simp add: sdiv_nonneg)
next
  case False
  then have "(y - 399) sdiv 400 = - ((399 - y) div 400)" by (simp add: signed_divide_int_def sgn_if)
  also have "(399 - y) div 400 = - (y div 400)"
  proof -
    have "y = 400 * (y div 400) + y mod 400" "0 \<le> y mod 400" "y mod 400 < 400" by simp_all
    then show ?thesis by (intro int_div_pos_eq [of _ _ _ "399 - y mod 400"]) linarith+
  qed
  finally show ?thesis using False by simp
qed

lemma div_step: "0 < k \<Longrightarrow> y div k - (y - 1) div k = (if y mod k = 0 then 1 else (0::int))"
proof -
  assume k: "0 < k"
  define q r where "q = y div k" and "r = y mod k"
  have y: "y = k * q + r" "0 \<le> r" "r < k" using k by (simp_all add: q_def r_def)
  show ?thesis
  proof (cases "r = 0")
    case True
    have "(y - 1) div k = q - 1" by (rule int_div_pos_eq [of _ _ _ "k - 1"]) (use True y k in \<open>simp_all add: right_diff_distrib\<close>)
    then show ?thesis using True by (simp add: q_def r_def)
  next
    case False
    have "(y - 1) div k = q" by (rule int_div_pos_eq [of _ _ _ "r - 1"]) (use False y k in simp_all)
    then show ?thesis using False by (simp add: q_def r_def)
  qed
qed

text \<open>The number of a date counts the years, the leap days and the days since the first of March.\<close>

lemma days_closed:
  assumes "1 \<le> m"
  shows "days_from_civil y m d = (let y = (if m \<le> 2 then y - 1 else y) in
    365 * y + y div 4 - y div 100 + y div 400 + (153 * (if m > 2 then m - 3 else m + 9) + 2) div 5 + d - 719469)"
proof -
  define u where "u = (if m \<le> 2 then y - 1 else y)"
  define a where "a = u div 400"
  define b where "b = u mod 400"
  have u: "u = 400 * a + b" and b: "0 \<le> b" by (simp_all add: a_def b_def)
  have "u div 4 = 100 * a + b div 4" using div_mult_self2 [of 4 b "100 * a"] by (simp add: u algebra_simps)
  moreover have "u div 100 = 4 * a + b div 100" using div_mult_self2 [of 100 b "4 * a"] by (simp add: u algebra_simps)
  moreover have "0 \<le> 153 * (if m > 2 then m - 3 else m + 9) + 2" using assms by simp
  ultimately show ?thesis
    using b unfolding days_from_civil_def Let_def trunc_era u_def [symmetric] a_def [symmetric]
    by (simp add: sdiv_nonneg u)
qed

lemma leap_count: "(c \<Longrightarrow> b) \<Longrightarrow> (b \<Longrightarrow> a) \<Longrightarrow> (if a then 1 else 0) - (if b then 1 else 0) + (if c then 1 else 0)
    = (if (a \<and> \<not> b) \<or> c then 1 else (0::int))"
  by auto

lemma diff_sum: "a - a' = x \<Longrightarrow> b - b' = y \<Longrightarrow> c - c' = z \<Longrightarrow> x - y + z = w \<Longrightarrow> a - b + c - (a' - b' + c') = (w::int)"
  by simp

lemma leap_day: "(y::int) div 4 - y div 100 + y div 400 - ((y - 1) div 4 - (y - 1) div 100 + (y - 1) div 400) = (if leap y then 1 else 0)"
proof -
  have "y mod 100 = (y mod 400) mod 100" "y mod 4 = (y mod 100) mod 4" by (rule mod_mod_cancel [symmetric]; simp)+
  then have "y mod 400 = 0 \<Longrightarrow> y mod 100 = 0" "y mod 100 = 0 \<Longrightarrow> y mod 4 = 0" by (metis mod_0)+
  then have l: "(if y mod 4 = 0 then 1 else 0) - (if y mod 100 = 0 then 1 else 0) + (if y mod 400 = 0 then 1 else 0)
    = (if leap y then 1 else (0::int))"
    unfolding leap_def by (intro leap_count)
  show ?thesis by (rule diff_sum [OF div_step div_step div_step l]) simp_all
qed

text \<open>
  C21. The count of days behind the expiry of a token is the calendar: the first of January 1970 is day
  zero and the day after any date of the Gregorian calendar is one more, through the ends of months,
  leap days and centuries.
\<close>

theorem civil_days_are_calendar:
  "days_from_civil 1970 1 1 = 0
   \<and> (1 \<le> m \<and> m \<le> 12 \<and> 1 \<le> d \<and> d \<le> month_days y m \<longrightarrow>
       (case next_date (y, m, d) of (y', m', d') \<Rightarrow> days_from_civil y' m' d' = days_from_civil y m d + 1))"
proof (intro conjI impI)
  show "days_from_civil 1970 1 1 = 0" by (simp add: days_closed)
next
  assume a: "1 \<le> m \<and> m \<le> 12 \<and> 1 \<le> d \<and> d \<le> month_days y m"
  then consider "d < month_days y m" | "d = month_days y m" by linarith
  then show "case next_date (y, m, d) of (y', m', d') \<Rightarrow> days_from_civil y' m' d' = days_from_civil y m d + 1"
  proof cases
    case 1
    with a show ?thesis by (simp add: next_date_def days_closed Let_def)
  next
    case 2
    from a have m: "m = 1 \<or> m = 2 \<or> m = 3 \<or> m = 4 \<or> m = 5 \<or> m = 6 \<or> m = 7 \<or> m = 8 \<or> m = 9 \<or> m = 10 \<or> m = 11 \<or> m = 12" by arith
    have l: "y div 4 - y div 100 + y div 400 = (y - 1) div 4 - (y - 1) div 100 + (y - 1) div 400 + (if leap y then 1 else 0)"
      using leap_day [of y] by simp
    have n: "next_date (y, m, month_days y m) = (if m < 12 then (y, m + 1, 1) else (y + 1, 1, 1))" by (simp add: next_date_def)
    show ?thesis using m unfolding 2 n 
      by (elim disjE) (simp_all add: days_closed month_days_def Let_def, use l in \<open>cases "leap y"; simp\<close>)
  qed
qed

section \<open>Examples\<close>

definition desk_world :: github_world where
  "desk_world = \<lparr>gh_reply = (\<lambda>log rq. Reply 201 (if rq_method rq = GET then ''none'' else ''review'')),
    gh_parse = (\<lambda>text. if text = ''review'' then Some (JObj [(''id'', JNum 5), (''state'', JStr ''APPROVED''),
      (''commit_id'', JStr (replicate 40 (CHR ''a'')))]) else Some (JArr [])), gh_status = nat_str, gh_debug = id\<rparr>"

definition desk_client :: GitHubClient where
  "desk_client = \<lparr>gc_repository = Some ''o/r'', gc_app_numeric_id = Some 1, gc_expected_login = None\<rparr>"

theorem canary_touches_one_repository_witness:
  "\<exists>new. snd (repo_op desk_world desk_client (PullHead ''o/r'' 7) []) = new \<and> map rq_path new = [''repos/o/r/pulls/7'']
    \<and> (\<forall>rq \<in> set new. starts_with ''repos/o/r/'' (rq_path rq))
    \<and> snd (repo_op desk_world desk_client (PullHead ''o/x'' 7) []) = []"
proof -
  have e: "map rq_path (snd (repo_op desk_world desk_client (PullHead ''o/r'' 7) [])) = [''repos/o/r/pulls/7'']"
    "snd (repo_op desk_world desk_client (PullHead ''o/x'' 7) []) = []" by code_simp+
  from canary_touches_one_repository [of desk_world desk_client "PullHead ''o/r'' 7" "[]"] e show ?thesis by auto
qed


theorem reconcile_is_exhaustive_witness:
  "\<exists>js log'. find_marked desk_world desk_client ''repos/o/r/issues/7/comments'' ''m'' [] = (Inr None, log')
    \<and> js \<noteq> [] \<and> read_pages desk_world ''repos/o/r/issues/7/comments'' [] [1..<length js + 1] js \<and> entries_count (last js) < 100"
proof -
  have "fst (find_marked desk_world desk_client ''repos/o/r/issues/7/comments'' ''m'' []) = Inr None" by code_simp
  then obtain log' where f: "find_marked desk_world desk_client ''repos/o/r/issues/7/comments'' ''m'' [] = (Inr None, log')"
    by (metis prod.collapse)
  from reconcile_is_exhaustive [of desk_world desk_client "''repos/o/r/issues/7/comments''" "''m''" "[]" log'] f show ?thesis by blast
qed

theorem civil_days_are_calendar_witness:
  "days_from_civil 2000 3 1 = days_from_civil 2000 2 29 + 1 \<and> days_from_civil 2101 1 1 = days_from_civil 2100 12 31 + 1"
  using civil_days_are_calendar [of 2 29 2000] civil_days_are_calendar [of 12 31 2100]
  by (simp add: next_date_def month_days_def leap_def)

end
