(* ===== verification/PR_Store.thy ===== *)
theory PR_Store
  imports PR_Closing
begin

text \<open>
  The durable state of the pull request controller
  (\<^verbatim>\<open>crates/github-pr-controller/src/store.rs\<close> and its SQLite backend \<^verbatim>\<open>store/sqlite.rs\<close>):
  webhook deliveries and runtime event receipts under a lease and an idempotency key, review rounds and
  the findings ledger, waivers, the outbox of GitHub writes, session targets and the controller's half
  of the audit journal. One record per table, rows in rowid order; every operation is one transaction.
  The clock and the random identifiers are fields of the state.
\<close>

section \<open>Tables\<close>

record DeliveryRow =
  dl_delivery_id :: string
  dl_event_type :: string
  dl_repository :: "string option"
  dl_payload_sha256 :: string
  dl_state :: string
  dl_result_json :: "json option"
  dl_received_at :: int
  dl_completed_at :: "int option"

record ComparisonRow =
  cmp_comparison_id :: string
  cmp_request_sha256 :: string
  cmp_repository :: "string option"
  cmp_exact_match :: bool
  cmp_identity_mismatches :: int
  cmp_presentation_mismatches :: int
  cmp_created_at :: int

record ReceiptRow =
  rc_event_id :: string
  rc_body_sha256 :: string
  rc_event_type :: string
  rc_session_id :: "string option"
  rc_occurred_at :: int
  rc_received_at :: int

record RoundRow =
  rnd_id :: int
  rnd_repo :: string
  rnd_pr_number :: int
  rnd_round :: int
  rnd_session_id :: string
  rnd_head_sha :: "string option"
  rnd_comment_id :: "int option"
  rnd_decision :: string
  rnd_red :: int
  rnd_yellow :: int
  rnd_green :: int
  rnd_created_at :: int
  rnd_verified_commit_id :: "string option"
  rnd_integrity_disposition :: string

record WriteRow =
  gw_id :: int
  gw_session_id :: string
  gw_kind :: string
  gw_payload_json :: json
  gw_state :: string
  gw_attempts :: int
  gw_last_error :: "string option"
  gw_created_at :: int
  gw_done_at :: "int option"
  gw_claimed_at :: "int option"

record TargetRow =
  sr_session_id :: string
  sr_repo :: string
  sr_pr_number :: int
  sr_head_sha :: "string option"
  sr_created_at :: int
  sr_reason :: "string option"
  sr_required_valid_reviewers :: "int option"

text \<open>\<open>rng n\<close> is the n-th draw of 128 random bits, as 32 hexadecimal digits.\<close>

record pr_db =
  webhook_deliveries :: "DeliveryRow list"
  shadow_comparisons :: "ComparisonRow list"
  runtime_event_receipts :: "ReceiptRow list"
  review_rounds :: "RoundRow list"
  round_seq :: int
  findings_table :: "ReviewFindingRow list"
  finding_seq :: int
  github_writes :: "WriteRow list"
  write_seq :: int
  session_targets :: "TargetRow list"
  journal_rows :: "AuditEventRecord list"
  journal_seq :: int
  review_waivers :: "ReviewWaiver list"
  clock_ms :: int
  rng :: "nat \<Rightarrow> string"
  rng_next :: nat

definition empty_pr_db :: pr_db where
  "empty_pr_db = \<lparr>webhook_deliveries = [], shadow_comparisons = [], runtime_event_receipts = [], review_rounds = [], round_seq = 0,
    findings_table = [], finding_seq = 0, github_writes = [], write_seq = 0, session_targets = [], journal_rows = [], journal_seq = 0,
    review_waivers = [], clock_ms = 0, rng = (\<lambda>n. nat_str n), rng_next = 0\<rparr>"

section \<open>Results\<close>

datatype StoreError = Sqlite string | Pool string | StoreConflict string

datatype DeliveryAdmission =
    DeliveryNew
  | DeliveryDuplicate (dup_state: string) (dup_result: "json option")
  | DeliveryConflict

datatype ShadowAdmission = ShadowNew | ShadowDuplicate | ShadowConflict

datatype RuntimeEventAdmission = ReceiptNew | ReceiptDuplicate | ReceiptConflict

record ShadowSummary =
  ss_total :: int
  ss_exact_matches :: int
  ss_identity_or_ownership_mismatch_reports :: int
  ss_presentation_mismatch_reports :: int

record CanarySummary =
  cn_acted_deliveries :: int
  cn_processing_deliveries :: int
  cn_retryable_deliveries :: int
  cn_runtime_events :: int
  cn_runtime_event_types :: "(string \<times> int) list"
  cn_latest_event_occurred_at :: "int option"

record ReviewRound =
  rv_repo :: string
  rv_pr_number :: int
  rv_session_id :: string
  rv_head_sha :: "string option"
  rv_verified_commit_id :: "string option"
  rv_integrity_disposition :: string
  rv_decision :: string
  rv_red :: int
  rv_yellow :: int
  rv_green :: int

record ReviewRoundIntegrity =
  ri_verified_commit_id :: "string option"
  ri_integrity_disposition :: string

record RecordedRound =
  rdd_id :: int
  rdd_round :: int
  rdd_first_time :: bool

datatype WaiveAdmission =
    Waived ReviewFindingRow ReviewWaiver
  | AlreadyWaived ReviewFindingRow "ReviewWaiver option"
  | NoMatch

record ReviewFindingQuery =
  fq_repo :: "string option"
  fq_pr_number :: "int option"
  fq_status :: "string option"
  fq_severity :: "string option"
  fq_limit :: nat

record PendingWrite =
  pw_id :: int
  pw_session_id :: string
  pw_kind :: string
  pw_payload :: json
  pw_attempts :: int
  pw_was_reclaimed :: bool

record RuntimeEventEnvelope =
  re_version :: string
  re_event_id :: string
  re_controller_id :: string
  re_event_type :: string
  re_session_id :: "string option"
  re_occurred_at :: int
  re_payload :: json

definition WAIVER_SOURCE_OPERATOR :: string where "WAIVER_SOURCE_OPERATOR = ''operator''"
definition WAIVER_SOURCE_AUTHOR :: string where "WAIVER_SOURCE_AUTHOR = ''author''"

section \<open>Clock, identifiers and the journal\<close>

definition PROCESSING_LEASE_SECS :: int where "PROCESSING_LEASE_SECS = 5 * 60"
definition COMPLETED_RETENTION_SECS :: int where "COMPLETED_RETENTION_SECS = 7 * 24 * 60 * 60"
definition WRITE_MAX_ATTEMPTS :: int where "WRITE_MAX_ATTEMPTS = 5"
definition WRITE_CLAIM_LEASE_SECS :: int where "WRITE_CLAIM_LEASE_SECS = 5 * 60"

definition now_unix :: "pr_db \<Rightarrow> int" where
  "now_unix d = clock_ms d div 1000"

definition new_waiver_id :: "pr_db \<Rightarrow> string \<times> pr_db" where
  "new_waiver_id d = (''wvr_'' @ rng d (rng_next d), d\<lparr>rng_next := rng_next d + 1\<rparr>)"

definition audit_timestamp :: "int \<Rightarrow> int" where
  "audit_timestamp v = (if v < 10000000000 then saturate (v * 1000) else v)"

definition PR_SERVICE :: string where "PR_SERVICE = ''github-pr-controller''"

definition new_audit_event :: "pr_db \<Rightarrow> string \<Rightarrow> string \<Rightarrow> AuditOutcome \<Rightarrow> int \<Rightarrow> AuditCorrelation \<Rightarrow> json \<Rightarrow> AuditError option \<Rightarrow> AuditEvent" where
  "new_audit_event d event_key kind_of oc occurred_at correlation detail err =
    \<lparr>av_version = AUDIT_EVENT_VERSION, av_event_id = ''aud:github-pr-controller:'' @ event_key, av_event_key = event_key,
     av_occurred_at = audit_timestamp occurred_at, av_recorded_at = clock_ms d, av_service = PR_SERVICE, av_kind = kind_of,
     av_outcome = oc, av_caused_by = None, av_correlation = correlation, av_actor = None, av_target = None,
     av_detail = detail, av_error = err\<rparr>"

definition journaled :: "AuditEvent \<Rightarrow> AuditEventRecord list \<Rightarrow> bool" where
  "journaled e rows = list_ex (\<lambda>r. av_event_id (aer_event r) = av_event_id e
    \<or> (av_service (aer_event r) = av_service e \<and> av_event_key (aer_event r) = av_event_key e)) rows"

definition ps_append_audit_event_locked :: "AuditEvent \<Rightarrow> pr_db \<Rightarrow> StoreError + pr_db" where
  "ps_append_audit_event_locked e d =
    (case validate e of
      Inl msg \<Rightarrow> Inl (Pool (''invalid audit event: '' @ msg))
    | Inr _ \<Rightarrow>
        if journaled e (journal_rows d) then Inr d
        else Inr (d\<lparr>journal_rows := journal_rows d @ [\<lparr>aer_seq = journal_seq d + 1, aer_event = e\<rparr>],
               journal_seq := journal_seq d + 1\<rparr>))"

definition ps_append_audit_event :: "AuditEvent \<Rightarrow> pr_db \<Rightarrow> StoreError + AuditEventRecord \<times> pr_db" where
  "ps_append_audit_event e d = bindE (ps_append_audit_event_locked e d) (\<lambda>d'.
    case find (\<lambda>r. av_service (aer_event r) = av_service e \<and> av_event_key (aer_event r) = av_event_key e) (journal_rows d') of
      None \<Rightarrow> Inl (Sqlite ''Query returned no rows'')
    | Some r \<Rightarrow> Inr (r, d'))"

definition ps_audit_events :: "AuditEventQuery \<Rightarrow> pr_db \<Rightarrow> AuditEventPage" where
  "ps_audit_events q d =
    (let limit = bounded_limit q;
         evs = take (limit + 1) (audit_order (filter (\<lambda>r. audit_matches q r \<and> after_cursor (q_cursor q) r) (journal_rows d)));
         has_more = length evs > limit;
         kept = (if has_more then take limit evs else evs)
     in \<lparr>pg_events = kept,
         pg_next_cursor = (if has_more \<and> kept \<noteq> [] then Some (encode (cursor_of (last kept))) else None)\<rparr>)"

definition ps_prune_audit_events :: "int \<Rightarrow> int \<Rightarrow> pr_db \<Rightarrow> nat \<times> pr_db" where
  "ps_prune_audit_events before extended_before d =
    (let P = (\<lambda>r. (av_recorded_at (aer_event r) < before \<and> \<not> long_lived (aer_event r))
                \<or> (av_recorded_at (aer_event r) < min extended_before before \<and> long_lived (aer_event r))) in
     (count_where P (journal_rows d), d\<lparr>journal_rows := del_where P (journal_rows d)\<rparr>))"

section \<open>Webhook deliveries\<close>

definition begin_delivery_at :: "string \<Rightarrow> string \<Rightarrow> string option \<Rightarrow> string \<Rightarrow> int \<Rightarrow> pr_db \<Rightarrow> DeliveryAdmission \<times> pr_db" where
  "begin_delivery_at delivery_id event_type repository payload_sha256 at d =
    (case find (\<lambda>r. dl_delivery_id r = delivery_id) (webhook_deliveries d) of
      None \<Rightarrow> (DeliveryNew, d\<lparr>webhook_deliveries := webhook_deliveries d @
        [\<lparr>dl_delivery_id = delivery_id, dl_event_type = event_type, dl_repository = repository, dl_payload_sha256 = payload_sha256,
          dl_state = ''processing'', dl_result_json = None, dl_received_at = at, dl_completed_at = None\<rparr>]\<rparr>)
    | Some r \<Rightarrow>
        if dl_payload_sha256 r \<noteq> payload_sha256 then (DeliveryConflict, d)
        else if dl_state r = ''retryable'' then
          (DeliveryNew, d\<lparr>webhook_deliveries := upd_where (\<lambda>x. dl_delivery_id x = delivery_id)
            (\<lambda>x. x\<lparr>dl_event_type := event_type, dl_repository := repository, dl_state := ''processing'', dl_result_json := None,
              dl_received_at := at, dl_completed_at := None\<rparr>) (webhook_deliveries d)\<rparr>)
        else if dl_state r = ''processing'' \<and> dl_received_at r \<le> saturating_sub at PROCESSING_LEASE_SECS then
          (DeliveryNew, d\<lparr>webhook_deliveries := upd_where (\<lambda>x. dl_delivery_id x = delivery_id)
            (\<lambda>x. x\<lparr>dl_event_type := event_type, dl_repository := repository, dl_received_at := at\<rparr>) (webhook_deliveries d)\<rparr>)
        else (DeliveryDuplicate (dl_state r) (dl_result_json r), d))"

definition begin_delivery :: "string \<Rightarrow> string \<Rightarrow> string option \<Rightarrow> string \<Rightarrow> pr_db \<Rightarrow> DeliveryAdmission \<times> pr_db" where
  "begin_delivery delivery_id event_type repository payload_sha256 d =
    begin_delivery_at delivery_id event_type repository payload_sha256 (now_unix d) d"

definition finish_delivery :: "string \<Rightarrow> string \<Rightarrow> json \<Rightarrow> pr_db \<Rightarrow> pr_db" where
  "finish_delivery delivery_id st result d = d\<lparr>webhook_deliveries := upd_where (\<lambda>x. dl_delivery_id x = delivery_id)
    (\<lambda>x. x\<lparr>dl_state := st, dl_result_json := Some result, dl_completed_at := Some (now_unix d)\<rparr>) (webhook_deliveries d)\<rparr>"

definition release_delivery_for_retry :: "string \<Rightarrow> json \<Rightarrow> pr_db \<Rightarrow> pr_db" where
  "release_delivery_for_retry delivery_id result d = d\<lparr>webhook_deliveries :=
    upd_where (\<lambda>x. dl_delivery_id x = delivery_id \<and> dl_state x = ''processing'')
      (\<lambda>x. x\<lparr>dl_state := ''retryable'', dl_result_json := Some result, dl_completed_at := None\<rparr>) (webhook_deliveries d)\<rparr>"

text \<open>A comparison with a missing completion time is unknown in SQL and selects nothing.\<close>

definition expired_delivery :: "int \<Rightarrow> DeliveryRow \<Rightarrow> bool" where
  "expired_delivery before r \<longleftrightarrow>
    (dl_state r \<in> {''planned'', ''ignored'', ''acted''} \<and> (case dl_completed_at r of None \<Rightarrow> False | Some t \<Rightarrow> t < before))
    \<or> (dl_state r \<in> {''processing'', ''retryable''} \<and> dl_received_at r < before)"

definition prune_completed_deliveries_at :: "int \<Rightarrow> int \<Rightarrow> pr_db \<Rightarrow> nat \<times> pr_db" where
  "prune_completed_deliveries_at at retention_secs d = (let P = expired_delivery (saturating_sub at retention_secs) in
    (count_where P (webhook_deliveries d), d\<lparr>webhook_deliveries := del_where P (webhook_deliveries d)\<rparr>))"

definition prune_shadow_comparisons_at :: "int \<Rightarrow> int \<Rightarrow> pr_db \<Rightarrow> nat \<times> pr_db" where
  "prune_shadow_comparisons_at at retention_secs d = (let P = (\<lambda>r. cmp_created_at r < saturating_sub at retention_secs) in
    (count_where P (shadow_comparisons d), d\<lparr>shadow_comparisons := del_where P (shadow_comparisons d)\<rparr>))"

definition prune_runtime_events_at :: "int \<Rightarrow> int \<Rightarrow> pr_db \<Rightarrow> nat \<times> pr_db" where
  "prune_runtime_events_at at retention_secs d = (let P = (\<lambda>r. rc_received_at r < saturating_sub at retention_secs) in
    (count_where P (runtime_event_receipts d), d\<lparr>runtime_event_receipts := del_where P (runtime_event_receipts d)\<rparr>))"

definition prune_completed_deliveries :: "pr_db \<Rightarrow> nat \<times> pr_db" where
  "prune_completed_deliveries d =
    (let at = now_unix d;
         (deliveries, d1) = prune_completed_deliveries_at at COMPLETED_RETENTION_SECS d;
         (comparisons, d2) = prune_shadow_comparisons_at at COMPLETED_RETENTION_SECS d1;
         (evs, d3) = prune_runtime_events_at at COMPLETED_RETENTION_SECS d2
     in (deliveries + comparisons + evs, d3))"

section \<open>Shadow comparisons and runtime event receipts\<close>

definition record_shadow_comparison :: "string \<Rightarrow> string option \<Rightarrow> ShadowReport \<Rightarrow> pr_db \<Rightarrow> ShadowAdmission \<times> pr_db" where
  "record_shadow_comparison request_sha256 repository report d =
    (case find (\<lambda>r. cmp_comparison_id r = sh_comparison_id report) (shadow_comparisons d) of
      Some r \<Rightarrow> (if cmp_request_sha256 r = request_sha256 then (ShadowDuplicate, d) else (ShadowConflict, d))
    | None \<Rightarrow> (ShadowNew, d\<lparr>shadow_comparisons := shadow_comparisons d @
        [\<lparr>cmp_comparison_id = sh_comparison_id report, cmp_request_sha256 = request_sha256, cmp_repository = repository,
          cmp_exact_match = sh_exact_match report, cmp_identity_mismatches = int (sh_identity_or_ownership_mismatches report),
          cmp_presentation_mismatches = int (sh_presentation_mismatches report), cmp_created_at = now_unix d\<rparr>]\<rparr>))"

definition shadow_summary :: "pr_db \<Rightarrow> ShadowSummary" where
  "shadow_summary d = (let rows = shadow_comparisons d in
    \<lparr>ss_total = int (length rows), ss_exact_matches = int (count_where cmp_exact_match rows),
     ss_identity_or_ownership_mismatch_reports = int (count_where (\<lambda>r. cmp_identity_mismatches r > 0) rows),
     ss_presentation_mismatch_reports = int (count_where (\<lambda>r. cmp_presentation_mismatches r > 0) rows)\<rparr>)"

definition record_runtime_event :: "string \<Rightarrow> RuntimeEventEnvelope \<Rightarrow> pr_db \<Rightarrow> RuntimeEventAdmission \<times> pr_db" where
  "record_runtime_event body_sha256 event d =
    (case find (\<lambda>r. rc_event_id r = re_event_id event) (runtime_event_receipts d) of
      Some r \<Rightarrow> (if rc_body_sha256 r = body_sha256 then (ReceiptDuplicate, d) else (ReceiptConflict, d))
    | None \<Rightarrow> (ReceiptNew, d\<lparr>runtime_event_receipts := runtime_event_receipts d @
        [\<lparr>rc_event_id = re_event_id event, rc_body_sha256 = body_sha256, rc_event_type = re_event_type event,
          rc_session_id = re_session_id event, rc_occurred_at = re_occurred_at event, rc_received_at = now_unix d\<rparr>]\<rparr>))"

text \<open>SQL's \<^verbatim>\<open>MAX\<close>, which is \<^verbatim>\<open>NULL\<close> over no rows.\<close>

fun sql_max :: "int list \<Rightarrow> int option" where
  "sql_max [] = None"
| "sql_max (x # xs) = Some (fold max xs x)"

definition canary_summary :: "pr_db \<Rightarrow> CanarySummary" where
  "canary_summary d =
    (let by_state = (\<lambda>st. int (count_where (\<lambda>r. dl_state r = st) (webhook_deliveries d)));
         types = map rc_event_type (runtime_event_receipts d)
     in \<lparr>cn_acted_deliveries = by_state ''acted'', cn_processing_deliveries = by_state ''processing'',
         cn_retryable_deliveries = by_state ''retryable'', cn_runtime_events = int (length types),
         cn_runtime_event_types = map (\<lambda>t. (t, int (count_where (\<lambda>x. x = t) types))) (sort (remdups types)),
         cn_latest_event_occurred_at = sql_max (map rc_occurred_at (runtime_event_receipts d))\<rparr>)"

section \<open>Session targets and review rounds\<close>

definition record_session_target ::
  "string \<Rightarrow> string \<Rightarrow> int \<Rightarrow> string option \<Rightarrow> string option \<Rightarrow> int option \<Rightarrow> pr_db \<Rightarrow> StoreError + pr_db" where
  "record_session_target session_id repo pr_number head reason required d =
    (let d' = d\<lparr>session_targets := ins_ignore sr_session_id
          \<lparr>sr_session_id = session_id, sr_repo = repo, sr_pr_number = pr_number, sr_head_sha = head, sr_created_at = now_unix d,
           sr_reason = reason, sr_required_valid_reviewers = required\<rparr> (session_targets d)\<rparr>
     in case find (\<lambda>r. sr_session_id r = session_id) (session_targets d') of
          None \<Rightarrow> Inl (Sqlite ''Query returned no rows'')
        | Some r \<Rightarrow>
            if sr_repo r = repo \<and> sr_pr_number r = pr_number \<and> sr_head_sha r = head \<and> sr_reason r = reason
              \<and> sr_required_valid_reviewers r = required
            then Inr d'
            else Inl (StoreConflict (''session target '' @ session_id @ '' does not match its immutable admission'')))"

definition session_target :: "string \<Rightarrow> pr_db \<Rightarrow> SessionTarget option" where
  "session_target session_id d = map_option (\<lambda>r. \<lparr>st_repo = sr_repo r, st_pr_number = sr_pr_number r, st_head_sha = sr_head_sha r,
      st_reason = sr_reason r, st_required_valid_reviewers = sr_required_valid_reviewers r\<rparr>)
    (find (\<lambda>r. sr_session_id r = session_id) (session_targets d))"

definition rounds_of :: "string \<Rightarrow> int \<Rightarrow> pr_db \<Rightarrow> RoundRow list" where
  "rounds_of repo pr_number d = filter (\<lambda>r. rnd_repo r = repo \<and> rnd_pr_number r = pr_number) (review_rounds d)"

definition next_round :: "string \<Rightarrow> int \<Rightarrow> pr_db \<Rightarrow> int" where
  "next_round repo pr_number d = (case sql_max (map rnd_round (rounds_of repo pr_number d)) of None \<Rightarrow> 0 | Some m \<Rightarrow> m) + 1"

definition record_review_round :: "ReviewRound \<Rightarrow> pr_db \<Rightarrow> RecordedRound \<times> pr_db" where
  "record_review_round rd d =
    (case find (\<lambda>r. rnd_session_id r = rv_session_id rd) (review_rounds d) of
      Some r \<Rightarrow> (\<lparr>rdd_id = rnd_id r, rdd_round = rnd_round r, rdd_first_time = False\<rparr>, d)
    | None \<Rightarrow>
        let number = next_round (rv_repo rd) (rv_pr_number rd) d; new = round_seq d + 1
        in (\<lparr>rdd_id = new, rdd_round = number, rdd_first_time = True\<rparr>,
            d\<lparr>review_rounds := review_rounds d @
              [\<lparr>rnd_id = new, rnd_repo = rv_repo rd, rnd_pr_number = rv_pr_number rd, rnd_round = number, rnd_session_id = rv_session_id rd,
                rnd_head_sha = rv_head_sha rd, rnd_comment_id = None, rnd_decision = rv_decision rd, rnd_red = rv_red rd,
                rnd_yellow = rv_yellow rd, rnd_green = rv_green rd, rnd_created_at = now_unix d,
                rnd_verified_commit_id = rv_verified_commit_id rd, rnd_integrity_disposition = rv_integrity_disposition rd\<rparr>],
              round_seq := new\<rparr>))"

definition review_round_integrity :: "string \<Rightarrow> pr_db \<Rightarrow> ReviewRoundIntegrity option" where
  "review_round_integrity session_id d = map_option (\<lambda>r. \<lparr>ri_verified_commit_id = rnd_verified_commit_id r,
      ri_integrity_disposition = rnd_integrity_disposition r\<rparr>)
    (find (\<lambda>r. rnd_session_id r = session_id) (review_rounds d))"

definition last_comment_id :: "string \<Rightarrow> int \<Rightarrow> pr_db \<Rightarrow> int option" where
  "last_comment_id repo pr_number d =
    (case rev (sort_key rnd_round (filter (\<lambda>r. rnd_comment_id r \<noteq> None) (rounds_of repo pr_number d))) of
      [] \<Rightarrow> None | r # _ \<Rightarrow> rnd_comment_id r)"

definition round_comment_id :: "string \<Rightarrow> pr_db \<Rightarrow> int option" where
  "round_comment_id session_id d =
    (case find (\<lambda>r. rnd_session_id r = session_id \<and> rnd_comment_id r \<noteq> None) (review_rounds d) of
      None \<Rightarrow> None | Some r \<Rightarrow> rnd_comment_id r)"

definition set_round_comment_id :: "string \<Rightarrow> int \<Rightarrow> pr_db \<Rightarrow> pr_db" where
  "set_round_comment_id session_id comment_id d = d\<lparr>review_rounds :=
    upd_where (\<lambda>r. rnd_session_id r = session_id) (\<lambda>r. r\<lparr>rnd_comment_id := Some comment_id\<rparr>) (review_rounds d)\<rparr>"

section \<open>Findings and waivers\<close>

definition review_findings :: "ReviewFindingQuery \<Rightarrow> pr_db \<Rightarrow> ReviewFindingRow list" where
  "review_findings q d = take (fq_limit q) (rev (filter (\<lambda>r.
      (fq_repo q = None \<or> fr_repo r = fq_repo q) \<and> (fq_pr_number q = None \<or> fr_pr_number r = fq_pr_number q)
      \<and> (case fq_status q of None \<Rightarrow> True | Some st \<Rightarrow> fr_status r = st)
      \<and> (case fq_severity q of None \<Rightarrow> True | Some sv \<Rightarrow> fr_severity r = sv)) (findings_table d)))"

definition finding_at :: "string \<Rightarrow> int \<Rightarrow> string \<Rightarrow> string \<Rightarrow> ReviewFindingRow \<Rightarrow> bool" where
  "finding_at repo pr_number stable_id head r \<longleftrightarrow>
    fr_repo r = Some repo \<and> fr_pr_number r = Some pr_number \<and> fr_stable_id r = stable_id \<and> fr_head_sha r = Some head"

definition finding_row :: "string \<Rightarrow> int \<Rightarrow> string \<Rightarrow> string \<Rightarrow> pr_db \<Rightarrow> ReviewFindingRow option" where
  "finding_row repo pr_number stable_id head d = find (finding_at repo pr_number stable_id head) (rev (findings_table d))"

definition decide_review_finding ::
  "string \<Rightarrow> int \<Rightarrow> string \<Rightarrow> string \<Rightarrow> string \<Rightarrow> string \<Rightarrow> string option \<Rightarrow> pr_db \<Rightarrow> ReviewFindingRow option \<times> pr_db" where
  "decide_review_finding repo pr_number stable_id head st decided_by reason d =
    (let P = finding_at repo pr_number stable_id head in
     if count_where P (findings_table d) = 0 then (None, d)
     else let d' = d\<lparr>findings_table := upd_where P (\<lambda>r. r\<lparr>fr_status := st, fr_decided_by := Some decided_by,
            fr_decided_reason := reason, fr_decided_at := Some (now_unix d)\<rparr>) (findings_table d)\<rparr>
          in (finding_row repo pr_number stable_id head d', d'))"

definition waiver_row :: "string \<Rightarrow> pr_db \<Rightarrow> ReviewWaiver option" where
  "waiver_row wid d = find (\<lambda>w. rw_id w = wid) (review_waivers d)"

definition unique_waiver :: StoreError where
  "unique_waiver = Sqlite ''UNIQUE constraint failed: review_waivers.id''"

definition waive_review_finding ::
  "string \<Rightarrow> int \<Rightarrow> string \<Rightarrow> string \<Rightarrow> string \<Rightarrow> string \<Rightarrow> int \<Rightarrow> pr_db \<Rightarrow> (StoreError + WaiveAdmission) \<times> pr_db" where
  "waive_review_finding repo pr_number stable_id head decided_by reason expires_at d =
    (let P = (\<lambda>r. finding_at repo pr_number stable_id head r \<and> fr_status r \<noteq> ''waived'') in
     if count_where P (findings_table d) = 0 then
       (case finding_row repo pr_number stable_id head d of
         Some row \<Rightarrow>
           (if fr_status row = ''waived'' then (Inr (AlreadyWaived row (Option.bind (fr_waiver_id row) (\<lambda>wid. waiver_row wid d))), d)
            else (Inr NoMatch, d))
       | None \<Rightarrow> (Inr NoMatch, d))
     else
       let d1 = d\<lparr>findings_table := upd_where P (\<lambda>r. r\<lparr>fr_status := ''waived'', fr_decided_by := Some decided_by,
             fr_decided_reason := Some reason, fr_decided_at := Some (now_unix d)\<rparr>) (findings_table d)\<rparr>
       in case finding_row repo pr_number stable_id head d1 of
         None \<Rightarrow> (Inr NoMatch, d)
       | Some row \<Rightarrow>
           let (wid, d2) = new_waiver_id d1;
               waiver = \<lparr>rw_id = wid, rw_repo = repo, rw_path_class = fr_path row, rw_text = fr_title row,
                 rw_origin_pr = Some (repo @ ''#'' @ int_str pr_number), rw_created_by = decided_by, rw_created_at = now_unix d,
                 rw_expires_at = expires_at, rw_revoked_at = None, rw_fired_count = 0, rw_last_fired_at = None,
                 rw_source = WAIVER_SOURCE_AUTHOR, rw_renewal_count = 0\<rparr>
           in if wid \<in> rw_id ` set (review_waivers d) then (Inl unique_waiver, d\<lparr>rng_next := rng_next d2\<rparr>)
              else (Inr (Waived (row\<lparr>fr_waiver_id := Some wid\<rparr>) waiver),
                    d2\<lparr>review_waivers := review_waivers d2 @ [waiver],
                       findings_table := upd_where (\<lambda>r. fr_id r = fr_id row) (\<lambda>r. r\<lparr>fr_waiver_id := Some wid\<rparr>) (findings_table d2)\<rparr>))"

definition new_finding_row :: "string \<Rightarrow> string \<Rightarrow> int \<Rightarrow> string option \<Rightarrow> int \<Rightarrow> int \<Rightarrow> ReviewFinding \<Rightarrow> ReviewFindingRow" where
  "new_finding_row session_id repo pr_number head at new f =
    \<lparr>fr_id = new, fr_session_id = session_id, fr_repo = Some repo, fr_pr_number = Some pr_number, fr_stable_id = rf_stable_id f,
     fr_severity = rf_severity f, fr_status = rf_status f, fr_title = rf_title f, fr_path = rf_path f, fr_line = rf_line f,
     fr_raised_by = rf_raised_by f, fr_angle = rf_angle f, fr_head_sha = head, fr_created_at = at,
     fr_decided_by = None, fr_decided_reason = None, fr_decided_at = None, fr_waiver_id = None\<rparr>"

definition record_review_findings :: "string \<Rightarrow> string \<Rightarrow> int \<Rightarrow> string option \<Rightarrow> ReviewFinding list \<Rightarrow> pr_db \<Rightarrow> nat \<times> pr_db" where
  "record_review_findings session_id repo pr_number head fs d =
    (if count_where (\<lambda>r. fr_session_id r = session_id) (findings_table d) > 0 then (0, d)
     else (length fs, foldl (\<lambda>d f. d\<lparr>findings_table := findings_table d @
         [new_finding_row session_id repo pr_number head (now_unix d) (finding_seq d + 1) f], finding_seq := finding_seq d + 1\<rparr>) d fs))"

definition create_review_waiver ::
  "string \<Rightarrow> string option \<Rightarrow> string \<Rightarrow> string option \<Rightarrow> string \<Rightarrow> int \<Rightarrow> string \<Rightarrow> pr_db \<Rightarrow> (StoreError + ReviewWaiver) \<times> pr_db" where
  "create_review_waiver repo path_class text origin_pr created_by expires_at source d =
    (let (wid, d1) = new_waiver_id d;
         waiver = \<lparr>rw_id = wid, rw_repo = repo, rw_path_class = path_class, rw_text = text, rw_origin_pr = origin_pr,
           rw_created_by = created_by, rw_created_at = now_unix d, rw_expires_at = expires_at, rw_revoked_at = None, rw_fired_count = 0,
           rw_last_fired_at = None, rw_source = source, rw_renewal_count = 0\<rparr>
     in if wid \<in> rw_id ` set (review_waivers d) then (Inl unique_waiver, d1)
        else (Inr waiver, d1\<lparr>review_waivers := review_waivers d1 @ [waiver]\<rparr>))"

definition waiver_active :: "int \<Rightarrow> ReviewWaiver \<Rightarrow> bool" where
  "waiver_active at w \<longleftrightarrow> rw_revoked_at w = None \<and> rw_expires_at w > at"

definition list_review_waivers :: "string option \<Rightarrow> bool \<Rightarrow> int \<Rightarrow> pr_db \<Rightarrow> ReviewWaiver list" where
  "list_review_waivers repo include_inactive at d = sort_key rw_created_at (filter (\<lambda>w.
    (case repo of None \<Rightarrow> True | Some rp \<Rightarrow> rw_repo w = rp) \<and> (include_inactive \<or> waiver_active at w)) (review_waivers d))"

definition update_review_waiver :: "string \<Rightarrow> int option \<Rightarrow> bool \<Rightarrow> pr_db \<Rightarrow> bool \<times> pr_db" where
  "update_review_waiver wid expires_at revoke d =
    (let P = (\<lambda>w. rw_id w = wid) in
     (count_where P (review_waivers d) = 1,
      d\<lparr>review_waivers := upd_where P (\<lambda>w. w\<lparr>rw_expires_at := (case expires_at of None \<Rightarrow> rw_expires_at w | Some e \<Rightarrow> e),
        rw_renewal_count := rw_renewal_count w + (if expires_at \<noteq> None then 1 else 0),
        rw_revoked_at := (if revoke then (case rw_revoked_at w of None \<Rightarrow> Some (now_unix d) | Some t \<Rightarrow> Some t) else rw_revoked_at w)\<rparr>)
        (review_waivers d)\<rparr>))"

definition record_waiver_fired :: "string \<Rightarrow> string list \<Rightarrow> pr_db \<Rightarrow> nat \<times> pr_db" where
  "record_waiver_fired repo wids d = foldl (\<lambda>(bumped, d) wid. let P = (\<lambda>w. rw_id w = wid \<and> rw_repo w = repo) in
      (bumped + count_where P (review_waivers d),
       d\<lparr>review_waivers := upd_where P (\<lambda>w. w\<lparr>rw_fired_count := rw_fired_count w + 1, rw_last_fired_at := Some (now_unix d)\<rparr>) (review_waivers d)\<rparr>))
    (0, d) (sort (remdups wids))"

section \<open>The outbox\<close>

definition enqueue_write :: "string \<Rightarrow> string \<Rightarrow> json \<Rightarrow> pr_db \<Rightarrow> StoreError + bool \<times> pr_db" where
  "enqueue_write session_id kind_of payload d =
    (if (session_id, kind_of) \<in> (\<lambda>r. (gw_session_id r, gw_kind r)) ` set (github_writes d) then Inr (False, d)
     else let write_id = write_seq d + 1;
              d1 = d\<lparr>github_writes := github_writes d @ [\<lparr>gw_id = write_id, gw_session_id = session_id, gw_kind = kind_of,
                  gw_payload_json = payload, gw_state = ''pending'', gw_attempts = 0, gw_last_error = None, gw_created_at = now_unix d,
                  gw_done_at = None, gw_claimed_at = None\<rparr>], write_seq := write_id\<rparr>;
              e = new_audit_event d (''github.write.enqueued:'' @ int_str write_id) ''github.write.enqueued'' APending (now_unix d)
                (correlation_default\<lparr>ac_session_id := Some session_id, ac_write_id := Some (int_str write_id)\<rparr>)
                (JObj [(''operation'', JStr kind_of)]) None
          in case ps_append_audit_event_locked e d1 of
               Inl (Pool msg) \<Rightarrow> Inl (Sqlite msg)
             | Inl err \<Rightarrow> Inl err
             | Inr d2 \<Rightarrow> Inr (True, d2))"

definition claimable :: "int \<Rightarrow> WriteRow \<Rightarrow> bool" where
  "claimable at r \<longleftrightarrow> gw_state r = ''pending'' \<or> (gw_state r = ''in_flight''
    \<and> (case gw_claimed_at r of None \<Rightarrow> False | Some t \<Rightarrow> t \<le> saturating_sub at WRITE_CLAIM_LEASE_SECS))"

definition pending_of :: "WriteRow \<Rightarrow> PendingWrite" where
  "pending_of r = \<lparr>pw_id = gw_id r, pw_session_id = gw_session_id r, pw_kind = gw_kind r, pw_payload = gw_payload_json r,
    pw_attempts = gw_attempts r, pw_was_reclaimed = (gw_state r = ''in_flight'')\<rparr>"

definition claim_writes_at :: "nat \<Rightarrow> int \<Rightarrow> pr_db \<Rightarrow> PendingWrite list \<times> pr_db" where
  "claim_writes_at limit at d =
    (let claimed = map pending_of (take limit (filter (claimable at) (github_writes d)))
     in (claimed, foldl (\<lambda>d w. d\<lparr>github_writes := upd_where (\<lambda>r. gw_id r = pw_id w)
           (\<lambda>r. r\<lparr>gw_state := ''in_flight'', gw_claimed_at := Some at\<rparr>) (github_writes d)\<rparr>) d claimed))"

definition claim_writes :: "nat \<Rightarrow> pr_db \<Rightarrow> PendingWrite list \<times> pr_db" where
  "claim_writes limit d = claim_writes_at limit (now_unix d) d"

definition pending_writes :: "nat \<Rightarrow> pr_db \<Rightarrow> PendingWrite list" where
  "pending_writes limit d = map (\<lambda>r. (pending_of r)\<lparr>pw_was_reclaimed := False\<rparr>)
    (take limit (filter (\<lambda>r. gw_state r \<in> {''pending'', ''in_flight''}) (github_writes d)))"

definition mark_write_done :: "int \<Rightarrow> pr_db \<Rightarrow> pr_db" where
  "mark_write_done wid d = d\<lparr>github_writes := upd_where (\<lambda>r. gw_id r = wid)
    (\<lambda>r. r\<lparr>gw_state := ''done'', gw_last_error := None, gw_claimed_at := None, gw_done_at := Some (now_unix d)\<rparr>) (github_writes d)\<rparr>"

definition mark_write_failed :: "int \<Rightarrow> string \<Rightarrow> pr_db \<Rightarrow> pr_db" where
  "mark_write_failed wid err d = d\<lparr>github_writes := upd_where (\<lambda>r. gw_id r = wid)
    (\<lambda>r. r\<lparr>gw_attempts := gw_attempts r + 1, gw_last_error := Some err, gw_claimed_at := None,
      gw_state := (if gw_attempts r + 1 \<ge> WRITE_MAX_ATTEMPTS then ''failed'' else ''pending'')\<rparr>) (github_writes d)\<rparr>"

section \<open>Steps of the store\<close>

text \<open>What a step did to the leases: which delivery or which writes it took, and which it let go.\<close>

datatype pr_event =
    TookDelivery string
  | LeftDelivery string
  | PrunedDeliveries
  | TookWrites "int set"
  | LeftWrite int
  | OtherStep

inductive pr_step :: "pr_db \<Rightarrow> pr_event \<Rightarrow> pr_db \<Rightarrow> bool" where
  tick: "0 \<le> t \<Longrightarrow> pr_step d OtherStep (d\<lparr>clock_ms := t\<rparr>)"
| delivery: "begin_delivery i e r h d = (a, d') \<Longrightarrow> pr_step d (if a = DeliveryNew then TookDelivery i else OtherStep) d'"
| finish: "pr_step d (LeftDelivery i) (finish_delivery i st res d)"
| release: "pr_step d (LeftDelivery i) (release_delivery_for_retry i res d)"
| prune: "pr_step d PrunedDeliveries (snd (prune_completed_deliveries d))"
| comparison: "pr_step d OtherStep (snd (record_shadow_comparison h r rep d))"
| receipt: "pr_step d OtherStep (snd (record_runtime_event h ev d))"
| target: "record_session_target s rp n sha why req d = Inr d' \<Longrightarrow> pr_step d OtherStep d'"
| round: "pr_step d OtherStep (snd (record_review_round rd d))"
| comment: "pr_step d OtherStep (set_round_comment_id s c d)"
| findings: "pr_step d OtherStep (snd (record_review_findings s rp n sha fs d))"
| decide: "pr_step d OtherStep (snd (decide_review_finding rp n f sha st who why d))"
| waive: "pr_step d OtherStep (snd (waive_review_finding rp n f sha who reason ex d))"
| create_waiver: "pr_step d OtherStep (snd (create_review_waiver rp pc tx org who ex src d))"
| update_waiver: "pr_step d OtherStep (snd (update_review_waiver w ex rvk d))"
| fired: "pr_step d OtherStep (snd (record_waiver_fired rp ws d))"
| enqueue: "enqueue_write s k p d = Inr (b, d') \<Longrightarrow> pr_step d OtherStep d'"
| claim: "claim_writes n d = (ws, d') \<Longrightarrow> pr_step d (TookWrites (pw_id ` set ws)) d'"
| done_write: "pr_step d (LeftWrite w) (mark_write_done w d)"
| failed_write: "pr_step d (LeftWrite w) (mark_write_failed w err d)"
| journal: "ps_append_audit_event e d = Inr (r, d') \<Longrightarrow> pr_step d OtherStep d'"
| retain: "pr_step d OtherStep (snd (ps_prune_audit_events b e d))"

text \<open>Runs of the store whose events all satisfy a condition; \<open>pr_run\<close> is any run.\<close>

inductive pr_run_if :: "(pr_event \<Rightarrow> bool) \<Rightarrow> pr_db \<Rightarrow> pr_db \<Rightarrow> bool" for Q where
  start: "pr_run_if Q d d"
| more: "pr_run_if Q d d' \<Longrightarrow> pr_step d' e d'' \<Longrightarrow> Q e \<Longrightarrow> pr_run_if Q d d''"

abbreviation pr_run :: "pr_db \<Rightarrow> pr_db \<Rightarrow> bool" where
  "pr_run \<equiv> pr_run_if (\<lambda>_. True)"

section \<open>The invariant of the store\<close>

definition numbered :: "RoundRow list \<Rightarrow> bool" where
  "numbered rows \<longleftrightarrow> (\<forall>repo pr. let rs = filter (\<lambda>r. rnd_repo r = repo \<and> rnd_pr_number r = pr) rows
    in map rnd_round rs = map (\<lambda>i. int i + 1) [0..<length rs])"

definition rounds_inv :: "RoundRow list \<Rightarrow> int \<Rightarrow> bool" where
  "rounds_inv rows q \<longleftrightarrow> distinct (map rnd_session_id rows) \<and> sorted_wrt (<) (map rnd_id rows) \<and> (\<forall>r \<in> set rows. rnd_id r \<le> q) \<and> numbered rows"

definition writes_inv :: "WriteRow list \<Rightarrow> int \<Rightarrow> bool" where
  "writes_inv rows q \<longleftrightarrow> sorted_wrt (<) (map gw_id rows) \<and> (\<forall>r \<in> set rows. gw_id r \<le> q)
    \<and> distinct (map (\<lambda>r. (gw_session_id r, gw_kind r)) rows)
    \<and> (\<forall>r \<in> set rows. 0 \<le> gw_attempts r \<and> (gw_state r \<in> {''pending'', ''in_flight''} \<longrightarrow> gw_attempts r < WRITE_MAX_ATTEMPTS)
      \<and> (gw_state r = ''in_flight'' \<longleftrightarrow> gw_claimed_at r \<noteq> None))"

definition ledger_inv :: "ReviewFindingRow list \<Rightarrow> int \<Rightarrow> ReviewWaiver list \<Rightarrow> bool" where
  "ledger_inv fs q ws \<longleftrightarrow> sorted_wrt (<) (map fr_id fs) \<and> (\<forall>r \<in> set fs. fr_id r \<le> q) \<and> distinct (map rw_id ws)
    \<and> (\<forall>r \<in> set fs. \<forall>w. fr_waiver_id r = Some w \<longrightarrow> w \<in> rw_id ` set ws)"

definition logs_inv :: "pr_db \<Rightarrow> bool" where
  "logs_inv d \<longleftrightarrow> distinct (map dl_delivery_id (webhook_deliveries d)) \<and> distinct (map cmp_comparison_id (shadow_comparisons d))
    \<and> distinct (map rc_event_id (runtime_event_receipts d)) \<and> distinct (map sr_session_id (session_targets d))
    \<and> distinct (map aer_seq (journal_rows d)) \<and> (\<forall>r \<in> set (journal_rows d). aer_seq r \<le> journal_seq d)"

definition pr_inv :: "pr_db \<Rightarrow> bool" where
  "pr_inv d \<longleftrightarrow> 0 \<le> clock_ms d \<and> rounds_inv (review_rounds d) (round_seq d) \<and> writes_inv (github_writes d) (write_seq d)
    \<and> ledger_inv (findings_table d) (finding_seq d) (review_waivers d) \<and> logs_inv d"

lemmas pr_invs = pr_inv_def logs_inv_def

lemma upd_keeps:
  assumes "\<And>r. key (f r) = key r"
  shows "map key (upd_where P f rows) = map key rows"
  using assms by (simp add: map_upd_where)

lemma ball_upd: "(\<forall>r \<in> set (upd_where P f rows). Q r) \<longleftrightarrow> (\<forall>r \<in> set rows. Q (if P r then f r else r))"
  unfolding upd_where_def by auto

lemma find_none_keys: "find (\<lambda>r. key r = k) rows = None \<longleftrightarrow> k \<notin> key ` set rows"
  by (auto simp: find_None_iff)

lemma sql_max_snoc: "sql_max (xs @ [x]) = Some (case sql_max xs of None \<Rightarrow> x | Some m \<Rightarrow> max x m)"
  by (cases xs) simp_all

lemma sql_max_from_one: "sql_max (map (\<lambda>i. int i + 1) [0..<n]) = (if n = 0 then None else Some (int n))"
  by (induction n) (simp_all add: sql_max_snoc)

lemma numbered_next:
  assumes "numbered (review_rounds d)"
  shows "next_round repo pr d = int (length (rounds_of repo pr d)) + 1"
  using assms unfolding numbered_def Let_def next_round_def rounds_of_def by (simp add: sql_max_from_one)

lemma numbered_snoc:
  assumes "numbered rows" and "rnd_round r = int (length (filter (\<lambda>x. rnd_repo x = rnd_repo r \<and> rnd_pr_number x = rnd_pr_number r) rows)) + 1"
  shows "numbered (rows @ [r])"
  using assms unfolding numbered_def Let_def by auto

lemma record_round_inv:
  assumes "rounds_inv (review_rounds d) (round_seq d)"
  shows "rounds_inv (review_rounds (snd (record_review_round rd d))) (round_seq (snd (record_review_round rd d)))"
proof (cases "find (\<lambda>r. rnd_session_id r = rv_session_id rd) (review_rounds d)")
  case None
  have "numbered (review_rounds d)" using assms by (simp add: rounds_inv_def)
  note n = numbered_next [OF this, of "rv_repo rd" "rv_pr_number rd"]
  have "\<forall>r \<in> set (review_rounds d). rnd_id r < round_seq d + 1" using assms by (auto simp: rounds_inv_def)
  moreover have "rv_session_id rd \<notin> rnd_session_id ` set (review_rounds d)" using None by (simp only: find_none_keys) simp
  ultimately show ?thesis
    using assms n unfolding record_review_round_def None option.case Let_def rounds_inv_def
    by (auto simp: sorted_wrt_append rounds_of_def intro!: numbered_snoc)
qed (simp add: record_review_round_def assms)

lemma set_comment_inv:
  assumes "rounds_inv rows q"
  shows "rounds_inv (upd_where P (\<lambda>r. r\<lparr>rnd_comment_id := c\<rparr>) rows) q"
proof -
  let ?rows = "upd_where P (\<lambda>r. r\<lparr>rnd_comment_id := c\<rparr>) rows"
  have eq: "map rnd_round (filter (\<lambda>r. rnd_repo r = repo \<and> rnd_pr_number r = pr) ?rows)
      = map rnd_round (filter (\<lambda>r. rnd_repo r = repo \<and> rnd_pr_number r = pr) rows)" for repo pr
    by (induction rows) (auto simp: upd_where_def)
  have "length (filter (\<lambda>r. rnd_repo r = repo \<and> rnd_pr_number r = pr) ?rows)
      = length (filter (\<lambda>r. rnd_repo r = repo \<and> rnd_pr_number r = pr) rows)" for repo pr
    using arg_cong [OF eq [of repo pr], of length] by simp
  with eq assms have "numbered ?rows" by (simp add: rounds_inv_def numbered_def Let_def)
  with assms show ?thesis by (simp add: rounds_inv_def upd_keeps ball_upd)
qed

text \<open>Claiming writes the new owner into all the claimed rows at once.\<close>

lemma claim_eq:
  "foldl (\<lambda>d w. d\<lparr>github_writes := upd_where (\<lambda>r. gw_id r = pw_id w)
      (\<lambda>r. r\<lparr>gw_state := ''in_flight'', gw_claimed_at := Some at\<rparr>) (github_writes d)\<rparr>) d ws
    = d\<lparr>github_writes := upd_where (\<lambda>r. gw_id r \<in> pw_id ` set ws) (\<lambda>r. r\<lparr>gw_state := ''in_flight'', gw_claimed_at := Some at\<rparr>) (github_writes d)\<rparr>"
proof (induction ws arbitrary: d)
  case Nil
  then show ?case by (simp add: upd_where_def)
next
  case (Cons w ws)
  have "upd_where (\<lambda>r. gw_id r \<in> pw_id ` set ws) (\<lambda>r. r\<lparr>gw_state := ''in_flight'', gw_claimed_at := Some at\<rparr>)
      (upd_where (\<lambda>r. gw_id r = pw_id w) (\<lambda>r. r\<lparr>gw_state := ''in_flight'', gw_claimed_at := Some at\<rparr>) rows)
    = upd_where (\<lambda>r. gw_id r \<in> pw_id ` set (w # ws)) (\<lambda>r. r\<lparr>gw_state := ''in_flight'', gw_claimed_at := Some at\<rparr>) rows" for rows :: "WriteRow list"
    by (simp add: upd_where_def)
  with Cons show ?case by simp
qed

lemma claim_writes_eq:
  "claim_writes n d = (ws, d') \<longleftrightarrow> ws = map pending_of (take n (filter (claimable (now_unix d)) (github_writes d)))
    \<and> d' = d\<lparr>github_writes := upd_where (\<lambda>r. gw_id r \<in> pw_id ` set ws)
        (\<lambda>r. r\<lparr>gw_state := ''in_flight'', gw_claimed_at := Some (now_unix d)\<rparr>) (github_writes d)\<rparr>"
  unfolding claim_writes_def claim_writes_at_def Let_def claim_eq by auto

lemma claimed_rows:
  assumes "claim_writes n d = (ws, d')" and "sorted_wrt (<) (map gw_id (github_writes d))" and "r \<in> set (github_writes d)" and "gw_id r \<in> pw_id ` set ws"
  shows "claimable (now_unix d) r"
proof -
  obtain x where x: "x \<in> set (github_writes d)" "claimable (now_unix d) x" "gw_id x = gw_id r"
    using assms(1, 4) unfolding claim_writes_eq by (auto simp: pending_of_def dest!: in_set_takeD)
  have "inj_on gw_id (set (github_writes d))" using assms(2) strict_sorted_iff by (metis distinct_map)
  with x assms(3) have "x = r" by (meson inj_onD)
  with x show ?thesis by simp
qed

lemma claim_inv:
  assumes "claim_writes n d = (ws, d')" and "writes_inv (github_writes d) (write_seq d)"
  shows "writes_inv (github_writes d') (write_seq d')"
proof -
  have sorted: "sorted_wrt (<) (map gw_id (github_writes d))" using assms(2) by (simp add: writes_inv_def)
  have "gw_attempts r < WRITE_MAX_ATTEMPTS" if "r \<in> set (github_writes d)" "gw_id r \<in> pw_id ` set ws" for r
    using claimed_rows [OF assms(1) sorted that] assms(2) that(1) by (auto simp: writes_inv_def claimable_def)
  with assms show ?thesis unfolding claim_writes_eq by (simp add: writes_inv_def upd_keeps ball_upd)
qed

lemma fold_findings:
  "foldl (\<lambda>d f. d\<lparr>findings_table := findings_table d @ [new_finding_row s rp n sha (now_unix d) (finding_seq d + 1) f],
      finding_seq := finding_seq d + 1\<rparr>) d fs
    = d\<lparr>findings_table := findings_table d @ map (\<lambda>(i, f). new_finding_row s rp n sha (now_unix d) (finding_seq d + 1 + int i) f) (enumerate 0 fs),
       finding_seq := finding_seq d + int (length fs)\<rparr>"
proof (induction fs rule: rev_induct)
  case (snoc f fs)
  then show ?case by (simp add: enumerate_append_eq now_unix_def add_ac)
qed simp

lemma fold_fired:
  "\<exists>n ws'. foldl (\<lambda>(b, d) wid. let P = (\<lambda>w. rw_id w = wid \<and> rw_repo w = repo) in
      (b + count_where P (review_waivers d),
       d\<lparr>review_waivers := upd_where P (\<lambda>w. w\<lparr>rw_fired_count := rw_fired_count w + 1, rw_last_fired_at := Some (now_unix d)\<rparr>) (review_waivers d)\<rparr>))
    (m, d) wids = (n, d\<lparr>review_waivers := ws'\<rparr>) \<and> map rw_id ws' = map rw_id (review_waivers d)"
proof (induction wids arbitrary: m d)
  case Nil
  show ?case by (auto intro!: exI [of _ "review_waivers d"])
next
  case (Cons w ws)
  let ?d = "d\<lparr>review_waivers := upd_where (\<lambda>x. rw_id x = w \<and> rw_repo x = repo)
    (\<lambda>x. x\<lparr>rw_fired_count := rw_fired_count x + 1, rw_last_fired_at := Some (now_unix d)\<rparr>) (review_waivers d)\<rparr>"
  from Cons [of "m + count_where (\<lambda>x. rw_id x = w \<and> rw_repo x = repo) (review_waivers d)" ?d] show ?case
    by (auto simp: Let_def upd_keeps)
qed

lemma ledger_upd:
  assumes "\<And>r. fr_id (f r) = fr_id r" and "\<And>r. fr_waiver_id (f r) = fr_waiver_id r" and "ledger_inv fs q ws"
  shows "ledger_inv (upd_where P f fs) q ws"
  using assms by (simp add: ledger_inv_def upd_keeps ball_upd)

lemma ledger_waivers: "map rw_id ws' = map rw_id ws \<Longrightarrow> ledger_inv fs q ws \<Longrightarrow> ledger_inv fs q ws'"
  unfolding ledger_inv_def by (metis set_map)

lemma ledger_new_waiver:
  assumes "ledger_inv fs q ws" and "rw_id w \<notin> rw_id ` set ws"
  shows "ledger_inv fs q (ws @ [w])" and "ledger_inv (upd_where P (\<lambda>r. r\<lparr>fr_waiver_id := Some (rw_id w)\<rparr>) fs) q (ws @ [w])"
  using assms by (auto simp: ledger_inv_def upd_keeps ball_upd)

lemma decide_inv: "pr_inv d \<Longrightarrow> pr_inv (snd (decide_review_finding rp n f sha st who why d))"
  unfolding decide_review_finding_def Let_def pr_invs by (auto intro!: ledger_upd)

lemma waive_inv: "pr_inv d \<Longrightarrow> pr_inv (snd (waive_review_finding rp n f sha who reason ex d))"
proof -
  assume i: "pr_inv d"
  let ?P = "\<lambda>r. finding_at rp n f sha r \<and> fr_status r \<noteq> ''waived''"
  let ?d = "d\<lparr>findings_table := upd_where ?P (\<lambda>r. r\<lparr>fr_status := ''waived'', fr_decided_by := Some who,
             fr_decided_reason := Some reason, fr_decided_at := Some (now_unix d)\<rparr>) (findings_table d)\<rparr>"
  have l: "ledger_inv (findings_table ?d) (finding_seq d) (review_waivers d)" using i by (auto simp: pr_inv_def intro!: ledger_upd)
  show "pr_inv (snd (waive_review_finding rp n f sha who reason ex d))"
  proof (cases "count_where ?P (findings_table d) = 0")
    case True
    with i show ?thesis by (auto simp: waive_review_finding_def Let_def split: option.splits)
  next
    case False
    show ?thesis
    proof (cases "finding_row rp n f sha ?d")
      case None
      with False i show ?thesis by (simp add: waive_review_finding_def Let_def)
    next
      case (Some row)
      let ?wid = "''wvr_'' @ rng d (rng_next d)"
      show ?thesis
      proof (cases "?wid \<in> rw_id ` set (review_waivers d)")
        case True
        with False Some i show ?thesis by (simp add: waive_review_finding_def Let_def new_waiver_id_def pr_invs)
      next
        case fresh: False
        have "ledger_inv (upd_where (\<lambda>r. fr_id r = fr_id row) (\<lambda>r. r\<lparr>fr_waiver_id := Some ?wid\<rparr>) (findings_table ?d)) (finding_seq d)
            (review_waivers d @ [w])" if "rw_id w = ?wid" for w
          using ledger_new_waiver(2) [OF l, of w] fresh that by simp
        with False Some fresh i show ?thesis by (simp add: waive_review_finding_def Let_def new_waiver_id_def pr_invs)
      qed
    qed
  qed
qed

lemma append_journal_inv: "ps_append_audit_event_locked e d = Inr d' \<Longrightarrow> pr_inv d \<Longrightarrow> pr_inv d'"
  by (force simp: ps_append_audit_event_locked_def pr_invs split: sum.splits if_splits)

lemma enqueue_inv:
  assumes "enqueue_write s k p d = Inr (b, d')" and "pr_inv d"
  shows "pr_inv d'"
proof (cases "(s, k) \<in> (\<lambda>r. (gw_session_id r, gw_kind r)) ` set (github_writes d)")
  case True
  with assms show ?thesis by (simp add: enqueue_write_def)
next
  case False
  let ?w = "\<lparr>gw_id = write_seq d + 1, gw_session_id = s, gw_kind = k, gw_payload_json = p, gw_state = ''pending'', gw_attempts = 0,
    gw_last_error = None, gw_created_at = now_unix d, gw_done_at = None, gw_claimed_at = None\<rparr>"
  let ?d = "d\<lparr>github_writes := github_writes d @ [?w], write_seq := write_seq d + 1\<rparr>"
  have "writes_inv (github_writes d @ [?w]) (write_seq d + 1)"
    using assms(2) False by (force simp: pr_inv_def writes_inv_def sorted_wrt_append WRITE_MAX_ATTEMPTS_def)
  with assms(2) have "pr_inv ?d" by (simp add: pr_invs)
  moreover obtain e where "ps_append_audit_event_locked e ?d = Inr d'"
    using assms(1) False by (auto simp: enqueue_write_def Let_def split: sum.splits StoreError.splits)
  ultimately show ?thesis using append_journal_inv by blast
qed

lemma findings_inv: "pr_inv d \<Longrightarrow> pr_inv (snd (record_review_findings s rp n sha fs d))"
proof -
  assume i: "pr_inv d"
  let ?new = "map (\<lambda>(i, f). new_finding_row s rp n sha (now_unix d) (finding_seq d + 1 + int i) f) (enumerate 0 fs)"
  have "map fr_id ?new = map (\<lambda>i. finding_seq d + 1 + int i) (map fst (enumerate 0 fs))"
    unfolding map_map by (rule map_cong) (auto simp: new_finding_row_def)
  then have ids: "map fr_id ?new = map (\<lambda>i. finding_seq d + 1 + int i) [0..<length fs]" by (simp only: map_fst_enumerate add_0)
  have "sorted_wrt (<) (map fr_id (findings_table d @ ?new))"
    using i unfolding map_append ids by (fastforce simp: pr_inv_def ledger_inv_def sorted_wrt_append sorted_wrt_map)
  moreover have "fr_id r \<le> finding_seq d + int (length fs)" if "r \<in> set (findings_table d @ ?new)" for r
  proof -
    have "fr_id r \<in> set (map fr_id (findings_table d @ ?new))" using that by (metis image_eqI set_map)
    then have "fr_id r \<in> fr_id ` set (findings_table d) \<or> fr_id r \<in> set (map (\<lambda>i. finding_seq d + 1 + int i) [0..<length fs])"
      unfolding map_append ids by auto
    with i show ?thesis by (auto simp: pr_inv_def ledger_inv_def)
  qed
  moreover have "fr_waiver_id r = None" if "r \<in> set ?new" for r using that by (auto simp: new_finding_row_def)
  ultimately have "ledger_inv (findings_table d @ ?new) (finding_seq d + int (length fs)) (review_waivers d)"
    using i unfolding pr_inv_def ledger_inv_def by (metis (no_types, lifting) Un_iff option.distinct(1) set_append)
  with i show ?thesis unfolding record_review_findings_def fold_findings by (simp add: pr_invs)
qed

lemma begin_delivery_inv: "begin_delivery i e r h d = (a, d') \<Longrightarrow> pr_inv d \<Longrightarrow> pr_inv d'"
  by (auto simp: begin_delivery_def begin_delivery_at_def pr_invs upd_keeps find_None_iff split: option.splits if_splits)

lemma prune_deliveries_inv: "pr_inv d \<Longrightarrow> pr_inv (snd (prune_completed_deliveries d))"
  by (simp add: prune_completed_deliveries_def prune_completed_deliveries_at_def prune_shadow_comparisons_at_def
      prune_runtime_events_at_def Let_def pr_invs distinct_del_where)

lemma log_inv:
  "pr_inv d \<Longrightarrow> pr_inv (snd (record_shadow_comparison h r rep d))"
  "pr_inv d \<Longrightarrow> pr_inv (snd (record_runtime_event h ev d))"
  "pr_inv d \<Longrightarrow> pr_inv (snd (ps_prune_audit_events b e d))"
  by (auto simp: record_shadow_comparison_def record_runtime_event_def ps_prune_audit_events_def Let_def pr_invs find_None_iff
      distinct_del_where split: option.splits)

lemma target_inv: "record_session_target s rp n sha why req d = Inr d' \<Longrightarrow> pr_inv d \<Longrightarrow> pr_inv d'"
  by (auto simp: record_session_target_def Let_def pr_invs ins_ignore_distinct split: option.splits if_splits)

lemma waiver_inv:
  "pr_inv d \<Longrightarrow> pr_inv (snd (create_review_waiver rp pc tx org who ex src d))"
  "pr_inv d \<Longrightarrow> pr_inv (snd (update_review_waiver w ex' rvk d))"
  "pr_inv d \<Longrightarrow> pr_inv (snd (record_waiver_fired rp ws d))"
proof -
  assume i: "pr_inv d"
  then have l: "ledger_inv (findings_table d) (finding_seq d) (review_waivers d)" by (simp add: pr_inv_def)
  show "pr_inv (snd (create_review_waiver rp pc tx org who ex src d))"
    using i ledger_new_waiver(1) [OF l] by (simp add: create_review_waiver_def new_waiver_id_def Let_def pr_invs)
  show "pr_inv (snd (update_review_waiver w ex' rvk d))"
    using i ledger_waivers [OF _ l] by (simp add: update_review_waiver_def Let_def pr_invs upd_keeps)
  obtain n ws' where "record_waiver_fired rp ws d = (n, d\<lparr>review_waivers := ws'\<rparr>)" "map rw_id ws' = map rw_id (review_waivers d)"
    using fold_fired unfolding record_waiver_fired_def by blast
  with i ledger_waivers [OF _ l] show "pr_inv (snd (record_waiver_fired rp ws d))" by (simp add: pr_invs)
qed

lemma mark_inv: "pr_inv d \<Longrightarrow> pr_inv (mark_write_done w d)" "pr_inv d \<Longrightarrow> pr_inv (mark_write_failed w err d)"
  by (auto simp: mark_write_done_def mark_write_failed_def pr_invs writes_inv_def upd_keeps ball_upd)

lemma delivery_end_inv: "pr_inv d \<Longrightarrow> pr_inv (finish_delivery i st res d)" "pr_inv d \<Longrightarrow> pr_inv (release_delivery_for_retry i res d)"
  by (simp_all add: finish_delivery_def release_delivery_for_retry_def pr_invs upd_keeps)

lemma round_inv: "pr_inv d \<Longrightarrow> pr_inv (snd (record_review_round rd d))" "pr_inv d \<Longrightarrow> pr_inv (set_round_comment_id s c d)"
proof -
  assume i: "pr_inv d"
  with record_round_inv [of d rd] show "pr_inv (snd (record_review_round rd d))"
    by (simp add: pr_invs record_review_round_def Let_def split: option.splits)
  from i set_comment_inv show "pr_inv (set_round_comment_id s c d)" by (simp add: pr_invs set_round_comment_id_def)
qed

lemma claim_pr_inv: "claim_writes n d = (ws, d') \<Longrightarrow> pr_inv d \<Longrightarrow> pr_inv d'"
  using claim_inv [of n d ws d'] unfolding claim_writes_eq by (simp add: pr_invs)

lemma append_pr_inv: "ps_append_audit_event e d = Inr (r, d') \<Longrightarrow> pr_inv d \<Longrightarrow> pr_inv d'"
  using append_journal_inv by (auto simp: ps_append_audit_event_def split: option.splits)

lemmas op_invs = delivery_end_inv round_inv log_inv findings_inv decide_inv waive_inv waiver_inv mark_inv prune_deliveries_inv

lemma pr_step_inv: "pr_step d e d' \<Longrightarrow> pr_inv d \<Longrightarrow> pr_inv d'"
proof (induction rule: pr_step.induct)
  case (tick t d)
  then show ?case by (simp add: pr_invs)
qed (assumption | rule op_invs | erule (1) begin_delivery_inv target_inv enqueue_inv claim_pr_inv append_pr_inv)+

lemma pr_run_inv: "pr_run_if Q d d' \<Longrightarrow> pr_inv d \<Longrightarrow> pr_inv d'"
  by (induction rule: pr_run_if.induct) (auto intro: pr_step_inv)

section \<open>Leases\<close>

text \<open>
  A lease: a step may take keys at a time, which must be free or taken at least a span ago, and may let
  keys go. Then two takers of the same key are a span apart unless it was let go in between.
\<close>

locale leased =
  fixes held :: "'k \<Rightarrow> 's \<Rightarrow> int option"
    and span :: int
    and step :: "'s \<Rightarrow> 'k set \<Rightarrow> 'k set \<Rightarrow> int \<Rightarrow> 's \<Rightarrow> bool"
  assumes take_free: "step s K R t s' \<Longrightarrow> k \<in> K \<Longrightarrow> held k s = Some u \<Longrightarrow> u + span \<le> t"
    and take_holds: "step s K R t s' \<Longrightarrow> k \<in> K \<Longrightarrow> held k s' = Some t"
    and keep: "step s K R t s' \<Longrightarrow> k \<notin> K \<Longrightarrow> k \<notin> R \<Longrightarrow> held k s' = held k s"
    and span_nonneg: "0 \<le> span"
begin

inductive kept :: "'k \<Rightarrow> 's \<Rightarrow> 's \<Rightarrow> bool" for k where
  here: "kept k s s"
| on: "kept k s s' \<Longrightarrow> step s' K R t s'' \<Longrightarrow> k \<notin> R \<Longrightarrow> kept k s s''"

lemma kept_held:
  assumes "kept k s s'" and "held k s = Some t"
  shows "\<exists>u. held k s' = Some u \<and> t \<le> u"
  using assms
proof (induction rule: kept.induct)
  case (on s s' K R t' s'')
  then obtain u where u: "held k s' = Some u" "t \<le> u" by blast
  show ?case
  proof (cases "k \<in> K")
    case True
    with take_free [OF on(2) True u(1)] take_holds [OF on(2) True] u(2) span_nonneg show ?thesis by auto
  qed (use keep [OF on(2) _ on(3)] u in auto)
qed auto

lemma exclusive:
  assumes "step s K R t s1" and "k \<in> K" and "kept k s1 s2" and "step s2 K' R' t' s3" and "k \<in> K'"
  shows "t + span \<le> t'"
proof -
  obtain u where "held k s2 = Some u" "t \<le> u" using kept_held [OF assms(3)] take_holds [OF assms(1, 2)] by blast
  with take_free [OF assms(4, 5)] show ?thesis by fastforce
qed

end

fun taken_writes :: "pr_event \<Rightarrow> int set" where
  "taken_writes (TookWrites ws) = ws"
| "taken_writes _ = {}"

fun left_writes :: "pr_event \<Rightarrow> int set" where
  "left_writes (LeftWrite w) = {w}"
| "left_writes _ = {}"

fun taken_deliveries :: "pr_event \<Rightarrow> string set" where
  "taken_deliveries (TookDelivery i) = {i}"
| "taken_deliveries _ = {}"

fun left_deliveries :: "pr_event \<Rightarrow> string set" where
  "left_deliveries (LeftDelivery i) = {i}"
| "left_deliveries PrunedDeliveries = UNIV"
| "left_deliveries _ = {}"

definition held_write :: "int \<Rightarrow> pr_db \<Rightarrow> int option" where
  "held_write w d = (case find (\<lambda>r. gw_id r = w) (github_writes d) of None \<Rightarrow> None | Some r \<Rightarrow> gw_claimed_at r)"

definition held_delivery :: "string \<Rightarrow> pr_db \<Rightarrow> int option" where
  "held_delivery i d = (case find (\<lambda>r. dl_delivery_id r = i) (webhook_deliveries d) of
    None \<Rightarrow> None | Some r \<Rightarrow> if dl_state r = ''processing'' then Some (dl_received_at r) else None)"

definition write_step :: "pr_db \<Rightarrow> int set \<Rightarrow> int set \<Rightarrow> int \<Rightarrow> pr_db \<Rightarrow> bool" where
  "write_step d K R t d' \<longleftrightarrow> pr_inv d \<and> t = now_unix d \<and> (\<exists>e. pr_step d e d' \<and> K = taken_writes e \<and> R = left_writes e)"

definition delivery_step :: "pr_db \<Rightarrow> string set \<Rightarrow> string set \<Rightarrow> int \<Rightarrow> pr_db \<Rightarrow> bool" where
  "delivery_step d K R t d' \<longleftrightarrow> pr_inv d \<and> t = now_unix d \<and> (\<exists>e. pr_step d e d' \<and> K = taken_deliveries e \<and> R = left_deliveries e)"

lemma find_upd: "(\<And>r. key (f r) = key r) \<Longrightarrow> find (\<lambda>r. key r = k) (upd_where P f rows)
    = map_option (\<lambda>r. if P r then f r else r) (find (\<lambda>r. key r = k) rows)"
  by (induction rows) (auto simp: upd_where_def)

lemma saturate_bound: "0 \<le> at \<Longrightarrow> 0 \<le> s \<Longrightarrow> s < 2 ^ 63 \<Longrightarrow> t \<le> saturating_sub at s \<Longrightarrow> t + s \<le> at"
  by (auto simp: saturate_def)

lemma clock_nonneg: "pr_inv d \<Longrightarrow> 0 \<le> now_unix d"
  by (simp add: pr_inv_def now_unix_def pos_imp_zdiv_nonneg_iff)

lemma held_write_same: "github_writes d' = github_writes d \<Longrightarrow> held_write w d' = held_write w d"
  by (simp add: held_write_def)

lemma held_delivery_same: "webhook_deliveries d' = webhook_deliveries d \<Longrightarrow> held_delivery i d' = held_delivery i d"
  by (simp add: held_delivery_def)

lemma append_journal_frame: "ps_append_audit_event_locked e d = Inr d' \<Longrightarrow> \<exists>js n. d' = d\<lparr>journal_rows := js, journal_seq := n\<rparr>"
  by (auto simp: ps_append_audit_event_locked_def split: sum.splits if_splits) (metis pr_db.surjective pr_db.update_convs(11, 12))

lemma append_event_frame: "ps_append_audit_event e d = Inr (r, d') \<Longrightarrow> \<exists>js n. d' = d\<lparr>journal_rows := js, journal_seq := n\<rparr>"
  using append_journal_frame by (auto simp: ps_append_audit_event_def split: option.splits)

lemma enqueue_frame:
  assumes "enqueue_write s k p d = Inr (b, d')"
  shows "\<exists>ws q js n. d' = d\<lparr>github_writes := github_writes d @ ws, write_seq := q, journal_rows := js, journal_seq := n\<rparr>
    \<and> (\<forall>r \<in> set ws. gw_claimed_at r = None \<and> gw_session_id r = s \<and> gw_kind r = k \<and> gw_payload_json r = p)
    \<and> (b \<longleftrightarrow> ws \<noteq> []) \<and> (b \<longleftrightarrow> (s, k) \<notin> (\<lambda>r. (gw_session_id r, gw_kind r)) ` set (github_writes d))"
proof (cases "(s, k) \<in> (\<lambda>r. (gw_session_id r, gw_kind r)) ` set (github_writes d)")
  case True
  with assms have "\<not> b" "d' = d\<lparr>github_writes := github_writes d @ [], write_seq := write_seq d, journal_rows := journal_rows d, journal_seq := journal_seq d\<rparr>"
    by (simp_all add: enqueue_write_def)
  with True show ?thesis by (intro exI [of _ "[]"] exI [of _ "write_seq d"] exI [of _ "journal_rows d"] exI [of _ "journal_seq d"]) simp
next
  case False
  let ?w = "\<lparr>gw_id = write_seq d + 1, gw_session_id = s, gw_kind = k, gw_payload_json = p, gw_state = ''pending'', gw_attempts = 0,
    gw_last_error = None, gw_created_at = now_unix d, gw_done_at = None, gw_claimed_at = None\<rparr>"
  obtain e where e: "ps_append_audit_event_locked e (d\<lparr>github_writes := github_writes d @ [?w], write_seq := write_seq d + 1\<rparr>) = Inr d'" "b"
    using assms False by (auto simp: enqueue_write_def Let_def split: sum.splits StoreError.splits)
  from append_journal_frame [OF e(1)] obtain js n where
    "d' = d\<lparr>github_writes := github_writes d @ [?w], write_seq := write_seq d + 1, journal_rows := js, journal_seq := n\<rparr>" by auto
  with e(2) False show ?thesis by (intro exI [of _ "[?w]"] exI [of _ "write_seq d + 1"] exI [of _ js] exI [of _ n]) simp
qed

lemma waive_frame:
  "snd (waive_review_finding rp n f sha who reason ex d) = d\<lparr>findings_table := findings_table (snd (waive_review_finding rp n f sha who reason ex d)),
    review_waivers := review_waivers (snd (waive_review_finding rp n f sha who reason ex d)),
    rng_next := rng_next (snd (waive_review_finding rp n f sha who reason ex d))\<rparr>"
  unfolding waive_review_finding_def Let_def new_waiver_id_def by (simp split: option.split)

lemmas store_ops = finish_delivery_def release_delivery_for_retry_def prune_completed_deliveries_def prune_completed_deliveries_at_def
  prune_shadow_comparisons_at_def prune_runtime_events_at_def record_shadow_comparison_def record_runtime_event_def
  record_session_target_def record_review_round_def set_round_comment_id_def record_review_findings_def fold_findings
  decide_review_finding_def create_review_waiver_def new_waiver_id_def update_review_waiver_def mark_write_done_def mark_write_failed_def
  ps_prune_audit_events_def

lemma other_tables:
  "github_writes (snd (record_waiver_fired rp ws d)) = github_writes d" "webhook_deliveries (snd (record_waiver_fired rp ws d)) = webhook_deliveries d"
  "github_writes (snd (waive_review_finding rp n f sha who reason ex d)) = github_writes d"
  "webhook_deliveries (snd (waive_review_finding rp n f sha who reason ex d)) = webhook_deliveries d"
proof -
  obtain k ws' where "record_waiver_fired rp ws d = (k, d\<lparr>review_waivers := ws'\<rparr>)" using fold_fired unfolding record_waiver_fired_def by blast
  then show "github_writes (snd (record_waiver_fired rp ws d)) = github_writes d"
    "webhook_deliveries (snd (record_waiver_fired rp ws d)) = webhook_deliveries d" by simp_all
  show "github_writes (snd (waive_review_finding rp n f sha who reason ex d)) = github_writes d"
    "webhook_deliveries (snd (waive_review_finding rp n f sha who reason ex d)) = webhook_deliveries d"
    by (subst waive_frame, simp)+
qed

lemma held_write_snoc:
  assumes "\<forall>r \<in> set ws. gw_claimed_at r = None" and "github_writes d' = github_writes d @ ws"
  shows "held_write w d' = held_write w d"
  using assms by (auto simp: held_write_def find_append dest: find_SomeD split: option.splits)

text \<open>Which tables the operations leave alone.\<close>

definition logs_only :: "pr_db \<Rightarrow> pr_db \<Rightarrow> bool" where
  "logs_only d d' \<longleftrightarrow> github_writes d' = github_writes d \<and> webhook_deliveries d' = webhook_deliveries d"

lemma logs_only [intro]:
  "logs_only d (d\<lparr>clock_ms := t\<rparr>)"
  "logs_only d (snd (record_shadow_comparison h r rep d))" "logs_only d (snd (record_runtime_event h ev d))"
  "record_session_target s rp n sha0 why0 req d = Inr d' \<Longrightarrow> logs_only d d'"
  "logs_only d (snd (record_review_round rd d))" "logs_only d (set_round_comment_id s c d)"
  "logs_only d (snd (record_review_findings s rp n sha1 fs d))" "logs_only d (snd (decide_review_finding rp n f sha st who why d))"
  "logs_only d (snd (waive_review_finding rp n f sha who reason ex d))"
  "logs_only d (snd (create_review_waiver rp pc tx org who ex src d))" "logs_only d (snd (update_review_waiver w ex' rvk d))"
  "logs_only d (snd (record_waiver_fired rp ws d))" "ps_append_audit_event e d = Inr (r', d') \<Longrightarrow> logs_only d d'"
  "logs_only d (snd (ps_prune_audit_events b' x d))"
  using append_event_frame [of e d r' d']
  by (auto simp: logs_only_def store_ops Let_def other_tables split: option.splits if_splits)

lemma delivery_writes:
  "begin_delivery i e r h d = (a, d') \<Longrightarrow> github_writes d' = github_writes d"
  "github_writes (finish_delivery i st res d) = github_writes d"
  "github_writes (release_delivery_for_retry i res d) = github_writes d"
  "github_writes (snd (prune_completed_deliveries d)) = github_writes d"
  by (auto simp: begin_delivery_def begin_delivery_at_def store_ops Let_def split: option.splits if_splits)

lemma logs_held: "logs_only d d' \<Longrightarrow> held_write w d' = held_write w d" "logs_only d d' \<Longrightarrow> held_delivery i d' = held_delivery i d"
  by (simp_all add: logs_only_def held_write_def held_delivery_def)

lemma pr_step_writes: "pr_step d e d' \<Longrightarrow> w \<notin> taken_writes e \<Longrightarrow> w \<notin> left_writes e \<Longrightarrow> held_write w d' = held_write w d"
proof (induction rule: pr_step.induct)
  case (enqueue s k p d b d')
  obtain ws q js n where "d' = d\<lparr>github_writes := github_writes d @ ws, write_seq := q, journal_rows := js, journal_seq := n\<rparr>"
    "\<forall>r \<in> set ws. gw_claimed_at r = None" using enqueue_frame [OF enqueue(1)] by blast
  then show ?case by (intro held_write_snoc [of ws]) simp_all
next
  case (claim n d ws d')
  then show ?case unfolding claim_writes_eq by (auto simp: held_write_def find_upd dest: find_SomeD split: option.splits)
next
  case (done_write d w')
  then show ?case by (auto simp: mark_write_done_def held_write_def find_upd dest: find_SomeD split: option.splits)
next
  case (failed_write d w')
  then show ?case by (auto simp: mark_write_failed_def held_write_def find_upd dest: find_SomeD split: option.splits)
qed ((rule logs_held(1), rule logs_only(1-3,5-12,14)) | (rule logs_held(1), erule logs_only(4,13))
  | (rule held_write_same, simp add: delivery_writes))+

lemma pr_step_deliveries:
  "pr_step d e d' \<Longrightarrow> i \<notin> taken_deliveries e \<Longrightarrow> i \<notin> left_deliveries e \<Longrightarrow> held_delivery i d' = held_delivery i d"
proof (induction rule: pr_step.induct)
  case (delivery j ev r h d a d')
  then show ?case
    by (cases "j = i") (auto simp: begin_delivery_def begin_delivery_at_def held_delivery_def find_upd find_append
        dest: find_SomeD split: option.splits if_splits)
next
  case (finish d j st res)
  then show ?case by (auto simp: finish_delivery_def held_delivery_def find_upd dest: find_SomeD split: option.splits)
next
  case (release d j res)
  then show ?case by (auto simp: release_delivery_for_retry_def held_delivery_def find_upd dest: find_SomeD split: option.splits)
next
  case (enqueue s k p d b d')
  then show ?case using enqueue_frame [OF enqueue(1)] by (auto intro: held_delivery_same)
next
  case (claim n d ws d')
  then show ?case unfolding claim_writes_eq by (simp add: held_delivery_def)
qed ((rule logs_held(2), rule logs_only(1-3,5-12,14)) | (rule logs_held(2), erule logs_only(4,13))
  | (rule held_delivery_same, simp add: mark_write_done_def mark_write_failed_def) | simp)+

interpretation write_lease: leased held_write WRITE_CLAIM_LEASE_SECS write_step
proof
  fix s K R t s' k u
  assume st: "write_step s K R t s'" and k: "k \<in> K"
  then obtain e where e: "pr_step s e s'" "K = taken_writes e" "pr_inv s" "t = now_unix s" by (auto simp: write_step_def)
  then obtain ws where ws: "e = TookWrites ws" using k by (cases e) auto
  from e(1) ws obtain n ps where c: "claim_writes n s = (ps, s')" "ws = pw_id ` set ps" by (cases rule: pr_step.cases) (auto split: if_splits)
  have sorted: "sorted_wrt (<) (map gw_id (github_writes s))" using e(3) by (simp add: pr_inv_def writes_inv_def)
  obtain x where x: "x \<in> set ps" "pw_id x = k" using c(2) k e(2) ws by auto
  obtain r where r': "r \<in> set (take n (filter (claimable (now_unix s)) (github_writes s)))" "x = pending_of r"
    using c(1) x(1) unfolding claim_writes_eq by auto
  have r: "r \<in> set (github_writes s)" "gw_id r = k" using in_set_takeD [OF r'(1)] r'(2) x(2) by (simp_all add: pending_of_def)
  obtain y where y: "find (\<lambda>r. gw_id r = k) (github_writes s) = Some y"
    using r by (cases "find (\<lambda>r. gw_id r = k) (github_writes s)") (auto simp: find_None_iff)
  then have yk: "y \<in> set (github_writes s)" "gw_id y = k" by (auto dest: find_SomeD)
  have cl: "claimable t y" using claimed_rows [OF c(1) sorted yk(1)] yk(2) c(2) k e(2, 4) ws by auto
  show "held_write k s' = Some t" using c k e(2, 4) ws y yk(2) unfolding claim_writes_eq by (auto simp: held_write_def find_upd)
  show "u + WRITE_CLAIM_LEASE_SECS \<le> t" if "held_write k s = Some u"
  proof -
    have "gw_claimed_at y = Some u" using that y by (simp add: held_write_def)
    moreover have "gw_state y = ''in_flight'' \<longleftrightarrow> gw_claimed_at y \<noteq> None" using e(3) yk(1) by (auto simp: pr_inv_def writes_inv_def)
    ultimately have "u \<le> saturating_sub t WRITE_CLAIM_LEASE_SECS" using cl by (auto simp: claimable_def)
    then show ?thesis using saturate_bound [of t WRITE_CLAIM_LEASE_SECS u] clock_nonneg [OF e(3)] e(4) by (simp add: WRITE_CLAIM_LEASE_SECS_def)
  qed
next
  fix s K R t s' k
  assume "write_step s K R t s'" "k \<notin> K" "k \<notin> R"
  then show "held_write k s' = held_write k s" unfolding write_step_def using pr_step_writes by blast
qed (simp add: WRITE_CLAIM_LEASE_SECS_def)

interpretation delivery_lease: leased held_delivery PROCESSING_LEASE_SECS delivery_step
proof
  fix s K R t s' k u
  assume st: "delivery_step s K R t s'" and k: "k \<in> K"
  then obtain e where e: "pr_step s e s'" "K = taken_deliveries e" "pr_inv s" "t = now_unix s" by (auto simp: delivery_step_def)
  then have "e = TookDelivery k" using k by (cases e) auto
  with e(1) obtain ev r h where b: "begin_delivery k ev r h s = (DeliveryNew, s')" by (cases rule: pr_step.cases) (auto split: if_splits)
  then show "held_delivery k s' = Some t"
    by (auto simp: begin_delivery_def begin_delivery_at_def held_delivery_def find_upd find_append e(4) dest: find_SomeD split: option.splits if_splits)
  show "u + PROCESSING_LEASE_SECS \<le> t" if "held_delivery k s = Some u"
  proof -
    have "u \<le> saturating_sub t PROCESSING_LEASE_SECS" using b that e(4)
      by (auto simp: begin_delivery_def begin_delivery_at_def held_delivery_def split: option.splits if_splits)
    then show ?thesis using saturate_bound [of t PROCESSING_LEASE_SECS u] clock_nonneg [OF e(3)] e(4) by (simp add: PROCESSING_LEASE_SECS_def)
  qed
next
  fix s K R t s' k
  assume "delivery_step s K R t s'" "k \<notin> K" "k \<notin> R"
  then show "held_delivery k s' = held_delivery k s" unfolding delivery_step_def using pr_step_deliveries by blast
qed (simp add: PROCESSING_LEASE_SECS_def)

section \<open>Properties\<close>

lemma empty_pr_inv: "pr_inv empty_pr_db"
  by (simp add: pr_invs empty_pr_db_def rounds_inv_def numbered_def writes_inv_def ledger_inv_def)


lemma run_kept_write:
  assumes "pr_run_if (\<lambda>e. e \<noteq> LeftWrite w) d d'" and "pr_inv d"
  shows "write_lease.kept w d d'"
  using assms
proof (induction rule: pr_run_if.induct)
  case (more d d' e d'')
  have "write_step d' (taken_writes e) (left_writes e) (now_unix d') d''"
    using more pr_run_inv by (auto simp: write_step_def)
  moreover have "w \<notin> left_writes e" using more(3) by (cases e) auto
  ultimately show ?case using more(4, 5) by (blast intro: write_lease.kept.on)
qed (rule write_lease.kept.here)

text \<open>
  C22. A queued GitHub write has one sender at a time: when a drain has claimed a write and neither its
  success nor its failure has been recorded, every other drain that claims it, after whatever other
  operations of the store, does so at least five minutes later, when the claim has expired.
\<close>

theorem write_has_one_sender:
  assumes "pr_run empty_pr_db d" and "claim_writes n d = (ws, d1)" and "w \<in> pw_id ` set ws"
    and "pr_run_if (\<lambda>e. e \<noteq> LeftWrite w) d1 d2" and "claim_writes m d2 = (ws', d3)" and "w \<in> pw_id ` set ws'"
  shows "now_unix d + 300 \<le> now_unix d2"
proof -
  have i: "pr_inv d" using pr_run_inv [OF assms(1) empty_pr_inv] .
  have i1: "pr_inv d1" using pr_step_inv [OF pr_step.claim [OF assms(2)] i] .
  have i2: "pr_inv d2" using pr_run_inv [OF assms(4) i1] .
  have s: "write_step d (pw_id ` set ws) {} (now_unix d) d1" "write_step d2 (pw_id ` set ws') {} (now_unix d2) d3"
    using i i2 pr_step.claim [OF assms(2)] pr_step.claim [OF assms(5)] by (auto simp: write_step_def)
  from write_lease.exclusive [OF s(1) assms(3) run_kept_write [OF assms(4) i1] s(2) assms(6)]
  show ?thesis by (simp add: WRITE_CLAIM_LEASE_SECS_def)
qed

lemma run_kept_delivery:
  assumes "pr_run_if (\<lambda>e. e \<noteq> LeftDelivery i \<and> e \<noteq> PrunedDeliveries) d d'" and "pr_inv d"
  shows "delivery_lease.kept i d d'"
  using assms
proof (induction rule: pr_run_if.induct)
  case (more d d' e d'')
  have "delivery_step d' (taken_deliveries e) (left_deliveries e) (now_unix d') d''"
    using more pr_run_inv by (auto simp: delivery_step_def)
  moreover have "i \<notin> left_deliveries e" using more(3) by (cases e) auto
  ultimately show ?case using more(4, 5) by (blast intro: delivery_lease.kept.on)
qed (rule delivery_lease.kept.here)

text \<open>
  C23. A webhook delivery is processed by one request at a time: while the request that was admitted has
  neither finished nor released it, and old deliveries were not pruned, a repeat of the delivery is
  admitted again only after the lease of five minutes.
\<close>

theorem delivery_has_one_handler:
  assumes "pr_run empty_pr_db d" and "begin_delivery i ev rp h d = (DeliveryNew, d1)"
    and "pr_run_if (\<lambda>e. e \<noteq> LeftDelivery i \<and> e \<noteq> PrunedDeliveries) d1 d2"
    and "begin_delivery i ev' rp' h' d2 = (DeliveryNew, d3)"
  shows "now_unix d + 300 \<le> now_unix d2"
proof -
  have i: "pr_inv d" using pr_run_inv [OF assms(1) empty_pr_inv] .
  have b: "pr_step d (TookDelivery i) d1" "pr_step d2 (TookDelivery i) d3"
    using pr_step.delivery [OF assms(2)] pr_step.delivery [OF assms(4)] by simp_all
  have i1: "pr_inv d1" using pr_step_inv [OF b(1) i] .
  have i2: "pr_inv d2" using pr_run_inv [OF assms(3) i1] .
  have s: "delivery_step d {i} {} (now_unix d) d1" "delivery_step d2 {i} {} (now_unix d2) d3"
    using i i2 b unfolding delivery_step_def by (metis left_deliveries.simps(3) taken_deliveries.simps(1))+
  from delivery_lease.exclusive [OF s(1) _ run_kept_delivery [OF assms(3) i1] s(2)]
  show ?thesis by (simp add: PROCESSING_LEASE_SECS_def)
qed

definition desk_round :: "string \<Rightarrow> ReviewRound" where
  "desk_round sid = \<lparr>rv_repo = ''o/r'', rv_pr_number = 7, rv_session_id = sid, rv_head_sha = None, rv_verified_commit_id = None,
    rv_integrity_disposition = ''unparseable'', rv_decision = ''unknown'', rv_red = 0, rv_yellow = 0, rv_green = 0\<rparr>"


theorem write_has_one_sender_witness:
  "\<exists>d d1 d2 d3 ws ws'. enqueue_write ''s'' ''comment'' JNull empty_pr_db = Inr (True, d) \<and> claim_writes 32 d = (ws, d1) \<and> d2 = d1\<lparr>clock_ms := 300000\<rparr>
    \<and> claim_writes 32 d2 = (ws', d3) \<and> 1 \<in> pw_id ` set ws \<and> 1 \<in> pw_id ` set ws' \<and> now_unix d + 300 \<le> now_unix d2"
proof -
  have "case enqueue_write ''s'' ''comment'' JNull empty_pr_db of Inl e \<Rightarrow> False | Inr (b, d) \<Rightarrow> b
    \<and> map pw_id (fst (claim_writes 32 d)) = [1] \<and> map pw_id (fst (claim_writes 32 (snd (claim_writes 32 d)\<lparr>clock_ms := 300000\<rparr>))) = [1]" by code_simp
  then obtain d where e: "enqueue_write ''s'' ''comment'' JNull empty_pr_db = Inr (True, d)"
    and c: "map pw_id (fst (claim_writes 32 d)) = [1]" "map pw_id (fst (claim_writes 32 (snd (claim_writes 32 d)\<lparr>clock_ms := 300000\<rparr>))) = [1]"
    by (auto split: sum.splits)
  obtain ws d1 where d1: "claim_writes 32 d = (ws, d1)" by force
  obtain ws' d3 where d3: "claim_writes 32 (d1\<lparr>clock_ms := 300000\<rparr>) = (ws', d3)" by force
  have w: "1 \<in> pw_id ` set ws" "1 \<in> pw_id ` set ws'" using c d1 d3 by (force simp flip: set_map)+
  have r: "pr_run empty_pr_db d" by (rule pr_run_if.more [OF pr_run_if.start pr_step.enqueue [OF e]]) simp
  have t: "pr_run_if (\<lambda>e. e \<noteq> LeftWrite 1) d1 (d1\<lparr>clock_ms := 300000\<rparr>)" by (rule pr_run_if.more [OF pr_run_if.start pr_step.tick]) simp_all
  from write_has_one_sender [OF r d1 w(1) t d3 w(2)] e d1 d3 w show ?thesis by blast
qed

theorem delivery_has_one_handler_witness:
  "\<exists>d1 d3. begin_delivery ''d'' ''push'' None ''h'' empty_pr_db = (DeliveryNew, d1)
    \<and> begin_delivery ''d'' ''push'' None ''h'' (d1\<lparr>clock_ms := 300000\<rparr>) = (DeliveryNew, d3)
    \<and> now_unix empty_pr_db + 300 \<le> now_unix (d1\<lparr>clock_ms := 300000\<rparr>)"
proof -
  have f: "fst (begin_delivery ''d'' ''push'' None ''h'' empty_pr_db) = DeliveryNew"
    "fst (begin_delivery ''d'' ''push'' None ''h'' (snd (begin_delivery ''d'' ''push'' None ''h'' empty_pr_db)\<lparr>clock_ms := 300000\<rparr>)) = DeliveryNew"
    by code_simp+
  obtain d1 where d1: "begin_delivery ''d'' ''push'' None ''h'' empty_pr_db = (DeliveryNew, d1)" using f(1) by (metis prod.collapse)
  obtain d3 where d3: "begin_delivery ''d'' ''push'' None ''h'' (d1\<lparr>clock_ms := 300000\<rparr>) = (DeliveryNew, d3)" using f(2) d1 by (metis prod.collapse snd_conv)
  have "pr_run_if (\<lambda>e. e \<noteq> LeftDelivery ''d'' \<and> e \<noteq> PrunedDeliveries) d1 (d1\<lparr>clock_ms := 300000\<rparr>)"
    by (rule pr_run_if.more [OF pr_run_if.start pr_step.tick]) simp_all
  from delivery_has_one_handler [OF pr_run_if.start d1 this d3] d1 d3 show ?thesis by blast
qed

end
