(* ===== verification/PR_Config.thy ===== *)
theory PR_Config
  imports PR_GitHub PR_Store Controller_Events
begin

text \<open>
  The pull request controller's configuration (\<^verbatim>\<open>crates/github-pr-controller/src/config.rs\<close>), what it
  builds from it (\<^verbatim>\<open>AppState::from_config\<close> and the readiness report of \<^verbatim>\<open>lib.rs\<close>), the signatures it
  checks on its inputs (\<^verbatim>\<open>lib.rs\<close>, \<^verbatim>\<open>runtime_events.rs\<close>) and its client for the control plane's
  action endpoint (\<^verbatim>\<open>ocp.rs\<close>). HMAC, SHA-256, hexadecimal and base64 coding, URL and JSON reading are
  parameters.
\<close>

section \<open>Configuration\<close>

definition DEFAULT_ADDR :: string where "DEFAULT_ADDR = ''0.0.0.0:8091''"
definition DEFAULT_DB :: string where "DEFAULT_DB = ''github-controller.db''"
definition DEFAULT_GITHUB_API :: string where "DEFAULT_GITHUB_API = ''https://api.github.com''"

datatype OperatingMode = PlanOnly | ExternalCanary | External | InvalidMode string

fun operating_mode_str :: "OperatingMode \<Rightarrow> string" where
  "operating_mode_str PlanOnly = ''plan_only''"
| "operating_mode_str ExternalCanary = ''external_canary''"
| "operating_mode_str External = ''external''"
| "operating_mode_str (InvalidMode v) = v"

record OcpActionConfig =
  oc_base_url :: "string option"
  oc_action_token :: "string option"
  oc_scope :: "string option"
  oc_controller_id :: "string option"

definition ocp_is_empty :: "OcpActionConfig \<Rightarrow> bool" where
  "ocp_is_empty o' \<longleftrightarrow> oc_base_url o' = None \<and> oc_action_token o' = None \<and> oc_scope o' = None \<and> oc_controller_id o' = None"

definition ocp_is_complete :: "OcpActionConfig \<Rightarrow> bool" where
  "ocp_is_complete o' \<longleftrightarrow> oc_base_url o' \<noteq> None \<and> oc_action_token o' \<noteq> None \<and> oc_scope o' \<noteq> None \<and> oc_controller_id o' \<noteq> None"

record GitHubAppConfig =
  ga_app_id :: "string option"
  ga_installation_id :: "string option"
  ga_private_key :: "string option"

definition app_is_empty :: "GitHubAppConfig \<Rightarrow> bool" where
  "app_is_empty a \<longleftrightarrow> ga_app_id a = None \<and> ga_installation_id a = None \<and> ga_private_key a = None"

definition app_is_complete :: "GitHubAppConfig \<Rightarrow> bool" where
  "app_is_complete a \<longleftrightarrow> ga_app_id a \<noteq> None \<and> ga_installation_id a \<noteq> None \<and> ga_private_key a \<noteq> None"

record Config =
  cf_addr :: string
  cf_db_path :: string
  cf_mode :: OperatingMode
  cf_webhook_secret :: "string option"
  cf_shadow_secret :: "string option"
  cf_observer_secret :: "string option"
  cf_operator_write_secret :: "string option"
  cf_canary_repository :: "string option"
  cf_allowed_repos :: "string set"
  cf_trusted_authors :: "string set"
  cf_bot_handle :: "string option"
  cf_roster :: "string list"
  cf_council_preset :: "string option"
  cf_review_mode :: string
  cf_ocp_action :: OcpActionConfig
  cf_event_signing_secret :: "string option"
  cf_github_app :: GitHubAppConfig
  cf_enable_writes :: bool
  cf_github_api_base :: string

definition nonempty :: "string option \<Rightarrow> string option" where
  "nonempty v = (case v of None \<Rightarrow> None | Some s \<Rightarrow> (let t = trim s in if t = [] then None else Some t))"

definition csv :: "string option \<Rightarrow> string list" where
  "csv v = (case v of None \<Rightarrow> [] | Some s \<Rightarrow> filter (\<lambda>x. x \<noteq> []) (map trim (split_str '','' s)))"

text \<open>\<open>value\<close> reads one variable of the environment.\<close>

definition from_values :: "(string \<Rightarrow> string option) \<Rightarrow> Config" where
  "from_values val =
    \<lparr>cf_addr = (case nonempty (val ''GITHUB_CONTROLLER_ADDR'') of None \<Rightarrow> DEFAULT_ADDR | Some v \<Rightarrow> v),
     cf_db_path = (case nonempty (val ''GITHUB_CONTROLLER_DB'') of None \<Rightarrow> DEFAULT_DB | Some v \<Rightarrow> v),
     cf_mode = (case nonempty (val ''GITHUB_CONTROLLER_MODE'') of None \<Rightarrow> PlanOnly
       | Some v \<Rightarrow> if v = ''plan_only'' then PlanOnly else if v = ''external_canary'' then ExternalCanary
           else if v = ''external'' then External else InvalidMode v),
     cf_webhook_secret = nonempty (val ''GITHUB_CONTROLLER_WEBHOOK_SECRET''),
     cf_shadow_secret = nonempty (val ''GITHUB_CONTROLLER_SHADOW_SECRET''),
     cf_observer_secret = nonempty (val ''GITHUB_CONTROLLER_OBSERVER_SECRET''),
     cf_operator_write_secret = nonempty (val ''GITHUB_CONTROLLER_OPERATOR_WRITE_SECRET''),
     cf_canary_repository = nonempty (val ''GITHUB_CONTROLLER_CANARY_REPOSITORY''),
     cf_allowed_repos = set (csv (val ''GITHUB_CONTROLLER_ALLOWED_REPOS'')),
     cf_trusted_authors = set (csv (val ''GITHUB_CONTROLLER_TRUSTED_AUTHORS'')),
     cf_bot_handle = map_option (dropWhile (\<lambda>c. c = CHR 0x40)) (nonempty (val ''GITHUB_CONTROLLER_BOT_HANDLE'')),
     cf_roster = (let configured = csv (val ''GITHUB_CONTROLLER_ROSTER'') in
       if configured = [] then [''chair'', ''rev1'', ''rev2''] else configured),
     cf_council_preset = Option.bind (nonempty (val ''GITHUB_CONTROLLER_COUNCIL_PRESET''))
       (\<lambda>v. if v \<in> {''lite'', ''quick'', ''standard'', ''full''} then Some v else None),
     cf_review_mode = (case nonempty (val ''GITHUB_CONTROLLER_REVIEW_MODE'') of None \<Rightarrow> ''approve''
       | Some v \<Rightarrow> if v \<in> {''status'', ''approve'', ''enforce''} then v else ''approve''),
     cf_ocp_action = \<lparr>oc_base_url = nonempty (val ''GITHUB_CONTROLLER_OCP_URL''),
       oc_action_token = nonempty (val ''GITHUB_CONTROLLER_OCP_ACTION_TOKEN''),
       oc_scope = nonempty (val ''GITHUB_CONTROLLER_OCP_SCOPE''), oc_controller_id = nonempty (val ''GITHUB_CONTROLLER_ID'')\<rparr>,
     cf_event_signing_secret = nonempty (val ''GITHUB_CONTROLLER_EVENT_SIGNING_SECRET''),
     cf_github_app = \<lparr>ga_app_id = nonempty (val ''GITHUB_CONTROLLER_GITHUB_APP_ID''),
       ga_installation_id = nonempty (val ''GITHUB_CONTROLLER_GITHUB_APP_INSTALLATION_ID''),
       ga_private_key = nonempty (val ''GITHUB_CONTROLLER_GITHUB_APP_PRIVATE_KEY'')\<rparr>,
     cf_enable_writes = (nonempty (val ''GITHUB_CONTROLLER_ENABLE_WRITES'') = Some ''1''),
     cf_github_api_base = (case nonempty (val ''GITHUB_CONTROLLER_GITHUB_API_BASE'') of None \<Rightarrow> DEFAULT_GITHUB_API | Some v \<Rightarrow> v)\<rparr>"

section \<open>Readiness\<close>

record ComponentReadiness =
  cr_enabled :: bool
  cr_ready :: bool
  cr_detail :: string

definition ready :: "string \<Rightarrow> ComponentReadiness" where
  "ready detail = \<lparr>cr_enabled = True, cr_ready = True, cr_detail = detail\<rparr>"

definition not_ready :: "string \<Rightarrow> ComponentReadiness" where
  "not_ready detail = \<lparr>cr_enabled = True, cr_ready = False, cr_detail = detail\<rparr>"

definition disabled :: "string \<Rightarrow> ComponentReadiness" where
  "disabled detail = \<lparr>cr_enabled = False, cr_ready = False, cr_detail = detail\<rparr>"

definition external_mode :: "OperatingMode \<Rightarrow> bool" where
  "external_mode m \<longleftrightarrow> m = ExternalCanary \<or> m = External"

definition github_readiness :: "Config \<Rightarrow> ComponentReadiness" where
  "github_readiness c =
    (if app_is_empty (cf_github_app c) \<and> \<not> cf_enable_writes c then disabled ''not configured; write client disabled''
     else if external_mode (cf_mode c) \<and> cf_enable_writes c \<and> app_is_complete (cf_github_app c) then ready ''GitHub write client configured''
     else if external_mode (cf_mode c) \<and> \<not> cf_enable_writes c then not_ready ''GitHub App credentials present but writes are not enabled''
     else if external_mode (cf_mode c) \<and> app_is_empty (cf_github_app c) then not_ready ''writes enabled but no GitHub App configured''
     else if external_mode (cf_mode c) then not_ready ''partial GitHub App configuration''
     else not_ready ''GitHub App credentials and writes forbidden outside external_canary mode'')"

definition ingress_readiness :: "Config \<Rightarrow> ComponentReadiness" where
  "ingress_readiness c = (if cf_webhook_secret c \<noteq> None then ready ''webhook HMAC configured'' else not_ready ''webhook HMAC missing'')"

definition valid_repository :: "string \<Rightarrow> bool" where
  "valid_repository repository = (case split_str ''/'' repository of [owner, name] \<Rightarrow> owner \<noteq> [] \<and> name \<noteq> [] | _ \<Rightarrow> False)"

fun ownership_readiness :: "Config \<Rightarrow> ComponentReadiness" where
  "ownership_readiness c = (case cf_mode c of
      PlanOnly \<Rightarrow> (if cf_canary_repository c = None then disabled ''external canary ownership disabled''
        else not_ready ''canary repository configured while mode is plan_only'')
    | InvalidMode v \<Rightarrow> not_ready (''unsupported controller mode: '' @ v)
    | External \<Rightarrow>
        (if cf_canary_repository c \<noteq> None
         then not_ready (''canary repository is set but the mode is external'' @ DASH @ ''unset one of them'')
         else if cf_allowed_repos c = {} then ready ''external ingress owned for the whole App installation''
         else ready (''external ingress owned for the App installation, filtered to '' @ nat_str (card (cf_allowed_repos c)) @ '' repos''))
    | ExternalCanary \<Rightarrow> (case cf_canary_repository c of
        None \<Rightarrow> not_ready ''external canary repository missing''
      | Some repository \<Rightarrow>
          if \<not> valid_repository repository then not_ready ''external canary repository must be owner/name''
          else if cf_allowed_repos c \<noteq> {} \<and> (card (cf_allowed_repos c) \<noteq> 1 \<or> repository \<notin> cf_allowed_repos c)
          then not_ready ''allowed repositories must be empty or exactly the canary repository''
          else ready (''external ingress owned for exactly '' @ repository)))"

definition ocp_readiness :: "Config \<Rightarrow> ComponentReadiness" where
  "ocp_readiness c =
    (if cf_mode c = PlanOnly \<and> ocp_is_empty (cf_ocp_action c) then disabled ''action client disabled in plan-only mode''
     else if \<not> external_mode (cf_mode c) then not_ready ''OCP action credentials forbidden outside external_canary mode''
     else if ocp_is_complete (cf_ocp_action c) then ready ''scoped OCP action client configured''
     else not_ready ''scoped OCP action client configuration incomplete'')"

definition event_readiness :: "Config \<Rightarrow> ComponentReadiness" where
  "event_readiness c =
    (if cf_mode c = PlanOnly \<and> cf_event_signing_secret c = None \<and> cf_observer_secret c = None
     then disabled ''runtime-event receiver disabled in plan-only mode''
     else if \<not> external_mode (cf_mode c) then not_ready ''runtime-event and observer credentials forbidden outside external_canary mode''
     else if cf_event_signing_secret c \<noteq> None \<and> oc_controller_id (cf_ocp_action c) \<noteq> None \<and> cf_observer_secret c \<noteq> None
     then ready ''signed runtime-event receiver configured''
     else not_ready ''runtime-event signing and observation secrets are required'')"

section \<open>Keys, coding and headers\<close>

text \<open>
  \<open>pe_env\<close> holds HMAC, hashing, printing and the URL reader; the other fields are the readers of
  hexadecimal and base64 text, of JSON and of a runtime event.
\<close>

record pr_env =
  pe_env :: event_env
  pe_hex_decode :: "string \<Rightarrow> string option"
  pe_base64_decode :: "string \<Rightarrow> string option"
  pe_json :: "string \<Rightarrow> json option"
  pe_envelope :: "string \<Rightarrow> RuntimeEventEnvelope option"

definition body_sha256 :: "pr_env \<Rightarrow> string \<Rightarrow> string" where
  "body_sha256 e body = hex_encode (pe_env e) (sha256 (pe_env e) body)"

text \<open>Header names are stored in lower case; a value that is not visible ASCII is unreadable.\<close>

definition visible_ascii :: "char \<Rightarrow> bool" where
  "visible_ascii c \<longleftrightarrow> (32 \<le> (of_char c :: nat) \<and> (of_char c :: nat) < 127) \<or> c = CHR 0x09"

definition header :: "(string \<times> string) list \<Rightarrow> string \<Rightarrow> string option" where
  "header headers name = (case map_of headers name of None \<Rightarrow> None
    | Some v \<Rightarrow> if list_all visible_ascii v \<and> v \<noteq> [] then Some v else None)"

definition verify_signature :: "pr_env \<Rightarrow> string \<Rightarrow> string \<Rightarrow> string option \<Rightarrow> bool" where
  "verify_signature e secret body signature_header =
    (case Option.bind signature_header (strip_prefix ''sha256='') of
      None \<Rightarrow> False
    | Some signature \<Rightarrow> (case pe_hex_decode e signature of None \<Rightarrow> False | Some expected \<Rightarrow> hmac_sha256 (pe_env e) secret body = expected))"

definition AUDIT_MAX_TIMESTAMP_SKEW_SECS :: int where "AUDIT_MAX_TIMESTAMP_SKEW_SECS = 5 * 60"

definition audit_signature_payload :: "int \<Rightarrow> string \<Rightarrow> string" where
  "audit_signature_payload timestamp target = ''v1'' @ NL @ int_str timestamp @ NL @ ''GET'' @ NL @ target"

definition verify_audit_signature :: "pr_env \<Rightarrow> string \<Rightarrow> string \<Rightarrow> string option \<Rightarrow> string option \<Rightarrow> int \<Rightarrow> bool" where
  "verify_audit_signature e secret target timestamp_header signature_header now_secs =
    (case Option.bind timestamp_header parse_i64 of
      None \<Rightarrow> False
    | Some timestamp \<Rightarrow>
        if \<bar>now_secs - timestamp\<bar> > AUDIT_MAX_TIMESTAMP_SKEW_SECS then False
        else verify_signature e secret (audit_signature_payload timestamp target) signature_header)"

definition operator_payload :: "pr_env \<Rightarrow> int \<Rightarrow> string \<Rightarrow> string \<Rightarrow> string \<Rightarrow> string" where
  "operator_payload e timestamp meth target body =
    ''v2'' @ NL @ int_str timestamp @ NL @ meth @ NL @ target @ NL @ body_sha256 e body"

definition verify_operator_write_signature ::
  "pr_env \<Rightarrow> string \<Rightarrow> string \<Rightarrow> string \<Rightarrow> string \<Rightarrow> string option \<Rightarrow> string option \<Rightarrow> int \<Rightarrow> bool" where
  "verify_operator_write_signature e secret meth target body timestamp_header signature_header now_secs =
    (case Option.bind timestamp_header parse_i64 of
      None \<Rightarrow> False
    | Some timestamp \<Rightarrow>
        if \<bar>now_secs - timestamp\<bar> > AUDIT_MAX_TIMESTAMP_SKEW_SECS then False
        else verify_signature e secret (operator_payload e timestamp meth target body) signature_header)"

definition is_ascii_alphanumeric :: "char \<Rightarrow> bool" where
  "is_ascii_alphanumeric c \<longleftrightarrow> (let n = (of_char c :: nat) in (48 \<le> n \<and> n \<le> 57) \<or> (65 \<le> n \<and> n \<le> 90) \<or> (97 \<le> n \<and> n \<le> 122))"

definition valid_delivery_id :: "string \<Rightarrow> bool" where
  "valid_delivery_id v \<longleftrightarrow> length v \<le> 128 \<and> list_all (\<lambda>c. is_ascii_alphanumeric c \<or> c = CHR ''-'') v"

definition valid_event_type :: "string \<Rightarrow> bool" where
  "valid_event_type v \<longleftrightarrow> length v \<le> 64
    \<and> list_all (\<lambda>c. (97 \<le> (of_char c :: nat) \<and> (of_char c :: nat) \<le> 122) \<or> c = CHR ''_'') v"

section \<open>Runtime events\<close>

datatype VerificationError = MissingHeader | InvalidIdentity | StaleTimestamp | InvalidSignature | InvalidBody

fun verification_code :: "VerificationError \<Rightarrow> string" where
  "verification_code MissingHeader = ''missing_runtime_event_header''"
| "verification_code InvalidIdentity = ''invalid_runtime_event_identity''"
| "verification_code StaleTimestamp = ''stale_runtime_event_timestamp''"
| "verification_code InvalidSignature = ''invalid_runtime_event_signature''"
| "verification_code InvalidBody = ''invalid_runtime_event_body''"

definition MAX_TIMESTAMP_SKEW_SECS :: int where "MAX_TIMESTAMP_SKEW_SECS = 5 * 60"

record RuntimeEventVerifier =
  ve_controller_id :: string
  ve_secret :: string

definition new_verifier :: "pr_env \<Rightarrow> string \<Rightarrow> string \<Rightarrow> RuntimeEventVerifier option" where
  "new_verifier e controller_id encoded_secret =
    (case pe_base64_decode e encoded_secret of
      None \<Rightarrow> None
    | Some secret \<Rightarrow> if controller_id = [] \<or> length secret < 32 then None
        else Some \<lparr>ve_controller_id = controller_id, ve_secret = secret\<rparr>)"

definition valid_identifier :: "string \<Rightarrow> bool" where
  "valid_identifier v \<longleftrightarrow> v \<noteq> [] \<and> length v \<le> 200
    \<and> list_all (\<lambda>c. is_ascii_alphanumeric c \<or> c = CHR ''-'' \<or> c = CHR ''_'' \<or> c = CHR '':'' \<or> c = CHR ''.'') v"

definition supported_event_type :: "string \<Rightarrow> bool" where
  "supported_event_type v \<longleftrightarrow> v \<in> {''session.opened'', ''session.progress'', ''session.terminal'', ''session.timeout'',
    ''session.superseded'', ''action.failed''}"

definition canonical_bytes :: "pr_env \<Rightarrow> string \<Rightarrow> string \<Rightarrow> int \<Rightarrow> string \<Rightarrow> string \<Rightarrow> string" where
  "canonical_bytes e controller_id event_id timestamp target body =
    ''v1'' @ NL @ controller_id @ NL @ event_id @ NL @ int_str timestamp @ NL @ ''POST'' @ NL @ target @ NL @ body_sha256 e body"

definition read_event :: "pr_env \<Rightarrow> string \<Rightarrow> string \<Rightarrow> string \<Rightarrow> VerificationError + RuntimeEventEnvelope" where
  "read_event e controller_id event_id body =
    (case pe_envelope e body of
      None \<Rightarrow> Inl InvalidBody
    | Some envelope \<Rightarrow>
        if re_version envelope \<noteq> ''1'' \<or> re_controller_id envelope \<noteq> controller_id \<or> re_event_id envelope \<noteq> event_id
          \<or> \<not> supported_event_type (re_event_type envelope)
          \<or> (case re_session_id envelope of None \<Rightarrow> False | Some i \<Rightarrow> \<not> valid_identifier i)
        then Inl InvalidBody else Inr envelope)"

definition verify_event :: "pr_env \<Rightarrow> RuntimeEventVerifier \<Rightarrow> string option \<Rightarrow> string option \<Rightarrow> string option \<Rightarrow> string option
    \<Rightarrow> string \<Rightarrow> string \<Rightarrow> int \<Rightarrow> VerificationError + RuntimeEventEnvelope" where
  "verify_event e v header_controller_id header_event_id header_timestamp header_signature tgt body now_secs =
    (case (header_controller_id, header_event_id, header_timestamp, header_signature) of
      (Some controller_id, Some event_id, Some timestamp, Some signature) \<Rightarrow>
        if controller_id \<noteq> ve_controller_id v \<or> \<not> valid_identifier event_id then Inl InvalidIdentity
        else (case parse_i64 timestamp of
          None \<Rightarrow> Inl StaleTimestamp
        | Some timestamp \<Rightarrow>
            if \<bar>now_secs - timestamp\<bar> > MAX_TIMESTAMP_SKEW_SECS then Inl StaleTimestamp
            else (case Option.bind (strip_prefix ''sha256='' signature) (pe_hex_decode e) of
              None \<Rightarrow> Inl InvalidSignature
            | Some signature \<Rightarrow>
                if hmac_sha256 (pe_env e) (ve_secret v) (canonical_bytes e controller_id event_id timestamp tgt body) \<noteq> signature
                then Inl InvalidSignature
                else read_event e controller_id event_id body))
    | _ \<Rightarrow> Inl MissingHeader)"

section \<open>The action client\<close>

datatype ActionFailure = ActionUnavailable | InvalidResponse | ProtocolFailure nat ErrorCode bool

fun action_failure_code :: "ActionFailure \<Rightarrow> string" where
  "action_failure_code ActionUnavailable = ''ocp_action_unavailable''"
| "action_failure_code InvalidResponse = ''ocp_action_invalid_response''"
| "action_failure_code (ProtocolFailure status code retryable) = (if retryable then ''ocp_action_retryable_error'' else ''ocp_action_rejected'')"

definition MAX_RESPONSE_BYTES :: nat where "MAX_RESPONSE_BYTES = 1024 * 1024"

text \<open>The plane's answer: no connection, no body, or the status, the announced length and the body.\<close>

datatype OcpReply = OcpUnreachable | OcpBroken nat "nat option" | OcpReply nat "nat option" string

definition safe_origin :: "event_env \<Rightarrow> string \<Rightarrow> bool" where
  "safe_origin ev base_url = (case parse_url ev base_url of
      None \<Rightarrow> False
    | Some u \<Rightarrow> url_scheme u = ''https'' \<and> url_host u \<noteq> None \<and> url_username u = [] \<and> url_password u = None
        \<and> url_fragment u = None \<and> url_query u = None \<and> url_path u = ''/'')"

definition new_action_client :: "event_env \<Rightarrow> OcpActionConfig \<Rightarrow> bool" where
  "new_action_client ev o' \<longleftrightarrow> ocp_is_complete o' \<and> (case oc_base_url o' of None \<Rightarrow> False | Some base_url \<Rightarrow> safe_origin ev base_url)"

definition opening_envelope :: "string \<Rightarrow> OpenSessionAction \<Rightarrow> ActionEnvelope" where
  "opening_envelope action_id action = \<lparr>ae_version = CURRENT_VERSION, ae_action_id = action_id, ae_action = OpenSession action\<rparr>"

definition read_action_result ::
  "(string \<Rightarrow> ActionResultEnvelope option) \<Rightarrow> (string \<Rightarrow> ErrorEnvelope option) \<Rightarrow> string \<Rightarrow> OcpReply \<Rightarrow> ActionFailure + ActionResultEnvelope" where
  "read_action_result read_result read_error action_id reply =
    (case reply of
      OcpUnreachable \<Rightarrow> Inl ActionUnavailable
    | OcpBroken status announced \<Rightarrow>
        (case announced of Some n \<Rightarrow> if n > MAX_RESPONSE_BYTES then Inl InvalidResponse else Inl ActionUnavailable | None \<Rightarrow> Inl ActionUnavailable)
    | OcpReply status announced body \<Rightarrow>
        if (case announced of None \<Rightarrow> False | Some n \<Rightarrow> n > MAX_RESPONSE_BYTES) \<or> length body > MAX_RESPONSE_BYTES then Inl InvalidResponse
        else if 200 \<le> status \<and> status < 300 then
          (case read_result body of
            None \<Rightarrow> Inl InvalidResponse
          | Some result \<Rightarrow> if are_version result \<noteq> CURRENT_VERSION \<or> are_action_id result \<noteq> action_id then Inl InvalidResponse else Inr result)
        else (case read_error body of
            None \<Rightarrow> Inl InvalidResponse
          | Some err \<Rightarrow>
              if ee_version err \<noteq> CURRENT_VERSION \<or> (case ee_action_id err of None \<Rightarrow> False | Some i \<Rightarrow> i \<noteq> action_id) then Inl InvalidResponse
              else Inl (ProtocolFailure status (pe_code (ee_error err)) (pe_retryable (ee_error err)))))"

section \<open>The assembled controller\<close>

text \<open>\<open>as_store\<close> and \<open>as_action_client\<close> tell whether the store opened and the client could be built.\<close>

record ControllerState =
  as_config :: Config
  as_store :: bool
  as_action_client :: bool
  as_event_verifier :: "RuntimeEventVerifier option"
  as_github :: "GitHubClient option"
  as_bot_identity :: ComponentReadiness
  as_bot_handles :: "string list"

definition bot_name :: "ControllerState \<Rightarrow> string" where
  "bot_name st = (case as_bot_handles st of [] \<Rightarrow> ''bot'' | h # _ \<Rightarrow> h)"

text \<open>The client exists only where writing is configured; the HTTP library is assumed to start.\<close>

definition client_from_config :: "Config \<Rightarrow> GitHubClient option" where
  "client_from_config c =
    (if \<not> cr_ready (github_readiness c) then None
     else if cf_mode c \<noteq> External \<and> cf_canary_repository c = None then None
     else case (ga_app_id (cf_github_app c), ga_installation_id (cf_github_app c), ga_private_key (cf_github_app c)) of
       (Some app_id, Some _, Some _) \<Rightarrow>
         Some \<lparr>gc_repository = (if cf_mode c = External then None else cf_canary_repository c), gc_app_numeric_id = parse_i64 app_id,
           gc_expected_login = map_option (\<lambda>handle. handle @ ''[bot]'') (cf_bot_handle c)\<rparr>
     | _ \<Rightarrow> None)"

definition resolve_bot_handles ::
  "github_world \<Rightarrow> string option \<Rightarrow> GitHubClient option \<Rightarrow> Request list \<Rightarrow> (ComponentReadiness \<times> string list) \<times> Request list" where
  "resolve_bot_handles g configured github log =
    (let configured_vec = (case configured of None \<Rightarrow> [] | Some h \<Rightarrow> [h]) in
     case github of
       None \<Rightarrow> ((disabled ''no GitHub client; handle unverified'', configured_vec), log)
     | Some _ \<Rightarrow> (case app_slug g log of
         (Inr slug, log') \<Rightarrow>
           let matches = (case configured of None \<Rightarrow> False | Some h \<Rightarrow> to_ascii_lowercase slug = to_ascii_lowercase h);
               handles = slug # (if matches then [] else configured_vec);
               detail = (if matches \<or> configured = None then ''addressed as @'' @ slug
                 else ''addressed as @'' @ slug @ '' (the App's own name); GITHUB_CONTROLLER_BOT_HANDLE still says ''
                   @ TICK @ (case configured of None \<Rightarrow> [] | Some h \<Rightarrow> h) @ TICK @ '' and is kept as an alias'' @ DASH @ ''update it when convenient'')
           in ((ready detail, handles), log')
       | (Inl _, log') \<Rightarrow> ((disabled ''App slug unavailable; using the configured handle'', configured_vec), log')))"

definition state_from_config :: "pr_env \<Rightarrow> github_world \<Rightarrow> bool \<Rightarrow> Config \<Rightarrow> Request list \<Rightarrow> ControllerState \<times> Request list" where
  "state_from_config e g store_opens c log =
    (let github = client_from_config c;
         ((bot_identity, handles), log') = resolve_bot_handles g (cf_bot_handle c) github log
     in (\<lparr>as_config = c, as_store = store_opens,
          as_action_client = (external_mode (cf_mode c) \<and> ocp_is_complete (cf_ocp_action c) \<and> new_action_client (pe_env e) (cf_ocp_action c)),
          as_event_verifier = (case (oc_controller_id (cf_ocp_action c), cf_event_signing_secret c) of
              (Some controller_id, Some secret) \<Rightarrow> if external_mode (cf_mode c) then new_verifier e controller_id secret else None
            | _ \<Rightarrow> None),
          as_github = github, as_bot_identity = bot_identity, as_bot_handles = handles\<rparr>, log'))"

record ReadinessReport =
  rd_ready :: bool
  rd_mode :: string
  rd_ingress :: ComponentReadiness
  rd_ownership :: ComponentReadiness
  rd_ocp :: ComponentReadiness
  rd_runtime_events :: ComponentReadiness
  rd_github :: ComponentReadiness
  rd_product_store :: ComponentReadiness
  rd_bot_identity :: ComponentReadiness

definition product_store_readiness :: "ControllerState \<Rightarrow> ComponentReadiness" where
  "product_store_readiness st = (if as_store st then ready ''controller product store available''
    else not_ready ''controller product store unavailable'')"

definition tolerable :: "ComponentReadiness \<Rightarrow> bool" where
  "tolerable r \<longleftrightarrow> cr_ready r \<or> \<not> cr_enabled r"

definition readiness :: "ControllerState \<Rightarrow> ReadinessReport" where
  "readiness st =
    (let c = as_config st;
         ingress = ingress_readiness c;
         product_store = product_store_readiness st;
         github = github_readiness c;
         ownership = ownership_readiness c;
         ocp = (if cr_ready (ocp_readiness c) \<and> \<not> as_action_client st then not_ready ''scoped OCP action client unavailable'' else ocp_readiness c);
         evs = (if cr_ready (event_readiness c) \<and> as_event_verifier st = None then not_ready ''runtime-event verifier unavailable''
           else event_readiness c);
         identity = as_bot_identity st
     in \<lparr>rd_ready = (cr_ready ingress \<and> cr_ready product_store \<and> tolerable identity \<and> tolerable github \<and> tolerable ownership
           \<and> tolerable ocp \<and> tolerable evs),
         rd_mode = operating_mode_str (cf_mode c), rd_ingress = ingress, rd_ownership = ownership, rd_ocp = ocp, rd_runtime_events = evs,
         rd_github = github, rd_product_store = product_store, rd_bot_identity = identity\<rparr>)"

section \<open>Two locks on writing\<close>

text \<open>
  C14. A client that can write to GitHub exists only in an external mode, with complete App credentials
  and with writing switched on as well; in canary mode it is pinned to the configured repository. In any
  other mode the controller holds no client, no action client and no event verifier, and it is not ready
  while such credentials are configured.
\<close>

theorem writes_need_two_locks:
  assumes "state_from_config e g opens c log = (st, log')"
  shows "(\<forall>cl. as_github st = Some cl \<longrightarrow> external_mode (cf_mode c) \<and> cf_enable_writes c \<and> app_is_complete (cf_github_app c)
      \<and> (cf_mode c = ExternalCanary \<longrightarrow> gc_repository cl = cf_canary_repository c \<and> cf_canary_repository c \<noteq> None))
    \<and> (\<not> external_mode (cf_mode c) \<longrightarrow> as_github st = None \<and> \<not> as_action_client st \<and> as_event_verifier st = None
      \<and> (rd_ready (readiness st) \<longrightarrow> app_is_empty (cf_github_app c) \<and> \<not> cf_enable_writes c \<and> ocp_is_empty (cf_ocp_action c)
        \<and> cf_event_signing_secret c = None))"
proof -
  have st: "as_config st = c" "as_github st = client_from_config c"
    "as_action_client st \<Longrightarrow> external_mode (cf_mode c)" "as_event_verifier st \<noteq> None \<Longrightarrow> external_mode (cf_mode c)"
    using assms by (auto simp: state_from_config_def Let_def split: prod.splits option.splits if_splits)
  have cl: "external_mode (cf_mode c) \<and> cf_enable_writes c \<and> app_is_complete (cf_github_app c)
      \<and> (cf_mode c = ExternalCanary \<longrightarrow> gc_repository x = cf_canary_repository c \<and> cf_canary_repository c \<noteq> None)"
    if "client_from_config c = Some x" for x
    using that by (auto simp: client_from_config_def github_readiness_def ready_def not_ready_def disabled_def split: if_splits option.splits)
  have r: "app_is_empty (cf_github_app c) \<and> \<not> cf_enable_writes c \<and> ocp_is_empty (cf_ocp_action c) \<and> cf_event_signing_secret c = None"
    if m: "\<not> external_mode (cf_mode c)" and rd: "rd_ready (readiness st)"
  proof -
    have t: "tolerable (github_readiness c)" "tolerable (rd_ocp (readiness st))" "tolerable (rd_runtime_events (readiness st))"
      using rd by (simp_all add: readiness_def st Let_def)
    have n: "\<not> cr_ready (ocp_readiness c)" "\<not> cr_ready (event_readiness c)"
      using m by (simp_all add: ocp_readiness_def event_readiness_def not_ready_def disabled_def)
    have "rd_ocp (readiness st) = ocp_readiness c" "rd_runtime_events (readiness st) = event_readiness c"
      using n by (simp_all add: readiness_def st(1) Let_def)
    with t(2,3) have "tolerable (ocp_readiness c)" "tolerable (event_readiness c)" by simp_all
    with t(1) m show ?thesis by (auto simp: tolerable_def github_readiness_def ocp_readiness_def event_readiness_def ready_def not_ready_def disabled_def
      split: if_splits)
  qed
  have "as_github st = None \<and> \<not> as_action_client st \<and> as_event_verifier st = None" if "\<not> external_mode (cf_mode c)"
    using st cl that by (cases "client_from_config c"; cases "as_event_verifier st") auto
  then show ?thesis using st(2) cl r by auto
qed

section \<open>Signatures\<close>

lemma line_split:
  assumes "a @ NL @ b = a' @ NL @ b'" "CHR 0x0A \<notin> set a" "CHR 0x0A \<notin> set a'"
  shows "a = a' \<and> b = b'"
  using sep_inj [of "CHR 0x0A" a a' b b'] assms by (simp add: NL_def)


definition lower_headers :: "(string \<times> string) list \<Rightarrow> (string \<times> string) list" where
  "lower_headers hs = map (\<lambda>(n, v). (to_ascii_lowercase n, v)) hs"

lemma alnum_visible: "is_ascii_alphanumeric c \<Longrightarrow> visible_ascii c"
  by (auto simp: is_ascii_alphanumeric_def visible_ascii_def Let_def)

lemma identifier_visible: "valid_identifier v \<Longrightarrow> list_all visible_ascii v \<and> v \<noteq> []"
proof -
  have "visible_ascii (CHR ''-'')" "visible_ascii (CHR ''_'')" "visible_ascii (CHR '':'')" "visible_ascii (CHR ''.'')"
    by (simp_all add: visible_ascii_def)
  then show "valid_identifier v \<Longrightarrow> list_all visible_ascii v \<and> v \<noteq> []"
    by (auto simp: valid_identifier_def list_all_iff dest: alnum_visible)
qed

lemma int_str_visible: "list_all visible_ascii (int_str i)"
proof -
  have d: "is_digit c \<Longrightarrow> visible_ascii c" for c by (auto simp: is_digit_def visible_ascii_def)
  have "list_all visible_ascii (nat_str n)" for n
    using nat_str_digits [of n] by (auto simp: list_all_iff intro: d)
  moreover have "visible_ascii (CHR ''-'')" by (simp add: visible_ascii_def)
  ultimately show ?thesis by (simp add: int_str_def)
qed

lemma canonical_agrees: "canonical_bytes e c i t target body = canonical c i t target (body_sha256 e body)"
  by (simp add: canonical_bytes_def canonical_def NL_def nl_def)

lemma lower_names: "to_ascii_lowercase ''X-OAB-Controller-ID'' = ''x-oab-controller-id''"
  "to_ascii_lowercase ''X-OAB-Event-ID'' = ''x-oab-event-id''" "to_ascii_lowercase ''X-OAB-Signature'' = ''x-oab-signature''"
  "to_ascii_lowercase ''X-OAB-Timestamp'' = ''x-oab-timestamp''"
  by code_simp+

lemma verify_eventI:
  assumes "valid_identifier i" "i64_range t" "\<bar>now_secs - t\<bar> \<le> 300" "pe_hex_decode e h = Some (hmac_sha256 (pe_env e) (ve_secret v) (canonical_bytes e (ve_controller_id v) i t tgt body))"
    and "read_event e (ve_controller_id v) i body = Inr envl"
  shows "verify_event e v (Some (ve_controller_id v)) (Some i) (Some (int_str t)) (Some (''sha256='' @ h)) tgt body now_secs = Inr envl"
proof -
  have "strip_prefix ''sha256='' (''sha256='' @ h) = Some h" by (simp only: strip_prefix_def starts_with_append if_True append_eq_conv_conj) simp
  with assms show ?thesis by (simp add: verify_event_def parse_i64_int_str MAX_TIMESTAMP_SKEW_SECS_def del: append.simps append_Cons)
qed

text \<open>
  C16. What the control plane signs, this controller accepts: a runtime event signed with the key of the
  controller's installation, carried by its headers and arriving within five minutes, passes the
  verification and yields the event that was queued. The secret the controller was configured with is the
  one the plane issued; coding and decoding are inverse.
\<close>

theorem signed_event_is_accepted:
  assumes coding: "\<forall>s. pe_hex_decode e (hex_encode (pe_env e) s) = Some s" "\<forall>s. pe_base64_decode e (base64_url (pe_env e) s) = Some s"
    and visible: "\<forall>s. list_all visible_ascii (hex_encode (pe_env e) s)" "list_all visible_ascii (ed_controller_id dl)"
    and key: "issued_secret (pe_env e) keys (ed_key_version dl) (ed_controller_id dl) = Inr issued"
      "new_verifier e (ed_controller_id dl) issued = Some v"
    and sent: "signed_request (pe_env e) keys dl t = Inr req" "request_target (pe_env e) (ed_endpoint dl) = Inr tgt"
    and event: "valid_identifier (ed_id dl)" "read_event e (ed_controller_id dl) (ed_id dl) (json_text (pe_env e) (ed_body_json dl)) = Inr envl"
    and time: "i64_range t" "\<bar>now_secs - t\<bar> \<le> 300" and hs: "hs = lower_headers (req_headers req)"
  shows "verify_event e v (header hs ''x-oab-controller-id'') (header hs ''x-oab-event-id'') (header hs ''x-oab-timestamp'')
    (header hs ''x-oab-signature'') tgt (req_body req) now_secs = Inr envl"
proof -
  from key(1) obtain secret where s: "signing_secret (pe_env e) keys (ed_key_version dl) (ed_controller_id dl) = Inr secret"
    "issued = base64_url (pe_env e) secret" by (auto simp: issued_secret_def)
  with key(2) coding(2) have v: "ve_secret v = secret" "ve_controller_id v = ed_controller_id dl" "ed_controller_id dl \<noteq> []"
    by (auto simp: new_verifier_def split: if_splits)
  let ?body = "json_text (pe_env e) (ed_body_json dl)"
  define h where "h = hex_encode (pe_env e) (hmac_sha256 (pe_env e) secret (canonical (ed_controller_id dl) (ed_id dl) t tgt (body_sha256 e ?body)))"
  have req: "req_body req = ?body" "req_headers req = [(''X-OAB-Controller-ID'', ed_controller_id dl), (''X-OAB-Event-ID'', ed_id dl),
      (''X-OAB-Signature'', ''sha256='' @ h), (''X-OAB-Timestamp'', int_str t)]"
    using sent s(1) by (auto simp: signed_request_def Let_def h_def body_sha256_def)
  have "list_all visible_ascii h" using visible(1) by (simp add: h_def)
  then have "list_all visible_ascii (''sha256='' @ h)" by (simp add: visible_ascii_def)
  then have "header hs ''x-oab-controller-id'' = Some (ve_controller_id v)" "header hs ''x-oab-event-id'' = Some (ed_id dl)"
    "header hs ''x-oab-timestamp'' = Some (int_str t)" "header hs ''x-oab-signature'' = Some (''sha256='' @ h)"
    using visible(2) v identifier_visible [OF event(1)] int_str_visible [of t]
    by (simp_all add: hs lower_headers_def req lower_names header_def int_str_nonempty)
  with verify_eventI [OF event(1) time, of e h v tgt ?body envl] event(2) show ?thesis
    by (simp add: req(1) v canonical_agrees h_def coding(1))
qed

section \<open>Examples\<close>

definition hex_digit :: "nat \<Rightarrow> char" where
  "hex_digit n = char_of (if n < 10 then 48 + n else 87 + n)"

definition hex_value :: "char \<Rightarrow> nat option" where
  "hex_value c = (let n = (of_char c :: nat) in if 48 \<le> n \<and> n \<le> 57 then Some (n - 48) else if 97 \<le> n \<and> n \<le> 102 then Some (n - 87) else None)"

definition hex_text :: "string \<Rightarrow> string" where
  "hex_text s = concat (map (\<lambda>c. [hex_digit (of_char c div 16), hex_digit (of_char c mod 16)]) s)"

fun hex_read :: "string \<Rightarrow> string option" where
  "hex_read [] = Some []"
| "hex_read (a # b # s) = (case (hex_value a, hex_value b, hex_read s) of (Some x, Some y, Some t) \<Rightarrow> Some (char_of (16 * x + y) # t) | _ \<Rightarrow> None)"
| "hex_read [a] = None"

lemma hex_value_digit: "n < 16 \<Longrightarrow> hex_value (hex_digit n) = Some n"
  by (auto simp: hex_value_def hex_digit_def)

lemma hex_read_text: "hex_read (hex_text s) = Some s"
proof (induction s)
  case Nil
  then show ?case by (simp add: hex_text_def)
next
  case (Cons c s)
  have "of_char c div 16 < (16::nat)" using nat_of_char_less_256 [of c] by linarith
  with Cons show ?case by (simp add: hex_text_def hex_value_digit)
qed

lemma hex_text_visible: "list_all visible_ascii (hex_text s)"
proof -
  have d: "n < 16 \<Longrightarrow> visible_ascii (hex_digit n)" for n by (auto simp: visible_ascii_def hex_digit_def)
  have "of_char c div 16 < (16::nat)" for c using nat_of_char_less_256 [of c] by linarith
  then show ?thesis by (auto simp: hex_text_def list_all_iff intro: d)
qed

definition desk_env :: pr_env where
  "desk_env = \<lparr>pe_env = \<lparr>hmac_sha256 = (\<lambda>k t. replicate 32 (CHR ''m'')), sha256 = (\<lambda>t. ''d''), hex_encode = hex_text,
      base64_url = id, json_text = (\<lambda>j. ''event''), parse_url = (\<lambda>u. Some \<lparr>url_scheme = ''https'', url_host = Some ''h'', url_username = [],
      url_password = None, url_path = ''/events'', url_query = None, url_fragment = None\<rparr>)\<rparr>,
    pe_hex_decode = hex_read, pe_base64_decode = Some, pe_json = (\<lambda>s. None),
    pe_envelope = (\<lambda>b. Some \<lparr>re_version = ''1'', re_event_id = ''cev1'', re_controller_id = ''c1'', re_event_type = ''session.terminal'',
      re_session_id = Some ''s1'', re_occurred_at = 0, re_payload = JNull\<rparr>)\<rparr>"

definition desk_values :: "string \<Rightarrow> string option" where
  "desk_values = (\<lambda>n. map_of [(''GITHUB_CONTROLLER_MODE'', ''external_canary''), (''GITHUB_CONTROLLER_ENABLE_WRITES'', ''1''),
    (''GITHUB_CONTROLLER_CANARY_REPOSITORY'', '' o/r ''), (''GITHUB_CONTROLLER_GITHUB_APP_ID'', ''7''),
    (''GITHUB_CONTROLLER_GITHUB_APP_INSTALLATION_ID'', ''8''), (''GITHUB_CONTROLLER_GITHUB_APP_PRIVATE_KEY'', ''k'')] n)"

theorem writes_need_two_locks_witness:
  "\<exists>st log' cl. state_from_config desk_env desk_world True (from_values desk_values) [] = (st, log') \<and> as_github st = Some cl
    \<and> gc_repository cl = Some ''o/r'' \<and> cf_enable_writes (from_values desk_values)"
proof -
  obtain st log' where s: "state_from_config desk_env desk_world True (from_values desk_values) [] = (st, log')" by force
  have "map_option gc_repository (as_github (fst (state_from_config desk_env desk_world True (from_values desk_values) []))) = Some (Some ''o/r'')"
    by code_simp
  with s obtain cl where cl: "as_github st = Some cl" "gc_repository cl = Some ''o/r''" by auto
  from writes_need_two_locks [OF s] cl s show ?thesis by blast
qed


definition desk_delivery :: ControllerEventDelivery where
  "desk_delivery = \<lparr>ed_id = ''cev1'', ed_controller_id = ''c1'', ed_session_id = Some ''s1'', ed_event_type = ''session.terminal'',
    ed_endpoint = ''https://h/events'', ed_key_version = 1, ed_body_json = JNull, ed_attempts = 0, ed_created_at = 0\<rparr>"

theorem signed_event_is_accepted_witness:
  "\<exists>req envl. signed_request (pe_env desk_env) [(1, replicate 32 (CHR ''k''))] desk_delivery 1000 = Inr req
    \<and> (let hs = lower_headers (req_headers req) in verify_event desk_env \<lparr>ve_controller_id = ''c1'', ve_secret = replicate 32 (CHR ''m'')\<rparr>
      (header hs ''x-oab-controller-id'') (header hs ''x-oab-event-id'') (header hs ''x-oab-timestamp'') (header hs ''x-oab-signature'')
      ''/events'' (req_body req) 1200 = Inr envl) \<and> re_session_id envl = Some ''s1''"
proof -
  let ?keys = "[(1, replicate 32 (CHR ''k''))] :: ControllerEventKeys"
  let ?v = "\<lparr>ve_controller_id = ''c1'', ve_secret = replicate 32 (CHR ''m'')\<rparr>"
  have d: "ed_key_version desk_delivery = 1" "ed_controller_id desk_delivery = ''c1''" "ed_id desk_delivery = ''cev1''" by (simp_all add: desk_delivery_def)
  have k: "issued_secret (pe_env desk_env) ?keys (ed_key_version desk_delivery) (ed_controller_id desk_delivery) = Inr (replicate 32 (CHR ''m''))"
    "new_verifier desk_env (ed_controller_id desk_delivery) (replicate 32 (CHR ''m'')) = Some ?v"
    "request_target (pe_env desk_env) (ed_endpoint desk_delivery) = Inr ''/events''" by code_simp+
  have "signing_secret (pe_env desk_env) ?keys (ed_key_version desk_delivery) (ed_controller_id desk_delivery) = Inr (replicate 32 (CHR ''m''))" by code_simp
  with k(3) obtain req where r: "signed_request (pe_env desk_env) ?keys desk_delivery 1000 = Inr req" by (auto simp: signed_request_def Let_def)
  have "case read_event desk_env (ed_controller_id desk_delivery) (ed_id desk_delivery) (json_text (pe_env desk_env) (ed_body_json desk_delivery)) of
    Inl e \<Rightarrow> False | Inr envl \<Rightarrow> re_session_id envl = Some ''s1''" by code_simp
  then obtain envl where ev: "read_event desk_env (ed_controller_id desk_delivery) (ed_id desk_delivery) (json_text (pe_env desk_env) (ed_body_json desk_delivery)) = Inr envl"
    "re_session_id envl = Some ''s1''" by (auto split: sum.splits)
  have c: "\<forall>s. pe_hex_decode desk_env (hex_encode (pe_env desk_env) s) = Some s" "\<forall>s. pe_base64_decode desk_env (base64_url (pe_env desk_env) s) = Some s"
    "\<forall>s. list_all visible_ascii (hex_encode (pe_env desk_env) s)" by (simp_all add: desk_env_def hex_read_text hex_text_visible)
  have w: "list_all visible_ascii (ed_controller_id desk_delivery)" "valid_identifier (ed_id desk_delivery)" "i64_range 1000" by code_simp+
  from signed_event_is_accepted [OF c(1,2,3) w(1) k(1,2) r k(3) w(2) ev(1) w(3) _ refl, of 1200] r ev(2) show ?thesis by (auto simp: Let_def)
qed

end
