(* ===== verification/PR_Outbox.thy ===== *)
theory PR_Outbox
  imports PR_Config
begin

text \<open>
  The controller's journal entries and its outbox (\<^verbatim>\<open>crates/github-pr-controller/src/lib.rs\<close>): how a
  queued write is checked against the proof of its round, carried out on GitHub with the search for an
  earlier success, journaled with its receipt, and settled by the drain.
\<close>

section \<open>Journal entries\<close>

fun jlookup :: "json \<Rightarrow> string \<Rightarrow> json option" where
  "jlookup (JObj kvs) k = map_of kvs k"
| "jlookup _ k = None"

fun jas_bool :: "json \<Rightarrow> bool option" where
  "jas_bool (JBool b) = Some b"
| "jas_bool _ = None"

definition orelse :: "'a option \<Rightarrow> 'a option \<Rightarrow> 'a option" where
  "orelse a b = (case a of None \<Rightarrow> b | Some x \<Rightarrow> Some x)"

definition github_actor_from_detail :: "json \<Rightarrow> AuditActor option" where
  "github_actor_from_detail detail = Option.bind (Option.bind (jlookup detail ''kind'') jas_str) (\<lambda>kind_of.
    Some \<lparr>aa_kind = kind_of,
      aa_id = Option.bind (jlookup detail ''id'') (\<lambda>v. orelse (jas_str v) (map_option int_str (jas_i64 v))),
      aa_display = Option.bind (jlookup detail ''display'') jas_str,
      aa_association = Option.bind (jlookup detail ''association'') jas_str\<rparr>)"

definition github_target_from_detail :: "json \<Rightarrow> AuditTarget option" where
  "github_target_from_detail detail =
    (let provider = (case jlookup detail ''provider'' of None \<Rightarrow> detail | Some p \<Rightarrow> p) in
     Option.bind (Option.bind (orelse (jlookup provider ''repository'') (jlookup provider ''repo'')) jas_str) (\<lambda>repository.
       if repository = [] then None
       else Option.bind (Option.bind (orelse (jlookup provider ''pr_number'') (jlookup provider ''pull_request_number'')) jas_i64) (\<lambda>pr_number.
         Some \<lparr>at_kind = ''github_pull_request'', at_reference = Some (repository @ ''#'' @ int_str pr_number),
           at_revision = Option.bind (orelse (orelse (jlookup provider ''head_sha'') (jlookup provider ''sha'')) (jlookup provider ''revision'')) jas_str\<rparr>)))"

definition controller_audit_event ::
  "pr_db \<Rightarrow> string \<Rightarrow> string \<Rightarrow> AuditOutcome \<Rightarrow> int \<Rightarrow> AuditCorrelation \<Rightarrow> json \<Rightarrow> AuditError option \<Rightarrow> AuditEvent" where
  "controller_audit_event d event_key kind_of oc occurred_at correlation detail err =
    \<lparr>av_version = AUDIT_EVENT_VERSION, av_event_id = ''aud:'' @ PR_SERVICE @ '':'' @ event_key, av_event_key = event_key,
     av_occurred_at = audit_timestamp occurred_at, av_recorded_at = clock_ms d, av_service = PR_SERVICE, av_kind = kind_of,
     av_outcome = oc, av_caused_by = None, av_correlation = correlation,
     av_actor = Option.bind (jlookup detail ''actor'') github_actor_from_detail, av_target = github_target_from_detail detail,
     av_detail = detail, av_error = err\<rparr>"

fun store_error_text :: "StoreError \<Rightarrow> string" where
  "store_error_text (Sqlite e) = ''sqlite: '' @ e"
| "store_error_text (Pool e) = ''postgres pool: '' @ e"
| "store_error_text (StoreConflict e) = ''store conflict: '' @ e"

definition append_controller_audit :: "AuditEvent \<Rightarrow> pr_db \<Rightarrow> string + pr_db" where
  "append_controller_audit ev d = (case ps_append_audit_event ev d of
      Inl err \<Rightarrow> Inl (''append audit event '' @ av_event_key ev @ '': '' @ store_error_text err)
    | Inr (_, d') \<Rightarrow> Inr d')"

text \<open>An append whose failure is ignored.\<close>

definition try_audit :: "AuditEvent \<Rightarrow> pr_db \<Rightarrow> pr_db" where
  "try_audit ev d = (case append_controller_audit ev d of Inl _ \<Rightarrow> d | Inr d' \<Rightarrow> d')"

section \<open>Steps over the store and GitHub\<close>

type_synonym 'a wm = "pr_db \<times> Request list \<Rightarrow> (string + 'a) \<times> (pr_db \<times> Request list)"

definition retW :: "'a \<Rightarrow> 'a wm" where
  "retW a s = (Inr a, s)"

definition failW :: "string \<Rightarrow> 'a wm" where
  "failW e s = (Inl e, s)"

definition bindW :: "'a wm \<Rightarrow> ('a \<Rightarrow> 'b wm) \<Rightarrow> 'b wm" where
  "bindW m f s = (case m s of (Inl e, s') \<Rightarrow> (Inl e, s') | (Inr a, s') \<Rightarrow> f a s')"

definition callW :: "'a gh \<Rightarrow> 'a wm" where
  "callW m = (\<lambda>(d, log). case m log of (r, log') \<Rightarrow> (r, (d, log')))"

definition readW :: "(pr_db \<Rightarrow> 'a) \<Rightarrow> 'a wm" where
  "readW f = (\<lambda>(d, log). (Inr (f d), (d, log)))"

definition storeW :: "(pr_db \<Rightarrow> pr_db) \<Rightarrow> unit wm" where
  "storeW f = (\<lambda>(d, log). (Inr (), (f d, log)))"

definition auditW :: "(pr_db \<Rightarrow> AuditEvent) \<Rightarrow> unit wm" where
  "auditW ev = (\<lambda>(d, log). case append_controller_audit (ev d) d of Inl e \<Rightarrow> (Inl e, (d, log)) | Inr d' \<Rightarrow> (Inr (), (d', log)))"

section \<open>Entries about a write\<close>

definition payload_str :: "PendingWrite \<Rightarrow> string \<Rightarrow> string option" where
  "payload_str w k = jas_str (jget (pw_payload w) k)"

definition write_correlation :: "PendingWrite \<Rightarrow> AuditCorrelation" where
  "write_correlation w = correlation_default\<lparr>ac_session_id := Some (pw_session_id w), ac_write_id := Some (int_str (pw_id w))\<rparr>"

definition write_event :: "PendingWrite \<Rightarrow> string \<Rightarrow> AuditOutcome \<Rightarrow> json \<Rightarrow> AuditError option \<Rightarrow> pr_db \<Rightarrow> AuditEvent" where
  "write_event w kind_of oc detail err d =
    controller_audit_event d (kind_of @ '':'' @ int_str (pw_id w) @ '':'' @ int_str (pw_attempts w)) kind_of oc (now_unix d)
      (write_correlation w) detail err"

definition expected_json :: "PendingWrite \<Rightarrow> json" where
  "expected_json w = JObj [(''event'', jopt (payload_str w ''event'')), (''commit_id'', jopt (orelse (payload_str w ''commit_id'') (payload_str w ''sha'')))]"

definition provider_json :: "PendingWrite \<Rightarrow> string option \<Rightarrow> json" where
  "provider_json w head = JObj [(''repository'', jopt (payload_str w ''repo'')), (''pr_number'', jopt_num (jas_i64 (jget (pw_payload w) ''pr_number''))),
    (''head_sha'', jopt head), (''commit_id'', jopt (payload_str w ''commit_id'')), (''event'', jopt (payload_str w ''event''))]"

definition sha_or_commit :: "PendingWrite \<Rightarrow> string option" where
  "sha_or_commit w = orelse (payload_str w ''sha'') (payload_str w ''commit_id'')"

definition write_error_class :: "string \<Rightarrow> string" where
  "write_error_class message = (case find (\<lambda>(prefix, class). starts_with prefix message)
      [(''unproven_legacy_authority_intent'', ''unproven_legacy_authority_intent''),
       (''unverified_round_authority_intent'', ''unverified_round_authority_intent''),
       (''authority_payload_'', ''authority_payload_invalid''),
       (''authority_commit_mismatch'', ''authority_commit_mismatch''),
       (''authority_status_commit_mismatch'', ''authority_status_commit_mismatch''),
       (''github_review_response_mismatch'', ''github_review_response_mismatch''),
       (''github_review_reconciliation_conflict'', ''github_review_reconciliation_conflict'')] of
    None \<Rightarrow> ''provider_write_failed''
  | Some (_, class) \<Rightarrow> class)"

section \<open>The proof behind a write with authority\<close>

definition reject_authority_write :: "PendingWrite \<Rightarrow> string \<Rightarrow> string \<Rightarrow> unit wm" where
  "reject_authority_write w category message =
    bindW (auditW (write_event w ''github.write.authority_rejected'' AFailed
      (JObj [(''operation'', JStr (pw_kind w)), (''attempt'', JNum (pw_attempts w)), (''category'', JStr category),
        (''payload_commit_id'', jopt (payload_str w ''commit_id'')), (''payload_sha'', jopt (payload_str w ''sha'')),
        (''event'', jopt (payload_str w ''event''))])
      (Some \<lparr>aerr_class = category, aerr_retryable = (pw_attempts w + 1 < WRITE_MAX_ATTEMPTS), aerr_message = Some message, aerr_status = None\<rparr>)))
    (\<lambda>_. failW (category @ '': '' @ message))"

definition is_review_kind :: "string \<Rightarrow> bool" where
  "is_review_kind kind_of \<longleftrightarrow> kind_of = KIND_REVIEW \<or> starts_with KIND_DECISION_REVIEW kind_of"

definition is_authority_status :: "PendingWrite \<Rightarrow> bool" where
  "is_authority_status w \<longleftrightarrow>
    (pw_kind w = KIND_STATUS \<and> payload_str w ''state'' \<in> {Some ''success'', Some ''failure''})
    \<or> (starts_with KIND_DECISION_STATUS (pw_kind w) \<and> payload_str w ''state'' = Some ''success'')"

definition deciding_comment :: "PendingWrite \<Rightarrow> string" where
  "deciding_comment w = last (split_str '':'' (pw_kind w))"

definition review_marker :: "PendingWrite \<Rightarrow> string" where
  "review_marker w = (if starts_with KIND_DECISION_REVIEW (pw_kind w) then decision_marker (pw_session_id w) (deciding_comment w)
    else round_marker (pw_session_id w))"

text \<open>Why a write with authority is refused, as category and message; \<open>None\<close> when it is not.\<close>

definition authority_refusal :: "PendingWrite \<Rightarrow> pr_db \<Rightarrow> (string \<times> string) option" where
  "authority_refusal w d =
    (if \<not> is_review_kind (pw_kind w) \<and> \<not> is_authority_status w then None
     else case review_round_integrity (pw_session_id w) d of
       None \<Rightarrow> Some (''unproven_legacy_authority_intent'', ''no explicit verified round proof exists'')
     | Some proof_row \<Rightarrow>
       if ri_integrity_disposition proof_row \<noteq> ''verified'' then
         Some (if ri_integrity_disposition proof_row = ''legacy_unverified'' then ''unproven_legacy_authority_intent'' else ''unverified_round_authority_intent'',
           ''round integrity disposition is '' @ ri_integrity_disposition proof_row)
       else case Option.bind (payload_str w ''commit_id'') canonical_commit_id of
         None \<Rightarrow> Some (''authority_payload_missing_or_invalid_commit_id'', ''authority payload carried no full canonical commit_id'')
       | Some commit_id \<Rightarrow>
         if is_authority_status w \<and> Option.bind (payload_str w ''sha'') canonical_commit_id = None
         then Some (''authority_payload_invalid_sha'', ''authority status carried no full canonical sha'')
         else if is_authority_status w \<and> Option.bind (payload_str w ''sha'') canonical_commit_id \<noteq> Some commit_id
         then Some (''authority_status_commit_mismatch'', ''authority status sha and commit_id disagree'')
         else if is_review_kind (pw_kind w) \<and> payload_str w ''event'' \<notin> {Some ''APPROVE'', Some ''REQUEST_CHANGES''}
         then Some (''authority_payload_invalid_event'', ''authority review carried no supported event'')
         else if is_review_kind (pw_kind w) \<and> \<not> (case payload_str w ''body'' of None \<Rightarrow> False | Some body \<Rightarrow> contains_str (review_marker w) body)
         then Some (''authority_payload_missing_marker'', ''authority review body carried no controller-owned marker'')
         else case Option.bind (ri_verified_commit_id proof_row) canonical_commit_id of
           None \<Rightarrow> Some (''unverified_round_authority_intent'', ''verified round proof carried no full canonical commit_id'')
         | Some proof_commit_id \<Rightarrow>
             if proof_commit_id \<noteq> commit_id
             then Some (''authority_commit_mismatch'', ''authority payload commit_id differs from the verified round proof'')
             else None)"

definition enforce_authority_write :: "PendingWrite \<Rightarrow> unit wm" where
  "enforce_authority_write w = bindW (readW (authority_refusal w)) (\<lambda>r. case r of
      None \<Rightarrow> retW () | Some (category, message) \<Rightarrow> reject_authority_write w category message)"

section \<open>Carrying out a write\<close>

definition or_zero :: "int option \<Rightarrow> int" where
  "or_zero x = (case x of None \<Rightarrow> 0 | Some n \<Rightarrow> n)"

definition write_repo :: "PendingWrite \<Rightarrow> string" where
  "write_repo w = or_empty (payload_str w ''repo'')"

definition write_pr :: "PendingWrite \<Rightarrow> int" where
  "write_pr w = or_zero (jas_i64 (jget (pw_payload w) ''pr_number''))"

definition write_body :: "PendingWrite \<Rightarrow> string" where
  "write_body w = or_empty (payload_str w ''body'')"

definition comment_receipt :: "int option \<Rightarrow> bool \<Rightarrow> json" where
  "comment_receipt comment_id reconciled = JObj [(''comment_id'', jopt_num comment_id), (''reconciled'', JBool reconciled)]"

definition send_comment :: "github_world \<Rightarrow> GitHubClient \<Rightarrow> PendingWrite \<Rightarrow> json wm" where
  "send_comment g c w = (case jas_i64 (jget (pw_payload w) ''comment_id'') of
      Some comment_id \<Rightarrow> bindW (callW (update_comment g c (write_repo w) comment_id (write_body w))) (\<lambda>_.
        retW (comment_receipt (Some comment_id) False))
    | None \<Rightarrow> bindW (callW (find_marked_comment g c (write_repo w) (write_pr w) (round_marker (pw_session_id w)))) (\<lambda>found.
        bindW (case found of
            Some existing \<Rightarrow> bindW (callW (update_comment g c (write_repo w) existing (write_body w))) (\<lambda>_. retW (existing, True))
          | None \<Rightarrow> bindW (callW (create_comment g c (write_repo w) (write_pr w) (write_body w))) (\<lambda>i. retW (i, False)))
        (\<lambda>(comment_id, reconciled).
          bindW (storeW (set_round_comment_id (pw_session_id w) comment_id)) (\<lambda>_.
          retW (comment_receipt (Some comment_id) reconciled)))))"

definition opening_body :: "PendingWrite \<Rightarrow> int \<Rightarrow> string \<Rightarrow> string" where
  "opening_body w round baseline = ''<!-- openab-council -->'' @ NL @ ''Review Council started (round '' @ int_str round @ '').'' @ NL @ NL
    @ baseline @ NL @ NL
    @ ''The council is reviewing this pull request; the verdict will follow as a separate comment when the round closes.'' @ NL @ NL
    @ open_marker (pw_session_id w)"

definition send_opening :: "github_world \<Rightarrow> GitHubClient \<Rightarrow> PendingWrite \<Rightarrow> json wm" where
  "send_opening g c w =
    bindW (callW (find_marked_comment g c (write_repo w) (write_pr w) (open_marker (pw_session_id w)))) (\<lambda>open_exists.
    bindW (callW (find_marked_comment g c (write_repo w) (write_pr w) (round_marker (pw_session_id w)))) (\<lambda>verdict_exists.
    if open_exists = None \<and> verdict_exists = None then
      bindW (callW (tryG (pull_baseline g c (write_repo w) (write_pr w)))) (\<lambda>r.
      let baseline = (case r of Inl _ \<Rightarrow> ''Baseline: unavailable'' | Inr b \<Rightarrow> b);
          round = (case jas_i64 (jget (pw_payload w) ''round'') of None \<Rightarrow> 1 | Some n \<Rightarrow> n)
      in bindW (callW (create_comment g c (write_repo w) (write_pr w) (opening_body w round baseline))) (\<lambda>comment_id.
      retW (comment_receipt (Some comment_id) False)))
    else retW (comment_receipt (orelse open_exists verdict_exists) True)))"

definition send_abandon :: "github_world \<Rightarrow> GitHubClient \<Rightarrow> PendingWrite \<Rightarrow> json wm" where
  "send_abandon g c w =
    bindW (callW (find_marked_comment g c (write_repo w) (write_pr w) (open_marker (pw_session_id w)))) (\<lambda>existing.
    bindW (case existing of None \<Rightarrow> retW () | Some i \<Rightarrow> callW (update_comment g c (write_repo w) i (write_body w))) (\<lambda>_.
    retW (comment_receipt existing (existing \<noteq> None))))"

definition send_decision_comment :: "github_world \<Rightarrow> GitHubClient \<Rightarrow> PendingWrite \<Rightarrow> json wm" where
  "send_decision_comment g c w = (case jas_i64 (jget (pw_payload w) ''comment_id'') of
      None \<Rightarrow> failW ''decision comment write carried no comment_id''
    | Some comment_id \<Rightarrow> bindW (callW (update_comment g c (write_repo w) comment_id (write_body w))) (\<lambda>_.
        retW (comment_receipt (Some comment_id) False)))"

definition send_status :: "github_world \<Rightarrow> GitHubClient \<Rightarrow> PendingWrite \<Rightarrow> json wm" where
  "send_status g c w =
    (let st = (if payload_str w ''state'' = Some ''success'' then StatusSuccess
               else if payload_str w ''state'' = Some ''failure'' then StatusFailure else StatusError);
         sha = or_empty (payload_str w ''sha'');
         ctx = (case payload_str w ''context'' of None \<Rightarrow> STATUS_CONTEXT | Some v \<Rightarrow> v)
     in bindW (callW (set_status g c (write_repo w) sha st ctx (or_empty (payload_str w ''description'')))) (\<lambda>_.
        retW (JObj [(''sha'', JStr sha), (''context'', JStr ctx), (''state'', JStr (status_state_str st))])))"

definition review_receipt :: "ReviewReceipt \<Rightarrow> bool \<Rightarrow> json" where
  "review_receipt rp reconciled = JObj [(''review_id'', JNum (rp_id rp)), (''state'', JStr (rp_state rp)),
    (''commit_id'', JStr (rp_commit_id rp)), (''reconciled'', JBool reconciled)]"

definition linked_body :: "PendingWrite \<Rightarrow> int option \<Rightarrow> string" where
  "linked_body w comment_id = (case comment_id of
      None \<Rightarrow> write_body w
    | Some i \<Rightarrow> replace_str ''Details in the review comment.'' (''Full report: https://github.com/'' @ write_repo w @ ''/pull/''
        @ int_str (write_pr w) @ ''#issuecomment-'' @ int_str i) (write_body w))"

definition review_event_of :: "PendingWrite \<Rightarrow> ReviewEvent option" where
  "review_event_of w = (if payload_str w ''event'' = Some ''APPROVE'' then Some Approve
    else if payload_str w ''event'' = Some ''REQUEST_CHANGES'' then Some RequestChanges else None)"

definition debug_opt :: "github_world \<Rightarrow> string option \<Rightarrow> string" where
  "debug_opt g v = (case v of None \<Rightarrow> ''None'' | Some s \<Rightarrow> ''Some('' @ gh_debug g s @ '')'')"

definition send_review :: "github_world \<Rightarrow> GitHubClient \<Rightarrow> PendingWrite \<Rightarrow> json wm" where
  "send_review g c w = (case review_event_of w of
      None \<Rightarrow> failW (''unknown review event '' @ debug_opt g (payload_str w ''event''))
    | Some event \<Rightarrow> (case payload_str w ''commit_id'' of
        None \<Rightarrow> failW ''review payload carried no commit_id''
      | Some commit_id \<Rightarrow>
          bindW (callW (find_marked_review g c (write_repo w) (write_pr w) (review_marker w) event commit_id)) (\<lambda>found.
          case found of
            Some receipt \<Rightarrow> retW (review_receipt receipt True)
          | None \<Rightarrow> bindW (readW (round_comment_id (pw_session_id w))) (\<lambda>comment_id.
              bindW (callW (submit_review g c (write_repo w) (write_pr w) event commit_id (linked_body w comment_id))) (\<lambda>receipt.
              retW (review_receipt receipt False))))))"

definition send_write :: "github_world \<Rightarrow> GitHubClient \<Rightarrow> PendingWrite \<Rightarrow> json wm" where
  "send_write g c w = (let kind_of = pw_kind w in
     if kind_of = KIND_COMMENT then send_comment g c w
     else if kind_of = KIND_COMMENT_OPEN then send_opening g c w
     else if kind_of = KIND_COMMENT_ABANDON then send_abandon g c w
     else if starts_with KIND_DECISION_COMMENT kind_of then send_decision_comment g c w
     else if kind_of = KIND_STATUS \<or> starts_with KIND_DECISION_STATUS kind_of then send_status g c w
     else if is_review_kind kind_of then send_review g c w
     else failW (''unknown write kind '' @ kind_of))"

definition request_sha256 :: "event_env \<Rightarrow> PendingWrite \<Rightarrow> string" where
  "request_sha256 ev w = hex_encode ev (sha256 ev (json_text ev (pw_payload w)))"

definition journal_unknown_outcome :: "event_env \<Rightarrow> PendingWrite \<Rightarrow> unit wm" where
  "journal_unknown_outcome ev w = auditW (write_event w ''github.write.outcome_unknown'' AOutcomeUnknown
    (JObj [(''operation'', JStr (pw_kind w)), (''attempt'', JNum (pw_attempts w)), (''reason'', JStr ''claim_lease_expired_before_completion''),
      (''request_sha256'', JStr (request_sha256 ev w)), (''expected'', expected_json w), (''provider'', provider_json w (sha_or_commit w))]) None)"

definition journal_attempt :: "event_env \<Rightarrow> PendingWrite \<Rightarrow> unit wm" where
  "journal_attempt ev w = auditW (write_event w ''github.write.attempted'' APending
    (JObj [(''operation'', JStr (pw_kind w)), (''attempt'', JNum (pw_attempts w)), (''request_sha256'', JStr (request_sha256 ev w)),
      (''expected'', expected_json w), (''provider'', provider_json w (sha_or_commit w))]) None)"

definition journal_receipt :: "event_env \<Rightarrow> PendingWrite \<Rightarrow> json \<Rightarrow> unit wm" where
  "journal_receipt ev w receipt =
    (let reconciled = (jas_bool (jget receipt ''reconciled'') = Some True);
         kind_of = (if reconciled then ''github.write.reconciled'' else ''github.write.succeeded'')
     in auditW (write_event w kind_of (if reconciled then AReconciled else ASucceeded)
       (JObj [(''operation'', JStr (pw_kind w)), (''attempt'', JNum (pw_attempts w)), (''request_sha256'', JStr (request_sha256 ev w)),
         (''expected'', expected_json w), (''provider_receipt'', receipt), (''provider'', provider_json w (sha_or_commit w))]) None))"

definition perform_write_with_receipt :: "github_world \<Rightarrow> GitHubClient \<Rightarrow> event_env \<Rightarrow> PendingWrite \<Rightarrow> json wm" where
  "perform_write_with_receipt g c ev w =
    bindW (if pw_was_reclaimed w then journal_unknown_outcome ev w else retW ()) (\<lambda>_.
    bindW (journal_attempt ev w) (\<lambda>_.
    bindW (enforce_authority_write w) (\<lambda>_.
    bindW (send_write g c w) (\<lambda>receipt.
    bindW (journal_receipt ev w receipt) (\<lambda>_. retW receipt)))))"

section \<open>The drain\<close>

definition WRITE_DRAIN_BATCH :: nat where "WRITE_DRAIN_BATCH = 32"

definition failure_event :: "PendingWrite \<Rightarrow> string \<Rightarrow> pr_db \<Rightarrow> AuditEvent" where
  "failure_event w err d =
    (let retryable = (pw_attempts w + 1 < WRITE_MAX_ATTEMPTS);
         kind_of = (if retryable then ''github.write.retry_scheduled'' else ''github.write.failed'')
     in write_event w kind_of (if retryable then ARetryScheduled else AFailed)
       (JObj [(''operation'', JStr (pw_kind w)), (''attempt'', JNum (pw_attempts w)), (''retryable'', JBool retryable),
         (''error_category'', JStr (write_error_class err)), (''provider'', provider_json w (payload_str w ''sha''))])
       (Some \<lparr>aerr_class = write_error_class err, aerr_retryable = retryable, aerr_message = Some err, aerr_status = None\<rparr>) d)"

definition settle_write :: "github_world \<Rightarrow> GitHubClient \<Rightarrow> event_env \<Rightarrow> PendingWrite \<Rightarrow> pr_db \<times> Request list \<Rightarrow> pr_db \<times> Request list" where
  "settle_write g c ev w s = (case perform_write_with_receipt g c ev w s of
      (Inr _, (d, log)) \<Rightarrow> (mark_write_done (pw_id w) d, log)
    | (Inl err, (d, log)) \<Rightarrow> (mark_write_failed (pw_id w) err (try_audit (failure_event w err d) d), log))"

definition drain_outbox_batch :: "github_world \<Rightarrow> GitHubClient \<Rightarrow> event_env \<Rightarrow> pr_db \<times> Request list \<Rightarrow> nat \<times> (pr_db \<times> Request list)" where
  "drain_outbox_batch g c ev = (\<lambda>(d, log). case claim_writes WRITE_DRAIN_BATCH d of
      (pending, d') \<Rightarrow> (length pending, foldl (\<lambda>s w. settle_write g c ev w s) (d', log) pending))"

section \<open>What a step may change and request\<close>

text \<open>
  \<open>within F R m d log\<close>: run on the store \<open>d\<close> after the requests \<open>log\<close>, the step \<open>m\<close> changes the store only
  as \<open>F\<close> allows and makes only requests that satisfy \<open>R\<close>.
\<close>

definition within :: "(pr_db \<Rightarrow> pr_db \<Rightarrow> bool) \<Rightarrow> (Request \<Rightarrow> bool) \<Rightarrow> 'a wm \<Rightarrow> pr_db \<Rightarrow> Request list \<Rightarrow> bool" where
  "within F R m d log \<longleftrightarrow> (\<exists>d' new. snd (m (d, log)) = (d', log @ new) \<and> F d d' \<and> (\<forall>rq \<in> set new. R rq))"

lemma within_mono: "within F R m d log \<Longrightarrow> (\<And>rq. R rq \<Longrightarrow> R' rq) \<Longrightarrow> within F R' m d log"
  unfolding within_def by blast

lemma append_controller_frame: "append_controller_audit ev d = Inr d' \<Longrightarrow> \<exists>js n. d' = d\<lparr>journal_rows := js, journal_seq := n\<rparr>"
  by (auto simp: append_controller_audit_def split: sum.splits prod.splits dest!: append_event_frame)

lemma try_audit_frame: "\<exists>js n. try_audit ev d = d\<lparr>journal_rows := js, journal_seq := n\<rparr>"
proof (cases "append_controller_audit ev d")
  case (Inl e)
  then have "try_audit ev d = d\<lparr>journal_rows := journal_rows d, journal_seq := journal_seq d\<rparr>" by (simp add: try_audit_def)
  then show ?thesis by blast
next
  case (Inr d')
  with append_controller_frame [OF Inr] show ?thesis by (simp add: try_audit_def)
qed

lemma try_audit_tables: "review_rounds (try_audit ev d) = review_rounds d" "github_writes (try_audit ev d) = github_writes d"
  using try_audit_frame [of ev d] by auto

locale db_frame =
  fixes F :: "pr_db \<Rightarrow> pr_db \<Rightarrow> bool"
  assumes frame_refl: "F d d"
    and frame_trans: "F d d' \<Longrightarrow> F d' d'' \<Longrightarrow> F d d''"
    and frame_journal: "F d (d\<lparr>journal_rows := js, journal_seq := n\<rparr>)"
begin

lemma within_ret: "within F R (retW a) d log" "within F R (failW e) d log" "within F R (readW f) d log"
  by (auto simp: within_def retW_def failW_def readW_def frame_refl)

lemma within_store: "F d (f d) \<Longrightarrow> within F R (storeW f) d log"
  by (auto simp: within_def storeW_def)

lemma within_call: "requests R m \<Longrightarrow> within F R (callW m) d log"
proof -
  assume "requests R m"
  then obtain new where new: "snd (m log) = log @ new" "\<forall>rq \<in> set new. R rq" unfolding requests_def by blast
  have "snd (callW m (d, log)) = (d, log @ new)" using new(1) by (cases "m log") (simp add: callW_def)
  with new(2) frame_refl show ?thesis unfolding within_def by blast
qed

lemma within_audit: "within F R (auditW ev) d log"
proof (cases "append_controller_audit (ev d) d")
  case (Inl e)
  then show ?thesis by (auto simp: within_def auditW_def frame_refl)
next
  case (Inr d')
  with append_controller_frame [OF Inr] frame_journal show ?thesis by (auto simp: within_def auditW_def)
qed

lemma within_bind:
  assumes m: "within F R m d log"
    and f: "\<And>a d' log'. m (d, log) = (Inr a, (d', log')) \<Longrightarrow> F d d' \<Longrightarrow> within F R (f a) d' log'"
  shows "within F R (bindW m f) d log"
proof -
  obtain r d1 log1 where e: "m (d, log) = (r, (d1, log1))" by (metis prod.collapse)
  with m obtain n1 where n1: "log1 = log @ n1" "\<forall>rq \<in> set n1. R rq" "F d d1" unfolding within_def by auto
  show ?thesis
  proof (cases r)
    case (Inl x)
    with e n1 show ?thesis unfolding within_def by (auto simp: bindW_def)
  next
    case (Inr a)
    with f [of a d1 log1] e n1(3) obtain d2 n2 where n2: "snd (f a (d1, log1)) = (d2, log1 @ n2)" "F d1 d2" "\<forall>rq \<in> set n2. R rq"
      unfolding within_def by blast
    have "snd (bindW m f (d, log)) = (d2, log @ (n1 @ n2))" using e Inr n1 n2 by (simp add: bindW_def)
    moreover have "\<forall>rq \<in> set (n1 @ n2). R rq" using n1 n2 by auto
    ultimately show ?thesis using frame_trans [OF n1(3) n2(2)] unfolding within_def by blast
  qed
qed

lemmas within_rules = within_ret within_audit within_bind

end

text \<open>A write touches the rounds, where it records the comment it found or made, and the journal.\<close>

definition sent_frame :: "pr_db \<Rightarrow> pr_db \<Rightarrow> bool" where
  "sent_frame d d' \<longleftrightarrow> (\<exists>rs js n. d' = d\<lparr>review_rounds := rs, journal_rows := js, journal_seq := n\<rparr>)
    \<and> (\<forall>s. review_round_integrity s d' = review_round_integrity s d)"

lemma sent_frame_journal: "sent_frame d (d\<lparr>journal_rows := js, journal_seq := n\<rparr>)"
proof -
  have "d\<lparr>journal_rows := js, journal_seq := n\<rparr> = d\<lparr>review_rounds := review_rounds d, journal_rows := js, journal_seq := n\<rparr>" by simp
  moreover have "review_round_integrity s (d\<lparr>journal_rows := js, journal_seq := n\<rparr>) = review_round_integrity s d" for s
    by (simp add: review_round_integrity_def)
  ultimately show ?thesis unfolding sent_frame_def by blast
qed

lemma sent_frame_refl: "sent_frame d d"
  using sent_frame_journal [where d = d and js = "journal_rows d" and n = "journal_seq d"] by simp

lemma sent_frame_trans: "sent_frame d d' \<Longrightarrow> sent_frame d' d'' \<Longrightarrow> sent_frame d d''"
  unfolding sent_frame_def by fastforce

interpretation sent: db_frame sent_frame
  by unfold_locales (blast intro: sent_frame_refl sent_frame_trans sent_frame_journal)+

lemma find_map_keep: "(\<And>x. P (f x) = P x) \<Longrightarrow> find P (map f xs) = map_option f (find P xs)"
  by (induction xs) auto

lemma comment_id_frame: "sent_frame d (set_round_comment_id sid i d)"
proof -
  let ?f = "\<lambda>r. if rnd_session_id r = sid then r\<lparr>rnd_comment_id := Some i\<rparr> else r"
  have "review_round_integrity s (set_round_comment_id sid i d) = review_round_integrity s d" for s
    unfolding review_round_integrity_def set_round_comment_id_def upd_where_def
    by (simp add: find_map_keep) (cases "find (\<lambda>r. rnd_session_id r = s) (review_rounds d)"; simp)
  moreover have "set_round_comment_id sid i d = d\<lparr>review_rounds := review_rounds (set_round_comment_id sid i d),
      journal_rows := journal_rows d, journal_seq := journal_seq d\<rparr>" by (simp add: set_round_comment_id_def)
  ultimately show ?thesis unfolding sent_frame_def by blast
qed

section \<open>Requests with authority\<close>

definition request_field :: "Request \<Rightarrow> string \<Rightarrow> json" where
  "request_field rq k = (case rq_body rq of None \<Rightarrow> JNull | Some j \<Rightarrow> jget j k)"

text \<open>A formal review, or a commit status that says success.\<close>

definition claims_authority :: "Request \<Rightarrow> bool" where
  "claims_authority rq \<longleftrightarrow> rq_method rq = POST \<and> (request_field rq ''event'' \<noteq> JNull \<or> request_field rq ''state'' = JStr ''success'')"

text \<open>The commit it is about: named in a review, the last part of the path of a status.\<close>

definition names_commit :: "string \<Rightarrow> Request \<Rightarrow> bool" where
  "names_commit cid rq \<longleftrightarrow> (if request_field rq ''event'' \<noteq> JNull then request_field rq ''commit_id'' = JStr cid
    else \<exists>repo sha. rq_path rq = ''repos/'' @ repo @ ''/statuses/'' @ sha \<and> canonical_commit_id sha = Some cid)"

definition proven :: "pr_db \<Rightarrow> string \<Rightarrow> Request \<Rightarrow> bool" where
  "proven d sid rq \<longleftrightarrow> (claims_authority rq \<longrightarrow> (\<exists>proof_row cid. review_round_integrity sid d = Some proof_row
    \<and> ri_integrity_disposition proof_row = ''verified'' \<and> Option.bind (ri_verified_commit_id proof_row) canonical_commit_id = Some cid
    \<and> names_commit cid rq))"

lemma not_refusedD:
  assumes "authority_refusal w d = None" and "is_review_kind (pw_kind w) \<or> is_authority_status w"
  obtains proof_row cid where "review_round_integrity (pw_session_id w) d = Some proof_row" "ri_integrity_disposition proof_row = ''verified''"
    "Option.bind (ri_verified_commit_id proof_row) canonical_commit_id = Some cid"
    "Option.bind (payload_str w ''commit_id'') canonical_commit_id = Some cid"
    "is_authority_status w \<Longrightarrow> Option.bind (payload_str w ''sha'') canonical_commit_id = Some cid"
    "is_review_kind (pw_kind w) \<Longrightarrow> \<exists>body. payload_str w ''body'' = Some body \<and> contains_str (review_marker w) body"
  using assms unfolding authority_refusal_def by (auto split: option.splits if_splits)

lemma plain_requests:
  "requests (\<lambda>rq. \<not> claims_authority rq) (update_comment g c repo i body)"
  "requests (\<lambda>rq. \<not> claims_authority rq) (create_comment g c repo n body)"
  "requests (\<lambda>rq. \<not> claims_authority rq) (find_marked_comment g c repo n marker)"
  "requests (\<lambda>rq. \<not> claims_authority rq) (pull_baseline g c repo n)"
  "requests (\<lambda>rq. \<not> claims_authority rq) (find_marked_review g c repo n marker ev commit)"
  unfolding update_comment_def create_comment_def find_marked_comment_def find_marked_def pull_baseline_def find_marked_review_def
  by (auto simp: claims_authority_def request_of_def request_field_def intro!: requests_rules requests_send requests_pages
    split: sum.splits option.splits)

lemma not_claiming: "requests (\<lambda>rq. \<not> claims_authority rq) m \<Longrightarrow> requests (proven d sid) m"
  unfolding requests_def proven_def by blast

lemma status_request:
  assumes "authority_refusal w d = None" and "pw_kind w = KIND_STATUS \<or> starts_with KIND_DECISION_STATUS (pw_kind w)"
  shows "requests (proven d (pw_session_id w)) (set_status g c repo (or_empty (payload_str w ''sha''))
    (if payload_str w ''state'' = Some ''success'' then StatusSuccess else if payload_str w ''state'' = Some ''failure'' then StatusFailure else StatusError) ctx desc)"
    (is "requests _ (set_status g c repo ?sha ?st ctx desc)")
proof -
  let ?rq = "request_of POST (''repos/'' @ repo @ ''/statuses/'' @ ?sha) (Some (JObj [(''state'', JStr (status_state_str ?st)),
      (''context'', JStr ctx), (''description'', JStr (truncate_at desc 140))]))"
  have f: "request_field ?rq ''event'' = JNull" "request_field ?rq ''state'' = JStr (status_state_str ?st)"
    "rq_path ?rq = ''repos/'' @ repo @ ''/statuses/'' @ ?sha"
    by (simp_all add: request_field_def request_of_def)
  have "proven d (pw_session_id w) ?rq"
  proof (cases "payload_str w ''state'' = Some ''success''")
    case True
    then have a: "is_authority_status w" using assms(2) by (auto simp: is_authority_status_def)
    from not_refusedD [OF assms(1)] a obtain proof_row cid where p: "review_round_integrity (pw_session_id w) d = Some proof_row"
      "ri_integrity_disposition proof_row = ''verified''" "Option.bind (ri_verified_commit_id proof_row) canonical_commit_id = Some cid"
      "Option.bind (payload_str w ''sha'') canonical_commit_id = Some cid" by metis
    from p(4) have "canonical_commit_id ?sha = Some cid" by (cases "payload_str w ''sha''") (simp_all add: or_empty_def)
    then have "names_commit cid ?rq" unfolding names_commit_def f by auto
    with p(1-3) show ?thesis unfolding proven_def by blast
  next
    case False
    then have "\<not> claims_authority ?rq" unfolding claims_authority_def f by simp
    then show ?thesis unfolding proven_def by blast
  qed
  then show ?thesis unfolding set_status_def by (intro requests_checked requests_bind requests_send requests_ret)
qed

lemma bind_some: "bindG (someG e (Some a)) f = f a"
  by (rule ext) (simp add: bindG_def someG_def retG_def)

lemma review_request:
  assumes "authority_refusal w d = None" and "is_review_kind (pw_kind w)" and "payload_str w ''commit_id'' = Some commit"
  shows "requests (proven d (pw_session_id w)) (submit_review g c repo n ev commit body)"
proof -
  from not_refusedD [OF assms(1)] assms(2,3) obtain proof_row cid where p: "review_round_integrity (pw_session_id w) d = Some proof_row"
    "ri_integrity_disposition proof_row = ''verified''" "Option.bind (ri_verified_commit_id proof_row) canonical_commit_id = Some cid"
    "canonical_commit_id commit = Some cid" by (metis bind.bind_lunit)
  let ?rq = "request_of POST (reviews_path repo n) (Some (JObj [(''event'', JStr (review_event_str ev)), (''body'', JStr body), (''commit_id'', JStr cid)]))"
  have "names_commit cid ?rq" by (simp add: names_commit_def request_field_def request_of_def)
  with p(1-3) have "proven d (pw_session_id w) ?rq" unfolding proven_def by blast
  then show ?thesis unfolding submit_review_def p(4) bind_some by (intro requests_checked requests_bind requests_send requests_ret)
qed

lemmas send_rules = sent.within_rules sent.within_call sent.within_store comment_id_frame not_claiming plain_requests

lemma send_write_within:
  assumes "authority_refusal w d0 = None"
  shows "within sent_frame (proven d0 (pw_session_id w)) (send_write g c w) d log"
proof -
  have k: "KIND_STATUS \<noteq> KIND_COMMENT" by (simp add: KIND_STATUS_def KIND_COMMENT_def)
  have "within sent_frame (proven d0 (pw_session_id w)) (send_comment g c w) d log" for d log
    unfolding send_comment_def by (auto intro!: send_rules requests_try split: option.splits)
  moreover have "within sent_frame (proven d0 (pw_session_id w)) (send_opening g c w) d log"
    unfolding send_opening_def Let_def by (auto intro!: send_rules requests_try)
  moreover have "within sent_frame (proven d0 (pw_session_id w)) (send_abandon g c w) d log"
    unfolding send_abandon_def by (auto intro!: send_rules split: option.splits)
  moreover have "within sent_frame (proven d0 (pw_session_id w)) (send_decision_comment g c w) d log"
    unfolding send_decision_comment_def by (auto intro!: send_rules split: option.splits)
  moreover have "within sent_frame (proven d0 (pw_session_id w)) (send_status g c w) d log"
    if "pw_kind w = KIND_STATUS \<or> starts_with KIND_DECISION_STATUS (pw_kind w)"
    unfolding send_status_def Let_def using status_request [OF assms that] by (intro sent.within_rules sent.within_call)
  moreover have "within sent_frame (proven d0 (pw_session_id w)) (send_review g c w) d log" if "is_review_kind (pw_kind w)"
    unfolding send_review_def by (auto intro!: sent.within_rules sent.within_call review_request [OF assms that]
      not_claiming [OF plain_requests(5)] split: option.splits)
  ultimately show ?thesis unfolding send_write_def Let_def by (simp add: sent.within_ret)
qed

lemma refusal_frame: "sent_frame d0 d \<Longrightarrow> authority_refusal w d = authority_refusal w d0"
  unfolding authority_refusal_def sent_frame_def by auto

lemma enforce_ok: "enforce_authority_write w (d, log) = (Inr u, s) \<Longrightarrow> authority_refusal w d = None"
  by (auto simp: enforce_authority_write_def bindW_def readW_def reject_authority_write_def failW_def split: option.splits prod.splits sum.splits)

lemma enforce_within: "within sent_frame R (enforce_authority_write w) d log"
  unfolding enforce_authority_write_def reject_authority_write_def by (auto intro!: sent.within_rules split: option.splits)

lemma perform_within: "within sent_frame (proven d (pw_session_id w)) (perform_write_with_receipt g c ev w) d log"
proof -
  have 1: "within sent_frame R (if pw_was_reclaimed w then journal_unknown_outcome ev w else retW ()) d log" for R d log
    unfolding journal_unknown_outcome_def by (simp add: sent.within_rules)
  have 2: "within sent_frame R (journal_attempt ev w) d log" "within sent_frame R (journal_receipt ev w r) d log" for R d log r
    unfolding journal_attempt_def journal_receipt_def Let_def by (rule sent.within_audit)+
  have 3: "within sent_frame (proven d (pw_session_id w)) (send_write g c w) d2 log2"
    if "enforce_authority_write w (d1, log1) = (Inr u, (d2, log2))" "sent_frame d d1" for u d1 log1 d2 log2
    using send_write_within refusal_frame [OF that(2)] enforce_ok [OF that(1)] by metis
  show ?thesis unfolding perform_write_with_receipt_def
    by (intro sent.within_bind [OF 1] sent.within_bind [OF 2(1)] sent.within_bind [OF enforce_within] sent.within_bind [OF 3] sent.within_bind [OF 2(2)] sent.within_ret)
      (assumption | erule (1) sent_frame_trans)+
qed

section \<open>Authority\<close>

lemma mark_rounds: "review_rounds (mark_write_done i d) = review_rounds d" "review_rounds (mark_write_failed i e d) = review_rounds d"
  by (simp_all add: mark_write_done_def mark_write_failed_def)

lemma same_rounds: "review_rounds d' = review_rounds d \<Longrightarrow> review_round_integrity s d' = review_round_integrity s d"
  by (simp add: review_round_integrity_def)

definition keeps_proofs :: "pr_db \<Rightarrow> pr_db \<Rightarrow> bool" where
  "keeps_proofs d d' \<longleftrightarrow> (\<forall>s. review_round_integrity s d' = review_round_integrity s d)"

lemma settle_within:
  assumes "settle_write g c ev w (d, log) = (d', log')"
  shows "keeps_proofs d d' \<and> (\<exists>new. log' = log @ new \<and> (\<forall>rq \<in> set new. \<exists>sid. proven d sid rq))"
proof -
  obtain r d1 log1 where p: "perform_write_with_receipt g c ev w (d, log) = (r, (d1, log1))" by (metis prod.collapse)
  from perform_within [of d w g c ev log] p obtain new where n: "log1 = log @ new" "sent_frame d d1"
    "\<forall>rq \<in> set new. proven d (pw_session_id w) rq" unfolding within_def by auto
  have "review_rounds d' = review_rounds d1 \<and> log' = log1" using assms p
    by (cases r) (auto simp: settle_write_def mark_rounds try_audit_tables)
  with n show ?thesis unfolding keeps_proofs_def sent_frame_def using same_rounds by metis
qed

lemma settle_all_within:
  assumes "foldl (\<lambda>s w. settle_write g c ev w s) (d, log) ws = (d', log')"
  shows "keeps_proofs d d' \<and> (\<exists>new. log' = log @ new \<and> (\<forall>rq \<in> set new. \<exists>sid. proven d sid rq))"
  using assms
proof (induction ws arbitrary: d log)
  case Nil
  then show ?case by (simp add: keeps_proofs_def)
next
  case (Cons w ws)
  obtain d1 log1 where s: "settle_write g c ev w (d, log) = (d1, log1)" by force
  from settle_within [OF s] obtain n1 where a: "keeps_proofs d d1" "log1 = log @ n1" "\<forall>rq \<in> set n1. \<exists>sid. proven d sid rq" by blast
  from Cons.IH [of d1 log1] Cons.prems s obtain n2 where b: "keeps_proofs d1 d'" "log' = log1 @ n2" "\<forall>rq \<in> set n2. \<exists>sid. proven d1 sid rq" by auto
  have "proven d1 sid rq \<longleftrightarrow> proven d sid rq" for sid rq using a(1) by (simp add: proven_def keeps_proofs_def)
  with a b have "log' = log @ (n1 @ n2)" "\<forall>rq \<in> set (n1 @ n2). \<exists>sid. proven d sid rq" by auto
  moreover have "keeps_proofs d d'" using a(1) b(1) by (simp add: keeps_proofs_def)
  ultimately show ?case by blast
qed


section \<open>Every claim is settled\<close>

definition settled :: "WriteRow \<Rightarrow> WriteRow \<Rightarrow> bool" where
  "settled r r' \<longleftrightarrow> gw_id r' = gw_id r \<and> gw_session_id r' = gw_session_id r \<and> gw_kind r' = gw_kind r \<and> gw_payload_json r' = gw_payload_json r
    \<and> gw_claimed_at r' = None
    \<and> (gw_state r' = ''done''
      \<or> (gw_attempts r' = gw_attempts r + 1 \<and> gw_state r' = (if gw_attempts r + 1 \<ge> WRITE_MAX_ATTEMPTS then ''failed'' else ''pending'')))"

lemma settle_row:
  assumes "settle_write g c ev w (d, log) = (d', log')"
  shows "list_all2 (\<lambda>r r'. if gw_id r = pw_id w then settled r r' else r' = r) (github_writes d) (github_writes d')"
proof -
  obtain r d1 log1 where p: "perform_write_with_receipt g c ev w (d, log) = (r, (d1, log1))" by (metis prod.collapse)
  from perform_within [of d w g c ev log] p have s: "github_writes d1 = github_writes d"
    unfolding within_def sent_frame_def by auto
  obtain f where f: "\<And>r. settled r (f r)" "github_writes d' = upd_where (\<lambda>r. gw_id r = pw_id w) f (github_writes d)"
  proof (cases r)
    case (Inl e)
    with assms p have "d' = mark_write_failed (pw_id w) e (try_audit (failure_event w e d1) d1)" by (simp add: settle_write_def)
    then show thesis by (intro that) (auto simp: mark_write_failed_def try_audit_tables s settled_def)
  next
    case (Inr a)
    with assms p have "d' = mark_write_done (pw_id w) d1" by (simp add: settle_write_def)
    then show thesis by (intro that) (auto simp: mark_write_done_def s settled_def)
  qed
  show ?thesis unfolding f(2) upd_where_def list_all2_map2 by (rule list_all2_refl) (simp add: f(1))
qed

lemma settle_rows:
  assumes "foldl (\<lambda>s w. settle_write g c ev w s) (d, log) ws = (d', log')" and "distinct (map pw_id ws)"
  shows "list_all2 (\<lambda>r r'. if gw_id r \<in> pw_id ` set ws then settled r r' else r' = r) (github_writes d) (github_writes d')"
  using assms
proof (induction ws arbitrary: d log)
  case Nil
  then show ?case by (simp add: list_all2_refl)
next
  case (Cons w ws)
  obtain d1 log1 where s: "settle_write g c ev w (d, log) = (d1, log1)" by force
  from Cons have "list_all2 (\<lambda>r r'. if gw_id r \<in> pw_id ` set ws then settled r r' else r' = r) (github_writes d1) (github_writes d')"
    by (simp add: s)
  moreover have "if gw_id r \<in> pw_id ` set (w # ws) then settled r r'' else r'' = r"
    if "if gw_id r = pw_id w then settled r r' else r' = r" "if gw_id r' \<in> pw_id ` set ws then settled r' r'' else r'' = r'" for r r' r''
  proof -
    have i: "gw_id r' = gw_id r" using that(1) by (auto simp: settled_def split: if_splits)
    show ?thesis using that Cons.prems(2) unfolding i by (auto split: if_splits)
  qed
  ultimately show ?case using settle_row [OF s] list_all2_trans by (rule_tac list_all2_trans)
qed


section \<open>A replay adopts what is there\<close>

lemma requests_run: "requests R m \<Longrightarrow> m log = (r, log') \<Longrightarrow> \<exists>new. log' = log @ new \<and> (\<forall>rq \<in> set new. R rq)"
  unfolding requests_def by (metis snd_conv)

lemma comment_search_reads: "requests (\<lambda>rq. rq_method rq = GET) (find_marked_comment g c repo n marker)"
  unfolding find_marked_comment_def find_marked_def
  by (auto simp: request_of_def intro!: requests_rules requests_send requests_pages)

lemma comment_update_patches: "requests (\<lambda>rq. rq_method rq = PATCH) (update_comment g c repo i body)"
  unfolding update_comment_def by (auto simp: request_of_def intro!: requests_rules requests_send)

lemma callW_eq: "callW m (d, log) = (r, s) \<longleftrightarrow> (\<exists>log'. m log = (r, log') \<and> s = (d, log'))"
  by (auto simp: callW_def split: prod.splits)

text \<open>
  C18. A comment that is sent again never becomes a second comment when the first one can be found: if the
  pull request already carries this round's marked comment of ours, the write only reads and edits, and
  the comment's id is recorded for the round.
\<close>

theorem replayed_comment_is_adopted:
  assumes "jas_i64 (jget (pw_payload w) ''comment_id'') = None"
    and "find_marked_comment g c (write_repo w) (write_pr w) (round_marker (pw_session_id w)) log = (Inr (Some i), log1)"
    and "send_comment g c w (d, log) = (r, (d', log'))"
  shows "(\<exists>new. log' = log @ new \<and> (\<forall>rq \<in> set new. rq_method rq \<noteq> POST))
    \<and> (\<forall>receipt. r = Inr receipt \<longrightarrow> receipt = comment_receipt (Some i) True \<and> d' = set_round_comment_id (pw_session_id w) i d)"
proof -
  obtain u log2 where u: "update_comment g c (write_repo w) i (write_body w) log1 = (u, log2)" by force
  have e: "(r, (d', log')) = (case u of Inl err \<Rightarrow> (Inl err, (d, log2))
      | Inr _ \<Rightarrow> (Inr (comment_receipt (Some i) True), (set_round_comment_id (pw_session_id w) i d, log2)))"
    using assms(3) unfolding send_comment_def assms(1)
    by (simp add: bindW_def callW_def assms(2) u retW_def storeW_def split: sum.splits)
  then have l: "log' = log2" by (cases u) auto
  from requests_run [OF comment_search_reads assms(2)] requests_run [OF comment_update_patches u] obtain n1 n2 where
    "log1 = log @ n1" "\<forall>rq \<in> set n1. rq_method rq = GET" "log2 = log1 @ n2" "\<forall>rq \<in> set n2. rq_method rq = PATCH" by blast
  then have "log' = log @ (n1 @ n2)" "\<forall>rq \<in> set (n1 @ n2). rq_method rq \<noteq> POST" using l by auto
  then show ?thesis using e by (cases u) auto
qed

section \<open>Examples\<close>

definition sha_a :: string where "sha_a = replicate 40 (CHR ''a'')"

definition desk_write :: "string \<Rightarrow> json \<Rightarrow> pr_db" where
  "desk_write kind_of payload = (let d = snd (record_review_round ((desk_round ''s'')\<lparr>rv_verified_commit_id := Some sha_a,
      rv_integrity_disposition := ''verified''\<rparr>) empty_pr_db)
    in (case enqueue_write ''s'' kind_of payload d of Inl e \<Rightarrow> d | Inr (b, d') \<Rightarrow> d'))"

definition desk_review :: json where
  "desk_review = JObj [(''repo'', JStr ''o/r''), (''pr_number'', JNum 7), (''event'', JStr ''APPROVE''), (''commit_id'', JStr sha_a),
    (''body'', JStr (round_marker ''s''))]"



definition desk_thread :: github_world where
  "desk_thread = desk_world\<lparr>gh_parse := (\<lambda>_. Some (JArr [JObj [(''id'', JNum 9), (''body'', JStr (round_marker ''s'')),
    (''performed_via_github_app'', JObj [(''id'', JNum 1)])]]))\<rparr>"

definition desk_comment :: PendingWrite where
  "desk_comment = \<lparr>pw_id = 1, pw_session_id = ''s'', pw_kind = KIND_COMMENT,
    pw_payload = JObj [(''repo'', JStr ''o/r''), (''pr_number'', JNum 7), (''body'', JStr ''report'')], pw_attempts = 0, pw_was_reclaimed = True\<rparr>"

theorem replayed_comment_is_adopted_witness:
  "\<exists>r d' log'. send_comment desk_thread desk_client desk_comment (empty_pr_db, []) = (r, (d', log'))
    \<and> (\<forall>rq \<in> set log'. rq_method rq \<noteq> POST) \<and> (\<forall>receipt. r = Inr receipt \<longrightarrow> receipt = comment_receipt (Some 9) True)"
proof -
  have n: "jas_i64 (jget (pw_payload desk_comment) ''comment_id'') = None" by code_simp
  have "fst (find_marked_comment desk_thread desk_client (write_repo desk_comment) (write_pr desk_comment) (round_marker (pw_session_id desk_comment)) []) = Inr (Some 9)"
    by code_simp
  then obtain log1 where f: "find_marked_comment desk_thread desk_client (write_repo desk_comment) (write_pr desk_comment)
    (round_marker (pw_session_id desk_comment)) [] = (Inr (Some 9), log1)" by (metis prod.collapse)
  obtain r d' log' where s: "send_comment desk_thread desk_client desk_comment (empty_pr_db, []) = (r, (d', log'))" by (metis prod.collapse)
  from replayed_comment_is_adopted [OF n f s] s show ?thesis by auto
qed

end
