(* ===== verification/Spec2Isabelle.thy ===== *)
theory Spec2Isabelle
  imports Controller_Boundary PR_Outbox
begin

text \<open>
  Verification of the OpenAB control plane.
\<close>

end
